(* ===== verification/Sftt_Prelude.thy ===== *)
theory Sftt_Prelude
  imports Main "HOL-Library.Word"
begin

text \<open>
  Shared vocabulary of the development: the machine types of the C code, the little-endian
  memory image of its integers, and the list facts that the component theories use.

  The modelled host is an LP64 little-endian machine (x86-64 Linux, the platform the Makefile
  targets): \<^verbatim>\<open>short\<close> is 2 bytes, \<^verbatim>\<open>int\<close> is 4 bytes, a pointer is 8 bytes.
\<close>

section \<open>Machine types\<close>

type_synonym byte = "8 word"
type_synonym ptr = nat
type_synonym bytes = "8 word list"

abbreviation (input) NULL :: ptr where "NULL \<equiv> 0"

named_theorems image_simps \<open>memory images of integers and structs\<close>
named_theorems pool_simps \<open>operations of the memory pool\<close>
named_theorems heap_simps \<open>reads and writes of heap objects\<close>

unbundle bit_operations_syntax

text \<open>
  How a C function can fail to return normally: a failed \<^verbatim>\<open>assert\<close>, a null-pointer
  access, an access outside an object, an access to an object that was freed, or a loop that never
  ends. Models of functions that can do so return \<open>c_fault + 'a\<close>, and \<open>sbind\<close> runs one such
  computation after another.
\<close>

datatype c_fault = Assertion_failed | Null_dereference | Out_of_bounds | Use_after_free | No_return

definition sbind :: "c_fault + 'a \<Rightarrow> ('a \<Rightarrow> c_fault + 'b) \<Rightarrow> c_fault + 'b" where
  "sbind m f = (case m of Inl e \<Rightarrow> Inl e | Inr x \<Rightarrow> f x)"

lemma sbind_simps [simp]:
  "sbind (Inl e) f = Inl e"
  "sbind (Inr x) f = f x"
  by (simp_all add: sbind_def)

lemma sbind_eq_Inr [simp]: "sbind m f = Inr y \<longleftrightarrow> (\<exists>x. m = Inr x \<and> f x = Inr y)"
  by (auto simp: sbind_def split: sum.splits)

text \<open>A condition on the result of a computation that ends.\<close>

definition yields :: "c_fault + 'a \<Rightarrow> ('a \<Rightarrow> bool) \<Rightarrow> bool" where
  "yields m P \<longleftrightarrow> (\<forall>x. m = Inr x \<longrightarrow> P x)"

lemma yields_simps [simp]: "yields (Inl f) P" "yields (Inr x) P \<longleftrightarrow> P x"
  by (simp_all add: yields_def)

lemma yieldsD: "yields m P \<Longrightarrow> m = Inr x \<Longrightarrow> P x"
  by (simp add: yields_def)

lemma yields_sbindI: "(\<And>x. m = Inr x \<Longrightarrow> yields (f x) P) \<Longrightarrow> yields (sbind m f) P"
  by (auto simp: yields_def)

lemma sbind_split:
  "P (sbind m f) \<longleftrightarrow> (\<forall>e. m = Inl e \<longrightarrow> P (Inl e)) \<and> (\<forall>x. m = Inr x \<longrightarrow> P (f x))"
  by (auto simp: sbind_def split: sum.splits)

datatype free_mode = FREE_MODE_NOTHING | FREE_MODE_MP_FREE | FREE_MODE_FREE

section \<open>Lists\<close>

lemma take_append_exact [simp]: "length xs = n \<Longrightarrow> take n (xs @ ys) = xs"
  by auto

lemma drop_append_exact [simp]: "length xs = n \<Longrightarrow> drop n (xs @ ys) = ys"
  by auto

lemma sum_list_update_nat:
  fixes xs :: "int list"
  assumes "i < length xs"
  shows "sum_list (xs[i := y]) = sum_list xs - xs ! i + y"
  using assms
proof (induction xs arbitrary: i)
  case (Cons x xs)
  then show ?case by (cases i) auto
qed simp

section \<open>Buffers\<close>

text \<open>
  Storing a run of bytes into a buffer at an offset, as \<^verbatim>\<open>memcpy\<close> does; \<open>None\<close> when
  the run does not fit.
\<close>

definition buf_write :: "bytes \<Rightarrow> nat \<Rightarrow> bytes \<Rightarrow> bytes option" where
  "buf_write buf pos bs =
     (if pos + length bs \<le> length buf
      then Some (take pos buf @ bs @ drop (pos + length bs) buf) else None)"

lemma buf_write_append [simp]:
  "length pre = pos \<Longrightarrow> length old = length bs \<Longrightarrow>
     buf_write (pre @ old @ post) pos bs = Some (pre @ bs @ post)"
  by (auto simp: buf_write_def)

lemma buf_write_zeros:
  "length pre = pos \<Longrightarrow> length bs \<le> k \<Longrightarrow>
     buf_write (pre @ replicate k 0) pos bs = Some (pre @ bs @ replicate (k - length bs) 0)"
  by (auto simp: buf_write_def)

section \<open>Little-endian images of integers\<close>

text \<open>
  What \<^verbatim>\<open>memcpy\<close> of a \<^verbatim>\<open>short\<close> or an \<^verbatim>\<open>int\<close> reads and writes on the modelled host:
  the least significant byte comes first.
\<close>

definition le16 :: "16 word \<Rightarrow> bytes" where
  "le16 w = [ucast w, ucast (drop_bit 8 w)]"

definition le32 :: "32 word \<Rightarrow> bytes" where
  "le32 w = [ucast w, ucast (drop_bit 8 w), ucast (drop_bit 16 w), ucast (drop_bit 24 w)]"

fun of_le16 :: "bytes \<Rightarrow> 16 word" where
  "of_le16 (a # b # _) = (ucast a OR push_bit 8 (ucast b))"
| "of_le16 _ = 0"

fun of_le32 :: "bytes \<Rightarrow> 32 word" where
  "of_le32 (a # b # c # d # _) =
     (ucast a OR push_bit 8 (ucast b) OR push_bit 16 (ucast c) OR push_bit 24 (ucast d))"
| "of_le32 _ = 0"

lemma length_le16 [simp]: "length (le16 w) = 2"
  by (simp add: le16_def)

lemma length_le32 [simp]: "length (le32 w) = 4"
  by (simp add: le32_def)

lemma of_le16_le16 [simp, image_simps]: "of_le16 (le16 w @ r) = w"
  by (auto simp: le16_def bit_eq_iff bit_simps not_le not_less)

lemma of_le32_le32 [simp, image_simps]: "of_le32 (le32 w @ r) = w"
proof (rule bit_word_eqI)
  fix n
  assume "n < LENGTH(32)"
  then consider "n < 8" | "8 \<le> n \<and> n < 16" | "16 \<le> n \<and> n < 24" | "24 \<le> n \<and> n < 32"
    by fastforce
  then show "bit (of_le32 (le32 w @ r)) n = bit w n"
    by cases (auto simp: le32_def bit_simps)
qed

lemma of_le16_le16_self [simp]: "of_le16 (le16 w) = w"
  using of_le16_le16 [of w "[]"] by simp

lemma of_le32_le32_self [simp]: "of_le32 (le32 w) = w"
  using of_le32_le32 [of w "[]"] by simp

section \<open>Characters\<close>

definition char_byte :: "char \<Rightarrow> byte" where
  "char_byte c = of_nat (of_char c)"

definition byte_char :: "byte \<Rightarrow> char" where
  "byte_char b = char_of (unat b)"

lemma byte_char_byte [simp]: "byte_char (char_byte c) = c"
  by (simp add: byte_char_def char_byte_def unsigned_of_nat take_bit_nat_eq_self)

lemma char_byte_eq_0 [simp]: "char_byte c = 0 \<longleftrightarrow> c = CHR 0x00"
proof
  assume "char_byte c = 0"
  then have "byte_char (char_byte c) = byte_char 0"
    by simp
  then show "c = CHR 0x00"
    by (simp only: byte_char_byte) (simp add: byte_char_def char_of_def)
qed (simp add: char_byte_def)

lemma sint_word_of_int32: "0 \<le> x \<Longrightarrow> x < 2 ^ 31 \<Longrightarrow> sint (word_of_int x :: 32 word) = x"
  by (simp add: signed_of_int signed_take_bit_int_eq_self)

end
