(* ===== verification/Sftt_Bits.thy ===== *)
theory Sftt_Bits
  imports Sftt_Prelude
begin

text \<open>
  The bit operations of \<^verbatim>\<open>src/src/bits.c\<close> and the byte transposition of
  \<^verbatim>\<open>src/src/encrypt.c\<close>. Bit positions run from 1 (least significant) to 8, as in the code.
\<close>

section \<open>bits.c\<close>

text \<open>
  \<^verbatim>\<open>mask\<close> is an \<^verbatim>\<open>unsigned char\<close>, so the shifted value is truncated to 8 bits when it is
  stored back: the shifts of \<^typ>\<open>8 word\<close> do the same.
\<close>

definition set_bit :: "byte \<Rightarrow> nat \<Rightarrow> byte \<Rightarrow> byte" where
  "set_bit c pos b =
     (if b = 0
      then c AND (push_bit pos 255 OR drop_bit (8 - pos + 1) 255)
      else c OR push_bit (pos - 1) 1)"

definition get_bit :: "byte \<Rightarrow> nat \<Rightarrow> byte" where
  "get_bit c pos = (if c AND push_bit (pos - 1) 1 \<noteq> 0 then 1 else 0)"

definition set_bits :: "bytes \<Rightarrow> nat \<Rightarrow> 32 word \<Rightarrow> nat \<Rightarrow> bytes option" where
  "set_bits dst pos src len = None"

section \<open>encrypt.c\<close>

fun sftt_encrypt_from :: "nat \<Rightarrow> bytes \<Rightarrow> bytes" where
  "sftt_encrypt_from i [] = []"
| "sftt_encrypt_from i (b # bs) = (b + of_nat i + 5) # sftt_encrypt_from (Suc i) bs"

fun sftt_decrypt_from :: "nat \<Rightarrow> bytes \<Rightarrow> bytes" where
  "sftt_decrypt_from i [] = []"
| "sftt_decrypt_from i (b # bs) = (b - of_nat i - 5) # sftt_decrypt_from (Suc i) bs"

definition sftt_encrypt_func :: "bytes \<Rightarrow> bytes" where
  "sftt_encrypt_func source = sftt_encrypt_from 0 source"

definition sftt_decrypt_func :: "bytes \<Rightarrow> bytes" where
  "sftt_decrypt_func aim = sftt_decrypt_from 0 aim"

section \<open>Facts\<close>

lemma byte_255: "(255 :: byte) = - 1"
  by simp

lemma bit_set_bit:
  assumes "1 \<le> pos" "pos \<le> 8" "n < 8"
  shows "bit (set_bit c pos b) n = (if n = pos - 1 then b \<noteq> 0 else bit c n)"
  using assms unfolding set_bit_def byte_255 by (auto simp: bit_simps)

lemma bit_single: "bit (push_bit k 1 :: byte) n \<longleftrightarrow> n = k \<and> n < 8"
  by (auto simp: bit_simps)

lemma get_bit_bit:
  assumes "1 \<le> pos" "pos \<le> 8"
  shows "get_bit c pos = (if bit c (pos - 1) then 1 else 0)"
proof -
  have "c AND push_bit (pos - 1) 1 = 0 \<longleftrightarrow> \<not> bit c (pos - 1)"
  proof
    assume "c AND push_bit (pos - 1) 1 = 0"
    then have "\<not> bit (c AND push_bit (pos - 1) 1) (pos - 1)" by simp
    then show "\<not> bit c (pos - 1)" using assms by (simp only: bit_and_iff bit_single) auto
  next
    assume "\<not> bit c (pos - 1)"
    then have "\<not> bit (c AND push_bit (pos - 1) 1) n" for n
      by (simp only: bit_and_iff bit_single) auto
    then show "c AND push_bit (pos - 1) 1 = 0"
      by (intro bit_word_eqI) (simp only: bit_0_eq bot_apply bot_bool_def simp_thms)
  qed
  then show ?thesis by (simp add: get_bit_def)
qed

lemma length_encrypt_from [simp]: "length (sftt_encrypt_from i bs) = length bs"
  by (induction bs arbitrary: i) auto

lemma length_decrypt_from [simp]: "length (sftt_decrypt_from i bs) = length bs"
  by (induction bs arbitrary: i) auto

lemma decrypt_encrypt_from: "sftt_decrypt_from i (sftt_encrypt_from i bs) = bs"
  by (induction bs arbitrary: i) auto

lemma encrypt_decrypt_from: "sftt_encrypt_from i (sftt_decrypt_from i bs) = bs"
  by (induction bs arbitrary: i) auto

lemma length_encrypt [simp]: "length (sftt_encrypt_func bs) = length bs"
  by (simp add: sftt_encrypt_func_def)

lemma length_decrypt [simp]: "length (sftt_decrypt_func bs) = length bs"
  by (simp add: sftt_decrypt_func_def)

lemma encrypt_Nil [simp]: "sftt_encrypt_func bs = [] \<longleftrightarrow> bs = []"
  by (metis length_0_conv length_encrypt)

lemma decrypt_encrypt [simp]: "sftt_decrypt_func (sftt_encrypt_func bs) = bs"
  by (simp add: sftt_decrypt_func_def sftt_encrypt_func_def decrypt_encrypt_from)

lemma encrypt_decrypt [simp]: "sftt_encrypt_func (sftt_decrypt_func bs) = bs"
  by (simp add: sftt_decrypt_func_def sftt_encrypt_func_def encrypt_decrypt_from)

section \<open>Properties\<close>

text \<open>
  Writing a bit with \<^const>\<open>set_bit\<close> and reading any position back with
  \<^const>\<open>get_bit\<close> gives the written bit at that position and the old bit elsewhere.
\<close>

theorem get_set_bit:
  assumes "1 \<le> pos" "pos \<le> 8" "1 \<le> q" "q \<le> 8"
  shows "get_bit (set_bit c pos b) q = (if q = pos then (if b = 0 then 0 else 1) else get_bit c q)"
proof -
  have "bit (set_bit c pos b) (q - 1) = (if q - 1 = pos - 1 then b \<noteq> 0 else bit c (q - 1))"
    using assms by (intro bit_set_bit) auto
  moreover have "q - 1 = pos - 1 \<longleftrightarrow> q = pos" using assms by auto
  ultimately show ?thesis using assms by (simp add: get_bit_bit)
qed

theorem get_set_bit_witness:
  "get_bit (set_bit 0 3 1) 3 = 1 \<and> get_bit (set_bit 255 3 0) 5 = 1"
  using get_set_bit [of 3 3 0 1] get_set_bit [of 3 5 255 0] by (simp add: get_bit_def)

text \<open>
  Decryption inverts encryption byte by byte (with the wrap-around of
  \<^verbatim>\<open>unsigned char\<close>), for a buffer of any length, and encryption inverts decryption.
\<close>

theorem encrypt_inverse:
  "sftt_decrypt_func (sftt_encrypt_func bs) = bs \<and> sftt_encrypt_func (sftt_decrypt_func bs) = bs
   \<and> length (sftt_encrypt_func bs) = length bs"
  by simp

end
