(* ===== verification/Sftt_Huffman.thy ===== *)
theory Sftt_Huffman
  imports Sftt_Bits "HOL-Library.Multiset"
begin

text \<open>
  The Huffman tree of \<^verbatim>\<open>src/src/compress.c\<close> and the tree operations of
  \<^verbatim>\<open>src/src/btree.c\<close> it uses.

  A tree node is a value that carries its own address (\<^verbatim>\<open>struct btree_node *\<close>), so that the
  pointer comparisons of the traversal are comparisons of addresses; \<^verbatim>\<open>NULL\<close> is \<open>BNull\<close>. The
  compressor never changes a node after it has linked it, so passing nodes by value is exact.
  Addresses come from a supply \<open>n\<close>: each allocation of a node takes the next one. The
  \<^verbatim>\<open>dlist\<close>, \<^verbatim>\<open>stack\<close> and \<^verbatim>\<open>map\<close> objects of these functions are represented by the lists
  that the theories \<open>Sftt_Dlist\<close> and \<open>Sftt_Containers\<close> prove them to implement. Allocation is
  taken to succeed, as the functions assert.
\<close>

section \<open>Nodes and trees\<close>

record char_stat_node =
  ch :: int
  freq :: int

definition create_char_stat_node :: "int \<Rightarrow> int \<Rightarrow> char_stat_node" where
  "create_char_stat_node c f = \<lparr>ch = c, freq = f\<rparr>"

datatype btree_node =
    BNull
  | BNode (bn_addr: ptr) (bn_data: char_stat_node) (bn_left: btree_node) (bn_right: btree_node)

record btree =
  bt_size :: int
  bt_free_mode :: free_mode
  bt_root :: btree_node

definition btree_node_create :: "ptr \<Rightarrow> char_stat_node \<Rightarrow> btree_node" where
  "btree_node_create a d = BNode a d BNull BNull"

definition btree_node_gen_parent ::
    "ptr \<Rightarrow> char_stat_node \<Rightarrow> btree_node \<Rightarrow> btree_node \<Rightarrow> btree_node" where
  "btree_node_gen_parent a d l r = BNode a d l r"

fun btree_is_leaf :: "btree_node \<Rightarrow> bool" where
  "btree_is_leaf BNull = False"
| "btree_is_leaf (BNode a d l r) = (l = BNull \<and> r = BNull)"

fun btree_node_count :: "btree_node \<Rightarrow> int" where
  "btree_node_count BNull = 0"
| "btree_node_count (BNode a d l r) = btree_node_count l + btree_node_count r + 1"

definition btree_init :: "free_mode \<Rightarrow> btree" where
  "btree_init mode = \<lparr>bt_size = 0, bt_free_mode = mode, bt_root = BNull\<rparr>"

definition btree_create :: "free_mode \<Rightarrow> btree" where
  "btree_create mode = btree_init mode"

definition btree_set_root :: "btree \<Rightarrow> btree_node \<Rightarrow> btree" where
  "btree_set_root t r = t\<lparr>bt_root := r, bt_size := btree_node_count r\<rparr>"

section \<open>Character frequencies\<close>

abbreviation (input) CHARSET_SIZE :: nat where "CHARSET_SIZE \<equiv> 256"

fun count_chars :: "bytes \<Rightarrow> int list \<Rightarrow> int list" where
  "count_chars [] cf = cf"
| "count_chars (b # bs) cf = count_chars bs (cf[unat b := cf ! unat b + 1])"

text \<open>
  The result is the return value and the array \<^verbatim>\<open>char_freq\<close>; on a parameter error the array is
  left as it was.
\<close>

definition calc_char_freq :: "bytes option \<Rightarrow> int list \<Rightarrow> int \<times> int list" where
  "calc_char_freq input cf =
     (case input of
        None \<Rightarrow> (-1, cf)
      | Some bs \<Rightarrow>
          if length bs < 1 then (-1, cf)
          else let cf' = count_chars bs (replicate CHARSET_SIZE 0)
               in (int (length (filter (\<lambda>f. f \<noteq> 0) cf')), cf'))"

section \<open>Building the tree\<close>

text \<open>
  The scan of \<^verbatim>\<open>fetch_min_btree_node\<close>: the first node of least frequency and its position;
  the node is then unlinked from the list.
\<close>

fun fetch_min_scan :: "btree_node \<Rightarrow> nat \<Rightarrow> nat \<Rightarrow> btree_node list \<Rightarrow> btree_node \<times> nat" where
  "fetch_min_scan m i k [] = (m, i)"
| "fetch_min_scan m i k (t # ts) =
     (if freq (bn_data t) < freq (bn_data m) then fetch_min_scan t k (Suc k) ts
      else fetch_min_scan m i (Suc k) ts)"

definition fetch_min_btree_node ::
    "btree_node list \<Rightarrow> (btree_node \<times> btree_node list) option" where
  "fetch_min_btree_node xs =
     (case xs of
        [] \<Rightarrow> None
      | t # ts \<Rightarrow>
          (case fetch_min_scan t 0 1 ts of
             (m, i) \<Rightarrow> Some (m, take i xs @ drop (Suc i) xs)))"

fun char_leaves :: "nat \<Rightarrow> ptr \<Rightarrow> int list \<Rightarrow> btree_node list" where
  "char_leaves i n [] = []"
| "char_leaves i n (f # fs) =
     (if f = 0 then char_leaves (Suc i) n fs
      else btree_node_create n (create_char_stat_node (int i) f) # char_leaves (Suc i) (Suc n) fs)"

lemma fetch_min_scan_index:
  "fetch_min_scan m i k ts = (m', i') \<Longrightarrow> i < k \<Longrightarrow> i' < k + length ts"
proof (induction m i k ts rule: fetch_min_scan.induct)
  case (2 m i k t ts)
  then show ?case by (auto split: if_splits)
qed auto

lemma fetch_min_length:
  "fetch_min_btree_node xs = Some (t, ys) \<Longrightarrow> length xs = Suc (length ys)"
proof -
  assume a: "fetch_min_btree_node xs = Some (t, ys)"
  then obtain u us where xs: "xs = u # us"
    by (cases xs) (auto simp: fetch_min_btree_node_def)
  with a obtain i where "fetch_min_scan u 0 1 us = (t, i)" "ys = take i xs @ drop (Suc i) xs"
    by (auto simp: fetch_min_btree_node_def split: prod.splits)
  with fetch_min_scan_index [of u 0 1 us t i] xs show ?thesis by auto
qed

text \<open>Addition of values of type \<^verbatim>\<open>int\<close>, which wraps around.\<close>

definition int_add :: "int \<Rightarrow> int \<Rightarrow> int" where
  "int_add a b = sint (word_of_int (a + b) :: 32 word)"

function huffman_loop :: "ptr \<Rightarrow> btree_node list \<Rightarrow> btree_node option" where
  "huffman_loop n xs =
     (case fetch_min_btree_node xs of
        None \<Rightarrow> None
      | Some (t1, xs1) \<Rightarrow>
          (case fetch_min_btree_node xs1 of
             None \<Rightarrow>
               Some (if btree_is_leaf t1
                     then btree_node_gen_parent n
                            (create_char_stat_node (-1) (freq (bn_data t1))) t1 BNull
                     else t1)
           | Some (t2, xs2) \<Rightarrow>
               huffman_loop (Suc n)
                 (xs2 @ [btree_node_gen_parent n
                    (create_char_stat_node (-1) (int_add (freq (bn_data t1)) (freq (bn_data t2)))) t1 t2])))"
  by pat_completeness auto
termination
  by (relation "measure (\<lambda>(n, xs). length xs)") (auto dest!: fetch_min_length)

declare huffman_loop.simps [simp del]

text \<open>
  \<^verbatim>\<open>generate_huffman_tree\<close>: \<open>Inr None\<close> is the \<^verbatim>\<open>NULL\<close> it returns for a null or empty
  frequency table; a null \<^verbatim>\<open>t_node1\<close> fails the assertion.
\<close>

definition generate_huffman_tree :: "ptr \<Rightarrow> int list option \<Rightarrow> c_fault + btree option" where
  "generate_huffman_tree n char_freq =
     (case char_freq of
        None \<Rightarrow> Inr None
      | Some cf \<Rightarrow>
          let xs = char_leaves 0 n cf in
          if xs = [] then Inr None
          else (case huffman_loop (n + length xs) xs of
                  None \<Rightarrow> Inl Assertion_failed
                | Some r \<Rightarrow> Inr (Some (btree_set_root (btree_create FREE_MODE_MP_FREE) r))))"

section \<open>Codes\<close>

definition get_char_code :: "char list \<Rightarrow> char list" where
  "get_char_code sc = rev sc"

text \<open>
  The traversal of \<^verbatim>\<open>get_char_codes\<close>. The state is the stack of nodes, the stack of code
  characters, the visited addresses and the code table; the loop need not end on an arbitrary
  tree, so it is a partial function, and \<open>None\<close> is divergence. A leaf whose character is not an
  index of the table writes outside it.
\<close>

partial_function (option) char_codes_loop ::
    "btree_node list \<Rightarrow> char list \<Rightarrow> ptr list \<Rightarrow> char list option list \<Rightarrow>
       (c_fault + char list option list) option" where
  "char_codes_loop stn sc m codes =
     (case stn of
        [] \<Rightarrow> Some (Inr codes)
      | tn # stn' \<Rightarrow>
          if tn = BNull then char_codes_loop stn sc m codes
          else if btree_is_leaf tn then
            (if 0 \<le> ch (bn_data tn) \<and> ch (bn_data tn) < 256
             then char_codes_loop stn' (tl sc) m (codes[nat (ch (bn_data tn)) := Some (get_char_code sc)])
             else Some (Inl Out_of_bounds))
          else if bn_left tn \<noteq> BNull \<and> bn_addr (bn_left tn) \<notin> set m then
            char_codes_loop (bn_left tn # stn) (CHR ''1'' # sc) (m @ [bn_addr (bn_left tn)]) codes
          else if bn_right tn \<noteq> BNull \<and> bn_addr (bn_right tn) \<notin> set m then
            char_codes_loop (bn_right tn # stn) (CHR ''0'' # sc) (m @ [bn_addr (bn_right tn)]) codes
          else char_codes_loop stn' (tl sc) m codes)"

text \<open>The result is the return value and the code table.\<close>

definition get_char_codes ::
    "btree option \<Rightarrow> char list option list \<Rightarrow> (c_fault + int \<times> char list option list) option" where
  "get_char_codes tree codes =
     (case tree of
        None \<Rightarrow> Some (Inr (-1, codes))
      | Some t \<Rightarrow>
          if bt_root t = BNull then Some (Inr (-1, codes))
          else (case char_codes_loop [bt_root t] [] [] codes of
                  None \<Rightarrow> None
                | Some (Inl e) \<Rightarrow> Some (Inl e)
                | Some (Inr codes') \<Rightarrow> Some (Inr (0, codes'))))"

section \<open>Well-formed trees and forests\<close>

fun tree_addrs :: "btree_node \<Rightarrow> ptr list" where
  "tree_addrs BNull = []"
| "tree_addrs (BNode a d l r) = a # tree_addrs l @ tree_addrs r"

fun leaf_chars :: "btree_node \<Rightarrow> int list" where
  "leaf_chars BNull = []"
| "leaf_chars (BNode a d l r) =
     (if l = BNull \<and> r = BNull then [ch d] else leaf_chars l @ leaf_chars r)"

text \<open>Every inner node of a forest's tree has two children; every leaf holds a byte.\<close>

fun full_tree :: "btree_node \<Rightarrow> bool" where
  "full_tree BNull = False"
| "full_tree (BNode a d l r) =
     (if l = BNull \<and> r = BNull then 0 \<le> ch d \<and> ch d < 256 else full_tree l \<and> full_tree r)"

text \<open>The tree the code returns: a full inner node, or a single leaf hung below the root.\<close>

definition code_tree :: "btree_node \<Rightarrow> bool" where
  "code_tree t \<longleftrightarrow>
     (\<exists>a d l r. t = BNode a d l r \<and> full_tree l \<and> (full_tree r \<or> (r = BNull \<and> btree_is_leaf l)))"

definition forest_addrs :: "btree_node list \<Rightarrow> ptr list" where
  "forest_addrs xs = concat (map tree_addrs xs)"

definition forest_chars :: "btree_node list \<Rightarrow> int list" where
  "forest_chars xs = concat (map leaf_chars xs)"

definition forest_ok :: "ptr \<Rightarrow> btree_node list \<Rightarrow> bool" where
  "forest_ok n xs \<longleftrightarrow>
     (\<forall>t \<in> set xs. full_tree t) \<and> distinct (forest_addrs xs) \<and> (\<forall>a \<in> set (forest_addrs xs). a < n)"

lemma full_tree_not_null: "full_tree t \<Longrightarrow> t \<noteq> BNull"
  by auto

lemma tree_addrs_Nil [simp]: "tree_addrs t = [] \<longleftrightarrow> t = BNull"
  by (cases t) auto

section \<open>Taking the minimum\<close>

lemma fetch_min_scan_nth:
  assumes "fetch_min_scan m i k ts = (m', i')" "i < k" "k + length ts = length xs"
    "m = xs ! i" "drop k xs = ts"
  shows "m' = xs ! i' \<and> i' < length xs"
  using assms
proof (induction m i k ts rule: fetch_min_scan.induct)
  case (2 m i k t ts)
  have d: "drop (Suc k) xs = ts" and t: "t = xs ! k"
    using "2.prems"(5) "2.prems"(3) by (metis drop_Suc list.sel(3) tl_drop)
      (metis "2.prems"(3) "2.prems"(5) Cons_nth_drop_Suc add_diff_cancel_left' drop_eq_Nil
        le_add1 length_drop linorder_not_le list.discI list.inject)
  with 2 show ?case by (auto split: if_splits)
qed auto

lemma fetch_min_split:
  assumes "fetch_min_btree_node xs = Some (t, ys)"
  obtains pre post where "xs = pre @ t # post" "ys = pre @ post"
proof -
  from assms obtain u us where xs: "xs = u # us"
    by (cases xs) (auto simp: fetch_min_btree_node_def)
  with assms obtain i where s: "fetch_min_scan u 0 1 us = (t, i)"
    and ys: "ys = take i xs @ drop (Suc i) xs"
    by (auto simp: fetch_min_btree_node_def split: prod.splits)
  from s have "t = xs ! i \<and> i < length xs"
    by (rule fetch_min_scan_nth) (auto simp: xs)
  then have "xs = take i xs @ t # drop (Suc i) xs" by (simp add: id_take_nth_drop)
  with ys that show ?thesis by blast
qed

lemma fetch_min_None [simp]: "fetch_min_btree_node xs = None \<longleftrightarrow> xs = []"
  by (auto simp: fetch_min_btree_node_def split: list.splits prod.splits)

lemma fetch_min_mset:
  assumes "fetch_min_btree_node xs = Some (t, ys)"
  shows "mset xs = add_mset t (mset ys)"
proof -
  from assms obtain p q where "xs = p @ t # q" "ys = p @ q" by (rule fetch_min_split)
  then show ?thesis by simp
qed

lemma mset_concat_map:
  "mset (concat (map f xs)) = (\<Sum>t\<in>#mset xs. mset (f t))"
  by (induction xs) auto

lemma mset_forest_chars: "mset (forest_chars xs) = (\<Sum>t\<in>#mset xs. mset (leaf_chars t))"
  by (simp add: forest_chars_def mset_concat_map)

lemma mset_forest_addrs: "mset (forest_addrs xs) = (\<Sum>t\<in>#mset xs. mset (tree_addrs t))"
  by (simp add: forest_addrs_def mset_concat_map)

lemma forest_ok_alt:
  "forest_ok n xs \<longleftrightarrow> (\<forall>t \<in># mset xs. full_tree t) \<and>
     (\<forall>a. count (mset (forest_addrs xs)) a \<le> 1) \<and> (\<forall>a \<in># mset (forest_addrs xs). a < n)"
  unfolding forest_ok_def distinct_count_atmost_1
  by (auto simp: count_eq_zero_iff le_Suc_eq)

lemma forest_ok_fetch:
  assumes "forest_ok n xs" "fetch_min_btree_node xs = Some (t1, xs1)"
    "fetch_min_btree_node xs1 = Some (t2, xs2)"
  shows "forest_ok (Suc n) (xs2 @ [BNode n d t1 t2])"
    and "mset (forest_chars (xs2 @ [BNode n d t1 t2])) = mset (forest_chars xs)"
proof -
  have m: "mset xs = add_mset t1 (add_mset t2 (mset xs2))"
    using assms(2,3) by (simp add: fetch_min_mset)
  have full: "full_tree t1" "full_tree t2"
    using assms(1) unfolding forest_ok_alt m by auto
  have new: "mset (forest_addrs (xs2 @ [BNode n d t1 t2])) = add_mset n (mset (forest_addrs xs))"
    by (simp add: mset_forest_addrs m)
  have "n \<notin># mset (forest_addrs xs)" using assms(1) by (auto simp: forest_ok_def)
  then show "forest_ok (Suc n) (xs2 @ [BNode n d t1 t2])"
    using assms(1) full unfolding forest_ok_alt new
    by (auto simp: m less_Suc_eq count_eq_zero_iff)
  show "mset (forest_chars (xs2 @ [BNode n d t1 t2])) = mset (forest_chars xs)"
    using full by (auto simp: mset_forest_chars m)
qed

section \<open>The tree of a forest\<close>

definition tree_of_forest :: "ptr \<Rightarrow> btree_node list \<Rightarrow> btree_node \<Rightarrow> bool" where
  "tree_of_forest n xs t \<longleftrightarrow> code_tree t \<and> distinct (tree_addrs t) \<and>
     mset (leaf_chars t) = mset (forest_chars xs)"

lemma huffman_loop_single:
  assumes "forest_ok n [t]"
  shows "\<exists>r. huffman_loop n [t] = Some r \<and> tree_of_forest n [t] r"
proof -
  have f: "fetch_min_btree_node [t] = Some (t, [])"
    by (simp add: fetch_min_btree_node_def)
  have t: "full_tree t" "distinct (tree_addrs t)" "\<forall>a\<in>set (tree_addrs t). a < n"
    using assms by (auto simp: forest_ok_def forest_addrs_def)
  then obtain a d l r where T: "t = BNode a d l r" by (cases t) auto
  have loop: "huffman_loop n [t] = Some (if btree_is_leaf t
      then BNode n (create_char_stat_node (-1) (freq (bn_data t))) t BNull else t)"
    by (subst huffman_loop.simps) (simp add: f fetch_min_btree_node_def btree_node_gen_parent_def)
  show ?thesis
    unfolding loop using t T
    by (auto simp: tree_of_forest_def code_tree_def create_char_stat_node_def forest_chars_def)
qed

lemma huffman_loop_tree:
  assumes "forest_ok n xs" "xs \<noteq> []"
  shows "\<exists>r. huffman_loop n xs = Some r \<and> tree_of_forest n xs r"
  using assms
proof (induction n xs rule: huffman_loop.induct)
  case (1 n xs)
  show ?case
  proof (cases "\<exists>t. xs = [t]")
    case True
    with 1(2) show ?thesis using huffman_loop_single by blast
  next
    case False
    obtain t1 xs1 where f1: "fetch_min_btree_node xs = Some (t1, xs1)"
      using "1.prems"(2) fetch_min_None [of xs] by (cases "fetch_min_btree_node xs") auto
    have "xs1 \<noteq> []" using fetch_min_length [OF f1] False "1.prems"(2)
      by (cases xs rule: list.exhaust) auto
    then obtain t2 xs2 where f2: "fetch_min_btree_node xs1 = Some (t2, xs2)"
      using fetch_min_None [of xs1] by (cases "fetch_min_btree_node xs1") auto
    define d where "d = create_char_stat_node (-1) (int_add (freq (bn_data t1)) (freq (bn_data t2)))"
    note k = forest_ok_fetch [OF "1.prems"(1) f1 f2, of d]
    have "\<exists>r. huffman_loop (Suc n) (xs2 @ [BNode n d t1 t2]) = Some r \<and>
        tree_of_forest (Suc n) (xs2 @ [BNode n d t1 t2]) r"
      using "1.IH" [OF f1 refl f2 refl] k(1)
      by (simp add: btree_node_gen_parent_def d_def [symmetric])
    moreover have "huffman_loop n xs = huffman_loop (Suc n) (xs2 @ [BNode n d t1 t2])"
      by (subst huffman_loop.simps) (simp add: f1 f2 d_def btree_node_gen_parent_def)
    ultimately show ?thesis using k(2) by (simp add: tree_of_forest_def)
  qed
qed

section \<open>The leaves of a frequency table\<close>

lemma char_leaves_chars:
  "forest_chars (char_leaves i n fs) = map (\<lambda>k. int (i + k)) (filter (\<lambda>k. fs ! k \<noteq> 0) [0..<length fs])"
proof (induction i n fs rule: char_leaves.induct)
  case (2 i n f fs)
  have "filter (\<lambda>k. (f # fs) ! k \<noteq> 0) [0..<length (f # fs)] =
    (if f = 0 then [] else [0]) @ map Suc (filter (\<lambda>k. fs ! k \<noteq> 0) [0..<length fs])"
    by (simp add: upt_conv_Cons filter_map comp_def flip: map_Suc_upt del: upt_Suc)
  with 2 show ?case
    by (auto simp: forest_chars_def btree_node_create_def create_char_stat_node_def comp_def)
qed (auto simp: forest_chars_def)

lemma char_leaves_addrs:
  "forest_addrs (char_leaves i n fs) = [n..<n + length (char_leaves i n fs)]"
  by (induction i n fs rule: char_leaves.induct)
    (auto simp: forest_addrs_def btree_node_create_def upt_conv_Cons simp del: upt_Suc)

lemma char_leaves_full:
  "i + length fs \<le> 256 \<Longrightarrow> t \<in> set (char_leaves i n fs) \<Longrightarrow> full_tree t"
  by (induction i n fs rule: char_leaves.induct)
    (auto simp: btree_node_create_def create_char_stat_node_def split: if_splits)

lemma char_leaves_forest_ok:
  "length fs = 256 \<Longrightarrow> forest_ok (n + length (char_leaves 0 n fs)) (char_leaves 0 n fs)"
  using char_leaves_full [of 0 fs] by (auto simp: forest_ok_def char_leaves_addrs)

lemma char_leaves_empty: "char_leaves i n fs = [] \<longleftrightarrow> (\<forall>f \<in> set fs. f = 0)"
  by (induction i n fs rule: char_leaves.induct) auto

lemma count_chars_length [simp]: "length (count_chars bs cf) = length cf"
  by (induction bs cf rule: count_chars.induct) auto

lemma unat_byte_less [simp]: "unat (b :: byte) < 256"
proof -
  have "unat b < 2 ^ LENGTH(8)" by (rule unsigned_less)
  then show ?thesis by simp
qed

lemma count_chars_nth:
  assumes "length cf = 256" "i < 256"
  shows "count_chars bs cf ! i = cf ! i + int (count_list (map unat bs) i)"
  using assms by (induction bs cf rule: count_chars.induct) (auto simp: nth_list_update)

lemma count_chars_sum: "length cf = 256 \<Longrightarrow> sum_list (count_chars bs cf) = sum_list cf + int (length bs)"
  by (induction bs cf rule: count_chars.induct) (auto simp: sum_list_update_nat)

section \<open>The traversal assigns each leaf its path\<close>

fun code_paths :: "btree_node \<Rightarrow> char list \<Rightarrow> (int \<times> char list) list" where
  "code_paths BNull p = []"
| "code_paths (BNode a d l r) p =
     (if l = BNull \<and> r = BNull then [(ch d, p)]
      else code_paths l (p @ [CHR ''1'']) @ code_paths r (p @ [CHR ''0'']))"

definition set_codes :: "(int \<times> char list) list \<Rightarrow> char list option list \<Rightarrow> char list option list" where
  "set_codes ps codes = fold (\<lambda>(c, p) cs. cs[nat c := Some p]) ps codes"

lemma set_codes_simps [simp]:
  "set_codes [] codes = codes"
  "set_codes ((c, p) # ps) codes = set_codes ps (codes[nat c := Some p])"
  "set_codes (ps @ qs) codes = set_codes qs (set_codes ps codes)"
  by (simp_all add: set_codes_def)

definition byte_leaves :: "btree_node \<Rightarrow> bool" where
  "byte_leaves t \<longleftrightarrow> (\<forall>c \<in> set (leaf_chars t). 0 \<le> c \<and> c < 256)"

lemma snoc_root: "t \<noteq> BNull \<Longrightarrow> (m @ [bn_addr t]) @ tl (tree_addrs t) = m @ tree_addrs t"
  by (cases t) auto

lemma char_codes_loop_Nil [simp]: "char_codes_loop [] sc m codes = Some (Inr codes)"
  by (simp add: char_codes_loop.simps)

lemma char_codes_loop_subtree:
  assumes "t \<noteq> BNull" "byte_leaves t" "distinct (tree_addrs t)"
    "set (tl (tree_addrs t)) \<inter> set m = {}"
  shows "char_codes_loop (t # stn) sc m codes =
    char_codes_loop stn (tl sc) (m @ tl (tree_addrs t)) (set_codes (code_paths t (rev sc)) codes)"
  using assms
proof (induction t arbitrary: stn sc m codes)
  case (BNode a d l r)
  let ?t = "BNode a d l r"
  show ?case
  proof (cases "l = BNull \<and> r = BNull")
    case True
    then show ?thesis
      using BNode.prems by (subst char_codes_loop.simps) (simp add: byte_leaves_def get_char_code_def)
  next
    case False
    have bl: "byte_leaves l" "byte_leaves r"
      using BNode.prems(2) False by (auto simp: byte_leaves_def split: if_splits)
    have left: "char_codes_loop (?t # stn) sc m codes = char_codes_loop (?t # stn) sc
        (m @ tree_addrs l) (set_codes (code_paths l (rev sc @ [CHR ''1''])) codes)"
    proof (cases "l = BNull")
      case l: False
      have dl: "distinct (tree_addrs l)" using BNode.prems(3) by simp
      have sl: "set (tl (tree_addrs l)) \<inter> set (m @ [bn_addr l]) = {}"
        using BNode.prems(3,4) by (cases l) auto
      have "bn_addr l \<notin> set m" using BNode.prems(4) l by (cases l) auto
      then have "char_codes_loop (?t # stn) sc m codes =
          char_codes_loop (l # ?t # stn) (CHR ''1'' # sc) (m @ [bn_addr l]) codes"
        using l by (subst char_codes_loop.simps) simp
      also have "\<dots> = char_codes_loop (?t # stn) sc ((m @ [bn_addr l]) @ tl (tree_addrs l))
          (set_codes (code_paths l (rev sc @ [CHR ''1''])) codes)"
        using BNode.IH(1) [OF l bl(1) dl sl, of "?t # stn" "CHR ''1'' # sc" codes] by simp
      finally show ?thesis unfolding snoc_root [OF l] .
    qed simp
    have vis_l: "l = BNull \<or> bn_addr l \<in> set (m @ tree_addrs l)" for m
      by (cases l) auto
    have right: "char_codes_loop (?t # stn) sc (m @ tree_addrs l) codes' = char_codes_loop (?t # stn) sc
        (m @ tree_addrs l @ tree_addrs r) (set_codes (code_paths r (rev sc @ [CHR ''0''])) codes')"
      for codes'
    proof (cases "r = BNull")
      case r: False
      have dr: "distinct (tree_addrs r)" using BNode.prems(3) by simp
      have sr: "set (tl (tree_addrs r)) \<inter> set ((m @ tree_addrs l) @ [bn_addr r]) = {}"
        using BNode.prems(3,4) by (cases r) auto
      have nr: "bn_addr r \<notin> set (m @ tree_addrs l)" using BNode.prems(3,4) r by (cases r) auto
      then have "char_codes_loop (?t # stn) sc (m @ tree_addrs l) codes' =
          char_codes_loop (r # ?t # stn) (CHR ''0'' # sc) ((m @ tree_addrs l) @ [bn_addr r]) codes'"
        using r vis_l [of m] by (subst char_codes_loop.simps) auto
      also have "\<dots> = char_codes_loop (?t # stn) sc (((m @ tree_addrs l) @ [bn_addr r]) @ tl (tree_addrs r))
          (set_codes (code_paths r (rev sc @ [CHR ''0''])) codes')"
        using BNode.IH(2) [OF r bl(2) dr sr, of "?t # stn" "CHR ''0'' # sc" codes'] by simp
      finally show ?thesis unfolding snoc_root [OF r] by simp
    qed simp
    have vis_r: "r = BNull \<or> bn_addr r \<in> set (m @ tree_addrs l @ tree_addrs r)"
      by (cases r) auto
    have pop: "char_codes_loop (?t # stn) sc (m @ tree_addrs l @ tree_addrs r) codes' =
        char_codes_loop stn (tl sc) (m @ tree_addrs l @ tree_addrs r) codes'" for codes'
      using False vis_r vis_l [of m] by (subst char_codes_loop.simps) auto
    show ?thesis unfolding left right pop using False by auto
  qed
qed simp

lemma code_paths_fst [simp]: "map fst (code_paths t p) = leaf_chars t"
  by (induction t p rule: code_paths.induct) auto

lemma length_set_codes [simp]: "length (set_codes ps codes) = length codes"
  by (induction ps arbitrary: codes) (auto simp: set_codes_def split: prod.splits)

lemma code_tree_root: "code_tree t \<Longrightarrow> t \<noteq> BNull"
  by (auto simp: code_tree_def)

lemma full_tree_byte_leaves: "full_tree t \<Longrightarrow> byte_leaves t"
  by (induction t) (auto simp: byte_leaves_def split: if_splits)

lemma code_tree_byte_leaves: "code_tree t \<Longrightarrow> byte_leaves t"
proof -
  assume "code_tree t"
  then obtain a d l r where t: "t = BNode a d l r" "full_tree l"
    "full_tree r \<or> (r = BNull \<and> btree_is_leaf l)" by (auto simp: code_tree_def)
  then have "byte_leaves l" "byte_leaves r"
    by (auto dest: full_tree_byte_leaves simp: byte_leaves_def)
  with t show ?thesis by (auto simp: byte_leaves_def)
qed

lemma set_codes_other:
  "nat c \<notin> nat ` fst ` set ps \<Longrightarrow> set_codes ps codes ! nat c = codes ! nat c"
proof (induction ps arbitrary: codes)
  case (Cons x ps)
  then show ?case by (cases x) (auto simp: nth_list_update)
qed simp

lemma set_codes_lookup:
  assumes "(c, p) \<in> set ps" "distinct (map fst ps)" "\<forall>x \<in> set ps. 0 \<le> fst x \<and> fst x < 256"
    "length codes = 256"
  shows "set_codes ps codes ! nat c = Some p"
  using assms
proof (induction ps arbitrary: codes)
  case (Cons x ps)
  obtain c' p' where x: "x = (c', p')" by (cases x)
  show ?case
  proof (cases "(c, p) \<in> set ps")
    case True
    with Cons x show ?thesis by simp
  next
    case False
    then have eq: "c' = c" "p' = p" using Cons.prems x by auto
    have "nat c \<notin> nat ` fst ` set ps"
    proof
      assume "nat c \<in> nat ` fst ` set ps"
      then obtain y where y: "y \<in> set ps" "nat c = nat (fst y)" by auto
      with Cons.prems(3) x eq have "c = fst y" by (simp add: eq_nat_nat_iff)
      with y(1) Cons.prems(2) x eq show False by auto
    qed
    moreover have "nat c < length codes" using x eq Cons.prems by (simp add: nat_less_iff)
    ultimately show ?thesis using x eq by (simp add: set_codes_other)
  qed
qed simp

lemma get_char_codes_tree:
  assumes "code_tree t" "distinct (tree_addrs t)" "bt_root b = t"
  shows "get_char_codes (Some b) codes = Some (Inr (0, set_codes (code_paths t []) codes))"
  using assms char_codes_loop_subtree [of t "[]" "[]" "[]" codes]
  by (simp add: get_char_codes_def code_tree_root code_tree_byte_leaves)

lemma code_table_lookup:
  assumes "code_tree t" "distinct (leaf_chars t)" "(c, p) \<in> set (code_paths t [])" "length codes = 256"
  shows "set_codes (code_paths t []) codes ! nat c = Some p"
proof (rule set_codes_lookup [OF assms(3) _ _ assms(4)])
  show "distinct (map fst (code_paths t []))" using assms(2) by simp
  have "fst x \<in> set (leaf_chars t)" if "x \<in> set (code_paths t [])" for x
    using that by (metis code_paths_fst image_eqI set_map)
  then show "\<forall>x\<in>set (code_paths t []). 0 \<le> fst x \<and> fst x < 256"
    using code_tree_byte_leaves [OF assms(1)] by (auto simp: byte_leaves_def)
qed

text \<open>Decoding on a list of bits: the abstract view of the descent.\<close>

fun walk :: "btree_node \<Rightarrow> char list \<Rightarrow> (char_stat_node \<times> char list) option" where
  "walk BNull bs = None"
| "walk (BNode a d l r) bs =
     (if l = BNull \<and> r = BNull then Some (d, bs)
      else (case bs of [] \<Rightarrow> None
            | b # bs' \<Rightarrow> if b = CHR ''0'' then walk r bs' else walk l bs'))"

lemma walk_code:
  "(c, p) \<in> set (code_paths t q) \<Longrightarrow>
     \<exists>s. p = q @ s \<and> (\<forall>rest. \<exists>d. walk t (s @ rest) = Some (d, rest) \<and> ch d = c) \<and>
         set s \<subseteq> {CHR ''0'', CHR ''1''} \<and> (s = [] \<longrightarrow> btree_is_leaf t)"
proof (induction t q rule: code_paths.induct)
  case (2 a d l r q)
  show ?case
  proof (cases "l = BNull \<and> r = BNull")
    case True
    with "2.prems" show ?thesis by auto
  next
    case False
    with "2.prems" consider "(c, p) \<in> set (code_paths l (q @ [CHR ''1'']))"
      | "(c, p) \<in> set (code_paths r (q @ [CHR ''0'']))" by auto
    then show ?thesis
    proof cases
      case 1
      from "2.IH"(1) [OF False this] obtain s where
        s: "p = (q @ [CHR ''1'']) @ s" "\<forall>rest. \<exists>d. walk l (s @ rest) = Some (d, rest) \<and> ch d = c"
        "set s \<subseteq> {CHR ''0'', CHR ''1''}" by blast
      then show ?thesis using False by (intro exI [of _ "CHR ''1'' # s"]) auto
    next
      case 2
      from "2.IH"(2) [OF False this] obtain s where
        s: "p = (q @ [CHR ''0'']) @ s" "\<forall>rest. \<exists>d. walk r (s @ rest) = Some (d, rest) \<and> ch d = c"
        "set s \<subseteq> {CHR ''0'', CHR ''1''}" by blast
      then show ?thesis using False by (intro exI [of _ "CHR ''0'' # s"]) auto
    qed
  qed
qed simp

lemma code_tree_walk:
  assumes "code_tree t" "(c, p) \<in> set (code_paths t [])"
  shows "\<exists>d. walk t (p @ rest) = Some (d, rest) \<and> ch d = c"
    and "p \<noteq> []" and "set p \<subseteq> {CHR ''0'', CHR ''1''}"
proof -
  have "\<not> btree_is_leaf t" using assms(1) by (auto simp: code_tree_def)
  with walk_code [OF assms(2)] show "\<exists>d. walk t (p @ rest) = Some (d, rest) \<and> ch d = c"
    and "p \<noteq> []" and "set p \<subseteq> {CHR ''0'', CHR ''1''}" by auto
qed

section \<open>Addresses do not matter for the codes\<close>

fun erase :: "btree_node \<Rightarrow> btree_node" where
  "erase BNull = BNull"
| "erase (BNode a d l r) = BNode 0 d (erase l) (erase r)"

lemma erase_BNull [simp]: "erase t = BNull \<longleftrightarrow> t = BNull"
  by (cases t) auto

lemma erase_is_leaf [simp]: "btree_is_leaf (erase t) = btree_is_leaf t"
  by (cases t) auto

lemma erase_data [simp]: "t \<noteq> BNull \<Longrightarrow> bn_data (erase t) = bn_data t"
  by (cases t) auto

lemma code_paths_erase [simp]: "code_paths (erase t) p = code_paths t p"
  by (induction t p rule: code_paths.induct) auto

lemma fetch_min_scan_erase:
  assumes "m \<noteq> BNull" "BNull \<notin> set ts"
  shows "fetch_min_scan (erase m) i k (map erase ts) =
    (case fetch_min_scan m i k ts of (m', i') \<Rightarrow> (erase m', i'))"
  using assms by (induction m i k ts rule: fetch_min_scan.induct) auto

lemma fetch_min_erase:
  assumes "BNull \<notin> set xs"
  shows "fetch_min_btree_node (map erase xs) =
    map_option (\<lambda>(t, ys). (erase t, map erase ys)) (fetch_min_btree_node xs)"
proof (cases xs)
  case (Cons t ts)
  have "fetch_min_scan (erase t) 0 1 (map erase ts) =
    (case fetch_min_scan t 0 1 ts of (m', i') \<Rightarrow> (erase m', i'))"
    using assms Cons by (intro fetch_min_scan_erase) auto
  then show ?thesis
    by (simp add: fetch_min_btree_node_def Cons take_map [symmetric] drop_map [symmetric] split: prod.splits)
qed (simp add: fetch_min_btree_node_def)

lemma fetch_min_Nil [simp]: "fetch_min_btree_node [] = None"
  by simp

lemma fetch_min_set:
  "fetch_min_btree_node xs = Some (t, ys) \<Longrightarrow> set xs = insert t (set ys)"
  by (metis fetch_min_mset set_mset_add_mset_insert set_mset_mset)

lemma huffman_loop_erase:
  assumes "map erase xs = map erase ys" "BNull \<notin> set xs" "BNull \<notin> set ys"
  shows "map_option erase (huffman_loop n xs) = map_option erase (huffman_loop k ys)"
  using assms
proof (induction n xs arbitrary: k ys rule: huffman_loop.induct)
  case (1 n xs)
  have f: "map_option (\<lambda>(t, zs). (erase t, map erase zs)) (fetch_min_btree_node xs) =
     map_option (\<lambda>(t, zs). (erase t, map erase zs)) (fetch_min_btree_node ys)"
    using 1(2-) by (metis fetch_min_erase)
  show ?case
  proof (cases "fetch_min_btree_node xs")
    case None
    with f have "fetch_min_btree_node ys = None" by simp
    with None show ?thesis by (subst (1 2) huffman_loop.simps) (simp only: option.case)
  next
    case (Some p)
    obtain t1 xs1 where f1: "fetch_min_btree_node xs = Some (t1, xs1)" using Some by (cases p) auto
    with f obtain u1 ys1 where g1: "fetch_min_btree_node ys = Some (u1, ys1)"
      and e1: "erase t1 = erase u1" "map erase xs1 = map erase ys1"
      by (cases "fetch_min_btree_node ys") auto
    have n1: "BNull \<notin> set xs1" "BNull \<notin> set ys1" "t1 \<noteq> BNull" "u1 \<noteq> BNull"
      using fetch_min_set [OF f1] fetch_min_set [OF g1] "1.prems" by auto
    then have d1: "bn_data t1 = bn_data u1" "btree_is_leaf t1 = btree_is_leaf u1"
      using e1(1) by (metis erase_data) (metis e1(1) erase_is_leaf)
    have h: "map_option (\<lambda>(t, zs). (erase t, map erase zs)) (fetch_min_btree_node xs1) =
       map_option (\<lambda>(t, zs). (erase t, map erase zs)) (fetch_min_btree_node ys1)"
      using n1 e1 by (metis fetch_min_erase)
    show ?thesis
    proof (cases "fetch_min_btree_node xs1")
      case None
      with h have "fetch_min_btree_node ys1 = None" by simp
      with None f1 g1 e1 d1 show ?thesis
        by (subst (1 2) huffman_loop.simps) (simp add: btree_node_gen_parent_def)
    next
      case (Some q)
      obtain t2 xs2 where f2: "fetch_min_btree_node xs1 = Some (t2, xs2)" using Some by (cases q) auto
      with h obtain u2 ys2 where g2: "fetch_min_btree_node ys1 = Some (u2, ys2)"
        and e2: "erase t2 = erase u2" "map erase xs2 = map erase ys2"
        by (cases "fetch_min_btree_node ys1") auto
      have n2: "BNull \<notin> set xs2" "BNull \<notin> set ys2" "t2 \<noteq> BNull" "u2 \<noteq> BNull"
        using fetch_min_set [OF f2] fetch_min_set [OF g2] n1 by auto
      then have d2: "bn_data t2 = bn_data u2" using e2(1) by (metis erase_data)
      let ?d = "create_char_stat_node (-1) (int_add (freq (bn_data t1)) (freq (bn_data t2)))"
      have "map_option erase (huffman_loop (Suc n) (xs2 @ [BNode n ?d t1 t2])) =
         map_option erase (huffman_loop (Suc k) (ys2 @ [BNode k ?d u1 u2]))"
        using "1.IH" [OF f1 refl f2 refl, of "ys2 @ [BNode k ?d u1 u2]" "Suc k"] e1 e2 n2
        by (simp add: btree_node_gen_parent_def)
      then show ?thesis
        by (subst (1 2) huffman_loop.simps) (simp add: f1 f2 g1 g2 d1 d2 btree_node_gen_parent_def)
    qed
  qed
qed

lemma char_leaves_erase: "map erase (char_leaves i n fs) = map erase (char_leaves i m fs)"
  by (induction fs arbitrary: i n m) (auto simp: btree_node_create_def)

lemma char_leaves_not_null: "BNull \<notin> set (char_leaves i n fs)"
  by (induction i n fs rule: char_leaves.induct) (auto simp: btree_node_create_def)


section \<open>Least frequency\<close>

lemma fetch_min_scan_least:
  assumes "fetch_min_scan m i k ts = (m', i')"
  shows "freq (bn_data m') \<le> freq (bn_data m) \<and> (\<forall>t \<in> set ts. freq (bn_data m') \<le> freq (bn_data t))"
  using assms by (induction m i k ts rule: fetch_min_scan.induct) (force split: if_splits)+

section \<open>Codes of a frequency table\<close>

lemma code_paths_total: "c \<in> set (leaf_chars t) \<Longrightarrow> \<exists>p. (c, p) \<in> set (code_paths t q)"
  by (metis code_paths_fst imageE list.set_map prod.collapse)

lemma generated_tree:
  assumes "length cf = 256" "\<exists>f \<in> set cf. f \<noteq> 0"
  obtains b where "generate_huffman_tree n (Some cf) = Inr (Some b)"
    "code_tree (bt_root b)" "distinct (tree_addrs (bt_root b))" "distinct (leaf_chars (bt_root b))"
    "set (leaf_chars (bt_root b)) = {int c |c. c < 256 \<and> cf ! c \<noteq> 0}"
    "huffman_loop (n + length (char_leaves 0 n cf)) (char_leaves 0 n cf) = Some (bt_root b)"
proof -
  let ?xs = "char_leaves 0 n cf"
  have ne: "?xs \<noteq> []" using assms(2) by (auto simp: char_leaves_empty)
  obtain r where r: "huffman_loop (n + length ?xs) ?xs = Some r"
    "tree_of_forest (n + length ?xs) ?xs r"
    using huffman_loop_tree [OF char_leaves_forest_ok [OF assms(1)] ne] by blast
  have chars: "mset (leaf_chars r) = mset (map int (filter (\<lambda>k. cf ! k \<noteq> 0) [0..<256]))"
    using r(2) assms(1) by (simp add: tree_of_forest_def char_leaves_chars)
  then have "distinct (leaf_chars r)" 
    by (metis (no_types, lifting) distinct_filter distinct_map distinct_upt inj_of_nat inj_on_subset
        mset_eq_imp_distinct_iff top_greatest)
  moreover have "set (leaf_chars r) = {int c |c. c < 256 \<and> cf ! c \<noteq> 0}"
    using mset_eq_setD [OF chars] by auto
  ultimately show ?thesis
    using that [of "btree_set_root (btree_create FREE_MODE_MP_FREE) r"] r ne
    by (simp add: generate_huffman_tree_def Let_def btree_set_root_def tree_of_forest_def)
qed

lemma set_codes_none:
  assumes "\<forall>x \<in> set ps. 0 \<le> fst x" "int c \<notin> fst ` set ps"
  shows "set_codes ps codes ! c = codes ! c"
proof -
  have "nat (int c) \<notin> nat ` fst ` set ps"
    using assms by (auto simp: eq_nat_nat_iff) (metis assms(1) image_eqI int_nat_eq fst_conv)
  then show ?thesis using set_codes_other [of "int c" ps codes] by simp
qed

text \<open>
  C31: for every frequency table with at least one character the code builds a tree, the
  traversal that assigns the codes ends, exactly the characters that occur get a code, and no
  code is a prefix of another one (so the bit stream is uniquely decodable).
\<close>

theorem huffman_codes_prefix_free:
  assumes "length cf = 256" "\<exists>f \<in> set cf. f \<noteq> 0"
  shows "\<exists>b codes. generate_huffman_tree n (Some cf) = Inr (Some b) \<and>
    get_char_codes (Some b) (replicate 256 None) = Some (Inr (0, codes)) \<and>
    (\<forall>c < 256. codes ! c \<noteq> None \<longleftrightarrow> cf ! c \<noteq> 0) \<and>
    (\<forall>c < 256. \<forall>c' < 256. \<forall>p s. codes ! c = Some p \<and> codes ! c' = Some (p @ s) \<longrightarrow> c = c')"
proof -
  obtain b where b: "generate_huffman_tree n (Some cf) = Inr (Some b)"
    "code_tree (bt_root b)" "distinct (tree_addrs (bt_root b))" "distinct (leaf_chars (bt_root b))"
    "set (leaf_chars (bt_root b)) = {int c |c. c < 256 \<and> cf ! c \<noteq> 0}"
    by (rule generated_tree [OF assms])
  let ?ps = "code_paths (bt_root b) []"
  let ?codes = "set_codes ?ps (replicate 256 None)"
  have fst_ps: "fst ` set ?ps = {int c |c. c < 256 \<and> cf ! c \<noteq> 0}"
    using b(5) by (metis code_paths_fst list.set_map)
  then have "fst x \<in> {int c |c. c < 256 \<and> cf ! c \<noteq> 0}" if "x \<in> set ?ps" for x
    using that by blast
  then have nn: "\<forall>x \<in> set ?ps. 0 \<le> fst x" by fastforce
  have none: "?codes ! c = None" if "c < 256" "cf ! c = 0" for c
    using that fst_ps nn by (subst set_codes_none) auto
  have some: "(int c, p) \<in> set ?ps" if "c < 256" "?codes ! c = Some p" for c p
  proof -
    have "cf ! c \<noteq> 0" using none that by fastforce
    then have "int c \<in> set (leaf_chars (bt_root b))" using b(5) that(1) by auto
    then obtain q where q: "(int c, q) \<in> set ?ps" using code_paths_total by blast
    have "?codes ! nat (int c) = Some q" by (rule code_table_lookup [OF b(2,4) q]) simp
    with that q show ?thesis by simp
  qed
  have all: "?codes ! c \<noteq> None" if "c < 256" "cf ! c \<noteq> 0" for c
  proof -
    have "int c \<in> set (leaf_chars (bt_root b))" using b(5) that by auto
    then obtain q where q: "(int c, q) \<in> set ?ps" using code_paths_total by blast
    have "?codes ! nat (int c) = Some q" by (rule code_table_lookup [OF b(2,4) q]) simp
    then show ?thesis by simp
  qed
  have pf: "c = c'" if h: "c < 256" "c' < 256" "?codes ! c = Some p" "?codes ! c' = Some (p @ s)" for c c' p s
  proof -
    obtain d where "walk (bt_root b) (p @ s) = Some (d, s)" "ch d = int c"
      using code_tree_walk(1) [OF b(2) some [OF h(1,3)], of s] by blast
    moreover obtain d' where "walk (bt_root b) ((p @ s) @ []) = Some (d', [])" "ch d' = int c'"
      using code_tree_walk(1) [OF b(2) some [OF h(2,4)], of "[]"] by blast
    ultimately show ?thesis by simp
  qed
  show ?thesis
  proof (intro exI [of _ b] exI [of _ ?codes] conjI)
    show "generate_huffman_tree n (Some cf) = Inr (Some b)" by (rule b(1))
    show "get_char_codes (Some b) (replicate 256 None) = Some (Inr (0, ?codes))"
      by (rule get_char_codes_tree [OF b(2,3) refl])
    show "\<forall>c<256. (?codes ! c \<noteq> None) = (cf ! c \<noteq> 0)"
    proof (intro allI impI iffI)
      fix c assume "c < (256 :: nat)" "?codes ! c \<noteq> None"
      then show "cf ! c \<noteq> 0" using none [of c] by argo
    next
      fix c assume "c < (256 :: nat)" "cf ! c \<noteq> 0"
      then show "?codes ! c \<noteq> None" by (rule all)
    qed
    show "\<forall>c<256. \<forall>c'<256. \<forall>p s. ?codes ! c = Some p \<and> ?codes ! c' = Some (p @ s) \<longrightarrow> c = c'"
      by (intro allI impI, elim conjE) (rule pf)
  qed
qed

theorem huffman_codes_prefix_free_witness:
  "\<exists>b codes. generate_huffman_tree 1 (Some ((replicate 256 0)[97 := 4, 98 := 3, 99 := 2])) = Inr (Some b) \<and>
    get_char_codes (Some b) (replicate 256 None) = Some (Inr (0, codes)) \<and>
    codes ! 97 \<noteq> None \<and> codes ! 100 = None"
proof -
  let ?cf = "(replicate 256 0)[97 := 4, 98 := 3, 99 := 2 :: int]"
  have "?cf ! 97 = 4" by simp
  moreover have "?cf ! 97 \<in> set ?cf" by (rule nth_mem) simp
  ultimately have "\<exists>f \<in> set ?cf. f \<noteq> 0" by (intro bexI [of _ "?cf ! 97"]) simp_all
  from huffman_codes_prefix_free [OF _ this, of 1] obtain b codes where
    "generate_huffman_tree 1 (Some ?cf) = Inr (Some b)"
    "get_char_codes (Some b) (replicate 256 None) = Some (Inr (0, codes))"
    and k: "\<forall>c < 256. codes ! c \<noteq> None \<longleftrightarrow> ?cf ! c \<noteq> 0" by auto
  moreover have "codes ! 97 \<noteq> None \<and> codes ! 100 = None"
    using k [rule_format, of 97] k [rule_format, of 100] by simp
  ultimately show ?thesis by blast
qed

section \<open>Code lengths\<close>

lemma full_tree_leaves: "full_tree t \<Longrightarrow> leaf_chars t \<noteq> []"
  by (induction t) (auto split: if_splits)

lemma full_path_length:
  "full_tree t \<Longrightarrow> (c, p) \<in> set (code_paths t q) \<Longrightarrow> length p < length q + length (leaf_chars t)"
proof (induction t q rule: code_paths.induct)
  case (2 a d l r q)
  show ?case
  proof (cases "l = BNull \<and> r = BNull")
    case True
    with 2 show ?thesis by auto
  next
    case False
    with 2(3) have full: "full_tree l" "full_tree r" by auto
    then have "0 < length (leaf_chars l)" "0 < length (leaf_chars r)"
      using full_tree_leaves by auto
    moreover have "(c, p) \<in> set (code_paths l (q @ [CHR ''1''])) \<or> (c, p) \<in> set (code_paths r (q @ [CHR ''0'']))"
      "length (leaf_chars (BNode a d l r)) = length (leaf_chars l) + length (leaf_chars r)"
      using 2(4) False by auto
    ultimately show ?thesis
      using 2(1) [OF False full(1)] 2(2) [OF False full(2)] by (simp only: length_append length_Cons list.size) linarith
  qed
qed simp

lemma code_path_length:
  assumes "code_tree t" "(c, p) \<in> set (code_paths t [])"
  shows "length p \<le> length (leaf_chars t)"
proof -
  obtain a d l r where t: "t = BNode a d l r" "full_tree l" "full_tree r \<or> (r = BNull \<and> btree_is_leaf l)"
    using assms(1) by (auto simp: code_tree_def)
  have "l \<noteq> BNull"
    using t(2) by auto
  then have "(c, p) \<in> set (code_paths l [CHR ''1'']) \<or> (c, p) \<in> set (code_paths r [CHR ''0''])"
    "length (leaf_chars t) = length (leaf_chars l) + length (leaf_chars r)"
    using assms(2) by (auto simp: t(1))
  then show ?thesis
    using t(2,3) full_path_length [of l c p "[CHR ''1'']"] full_path_length [of r c p "[CHR ''0'']"] by auto
qed

end
