(* ===== verification/Sftt_Compress.thy ===== *)
theory Sftt_Compress
  imports Sftt_Huffman
begin

text \<open>
  The compressed format of \<^verbatim>\<open>src/src/compress.c\<close>: a frequency table (a \<^verbatim>\<open>short\<close> count,
  then a byte and an \<^verbatim>\<open>int\<close> per character), the length of the text as an \<^verbatim>\<open>int\<close>, and the
  bit stream. A pointer into a buffer is the buffer with an offset; an access outside the
  buffer is the fault \<open>Out_of_bounds\<close>.
\<close>

section \<open>Compression\<close>

fun copy_freq_loop :: "nat \<Rightarrow> int list \<Rightarrow> bytes \<Rightarrow> nat \<Rightarrow> nat \<Rightarrow> (bytes \<times> nat \<times> nat) option" where
  "copy_freq_loop i [] out pos cnt = Some (out, pos, cnt)"
| "copy_freq_loop i (f # fs) out pos cnt =
     (if f \<noteq> 0
      then (case buf_write out pos (of_nat i # le32 (word_of_int f)) of
              None \<Rightarrow> None
            | Some out' \<Rightarrow> copy_freq_loop (Suc i) fs out' (pos + 1 + 4) (Suc cnt))
      else copy_freq_loop (Suc i) fs out pos cnt)"

text \<open>\<^verbatim>\<open>copy_char_freq\<close>: the filled buffer and the number of bytes the table takes.\<close>

definition copy_char_freq :: "bytes \<Rightarrow> int list \<Rightarrow> c_fault + bytes \<times> nat" where
  "copy_char_freq out cf =
     (case copy_freq_loop 0 cf out 2 0 of
        None \<Rightarrow> Inl Out_of_bounds
      | Some (out', pos, cnt) \<Rightarrow>
          if cnt = 0 then Inl Assertion_failed
          else (case buf_write out' 0 (le16 (of_nat cnt)) of
                  None \<Rightarrow> Inl Out_of_bounds
                | Some out'' \<Rightarrow> Inr (out'', pos)))"

fun put_code :: "char list \<Rightarrow> bytes \<Rightarrow> nat \<Rightarrow> nat \<Rightarrow> (bytes \<times> nat \<times> nat) option" where
  "put_code [] out pos index = Some (out, pos, index)"
| "put_code (b # bs) out pos index =
     (case (if index = 0 then (Suc pos, 8) else (pos, index)) of
        (pos', index') \<Rightarrow>
          if pos' < length out
          then put_code bs (out[pos' := set_bit (out ! pos') index' (if b = CHR ''0'' then 0 else 1)])
                 pos' (index' - 1)
          else None)"

fun put_chars :: "bytes \<Rightarrow> char list option list \<Rightarrow> bytes \<Rightarrow> nat \<Rightarrow> nat \<Rightarrow> c_fault + bytes \<times> nat" where
  "put_chars [] codes out pos index = Inr (out, pos)"
| "put_chars (c # cs) codes out pos index =
     (case codes ! unat c of
        None \<Rightarrow> Inl Assertion_failed
      | Some tmp \<Rightarrow>
          (case put_code tmp out pos index of
             None \<Rightarrow> Inl Out_of_bounds
           | Some (out', pos', index') \<Rightarrow> put_chars cs codes out' pos' index'))"

text \<open>\<^verbatim>\<open>huffman_encode\<close>: the filled buffer and the number of bytes written from \<^verbatim>\<open>head\<close>.\<close>

definition huffman_encode ::
    "bytes \<Rightarrow> char list option list \<Rightarrow> bytes \<Rightarrow> nat \<Rightarrow> c_fault + bytes \<times> nat" where
  "huffman_encode input codes out head =
     (case buf_write out head (le32 (of_nat (length input))) of
        None \<Rightarrow> Inl Out_of_bounds
      | Some out' \<Rightarrow>
          (case put_chars input codes out' (head + 4) 8 of
             Inl e \<Rightarrow> Inl e
           | Inr (out'', pos) \<Rightarrow> Inr (out'', pos - head + 1)))"

text \<open>The rounding macros of \<^verbatim>\<open>include/utils.h\<close> on values of type \<^verbatim>\<open>int\<close>; \<^verbatim>\<open>align\<close> is a power of two.\<close>

definition ALIGN_FLOOR :: "32 word \<Rightarrow> 32 word \<Rightarrow> 32 word" where
  "ALIGN_FLOOR val align = val AND (NOT (align - 1))"

definition ALIGN_CEIL :: "32 word \<Rightarrow> 32 word \<Rightarrow> 32 word" where
  "ALIGN_CEIL val align = ALIGN_FLOOR (val + align - 1) align"

text \<open>The sum \<^verbatim>\<open>tmp_len\<close> of the lengths of the codes, an \<^verbatim>\<open>int\<close> that wraps around.\<close>

fun code_bits :: "bytes \<Rightarrow> char list option list \<Rightarrow> 32 word option" where
  "code_bits [] codes = Some 0"
| "code_bits (c # cs) codes =
     (case codes ! unat c of
        None \<Rightarrow> None
      | Some tmp \<Rightarrow> map_option (\<lambda>n. of_nat (length tmp) + n) (code_bits cs codes))"

definition get_compress_output_len ::
    "bytes \<Rightarrow> int list \<Rightarrow> char list option list \<Rightarrow> c_fault + int" where
  "get_compress_output_len input cf codes =
     (case code_bits input codes of
        None \<Rightarrow> Inl Null_dereference
      | Some tmp_len \<Rightarrow>
          Inr (sint (of_nat (2 + (1 + 4) * length (filter (\<lambda>f. f \<noteq> 0) cf) + 4)
            + signed_drop_bit 3 (ALIGN_CEIL tmp_len 8))))"

text \<open>
  \<^verbatim>\<open>huffman_compress\<close>: the return value and \<^verbatim>\<open>*output\<close>. The argument \<open>n\<close> is the first
  address the allocator gives to a tree node. The pool hands out cleared memory; an \<^verbatim>\<open>output_len\<close> that
  is not positive asks it for zero or for an impossible number of bytes, and the table is written through
  the null pointer that it returns.
\<close>

definition huffman_compress :: "ptr \<Rightarrow> bytes option \<Rightarrow> c_fault + int \<times> bytes option" where
  "huffman_compress n input =
     (case input of
        None \<Rightarrow> Inr (-1, None)
      | Some bs \<Rightarrow>
          if length bs < 1 then Inr (-1, None)
          else
            (case calc_char_freq input (replicate CHARSET_SIZE 0) of
               (ret, cf) \<Rightarrow>
                 if ret = -1 then Inr (-1, None)
                 else
                   (case generate_huffman_tree n (Some cf) of
                      Inl e \<Rightarrow> Inl e
                    | Inr None \<Rightarrow> Inr (-1, None)
                    | Inr (Some tree) \<Rightarrow>
                        (case get_char_codes (Some tree) (replicate CHARSET_SIZE None) of
                           None \<Rightarrow> Inl No_return
                         | Some (Inl e) \<Rightarrow> Inl e
                         | Some (Inr (r, codes)) \<Rightarrow>
                             if r = -1 then Inr (-1, None)
                             else
                               (case get_compress_output_len bs cf codes of
                                  Inl e \<Rightarrow> Inl e
                                | Inr output_len \<Rightarrow>
                                    if output_len \<le> 0 then Inl Null_dereference
                                    else
                                      (case copy_char_freq (replicate (nat output_len) 0) cf of
                                         Inl e \<Rightarrow> Inl e
                                       | Inr (out, char_freq_len) \<Rightarrow>
                                           (case huffman_encode bs codes out char_freq_len of
                                              Inl e \<Rightarrow> Inl e
                                            | Inr (out', char_code_len) \<Rightarrow>
                                                if int (char_freq_len + char_code_len) = output_len
                                                then Inr (output_len, Some out')
                                                else Inl Assertion_failed)))))))"

section \<open>Decompression\<close>

fun get_freq_loop :: "nat \<Rightarrow> bytes \<Rightarrow> nat \<Rightarrow> int list \<Rightarrow> (int list \<times> nat) option" where
  "get_freq_loop 0 buf pos cf = Some (cf, pos)"
| "get_freq_loop (Suc k) buf pos cf =
     (if pos + 1 + 4 \<le> length buf
      then get_freq_loop k buf (pos + 1 + 4)
             (cf[unat (buf ! pos) := sint (of_le32 (drop (pos + 1) buf))])
      else None)"

text \<open>\<^verbatim>\<open>get_char_freq\<close>: the table, the offset after it and the character count.\<close>

definition get_char_freq :: "bytes \<Rightarrow> c_fault + int list \<times> nat \<times> int" where
  "get_char_freq buf =
     (if 2 \<le> length buf
      then let char_cnt = sint (of_le16 buf) in
           (case get_freq_loop (nat char_cnt) buf 2 (replicate CHARSET_SIZE 0) of
              None \<Rightarrow> Inl Out_of_bounds
            | Some (cf, pos) \<Rightarrow> Inr (cf, pos, char_cnt))
      else Inl Out_of_bounds)"

fun descend :: "btree_node \<Rightarrow> bytes \<Rightarrow> nat \<Rightarrow> nat \<Rightarrow> c_fault + char_stat_node \<times> nat \<times> nat" where
  "descend BNull buf pos index = Inl Null_dereference"
| "descend (BNode a d l r) buf pos index =
     (if l = BNull \<and> r = BNull then Inr (d, pos, index)
      else
        (case (if index = 0 then (Suc pos, 8) else (pos, index)) of
           (pos', index') \<Rightarrow>
             if pos' < length buf
             then (if get_bit (buf ! pos') index' = 0
                   then descend r buf pos' (index' - 1)
                   else descend l buf pos' (index' - 1))
             else Inl Out_of_bounds))"

fun decode_chars :: "nat \<Rightarrow> btree_node \<Rightarrow> bytes \<Rightarrow> nat \<Rightarrow> nat \<Rightarrow> c_fault + bytes" where
  "decode_chars 0 root buf pos index = Inr []"
| "decode_chars (Suc k) root buf pos index =
     (case descend root buf pos index of
        Inl e \<Rightarrow> Inl e
      | Inr (csn, pos', index') \<Rightarrow>
          (case decode_chars k root buf pos' index' of
             Inl e \<Rightarrow> Inl e
           | Inr rest \<Rightarrow> Inr (word_of_int (ch csn) # rest)))"

text \<open>
  \<^verbatim>\<open>huffman_decode\<close>: the number of characters written and the output buffer, which is given
  (\<open>None\<close> is a null pointer).
\<close>

definition huffman_decode ::
    "btree option \<Rightarrow> bytes \<Rightarrow> nat \<Rightarrow> int \<Rightarrow> bytes option \<Rightarrow> c_fault + nat \<times> bytes option" where
  "huffman_decode tree buf pos input_len output =
     (case (tree, output) of
        (Some t, Some out) \<Rightarrow>
          if bt_root t = BNull \<or> input_len < 1 then Inr (0, output)
          else
            (case decode_chars (nat input_len) (bt_root t) buf pos 8 of
               Inl e \<Rightarrow> Inl e
             | Inr cs \<Rightarrow>
                 (case buf_write out 0 cs of
                    None \<Rightarrow> Inl Out_of_bounds
                  | Some out' \<Rightarrow> Inr (length cs, Some out')))
      | _ \<Rightarrow> Inr (0, output))"

text \<open>
  \<^verbatim>\<open>huffman_decompress\<close>. An \<^verbatim>\<open>output_len\<close> that is not positive asks the pool for zero
  or for an impossible number of bytes, and gets a null pointer.
\<close>

definition huffman_decompress :: "ptr \<Rightarrow> bytes option \<Rightarrow> c_fault + int \<times> bytes option" where
  "huffman_decompress n input =
     (case input of
        None \<Rightarrow> Inr (-1, None)
      | Some buf \<Rightarrow>
          (case get_char_freq buf of
             Inl e \<Rightarrow> Inl e
           | Inr (cf, pos, char_cnt) \<Rightarrow>
               if char_cnt = 0 then Inr (-1, None)
               else
                 (case generate_huffman_tree n (Some cf) of
                    Inl e \<Rightarrow> Inl e
                  | Inr None \<Rightarrow> Inr (-1, None)
                  | Inr (Some tree) \<Rightarrow>
                      if pos + 4 \<le> length buf
                      then let input_len = sint (of_le32 (drop pos buf));
                               output = (if 0 < input_len then Some (replicate (nat input_len) 0) else None)
                           in (case huffman_decode (Some tree) buf (pos + 4) input_len output of
                                 Inl e \<Rightarrow> Inl e
                               | Inr (j, output') \<Rightarrow> Inr (input_len, output'))
                      else Inl Out_of_bounds)))"

section \<open>The bit cursor\<close>

lemma sint_align_ceil: "sint (signed_drop_bit 3 (ALIGN_CEIL w 8)) = drop_bit 3 (sint (w + 7))"
proof -
  have "drop_bit 3 (x AND NOT 7) = drop_bit 3 x" for x :: int
  proof -
    have "(7 :: int) = mask 3" by (simp add: mask_eq_exp_minus_1)
    then show ?thesis
      by (intro bit_eqI) (simp add: bit_simps bit_mask_iff)
  qed
  moreover have "sint (NOT 7 :: 32 word) = NOT 7"
    by simp
  ultimately show ?thesis
    by (simp add: sint_signed_drop_bit_eq ALIGN_CEIL_def ALIGN_FLOOR_def signed_and_eq add.commute)
qed

lemma output_len_exact:
  assumes "L < 2 ^ 31 - 8" "k \<le> 256"
  shows "sint (of_nat (2 + (1 + 4) * k + 4) + signed_drop_bit 3 (ALIGN_CEIL (of_nat L :: 32 word) 8))
    = int (2 + 5 * k + (4 + (L + 7) div 8))"
proof -
  have "sint (of_nat L + 7 :: 32 word) = int (L + 7)"
    using sint_word_of_int32 [of "int (L + 7)"] assms(1) by simp
  then have "sint (signed_drop_bit 3 (ALIGN_CEIL (of_nat L :: 32 word) 8)) = int ((L + 7) div 8)"
    by (simp add: sint_align_ceil drop_bit_eq_div)
  then have "of_int (sint (signed_drop_bit 3 (ALIGN_CEIL (of_nat L :: 32 word) 8))) = (of_nat ((L + 7) div 8) :: 32 word)"
    by (simp only: of_int_of_nat_eq)
  then have "signed_drop_bit 3 (ALIGN_CEIL (of_nat L :: 32 word) 8) = of_nat ((L + 7) div 8)"
    by (simp only: of_int_sint scast_id)
  then have "of_nat (2 + (1 + 4) * k + 4) + signed_drop_bit 3 (ALIGN_CEIL (of_nat L :: 32 word) 8)
      = word_of_int (int (2 + 5 * k + (4 + (L + 7) div 8)))"
    by simp
  moreover have "2 + 5 * k + (4 + (L + 7) div 8) < 2 ^ 31"
    using assms less_mult_imp_div_less [of "L + 7" "2 ^ 28" 8] by simp
  ultimately show ?thesis
    using sint_word_of_int32 [of "int (2 + 5 * k + (4 + (L + 7) div 8))"] by (simp add: add.assoc)
qed

text \<open>Position of the byte and bit index after \<open>k\<close> bits, relative to the start of the stream.\<close>

definition cur_pos :: "nat \<Rightarrow> nat" where
  "cur_pos k = (if k = 0 then 0 else (k - 1) div 8)"

definition cur_index :: "nat \<Rightarrow> nat" where
  "cur_index k = (if k = 0 then 8 else 7 - (k - 1) mod 8)"

lemma cursor_step:
  "(if cur_index k = 0 then (Suc (P + cur_pos k), 8) else (P + cur_pos k, cur_index k)) =
     (P + k div 8, 8 - k mod 8)"
proof (cases k)
  case (Suc j)
  then show ?thesis
    by (auto simp: cur_index_def cur_pos_def div_Suc mod_Suc) 
qed (simp add: cur_index_def cur_pos_def)

lemma cursor_next: "cur_pos (Suc k) = k div 8" "cur_index (Suc k) = 8 - k mod 8 - 1"
  by (auto simp: cur_index_def cur_pos_def)

definition bit_at :: "bytes \<Rightarrow> nat \<Rightarrow> nat \<Rightarrow> bool" where
  "bit_at buf P j = bit (buf ! (P + j div 8)) (7 - j mod 8)"

lemma bit_at_get: "(get_bit (buf ! (P + j div 8)) (8 - j mod 8) = 0) = (\<not> bit_at buf P j)"
proof -
  have "j mod 8 < 8" by simp
  then have "1 \<le> 8 - j mod 8" "8 - j mod 8 \<le> 8" "8 - j mod 8 - 1 = 7 - j mod 8" by linarith+
  then show ?thesis by (simp add: bit_at_def get_bit_bit)
qed

lemma bit_at_set:
  assumes "P + k div 8 < length buf"
  shows "bit_at (buf[P + k div 8 := set_bit (buf ! (P + k div 8)) (8 - k mod 8) b]) P j =
    (if j = k then b \<noteq> 0 else bit_at buf P j)"
proof (cases "j div 8 = k div 8")
  case True
  have m: "k mod 8 < 8" "j mod 8 < 8" by simp_all
  then have "bit (set_bit (buf ! (P + k div 8)) (8 - k mod 8) b) (7 - j mod 8) =
     (if 7 - j mod 8 = 8 - k mod 8 - 1 then b \<noteq> 0 else bit (buf ! (P + k div 8)) (7 - j mod 8))"
    by (intro bit_set_bit) linarith+
  moreover have "7 - j mod 8 = 8 - k mod 8 - 1 \<longleftrightarrow> j mod 8 = k mod 8" using m by linarith
  moreover have "j mod 8 = k mod 8 \<longleftrightarrow> j = k" using True by (metis div_mult_mod_eq)
  ultimately show ?thesis using assms True by (simp add: bit_at_def)
next
  case False
  then show ?thesis using assms by (auto simp: bit_at_def nth_list_update)
qed

lemma put_code_bits:
  assumes "k + length bs \<le> 8 * (length out - P)" "P \<le> length out"
  shows "\<exists>out'. put_code bs out (P + cur_pos k) (cur_index k) =
      Some (out', P + cur_pos (k + length bs), cur_index (k + length bs)) \<and>
    length out' = length out \<and> take P out' = take P out \<and>
    (\<forall>j. bit_at out' P j =
       (if k \<le> j \<and> j < k + length bs then bs ! (j - k) \<noteq> CHR ''0'' else bit_at out P j))"
  using assms
proof (induction bs arbitrary: k out)
  case (Cons b bs)
  define w where "w = (if b = CHR ''0'' then 0 else 1 :: byte)"
  define out1 where "out1 = out[P + k div 8 := set_bit (out ! (P + k div 8)) (8 - k mod 8) w]"
  have "k < 8 * (length out - P)" using Cons.prems by simp
  then have "k div 8 < length out - P" by (simp add: div_less_iff_less_mult mult.commute)
  then have lt: "P + k div 8 < length out" by simp
  have step: "put_code (b # bs) out (P + cur_pos k) (cur_index k) =
      put_code bs out1 (P + cur_pos (Suc k)) (cur_index (Suc k))"
    unfolding put_code.simps(2) cursor_step using lt by (simp add: cursor_next out1_def w_def)
  have "Suc k + length bs \<le> 8 * (length out1 - P)" "P \<le> length out1"
    using Cons.prems by (simp_all add: out1_def)
  from Cons.IH [OF this] obtain out' where
    o: "put_code bs out1 (P + cur_pos (Suc k)) (cur_index (Suc k)) =
      Some (out', P + cur_pos (Suc k + length bs), cur_index (Suc k + length bs))"
    "length out' = length out1" "take P out' = take P out1"
    "\<forall>j. bit_at out' P j =
       (if Suc k \<le> j \<and> j < Suc k + length bs then bs ! (j - Suc k) \<noteq> CHR ''0'' else bit_at out1 P j)"
    by blast
  have "bit_at out1 P j = (if j = k then b \<noteq> CHR ''0'' else bit_at out P j)" for j
    unfolding out1_def bit_at_set [OF lt] by (simp add: w_def)
  then have "\<forall>j. bit_at out' P j =
     (if k \<le> j \<and> j < k + length (b # bs) then (b # bs) ! (j - k) \<noteq> CHR ''0'' else bit_at out P j)"
    using o(4) by (auto simp: nth_Cons' Suc_le_eq)
  moreover have "take P out' = take P out" using o(3) by (simp add: out1_def)
  ultimately show ?case using o(1,2) step by (simp add: out1_def)
qed auto

section \<open>The bit stream\<close>

definition text_bits :: "bytes \<Rightarrow> char list option list \<Rightarrow> char list" where
  "text_bits cs codes = concat (map (\<lambda>c. the (codes ! unat c)) cs)"

lemma text_bits_simps [simp]:
  "text_bits [] codes = []"
  "text_bits (c # cs) codes = the (codes ! unat c) @ text_bits cs codes"
  by (simp_all add: text_bits_def)

lemma code_bits_text:
  "\<forall>c \<in> set cs. codes ! unat c \<noteq> None \<Longrightarrow> code_bits cs codes = Some (of_nat (length (text_bits cs codes)))"
  by (induction cs) auto

lemma text_bits_le:
  "\<forall>c \<in> set cs. length (the (codes ! unat c)) \<le> k \<Longrightarrow> length (text_bits cs codes) \<le> k * length cs"
  by (induction cs) auto

lemma put_chars_bits:
  assumes "\<forall>c \<in> set cs. codes ! unat c \<noteq> None" "P \<le> length out"
    "k + length (text_bits cs codes) \<le> 8 * (length out - P)"
  shows "\<exists>out'. put_chars cs codes out (P + cur_pos k) (cur_index k) =
      Inr (out', P + cur_pos (k + length (text_bits cs codes))) \<and>
    length out' = length out \<and> take P out' = take P out \<and>
    (\<forall>j. bit_at out' P j = (if k \<le> j \<and> j < k + length (text_bits cs codes)
        then text_bits cs codes ! (j - k) \<noteq> CHR ''0'' else bit_at out P j))"
  using assms
proof (induction cs arbitrary: k out)
  case (Cons c cs)
  obtain p where p: "codes ! unat c = Some p" using Cons.prems by auto
  let ?n = "length p"
  have "k + ?n \<le> 8 * (length out - P)" using Cons.prems p by simp
  from put_code_bits [OF this Cons.prems(2)] obtain o1 where
    o1: "put_code p out (P + cur_pos k) (cur_index k) = Some (o1, P + cur_pos (k + ?n), cur_index (k + ?n))"
    "length o1 = length out" "take P o1 = take P out"
    "\<forall>j. bit_at o1 P j = (if k \<le> j \<and> j < k + ?n then p ! (j - k) \<noteq> CHR ''0'' else bit_at out P j)"
    by blast
  have "\<forall>c \<in> set cs. codes ! unat c \<noteq> None" "P \<le> length o1"
    "(k + ?n) + length (text_bits cs codes) \<le> 8 * (length o1 - P)"
    using Cons.prems o1(2) p by simp_all
  from Cons.IH [OF this] obtain o2 where
    o2: "put_chars cs codes o1 (P + cur_pos (k + ?n)) (cur_index (k + ?n)) =
      Inr (o2, P + cur_pos (k + ?n + length (text_bits cs codes)))"
    "length o2 = length o1" "take P o2 = take P o1"
    "\<forall>j. bit_at o2 P j = (if k + ?n \<le> j \<and> j < k + ?n + length (text_bits cs codes)
        then text_bits cs codes ! (j - (k + ?n)) \<noteq> CHR ''0'' else bit_at o1 P j)"
    by blast
  have "bit_at o2 P j = (if k \<le> j \<and> j < k + length (text_bits (c # cs) codes)
        then text_bits (c # cs) codes ! (j - k) \<noteq> CHR ''0'' else bit_at out P j)" for j
    using o1(4) o2(4) p by (auto simp: nth_append)
  then show ?case using o1(1-3) o2(1-3) p by (simp add: add.assoc)
qed auto

lemma descend_walk:
  assumes "walk t p = Some (d, [])" "k + length p \<le> 8 * (length buf - P)" "P \<le> length buf"
    "\<forall>j < length p. bit_at buf P (k + j) = (p ! j \<noteq> CHR ''0'')"
  shows "descend t buf (P + cur_pos k) (cur_index k) =
    Inr (d, P + cur_pos (k + length p), cur_index (k + length p))"
  using assms
proof (induction t arbitrary: p k)
  case (BNode a e l r)
  show ?case
  proof (cases "l = BNull \<and> r = BNull")
    case True
    with BNode.prems(1) show ?thesis by simp
  next
    case False
    then obtain b bs where p: "p = b # bs" using BNode.prems(1) by (cases p) (auto split: if_splits)
    have "k < 8 * (length buf - P)" using BNode.prems(2) p by simp
    then have "k div 8 < length buf - P" by (simp add: div_less_iff_less_mult mult.commute)
    then have lt: "P + k div 8 < length buf" by simp
    have bit: "bit_at buf P k = (b \<noteq> CHR ''0'')" using BNode.prems(4) p by force
    have rest: "\<forall>j < length bs. bit_at buf P (Suc k + j) = (bs ! j \<noteq> CHR ''0'')"
    proof (intro allI impI)
      fix j assume "j < length bs"
      with BNode.prems(4) [rule_format, of "Suc j"] p
      show "bit_at buf P (Suc k + j) = (bs ! j \<noteq> CHR ''0'')" by simp
    qed
    have len: "Suc k + length bs \<le> 8 * (length buf - P)" using BNode.prems(2) p by simp
    have step: "descend (BNode a e l r) buf (P + cur_pos k) (cur_index k) =
      descend (if b = CHR ''0'' then r else l) buf (P + cur_pos (Suc k)) (cur_index (Suc k))"
      using False lt bit unfolding descend.simps(2) cursor_step by (simp add: cursor_next bit_at_get)
    show ?thesis
      unfolding step
      using BNode.IH(1) [of bs "Suc k"] BNode.IH(2) [of bs "Suc k"] BNode.prems(1,3) False p rest len
      by (auto split: if_splits)
  qed
qed simp

lemma decode_chars_text:
  assumes "code_tree t" "P \<le> length buf"
    "\<forall>c \<in> set cs. (int (unat c), the (codes ! unat c)) \<in> set (code_paths t [])"
    "k + length (text_bits cs codes) \<le> 8 * (length buf - P)"
    "\<forall>j < length (text_bits cs codes). bit_at buf P (k + j) = (text_bits cs codes ! j \<noteq> CHR ''0'')"
  shows "decode_chars (length cs) t buf (P + cur_pos k) (cur_index k) = Inr cs"
  using assms(3-5)
proof (induction cs arbitrary: k)
  case (Cons c cs)
  let ?p = "the (codes ! unat c)"
  have path: "(int (unat c), ?p) \<in> set (code_paths t [])" using Cons.prems(1) by simp
  obtain d where w: "walk t ?p = Some (d, [])" and d: "ch d = int (unat c)"
    using code_tree_walk(1) [OF assms(1) path, of "[]"] by auto
  have "\<forall>j < length ?p. bit_at buf P (k + j) = (?p ! j \<noteq> CHR ''0'')"
  proof (intro allI impI)
    fix j assume "j < length ?p"
    with Cons.prems(3) [rule_format, of j] show "bit_at buf P (k + j) = (?p ! j \<noteq> CHR ''0'')"
      by (simp add: nth_append)
  qed
  with w Cons.prems(2) assms(2) have desc: "descend t buf (P + cur_pos k) (cur_index k) =
     Inr (d, P + cur_pos (k + length ?p), cur_index (k + length ?p))"
    by (intro descend_walk) auto
  have "\<forall>j < length (text_bits cs codes). bit_at buf P (k + length ?p + j) = (text_bits cs codes ! j \<noteq> CHR ''0'')"
  proof (intro allI impI)
    fix j assume "j < length (text_bits cs codes)"
    with Cons.prems(3) [rule_format, of "length ?p + j"]
    show "bit_at buf P (k + length ?p + j) = (text_bits cs codes ! j \<noteq> CHR ''0'')"
      by (simp add: nth_append add.assoc)
  qed
  then have "decode_chars (length cs) t buf (P + cur_pos (k + length ?p)) (cur_index (k + length ?p)) = Inr cs"
    using Cons.prems(1,2) by (intro Cons.IH) auto
  then show ?case using desc d by simp
qed simp

section \<open>The frequency table\<close>

fun freq_entries :: "nat \<Rightarrow> int list \<Rightarrow> bytes" where
  "freq_entries i [] = []"
| "freq_entries i (f # fs) =
     (if f \<noteq> 0 then of_nat i # le32 (word_of_int f) @ freq_entries (Suc i) fs
      else freq_entries (Suc i) fs)"

abbreviation nonzero :: "int list \<Rightarrow> nat" where
  "nonzero cf \<equiv> length (filter (\<lambda>f. f \<noteq> 0) cf)"

lemma length_freq_entries: "length (freq_entries i fs) = 5 * nonzero fs"
  by (induction i fs rule: freq_entries.induct) auto

lemma copy_freq_loop_entries:
  assumes "length pre = pos" "length (freq_entries i fs) \<le> k"
  shows "copy_freq_loop i fs (pre @ replicate k 0) pos cnt =
    Some (pre @ freq_entries i fs @ replicate (k - length (freq_entries i fs)) 0,
      pos + length (freq_entries i fs), cnt + nonzero fs)"
  using assms
proof (induction i fs arbitrary: pre pos k cnt rule: freq_entries.induct)
  case (2 i f fs)
  show ?case
  proof (cases "f = 0")
    case False
    let ?e = "of_nat i # le32 (word_of_int f)"
    have "buf_write (pre @ replicate k 0) pos ?e = Some ((pre @ ?e) @ replicate (k - 5) 0)"
      using 2(3,4) False by (subst buf_write_zeros) auto
    moreover have "copy_freq_loop (Suc i) fs ((pre @ ?e) @ replicate (k - 5) 0) (pos + 5) (Suc cnt) =
      Some ((pre @ ?e) @ freq_entries (Suc i) fs @ replicate (k - 5 - length (freq_entries (Suc i) fs)) 0,
        pos + 5 + length (freq_entries (Suc i) fs), Suc cnt + nonzero fs)"
      using 2(3,4) False by (intro 2(1)) auto
    ultimately show ?thesis using False by (simp add: add.commute)
  qed (use 2 in simp)
qed simp

lemma copy_char_freq_table:
  assumes "nonzero cf \<noteq> 0" "nonzero cf < 2 ^ 15"
  shows "copy_char_freq (replicate (2 + 5 * nonzero cf + k) 0) cf =
    Inr (le16 (of_nat (nonzero cf)) @ freq_entries 0 cf @ replicate k 0, 2 + 5 * nonzero cf)"
proof -
  have r: "replicate (2 + 5 * nonzero cf + k) 0 = [0, 0] @ replicate (5 * nonzero cf + k) (0 :: byte)"
    by (simp add: numeral_2_eq_2)
  have "copy_freq_loop 0 cf ([0, 0] @ replicate (5 * nonzero cf + k) 0) 2 0 =
     Some ([0, 0] @ freq_entries 0 cf @ replicate k 0, 2 + 5 * nonzero cf, nonzero cf)"
    using copy_freq_loop_entries [of "[0, 0]" 2 0 cf "5 * nonzero cf + k" 0]
    by (simp add: length_freq_entries)
  moreover have "buf_write ([0, 0] @ freq_entries 0 cf @ replicate k 0) 0 (le16 w) =
     Some (le16 w @ freq_entries 0 cf @ replicate k 0)" for w
    using buf_write_append [of "[]" 0 "[0, 0]" "le16 w"] by simp
  ultimately show ?thesis
    using assms unfolding copy_char_freq_def r by simp
qed

lemma get_freq_loop_entries:
  assumes "length pre = pos" "length xs = i" "i + length fs = 256"
    "\<forall>f \<in> set fs. - (2 ^ 31) \<le> f \<and> f < 2 ^ 31"
  shows "get_freq_loop (nonzero fs) (pre @ freq_entries i fs @ post) pos (xs @ replicate (length fs) 0) =
    Some (xs @ fs, pos + length (freq_entries i fs))"
  using assms
proof (induction fs arbitrary: i pre pos xs)
  case (Cons f fs)
  show ?case
  proof (cases "f = 0")
    case True
    with Cons.IH [of pre pos "xs @ [0]" "Suc i"] Cons.prems show ?thesis by simp
  next
    case False
    let ?e = "of_nat i # le32 (word_of_int f) :: bytes"
    let ?buf = "pre @ ?e @ freq_entries (Suc i) fs @ post"
    have i: "unat (of_nat i :: byte) = i" using Cons.prems(3) by (simp add: unsigned_of_nat take_bit_nat_eq_self)
    have f: "sint (word_of_int f :: 32 word) = f" using Cons.prems(4)
      by (simp add: signed_of_int signed_take_bit_int_eq_self)
    have d: "drop (pos + 1) ?buf = le32 (word_of_int f) @ freq_entries (Suc i) fs @ post"
      using Cons.prems(1) by simp
    have upd: "(xs @ replicate (Suc (length fs)) 0)[i := f] = (xs @ [f]) @ replicate (length fs) 0"
      using Cons.prems(2) by (simp add: list_update_append)
    have "get_freq_loop (nonzero fs) ((pre @ ?e) @ freq_entries (Suc i) fs @ post) (pos + 5)
        ((xs @ [f]) @ replicate (length fs) 0) =
      Some ((xs @ [f]) @ fs, pos + 5 + length (freq_entries (Suc i) fs))"
      using Cons.prems by (intro Cons.IH) auto
    moreover have "?buf ! pos = of_nat i" using Cons.prems(1) by (simp add: nth_append)
    moreover have "get_freq_loop (Suc (nonzero fs)) ?buf pos (xs @ replicate (Suc (length fs)) 0) =
      get_freq_loop (nonzero fs) ?buf (pos + 1 + 4)
        ((xs @ replicate (Suc (length fs)) 0)[unat (?buf ! pos) := sint (of_le32 (drop (pos + 1) ?buf))])"
      using Cons.prems(1) by simp
    ultimately show ?thesis using False Cons.prems(1) i f d upd by (simp add: add.commute add.left_commute)
  qed
qed simp

lemma get_char_freq_table:
  assumes "length cf = 256" "\<forall>f \<in> set cf. - (2 ^ 31) \<le> f \<and> f < 2 ^ 31"
  shows "get_char_freq (le16 (of_nat (nonzero cf)) @ freq_entries 0 cf @ post) =
    Inr (cf, 2 + 5 * nonzero cf, int (nonzero cf))"
proof -
  have "nonzero cf \<le> 256" using assms(1) length_filter_le [of "\<lambda>f. f \<noteq> 0" cf] by simp
  then have "sint (of_nat (nonzero cf) :: 16 word) = int (nonzero cf)"
    by (simp add: signed_of_nat signed_take_bit_int_eq_self)
  then show ?thesis
    using get_freq_loop_entries [of "le16 (of_nat (nonzero cf))" 2 "[]" 0 cf post] assms
    by (simp add: get_char_freq_def length_freq_entries)
qed

section \<open>Round trip\<close>

text \<open>The facts about a text that compression and decompression share.\<close>

lemma freq_of_text:
  fixes input :: bytes
  defines "cf \<equiv> count_chars input (replicate 256 0)"
  assumes "input \<noteq> []" "length input < 2 ^ 31"
  shows "length cf = 256" "\<exists>f \<in> set cf. f \<noteq> 0" "\<forall>f \<in> set cf. - (2 ^ 31) \<le> f \<and> f < 2 ^ 31"
    "\<forall>c \<in> set input. cf ! unat c \<noteq> 0" "nonzero cf \<noteq> 0" "nonzero cf < 2 ^ 15"
    "calc_char_freq (Some input) cf0 = (int (nonzero cf), cf)"
proof -
  show len: "length cf = 256" by (simp add: cf_def)
  have nth: "cf ! i = int (count_list (map unat input) i)" if "i < 256" for i
    using that by (simp add: cf_def count_chars_nth)
  show pos: "\<forall>c \<in> set input. cf ! unat c \<noteq> 0"
  proof
    fix c assume "c \<in> set input"
    then have "unat c \<in> set (map unat input)" by simp
    then show "cf ! unat c \<noteq> 0" by (simp add: nth count_list_0_iff)
  qed
  obtain c where "c \<in> set input" using assms(2) by (cases input) auto
  then show ex: "\<exists>f \<in> set cf. f \<noteq> 0" using pos len by (intro bexI [of _ "cf ! unat c"]) auto
  show "\<forall>f \<in> set cf. - (2 ^ 31) \<le> f \<and> f < 2 ^ 31"
  proof
    fix f assume "f \<in> set cf"
    then obtain i where i: "i < 256" "f = cf ! i" using len by (auto simp: in_set_conv_nth)
    have "count_list (map unat input) i \<le> length input"
      using count_le_length [of "map unat input" i] by simp
    then show "- (2 ^ 31) \<le> f \<and> f < 2 ^ 31" using assms(3) nth [OF i(1)] i(2) by simp
  qed
  show "nonzero cf \<noteq> 0" using ex by (auto simp: filter_empty_conv)
  show "nonzero cf < 2 ^ 15" using length_filter_le [of "\<lambda>f. f \<noteq> 0" cf] len by simp
  show "calc_char_freq (Some input) cf0 = (int (nonzero cf), cf)"
    using assms(2) by (cases input) (simp_all add: calc_char_freq_def cf_def Let_def)
qed

lemma text_codes:
  fixes input :: bytes
  assumes "length cf = 256" "\<exists>f \<in> set cf. f \<noteq> 0" "\<forall>c \<in> set input. cf ! unat c \<noteq> 0"
  obtains b codes where "generate_huffman_tree n (Some cf) = Inr (Some b)" "code_tree (bt_root b)"
    "get_char_codes (Some b) (replicate 256 None) = Some (Inr (0, codes))"
    "\<forall>c \<in> set input. \<exists>p. codes ! unat c = Some p \<and> p \<noteq> [] \<and> (int (unat c), p) \<in> set (code_paths (bt_root b) [])"
    "huffman_loop (n + length (char_leaves 0 n cf)) (char_leaves 0 n cf) = Some (bt_root b)"
proof -
  obtain b where b: "generate_huffman_tree n (Some cf) = Inr (Some b)"
    "code_tree (bt_root b)" "distinct (tree_addrs (bt_root b))" "distinct (leaf_chars (bt_root b))"
    "set (leaf_chars (bt_root b)) = {int c |c. c < 256 \<and> cf ! c \<noteq> 0}"
    "huffman_loop (n + length (char_leaves 0 n cf)) (char_leaves 0 n cf) = Some (bt_root b)"
    by (rule generated_tree [OF assms(1,2)])
  let ?codes = "set_codes (code_paths (bt_root b) []) (replicate 256 None)"
  have "\<exists>p. ?codes ! unat c = Some p \<and> p \<noteq> [] \<and> (int (unat c), p) \<in> set (code_paths (bt_root b) [])"
    if "c \<in> set input" for c
  proof -
    have "int (unat c) \<in> set (leaf_chars (bt_root b))"
      unfolding b(5) using that assms(3) unat_byte_less [of c] by blast
    then obtain p where p: "(int (unat c), p) \<in> set (code_paths (bt_root b) [])"
      using code_paths_total by blast
    have "?codes ! nat (int (unat c)) = Some p" by (rule code_table_lookup [OF b(2,4) p]) simp
    then show ?thesis using p code_tree_walk(2) [OF b(2) p] by (intro exI [of _ p]) simp
  qed
  then show ?thesis
    using that [of b ?codes] b(1,2,6) get_char_codes_tree [OF b(2,3) refl] by blast
qed

lemma generated_paths_eq:
  assumes "huffman_loop (n + length (char_leaves 0 n cf)) (char_leaves 0 n cf) = Some t"
    "huffman_loop (m + length (char_leaves 0 m cf)) (char_leaves 0 m cf) = Some u"
  shows "code_paths t [] = code_paths u []"
proof -
  have "map_option erase (Some t) = map_option erase (Some u)"
    unfolding assms [symmetric]
    by (intro huffman_loop_erase char_leaves_erase char_leaves_not_null)
  then show ?thesis by (metis code_paths_erase option.inject option.map(2))
qed

lemma huffman_encode_stream:
  assumes codes: "\<forall>c \<in> set input. codes ! unat c \<noteq> None"
    and L: "L = length (text_bits input codes)" "L > 0" and pre: "length pre = head"
  shows "\<exists>body. huffman_encode input codes (pre @ replicate (4 + (L + 7) div 8) 0) head =
      Inr (pre @ le32 (of_nat (length input)) @ body, 4 + (L + 7) div 8) \<and>
    length body = (L + 7) div 8 \<and>
    (\<forall>j < L. bit_at (pre @ le32 (of_nat (length input)) @ body) (head + 4) j =
       (text_bits input codes ! j \<noteq> CHR ''0''))"
proof -
  let ?B = "(L + 7) div 8" and ?hdr = "pre @ le32 (of_nat (length input))" and ?P = "head + 4"
  let ?out = "?hdr @ replicate ?B 0"
  have w: "buf_write (pre @ replicate (4 + ?B) 0) head (le32 (of_nat (length input))) = Some ?out"
    using pre by (subst buf_write_zeros) auto
  have "0 + length (text_bits input codes) \<le> 8 * (length ?out - ?P)" "?P \<le> length ?out"
    using pre L by simp_all
  from put_chars_bits [OF codes this(2,1)] obtain out' where
    o: "put_chars input codes ?out (?P + cur_pos 0) (cur_index 0) = Inr (out', ?P + cur_pos (0 + L))"
    "length out' = length ?out" "take ?P out' = take ?P ?out"
    "\<forall>j. bit_at out' ?P j = (if 0 \<le> j \<and> j < 0 + L then text_bits input codes ! (j - 0) \<noteq> CHR ''0''
        else bit_at ?out ?P j)"
    using L(1) by blast
  have cut: "take ?P ?out = ?hdr" using pre by simp
  have out': "out' = ?hdr @ drop ?P out'" using o(3) cut by (metis append_take_drop_id)
  have len: "length (drop ?P out') = ?B" using o(2) pre by simp
  have n: "(?P + cur_pos L) - head + 1 = 4 + ?B"
    using L(2) by (simp add: cur_pos_def)
  have "huffman_encode input codes (pre @ replicate (4 + ?B) 0) head = Inr (out', 4 + ?B)"
    using o(1) n by (simp add: huffman_encode_def w cur_pos_def cur_index_def)
  moreover have "\<forall>j < L. bit_at out' ?P j = (text_bits input codes ! j \<noteq> CHR ''0'')" using o(4) by simp
  ultimately show ?thesis using out' len by (intro exI [of _ "drop ?P out'"]) simp
qed

text \<open>No code is longer than the number of leaves, which bounds the bits of the text.\<close>

lemma text_bits_bound:
  fixes input :: bytes
  assumes cf: "length cf = 256" "\<exists>f \<in> set cf. f \<noteq> 0"
    and t: "code_tree t" "huffman_loop (n + length (char_leaves 0 n cf)) (char_leaves 0 n cf) = Some t"
    and p: "\<forall>c \<in> set input. (int (unat c), the (codes ! unat c)) \<in> set (code_paths t [])"
  shows "length (text_bits input codes) \<le> 256 * length input"
proof -
  obtain b :: btree where b: "distinct (leaf_chars (bt_root b))"
    "set (leaf_chars (bt_root b)) = {int c |c. c < 256 \<and> cf ! c \<noteq> 0}"
    "huffman_loop (n + length (char_leaves 0 n cf)) (char_leaves 0 n cf) = Some (bt_root b)"
    by (rule generated_tree [OF cf, of n]) blast
  have "length (leaf_chars t) = card {int c |c. c < 256 \<and> cf ! c \<noteq> 0}"
    using b t(2) distinct_card [OF b(1)] by simp
  also have "\<dots> \<le> card (int ` {..< 256})"
    by (intro card_mono) auto
  finally have "length (leaf_chars t) \<le> 256"
    by (simp add: card_image)
  then have "\<forall>c \<in> set input. length (the (codes ! unat c)) \<le> 256"
    using code_path_length [OF t(1)] p order_trans by blast
  then show ?thesis
    by (rule text_bits_le)
qed

lemma huffman_compress_output:
  fixes input :: bytes
  defines "cf \<equiv> count_chars input (replicate 256 0)"
  assumes "input \<noteq> []" "length input < 2 ^ 23"
  obtains b t codes body out where "generate_huffman_tree n (Some cf) = Inr (Some b)"
    "get_char_codes (Some b) (replicate 256 None) = Some (Inr (0, codes))"
    "code_bits input codes = Some (of_nat (length (text_bits input codes)))" "code_tree t"
    "huffman_loop (n + length (char_leaves 0 n cf)) (char_leaves 0 n cf) = Some t"
    "\<forall>c \<in> set input. (int (unat c), the (codes ! unat c)) \<in> set (code_paths t [])"
    "out = le16 (of_nat (nonzero cf)) @ freq_entries 0 cf @ le32 (of_nat (length input)) @ body"
    "huffman_compress n (Some input) = Inr (int (length out), Some out)"
    "length body = (length (text_bits input codes) + 7) div 8"
    "\<forall>j < length (text_bits input codes).
       bit_at out (2 + 5 * nonzero cf + 4) j = (text_bits input codes ! j \<noteq> CHR ''0'')"
proof -
  have small: "length input < 2 ^ 31" using assms(3) by simp
  note f = freq_of_text [OF assms(2) small, folded cf_def]
  obtain b codes where b: "generate_huffman_tree n (Some cf) = Inr (Some b)" "code_tree (bt_root b)"
    "get_char_codes (Some b) (replicate 256 None) = Some (Inr (0, codes))"
    and p: "\<forall>c \<in> set input. \<exists>p. codes ! unat c = Some p \<and> p \<noteq> [] \<and>
      (int (unat c), p) \<in> set (code_paths (bt_root b) [])"
    and loop: "huffman_loop (n + length (char_leaves 0 n cf)) (char_leaves 0 n cf) = Some (bt_root b)"
    by (rule text_codes [OF f(1,2,4), of n])
  let ?L = "length (text_bits input codes)" and ?pre = "le16 (of_nat (nonzero cf)) @ freq_entries 0 cf"
  have some: "\<forall>c \<in> set input. codes ! unat c \<noteq> None" using p by fastforce
  have L: "?L > 0" using assms(2) p by (cases input) fastforce+
  have pre: "length ?pre = 2 + 5 * nonzero cf" by (simp add: length_freq_entries)
  from huffman_encode_stream [OF some refl L pre] obtain body where
    e: "huffman_encode input codes (?pre @ replicate (4 + (?L + 7) div 8) 0) (2 + 5 * nonzero cf) =
      Inr (?pre @ le32 (of_nat (length input)) @ body, 4 + (?L + 7) div 8)"
    "length body = (?L + 7) div 8"
    "\<forall>j < ?L. bit_at (?pre @ le32 (of_nat (length input)) @ body) (2 + 5 * nonzero cf + 4) j =
      (text_bits input codes ! j \<noteq> CHR ''0'')" by blast
  define N where "N = 2 + 5 * nonzero cf + (4 + (?L + 7) div 8)"
  have pt: "\<forall>c \<in> set input. (int (unat c), the (codes ! unat c)) \<in> set (code_paths (bt_root b) [])"
    using p by fastforce
  have "?L < 2 ^ 31 - 8"
    using text_bits_bound [OF f(1,2) b(2) loop pt] assms(3) by simp
  moreover have "nonzero cf \<le> 256"
    using f(1) length_filter_le [of "\<lambda>f. f \<noteq> 0" cf] by simp
  ultimately have ol: "get_compress_output_len input cf codes = Inr (int N)"
    using output_len_exact [of ?L "nonzero cf"]
    by (simp only: get_compress_output_len_def code_bits_text [OF some] option.case N_def)
  have cp: "copy_char_freq (replicate N 0) cf = Inr (?pre @ replicate (4 + (?L + 7) div 8) 0, 2 + 5 * nonzero cf)"
    using copy_char_freq_table [OF f(5,6), of "4 + (?L + 7) div 8"] by (simp only: N_def append_assoc)
  let ?out = "?pre @ le32 (of_nat (length input)) @ body"
  have k: "(length input < 1) = False" "(int (nonzero cf) = - 1) = False" "((0 :: int) = - 1) = False"
    "(int (2 + 5 * nonzero cf + (4 + (?L + 7) div 8)) = int N) = True" "length ?out = N" "(int N \<le> 0) = False" "nat (int N) = N"
    using assms(2) e(2) by (simp_all add: N_def length_freq_entries Suc_le_eq)
  have "huffman_compress n (Some input) = Inr (int (length ?out), Some ?out)"
    by (simp only: huffman_compress_def option.case sum.case prod.case k if_False if_True
        f(7) b(1,3) ol cp e(1))
  then show ?thesis
    using that [of b codes "bt_root b" ?out body] b loop pt e(2,3) code_bits_text [OF some] by simp
qed

lemma huffman_decompress_compress:
  fixes input :: bytes
  assumes "input \<noteq> []" "length input < 2 ^ 23"
  shows "\<exists>out. huffman_compress n (Some input) = Inr (int (length out), Some out) \<and>
    of_le16 out \<noteq> 0 \<and> out \<noteq> [] \<and>
    huffman_decompress m (Some out) = Inr (int (length input), Some input)"
proof -
  define cf where "cf = count_chars input (replicate 256 0)"
  have small: "length input < 2 ^ 31" using assms(2) by simp
  note f = freq_of_text [OF assms(1) small, folded cf_def]
  obtain t codes body out where t: "code_tree t"
    "huffman_loop (n + length (char_leaves 0 n cf)) (char_leaves 0 n cf) = Some t"
    "\<forall>c \<in> set input. (int (unat c), the (codes ! unat c)) \<in> set (code_paths t [])"
    and out: "out = le16 (of_nat (nonzero cf)) @ freq_entries 0 cf @ le32 (of_nat (length input)) @ body"
    and comp: "huffman_compress n (Some input) = Inr (int (length out), Some out)"
    and body: "length body = (length (text_bits input codes) + 7) div 8"
    "\<forall>j < length (text_bits input codes).
       bit_at out (2 + 5 * nonzero cf + 4) j = (text_bits input codes ! j \<noteq> CHR ''0'')"
    using huffman_compress_output [OF assms, of n, folded cf_def] by metis
  let ?P = "2 + 5 * nonzero cf + 4"
  obtain b where b: "generate_huffman_tree m (Some cf) = Inr (Some b)" "code_tree (bt_root b)"
    "huffman_loop (m + length (char_leaves 0 m cf)) (char_leaves 0 m cf) = Some (bt_root b)"
    by (rule text_codes [OF f(1,2,4), of m])
  have paths: "\<forall>c \<in> set input. (int (unat c), the (codes ! unat c)) \<in> set (code_paths (bt_root b) [])"
    using t(3) generated_paths_eq [OF t(2) b(3)] by simp
  have freq: "get_char_freq out = Inr (cf, 2 + 5 * nonzero cf, int (nonzero cf))"
    unfolding out by (rule get_char_freq_table [OF f(1,3)])
  have lo: "length out = ?P + length body" by (simp add: out length_freq_entries)
  have dr: "drop (2 + 5 * nonzero cf) out = le32 (of_nat (length input)) @ body"
    by (simp add: out length_freq_entries)
  have il: "sint (of_le32 (drop (2 + 5 * nonzero cf) out)) = int (length input)"
    unfolding dr of_le32_le32 using small by (simp add: signed_of_nat signed_take_bit_int_eq_self)
  have dec: "decode_chars (length input) (bt_root b) out ?P 8 = Inr input"
    using decode_chars_text [OF b(2) _ paths, of ?P out 0] body lo
    by (simp add: cur_pos_def cur_index_def)
  have hd: "huffman_decode (Some b) out ?P (int (length input)) (Some (replicate (length input) 0)) =
      Inr (length input, Some input)"
    using assms(1) code_tree_root [OF b(2)] dec
    by (auto simp: huffman_decode_def buf_write_def not_less Suc_le_eq)
  have k: "(int (nonzero cf) = 0) = False" "(2 + 5 * nonzero cf + 4 \<le> length out) = True"
    "(0 < int (length input)) = True"
    using f(5) lo assms(1) by simp_all
  have "huffman_decompress m (Some out) = Inr (int (length input), Some input)"
    by (simp only: huffman_decompress_def option.case sum.case prod.case Let_def k if_True if_False
        freq b(1) il hd nat_int)
  moreover have "of_le16 out = of_nat (nonzero cf)" by (simp add: out)
  moreover have "(of_nat (nonzero cf) :: 16 word) \<noteq> 0"
  proof
    assume "(of_nat (nonzero cf) :: 16 word) = 0"
    then have "unat (of_nat (nonzero cf) :: 16 word) = 0" by simp
    then show False using f(5,6) by (simp add: unsigned_of_nat take_bit_nat_eq_self)
  qed
  moreover have "out \<noteq> []" using lo by auto
  ultimately show ?thesis using comp by auto
qed

text \<open>
  C28: decompression inverts compression. For every non-empty text shorter than $2^{23}$ bytes, whose
  code bits an \<^verbatim>\<open>int\<close> can count whatever the tree,
  whatever addresses the allocator hands out on either side, \<^const>\<open>huffman_compress\<close> returns
  normally (no assertion fails, no access leaves a buffer, every loop ends) with the length
  of its output, and \<^const>\<open>huffman_decompress\<close> of that output returns the text.
\<close>

theorem huffman_roundtrip:
  fixes input :: bytes
  assumes "input \<noteq> []" "length input < 2 ^ 23"
  shows "\<exists>out. huffman_compress n (Some input) = Inr (int (length out), Some out) \<and>
    huffman_decompress m (Some out) = Inr (int (length input), Some input)"
  using huffman_decompress_compress [OF assms, of n m] by auto

theorem huffman_roundtrip_witness:
  "\<exists>out. huffman_compress 1 (Some [97, 97, 98, 0, 255]) = Inr (int (length out), Some out) \<and>
    huffman_decompress 7 (Some out) = Inr (5, Some [97, 97, 98, 0, 255])"
  using huffman_roundtrip [of "[97, 97, 98, 0, 255]" 1 7] by simp

lemma nonzero_card:
  fixes input :: bytes
  shows "nonzero (count_chars input (replicate 256 0)) = card (set input)"
proof -
  let ?cf = "count_chars input (replicate 256 0)"
  have "nonzero ?cf = card {i. i < 256 \<and> ?cf ! i \<noteq> 0}"
    by (simp add: length_filter_conv_card)
  also have "{i. i < 256 \<and> ?cf ! i \<noteq> 0} = unat ` set input"
    by (auto simp: count_chars_nth count_list_0_iff)
  also have "card (unat ` set input) = card (set input)"
    by (intro card_image inj_onI) (simp add: word_unat_eq_iff)
  finally show ?thesis .
qed

text \<open>
  the size of the compressed text. With the tree and the code table that the code builds,
  the output takes 2 bytes for the character count, 5 per distinct character, 4 for the
  length of the text, and the code bits of the text rounded up to bytes: the value of
  \<^const>\<open>get_compress_output_len\<close>, so the assertion at the end of
  \<^verbatim>\<open>huffman_compress\<close> always holds.
\<close>

theorem huffman_output_size:
  fixes input :: bytes
  assumes "input \<noteq> []" "length input < 2 ^ 23"
  shows "\<exists>b codes bits out.
    generate_huffman_tree n (Some (snd (calc_char_freq (Some input) (replicate 256 0)))) = Inr (Some b) \<and>
    get_char_codes (Some b) (replicate 256 None) = Some (Inr (0, codes)) \<and>
    code_bits input codes = Some (of_nat bits) \<and>
    huffman_compress n (Some input) = Inr (int (length out), Some out) \<and>
    length out = 2 + 5 * card (set input) + 4 + (bits + 7) div 8"
proof -
  define cf where "cf = count_chars input (replicate 256 0)"
  obtain b t codes body out where k: "generate_huffman_tree n (Some cf) = Inr (Some b)"
    "get_char_codes (Some b) (replicate 256 None) = Some (Inr (0, codes))"
    "code_bits input codes = Some (of_nat (length (text_bits input codes)))"
    "out = le16 (of_nat (nonzero cf)) @ freq_entries 0 cf @ le32 (of_nat (length input)) @ body"
    "huffman_compress n (Some input) = Inr (int (length out), Some out)"
    "length body = (length (text_bits input codes) + 7) div 8"
    using huffman_compress_output [OF assms, of n, folded cf_def] by metis
  have "length out = 2 + 5 * card (set input) + 4 + (length (text_bits input codes) + 7) div 8"
    using k(4,6) nonzero_card [of input] by (simp add: length_freq_entries cf_def)
  moreover have "snd (calc_char_freq (Some input) (replicate 256 0)) = cf"
    using freq_of_text(7) [OF assms(1), of "replicate 256 0"] assms(2) by (simp add: cf_def)
  ultimately show ?thesis using k(1,2,3,5) by metis
qed

theorem huffman_output_size_witness:
  "\<exists>bits out. huffman_compress 1 (Some [97, 97, 98]) = Inr (int (length out), Some out) \<and>
    length out = 2 + 5 * 2 + 4 + (bits + 7) div 8"
proof -
  have "card (set [97, 97, 98 :: byte]) = 2" by simp
  then show ?thesis using huffman_output_size [of "[97, 97, 98]" 1] by force
qed

text \<open>
  A text whose codes take $2^{31}$ bits or more (about 256 MiB) wraps the \<^verbatim>\<open>int\<close> counter around: the
  computed length is negative although the text can be coded.
\<close>

lemma compress_output_len_wraps:
  assumes "\<forall>c \<in> set input. codes ! unat c \<noteq> None" "nonzero cf \<le> 256"
    and "2 ^ 31 \<le> length (text_bits input codes)" "length (text_bits input codes) < 2 ^ 32 - 2 ^ 14"
  shows "\<exists>r < 0. get_compress_output_len input cf codes = Inr r"
proof -
  define L where "L = length (text_bits input codes)"
  define k where "k = nonzero cf"
  let ?w = "signed_drop_bit 3 (ALIGN_CEIL (of_nat L :: 32 word) 8)" and ?d = "(int (L + 7) - 2 ^ 32) div 8"
  have s32: "- (2 ^ 31) \<le> x \<Longrightarrow> x < 2 ^ 31 \<Longrightarrow> sint (word_of_int x :: 32 word) = x" for x
    by (simp add: signed_of_int signed_take_bit_int_eq_self)
  have "(of_nat L + 7 :: 32 word) = word_of_int (int (L + 7) - 2 ^ 32)"
    by simp
  moreover have "- (2 ^ 31) \<le> int (L + 7) - 2 ^ 32" "int (L + 7) - 2 ^ 32 < 2 ^ 31"
    using assms(3,4) unfolding L_def [symmetric] by simp_all
  ultimately have "sint (of_nat L + 7 :: 32 word) = int (L + 7) - 2 ^ 32"
    using s32 by metis
  then have "sint ?w = ?d"
    by (simp only: sint_align_ceil drop_bit_eq_div) simp
  then have "of_int (sint ?w) = (word_of_int ?d :: 32 word)"
    by simp
  then have w: "?w = word_of_int ?d"
    by (simp only: of_int_sint scast_id)
  have "- (2 ^ 31) \<le> ?d" "?d \<le> - 2000"
    using assms(3,4) unfolding L_def [symmetric] by simp_all
  moreover have "int (2 + (1 + 4) * k + 4) \<le> 1286" "0 \<le> int (2 + (1 + 4) * k + 4)"
    using assms(2) unfolding k_def [symmetric] by simp_all
  ultimately have "- (2 ^ 31) \<le> int (2 + (1 + 4) * k + 4) + ?d" "int (2 + (1 + 4) * k + 4) + ?d < 0"
    by linarith+
  moreover have "of_nat (2 + (1 + 4) * k + 4) + ?w = word_of_int (int (2 + (1 + 4) * k + 4) + ?d)"
    by (simp only: w of_int_add of_int_of_nat_eq)
  ultimately have "sint (of_nat (2 + (1 + 4) * k + 4) + ?w) < 0"
    using s32 [of "int (2 + (1 + 4) * k + 4) + ?d"] by simp
  then show ?thesis
    using assms(1) by (simp add: get_compress_output_len_def code_bits_text L_def k_def)
qed

section \<open>A bound on the output\<close>

lemma compress_length_bound:
  fixes input :: bytes
  assumes "input \<noteq> []" "length input < 2 ^ 23" "huffman_compress n (Some input) = Inr (r, Some out)"
  shows "length out \<le> 1288 + 32 * length input"
proof -
  define cf where "cf = count_chars input (replicate 256 0)"
  have small: "length input < 2 ^ 31" using assms(2) by simp
  note f = freq_of_text [OF assms(1) small, folded cf_def]
  obtain t codes body out' where t: "code_tree t"
    "huffman_loop (n + length (char_leaves 0 n cf)) (char_leaves 0 n cf) = Some t"
    "\<forall>c \<in> set input. (int (unat c), the (codes ! unat c)) \<in> set (code_paths t [])"
    and o: "out' = le16 (of_nat (nonzero cf)) @ freq_entries 0 cf @ le32 (of_nat (length input)) @ body"
    "huffman_compress n (Some input) = Inr (int (length out'), Some out')"
    "length body = (length (text_bits input codes) + 7) div 8"
    using huffman_compress_output [OF assms(1,2), of n, folded cf_def] by metis
  have "length (text_bits input codes) \<le> 256 * length input"
    by (rule text_bits_bound [OF f(1,2) t])
  moreover have "nonzero cf \<le> 256"
    using f(1) length_filter_le [of "\<lambda>f. f \<noteq> 0" cf] by simp
  ultimately show ?thesis
    using o assms(3) by (simp add: length_freq_entries)
qed

end
