(* ===== verification/Sftt_Encode.thy ===== *)
theory Sftt_Encode
  imports Sftt_Compress
begin

text \<open>
  The buffer codec of \<^verbatim>\<open>src/src/encode.c\<close>: compression and encryption of a packet's bytes.
  A result is the return value and \<^verbatim>\<open>*output\<close>. The numbers \<open>n\<close> are the first addresses the
  allocator gives to the nodes of a Huffman tree.
\<close>

section \<open>encode.c\<close>

text \<open>The assertion on the first \<^verbatim>\<open>short\<close> of a compressed buffer, read through \<^verbatim>\<open>*output\<close>.\<close>

definition assert_char_count :: "bytes option \<Rightarrow> c_fault + bytes" where
  "assert_char_count output =
     (case output of
        None \<Rightarrow> Inl Null_dereference
      | Some out \<Rightarrow>
          if length out < 2 then Inl Out_of_bounds
          else if of_le16 out = 0 then Inl Assertion_failed
          else Inr out)"

definition sftt_buffer_encode ::
    "ptr \<Rightarrow> bytes \<Rightarrow> bool \<Rightarrow> bool \<Rightarrow> c_fault + int \<times> bytes option" where
  "sftt_buffer_encode n input zip_it crypt =
     (if length input = 0 then Inr (0, None)
      else if zip_it then
        (case huffman_compress n (Some input) of
           Inl e \<Rightarrow> Inl e
         | Inr (output_len, output) \<Rightarrow>
             (case assert_char_count output of
                Inl e \<Rightarrow> Inl e
              | Inr out \<Rightarrow> Inr (output_len, Some (if crypt then sftt_encrypt_func out else out))))
      else if crypt then
        Inr (int (length input), Some (sftt_encrypt_func (replicate (length input) 0)))
      else Inr (int (length input), Some input))"

definition sftt_buffer_decode ::
    "ptr \<Rightarrow> bytes \<Rightarrow> bool \<Rightarrow> bool \<Rightarrow> c_fault + int \<times> bytes option" where
  "sftt_buffer_decode n input unzip decrypt =
     (if length input = 0 then Inr (0, None)
      else if decrypt then
        (let tmp = sftt_decrypt_func input in
         if unzip then
           (case assert_char_count (Some tmp) of
              Inl e \<Rightarrow> Inl e
            | Inr tmp' \<Rightarrow> huffman_decompress n (Some tmp'))
         else Inr (int (length input), Some tmp))
      else if unzip then
        (case assert_char_count (Some input) of
           Inl e \<Rightarrow> Inl e
         | Inr input' \<Rightarrow> huffman_decompress n (Some input'))
      else Inr (int (length input), Some input))"

section \<open>The codec interface\<close>

text \<open>
  What the packet layer relies on: encoding a buffer of the allowed sizes returns normally with
  a non-empty output of the returned length, and decoding that output gives the buffer back.
\<close>

locale buffer_codec =
  fixes encode :: "bytes \<Rightarrow> c_fault + int \<times> bytes option"
    and decode :: "bytes \<Rightarrow> c_fault + int \<times> bytes option"
    and ok :: "bytes \<Rightarrow> bool"
  assumes encode_ok: "ok b \<Longrightarrow> \<exists>out. encode b = Inr (int (length out), Some out) \<and> out \<noteq> [] \<and>
    decode out = Inr (int (length b), Some b)"
begin

lemma encode_len: "ok b \<Longrightarrow> encode b = Inr (r, Some out) \<Longrightarrow> r = int (length out) \<and> 0 < r"
  using encode_ok [of b] by auto

lemma decode_encode: "ok b \<Longrightarrow> encode b = Inr (r, Some out) \<Longrightarrow> decode out = Inr (int (length b), Some b)"
  using encode_ok [of b] by auto

lemma encode_inj: "ok a \<Longrightarrow> ok b \<Longrightarrow> encode a = encode b \<Longrightarrow> a = b"
  using encode_ok [of a] encode_ok [of b] by auto

end

definition codec_ok :: "bytes \<Rightarrow> bool" where
  "codec_ok b \<longleftrightarrow> b \<noteq> [] \<and> length b < 2 ^ 23"

lemma encode_zip:
  assumes "codec_ok b"
  shows "\<exists>out. sftt_buffer_encode n b True c = Inr (int (length out), Some out) \<and> out \<noteq> [] \<and>
    sftt_buffer_decode m out True c = Inr (int (length b), Some b)"
proof -
  obtain out where out: "huffman_compress n (Some b) = Inr (int (length out), Some out)"
    "of_le16 out \<noteq> 0" "out \<noteq> []" "huffman_decompress m (Some out) = Inr (int (length b), Some b)"
    using huffman_decompress_compress [of b n m] assms by (auto simp: codec_ok_def)
  have "2 \<le> length out" using out(2) by (cases out rule: of_le16.cases) auto
  then have a: "assert_char_count (Some out) = Inr out" using out(2) by (simp add: assert_char_count_def)
  let ?o = "if c then sftt_encrypt_func out else out"
  have "sftt_buffer_encode n b True c = Inr (int (length ?o), Some ?o)"
    using assms out(1) a by (simp add: sftt_buffer_encode_def codec_ok_def)
  moreover have "sftt_buffer_decode m ?o True c = Inr (int (length b), Some b)"
    using out(3,4) a by (auto simp: sftt_buffer_decode_def Let_def)
  moreover have "?o \<noteq> []" using out(3) by simp
  ultimately show ?thesis by blast
qed

text \<open>The three modes that carry the data, each with its own instance of the interface.\<close>

interpretation packed: buffer_codec
  "\<lambda>b. sftt_buffer_encode n b True True" "\<lambda>b. sftt_buffer_decode m b True True" codec_ok for n m
  by unfold_locales (rule encode_zip)

interpretation zipped: buffer_codec
  "\<lambda>b. sftt_buffer_encode n b True False" "\<lambda>b. sftt_buffer_decode m b True False" codec_ok for n m
  by unfold_locales (rule encode_zip)

interpretation plain: buffer_codec
  "\<lambda>b. sftt_buffer_encode n b False False" "\<lambda>b. sftt_buffer_decode m b False False" codec_ok for n m
  by unfold_locales (auto simp: codec_ok_def sftt_buffer_encode_def sftt_buffer_decode_def)

lemma encode_zip_bound:
  assumes "codec_ok b" "sftt_buffer_encode n b True c = Inr (r, Some out)"
  shows "length out \<le> 1288 + 32 * length b"
proof -
  obtain z where z: "huffman_compress n (Some b) = Inr (int (length z), Some z)"
    using huffman_decompress_compress [of b n n] assms(1) by (auto simp: codec_ok_def)
  then have "length out = length z"
    using assms by (auto simp: sftt_buffer_encode_def codec_ok_def split: sum.splits if_splits)
      (auto simp: assert_char_count_def split: if_splits)
  then show ?thesis
    using compress_length_bound [OF _ _ z] assms(1) by (simp add: codec_ok_def)
qed

section \<open>Properties\<close>

text \<open>
  C29: the packet codec with compression and encryption, as \<^verbatim>\<open>net_trans.c\<close> calls it for the
  content of a packet. For a non-empty buffer shorter than $2^{23}$ bytes the encoder returns normally
  with the length of its non-empty output, whatever addresses the allocator hands out, and the decoder
  gives the buffer back.
\<close>

theorem buffer_codec_roundtrip:
  assumes "b \<noteq> []" "length b < 2 ^ 23"
  shows "\<exists>out. sftt_buffer_encode n b True True = Inr (int (length out), Some out) \<and> out \<noteq> [] \<and>
    sftt_buffer_decode m out True True = Inr (int (length b), Some b)"
  using assms by (intro packed.encode_ok) (simp add: codec_ok_def)

theorem buffer_codec_roundtrip_witness:
  "\<exists>out. sftt_buffer_encode 1 [1, 2, 3] True True = Inr (int (length out), Some out) \<and> out \<noteq> [] \<and>
    sftt_buffer_decode 1 out True True = Inr (3, Some [1, 2, 3])"
  using buffer_codec_roundtrip [of "[1, 2, 3]" 1 1] by simp

text \<open>
  Without compression the encryption mode drops the data: it encrypts the freshly cleared
  output buffer, and the input only contributes its length. Two buffers of the same length
  encode alike, and the decoder returns zeros.
\<close>

theorem crypt_only_loses_data:
  assumes "b \<noteq> []"
  shows "\<exists>out. sftt_buffer_encode n b False True = Inr (int (length b), Some out) \<and>
    sftt_buffer_decode m out False True = Inr (int (length b), Some (replicate (length b) 0))"
  using assms
  by (intro exI [of _ "sftt_encrypt_func (replicate (length b) 0)"])
    (auto simp: sftt_buffer_encode_def sftt_buffer_decode_def Let_def)

theorem crypt_only_loses_data_witness:
  "\<exists>out. sftt_buffer_encode 1 [7, 8] False True = Inr (2, Some out) \<and>
    sftt_buffer_decode 1 out False True = Inr (2, Some [0, 0])"
  using crypt_only_loses_data [of "[7, 8]" 1 1] by (simp add: numeral_2_eq_2)

end
