(* ===== verification/Sftt_Mem_Pool.thy ===== *)
theory Sftt_Mem_Pool
  imports Sftt_Prelude
begin

text \<open>
  The memory pool (\<^verbatim>\<open>src/src/mem_pool.c\<close>, \<^verbatim>\<open>src/include/mem_pool.h\<close>): a cache of blocks
  obtained from \<^verbatim>\<open>malloc\<close>, reused best-fit, with usage statistics and a count of live blocks
  per purpose. Every other component takes its objects from it.

  The global state of the C file is the record \<open>pool\<close>: the pointer \<^verbatim>\<open>g_mp\<close>, the intrusive lists
  \<^verbatim>\<open>mem_nodes\<close> and \<^verbatim>\<open>purposes\<close> (front first, so that \<^verbatim>\<open>list_add\<close> is a cons), the flag
  \<^verbatim>\<open>updated\<close>, and the C heap underneath. The build options are those of
  \<^verbatim>\<open>include/autoconf.h\<close>: \<^verbatim>\<open>CONFIG_MP_STAT_DEBUG\<close> is not set, and \<^verbatim>\<open>CONFIG_MP_FREE_DEBUG\<close>
  only adds log lines. The results are: the invariant that ties the statistics and the purpose
  counts to the nodes is kept by every operation, allocation returns a zeroed block that is not in
  use elsewhere, best fit, and that a freed block can be had again.
\<close>

section \<open>The C heap\<close>

text \<open>
  \<^verbatim>\<open>malloc\<close> and \<^verbatim>\<open>free\<close> of the C library: an allocation succeeds while memory is available and
  then returns an address that was never returned before; the contents of a new block are
  arbitrary (\<open>garbage\<close>).
\<close>

record c_heap =
  brk :: nat
  avail :: nat
  garbage :: byte
  block :: "ptr \<Rightarrow> bytes"

definition malloc :: "nat \<Rightarrow> c_heap \<Rightarrow> ptr \<times> c_heap" where
  "malloc n h =
     (if n \<le> avail h
      then (brk h, h\<lparr>brk := brk h + n + 1, avail := avail h - n,
                     block := (block h)(brk h := replicate n (garbage h))\<rparr>)
      else (NULL, h))"

definition c_free :: "ptr \<Rightarrow> c_heap \<Rightarrow> c_heap" where
  "c_free a h =
     (if a = NULL then h
      else h\<lparr>avail := avail h + length (block h a), block := (block h)(a := [])\<rparr>)"

definition bzero :: "ptr \<Rightarrow> nat \<Rightarrow> c_heap \<Rightarrow> c_heap" where
  "bzero a n h = h\<lparr>block := (block h)(a := replicate n 0 @ drop n (block h a))\<rparr>"

definition memcpy :: "ptr \<Rightarrow> ptr \<Rightarrow> nat \<Rightarrow> c_heap \<Rightarrow> c_fault + c_heap" where
  "memcpy dst src n h =
     (if n \<le> length (block h src) \<and> n \<le> length (block h dst)
      then Inr (h\<lparr>block := (block h)(dst := take n (block h src) @ drop n (block h dst))\<rparr>)
      else Inl Out_of_bounds)"

section \<open>Data\<close>

record mem_node =
  mn_self :: ptr
  mn_size :: nat
  is_using :: bool
  mn_address :: ptr
  mn_purpose :: string
  used_cnt :: "64 word"

record mem_pool_stat =
  total_size :: "64 word"
  total_nodes :: "32 word"
  using_nodes :: "32 word"
  free_nodes :: "32 word"

record purpose_node =
  pn_self :: ptr
  pn_purpose :: string
  pn_count :: "32 word"

record batch_reserved =
  br_purpose :: string
  br_size :: nat
  br_count :: nat

text \<open>
  The mutex is \<open>Some ok\<close> while it exists, \<open>ok\<close> saying whether \<^verbatim>\<open>pthread_mutex_lock\<close> returns
  0, and \<open>None\<close> once \<^verbatim>\<open>mp_destroy\<close> has freed it.
\<close>

record mem_pool =
  mp_nodes :: ptr
  mp_mutex :: "bool option"
  mp_stat :: mem_pool_stat

record pool =
  g_mp :: "mem_pool option"
  mem_nodes :: "mem_node list"
  purposes :: "purpose_node list"
  updated :: bool
  libc :: c_heap

record using_node =
  un_purpose :: "string option"
  un_count :: "32 word"

record mem_pool_using_detail =
  node_count :: "32 word"
  ud_nodes :: ptr
  ud_array :: "using_node list"

definition sizeof_mem_node :: nat where "sizeof_mem_node = 56"
definition sizeof_purpose_node :: nat where "sizeof_purpose_node = 32"
definition sizeof_mem_pool :: nat where "sizeof_mem_pool = 56"
definition sizeof_pthread_mutex :: nat where "sizeof_pthread_mutex = 48"
definition sizeof_using_node :: nat where "sizeof_using_node = 16"
definition sizeof_using_detail :: nat where "sizeof_using_detail = 16"

lemmas pool_sizes =
  sizeof_mem_node_def sizeof_purpose_node_def sizeof_mem_pool_def sizeof_pthread_mutex_def
  sizeof_using_node_def sizeof_using_detail_def

section \<open>Operations\<close>

definition mp_lock :: "mem_pool \<Rightarrow> c_fault + bool" where
  "mp_lock mp = (case mp_mutex mp of None \<Rightarrow> Inl Use_after_free | Some ok \<Rightarrow> Inr ok)"

definition purpose_node_create :: "string \<Rightarrow> c_heap \<Rightarrow> (purpose_node \<times> c_heap) option" where
  "purpose_node_create purpose h =
     (let (p, h1) = malloc sizeof_purpose_node h in
      if p = NULL then None
      else Some (\<lparr>pn_self = p, pn_purpose = purpose, pn_count = 0\<rparr>, h1))"

definition mem_node_create :: "nat \<Rightarrow> c_heap \<Rightarrow> (mem_node \<times> c_heap) option" where
  "mem_node_create sz h =
     (let (p, h1) = malloc sizeof_mem_node h in
      if p = NULL then None
      else
        let (a, h2) = malloc sz h1 in
        if a = NULL then None
        else Some (\<lparr>mn_self = p, mn_size = sz, is_using = False, mn_address = a,
                    mn_purpose = [], used_cnt = 0\<rparr>, h2))"

fun find_purpose_in :: "string \<Rightarrow> purpose_node list \<Rightarrow> purpose_node option" where
  "find_purpose_in q [] = None"
| "find_purpose_in q (p # ps) = (if pn_purpose p = q then Some p else find_purpose_in q ps)"

definition find_purpose :: "pool \<Rightarrow> string \<Rightarrow> purpose_node option" where
  "find_purpose s q = find_purpose_in q (purposes s)"

definition upd_purpose ::
  "ptr \<Rightarrow> (purpose_node \<Rightarrow> purpose_node) \<Rightarrow> purpose_node list \<Rightarrow> purpose_node list" where
  "upd_purpose a f ps = map (\<lambda>p. if pn_self p = a then f p else p) ps"

definition add_purpose :: "string \<Rightarrow> pool \<Rightarrow> c_fault + pool" where
  "add_purpose q s =
     (case find_purpose s q of
        None \<Rightarrow>
          (case purpose_node_create q (libc s) of
             None \<Rightarrow> Inl Null_dereference
           | Some (p, h) \<Rightarrow> Inr (s\<lparr>purposes := p\<lparr>pn_count := 1\<rparr> # purposes s, libc := h\<rparr>))
      | Some p \<Rightarrow>
          Inr (s\<lparr>purposes := upd_purpose (pn_self p) (\<lambda>p. p\<lparr>pn_count := pn_count p + 1\<rparr>)
                               (purposes s)\<rparr>))"

definition sub_purpose :: "string \<Rightarrow> pool \<Rightarrow> c_fault + pool" where
  "sub_purpose q s =
     (case find_purpose s q of
        None \<Rightarrow> Inr s
      | Some p \<Rightarrow>
          if \<not> 0 <s pn_count p then Inl Assertion_failed
          else if pn_count p - 1 = 0
          then Inr (s\<lparr>purposes := filter (\<lambda>r. pn_self r \<noteq> pn_self p) (purposes s),
                      libc := c_free (pn_self p) (libc s)\<rparr>)
          else Inr (s\<lparr>purposes := upd_purpose (pn_self p) (\<lambda>p. p\<lparr>pn_count := pn_count p - 1\<rparr>)
                                    (purposes s)\<rparr>))"

text \<open>The search loop of \<^verbatim>\<open>mp_malloc\<close>; the accumulator is its variable \<^verbatim>\<open>m_node\<close>.\<close>

fun best_fit :: "nat \<Rightarrow> mem_node option \<Rightarrow> mem_node list \<Rightarrow> mem_node option" where
  "best_fit n m [] = m"
| "best_fit n m (p # ps) =
     (if is_using p \<or> mn_size p < n then best_fit n m ps
      else case m of
        None \<Rightarrow> best_fit n (Some p) ps
      | Some q \<Rightarrow> if mn_size p < mn_size q then best_fit n (Some p) ps else best_fit n m ps)"

definition upd_node :: "ptr \<Rightarrow> (mem_node \<Rightarrow> mem_node) \<Rightarrow> mem_node list \<Rightarrow> mem_node list" where
  "upd_node a f ns = map (\<lambda>m. if mn_self m = a then f m else m) ns"

definition upd_stat :: "(mem_pool_stat \<Rightarrow> mem_pool_stat) \<Rightarrow> pool \<Rightarrow> pool" where
  "upd_stat f s = s\<lparr>g_mp := map_option (\<lambda>mp. mp\<lparr>mp_stat := f (mp_stat mp)\<rparr>) (g_mp s)\<rparr>"

text \<open>The tail of \<^verbatim>\<open>mp_malloc\<close>, from \<^verbatim>\<open>m_node->is_using = 1\<close> on.\<close>

definition mp_use_node :: "string \<Rightarrow> nat \<Rightarrow> mem_node \<Rightarrow> pool \<Rightarrow> c_fault + ptr \<times> pool" where
  "mp_use_node purpose n m s =
     (let s1 = s\<lparr>mem_nodes := upd_node (mn_self m)
                   (\<lambda>m. m\<lparr>is_using := True, used_cnt := used_cnt m + 1, mn_purpose := purpose\<rparr>)
                   (mem_nodes s),
                 updated := True\<rparr>;
          s2 = upd_stat (\<lambda>t. t\<lparr>using_nodes := using_nodes t + 1\<rparr>) s1
      in sbind (add_purpose purpose s2) (\<lambda>s3.
         Inr (mn_address m, s3\<lparr>libc := bzero (mn_address m) n (libc s3)\<rparr>)))"

definition mp_add_node :: "nat \<Rightarrow> mem_node \<Rightarrow> c_heap \<Rightarrow> pool \<Rightarrow> pool" where
  "mp_add_node n m h s =
     s\<lparr>g_mp := map_option (\<lambda>mp. mp\<lparr>
           mp_nodes := (if mem_nodes s = [] then mn_self m else mp_nodes mp),
           mp_stat := (mp_stat mp)\<lparr>total_nodes := total_nodes (mp_stat mp) + 1,
                                   total_size := total_size (mp_stat mp) + of_nat n\<rparr>\<rparr>) (g_mp s),
       mem_nodes := m # mem_nodes s, libc := h\<rparr>"

definition mp_malloc :: "string \<Rightarrow> nat \<Rightarrow> pool \<Rightarrow> c_fault + ptr \<times> pool" where
  "mp_malloc purpose n s =
     (case g_mp s of
        None \<Rightarrow> Inr (NULL, s)
      | Some mp \<Rightarrow>
          if n = 0 then Inr (NULL, s)
          else sbind (mp_lock mp) (\<lambda>ok.
            if \<not> ok then Inr (NULL, s)
            else case best_fit n None (mem_nodes s) of
                None \<Rightarrow>
                  (case mem_node_create n (libc s) of
                     None \<Rightarrow> Inr (NULL, s)
                   | Some (m, h) \<Rightarrow> mp_use_node purpose n m (mp_add_node n m h s))
              | Some m \<Rightarrow>
                  mp_use_node purpose n m
                    (upd_stat (\<lambda>t. t\<lparr>free_nodes := free_nodes t - 1\<rparr>) s)))"

fun find_node :: "ptr \<Rightarrow> mem_node list \<Rightarrow> mem_node option" where
  "find_node a [] = None"
| "find_node a (m # ms) = (if mn_address m = a then Some m else find_node a ms)"

definition mp_free :: "ptr \<Rightarrow> pool \<Rightarrow> c_fault + pool" where
  "mp_free p s =
     (case g_mp s of
        None \<Rightarrow> Inr s
      | Some mp \<Rightarrow>
          if p = NULL then Inr s
          else sbind (mp_lock mp) (\<lambda>ok.
            if \<not> ok then Inr s
            else case find_node p (mem_nodes s) of
                None \<Rightarrow> Inr s
              | Some m \<Rightarrow>
                  if \<not> is_using m then Inr s
                  else sub_purpose (mn_purpose m)
                    (upd_stat (\<lambda>t. t\<lparr>free_nodes := free_nodes t + 1,
                                     using_nodes := using_nodes t - 1\<rparr>)
                      (s\<lparr>mem_nodes := upd_node (mn_self m) (\<lambda>m. m\<lparr>is_using := False\<rparr>)
                                       (mem_nodes s)\<rparr>))))"

definition mp_realloc :: "ptr \<Rightarrow> nat \<Rightarrow> pool \<Rightarrow> c_fault + ptr \<times> pool" where
  "mp_realloc addr n s =
     (case g_mp s of
        None \<Rightarrow> Inl Null_dereference
      | Some mp \<Rightarrow>
          sbind (mp_lock mp) (\<lambda>ok.
            if \<not> ok then Inr (NULL, s)
            else case find_node addr (mem_nodes s) of
                None \<Rightarrow> Inr (NULL, s)
              | Some p \<Rightarrow>
                  sbind (mp_malloc ''mp_realloc'' n s) (\<lambda>(tmp, s1).
                    if tmp = NULL then Inr (NULL, s1)
                    else sbind (memcpy tmp addr (if n < mn_size p then n else mn_size p) (libc s1))
                      (\<lambda>h. sbind (mp_free addr (s1\<lparr>libc := h\<rparr>)) (\<lambda>s2. Inr (tmp, s2))))))"

text \<open>
  The release loop of \<^verbatim>\<open>mp_destroy\<close> advances through \<^verbatim>\<open>m_node->list.next\<close> after
  \<^verbatim>\<open>free(m_node)\<close>, an access to freed memory as soon as there is a node.
\<close>

definition mp_destroy :: "pool \<Rightarrow> c_fault + pool" where
  "mp_destroy s =
     (case g_mp s of
        None \<Rightarrow> Inr s
      | Some mp \<Rightarrow>
          if list_ex is_using (mem_nodes s) then Inr s
          else if mem_nodes s \<noteq> [] then Inl Use_after_free
          else Inr (s\<lparr>g_mp := Some (mp\<lparr>mp_mutex := None\<rparr>)\<rparr>))"

definition mem_pool_del :: "pool \<Rightarrow> c_fault + pool" where
  "mem_pool_del s =
     (case g_mp s of
        None \<Rightarrow> Inr s
      | Some mp \<Rightarrow> sbind (mp_destroy s) (\<lambda>s1. Inr (s1\<lparr>g_mp := None\<rparr>)))"

definition mp_node_cnt :: "pool \<Rightarrow> 32 word" where
  "mp_node_cnt s =
     (case g_mp s of None \<Rightarrow> 0 | Some mp \<Rightarrow> fold (\<lambda>m num. num + 1) (mem_nodes s) 0)"

definition mp_valid :: "pool \<Rightarrow> bool" where
  "mp_valid s = (case g_mp s of None \<Rightarrow> False | Some mp \<Rightarrow> mp_nodes mp \<noteq> NULL)"

definition mp_size :: "pool \<Rightarrow> 32 word" where
  "mp_size s =
     (case g_mp s of None \<Rightarrow> 0
      | Some mp \<Rightarrow> fold (\<lambda>m sum. sum + of_nat (mn_size m)) (mem_nodes s) 0)"

definition get_mp_stat :: "pool \<Rightarrow> mem_pool_stat \<Rightarrow> mem_pool_stat" where
  "get_mp_stat s stat =
     (case g_mp s of
        None \<Rightarrow> stat
      | Some mp \<Rightarrow>
          stat\<lparr>total_size := total_size (mp_stat mp), total_nodes := total_nodes (mp_stat mp),
               using_nodes := using_nodes (mp_stat mp), free_nodes := free_nodes (mp_stat mp)\<rparr>)"

definition get_purpose_count :: "pool \<Rightarrow> c_fault + 32 word" where
  "get_purpose_count s =
     (case g_mp s of
        None \<Rightarrow> Inr 0
      | Some mp \<Rightarrow>
          sbind (mp_lock mp) (\<lambda>ok.
            if \<not> ok then Inr 0 else Inr (fold (\<lambda>p count. count + 1) (purposes s) 0)))"

text \<open>The loop of \<^verbatim>\<open>get_mp_stat_detail\<close> that fills the array \<^verbatim>\<open>detail->nodes\<close> from index \<open>i\<close>.\<close>

fun fill_detail :: "nat \<Rightarrow> purpose_node list \<Rightarrow> using_node list \<Rightarrow> c_fault + using_node list" where
  "fill_detail i [] arr = Inr arr"
| "fill_detail i (p # ps) arr =
     (if i < length arr
      then fill_detail (Suc i) ps
             (arr[i := \<lparr>un_purpose = Some (pn_purpose p), un_count = pn_count p\<rparr>])
      else Inl Out_of_bounds)"

definition get_mp_stat_detail ::
  "pool \<Rightarrow> c_fault + (ptr \<times> mem_pool_using_detail) option \<times> pool" where
  "get_mp_stat_detail s =
     (case g_mp s of
        None \<Rightarrow> Inr (None, s)
      | Some mp \<Rightarrow>
          sbind (mp_malloc ''get_mp_stat_detail_struct'' sizeof_using_detail s) (\<lambda>(detail, s1).
            if detail = NULL then Inr (None, s1)
            else sbind (get_purpose_count s1) (\<lambda>count.
              if count \<le>s 0
              then Inr (Some (detail, \<lparr>node_count = count, ud_nodes = NULL, ud_array = []\<rparr>), s1)
              else sbind (mp_malloc ''get_mp_stat_detail_nodes''
                            (sizeof_using_node * unat (count + 1)) s1) (\<lambda>(nodes, s2).
                if nodes = NULL
                then sbind (mp_free detail s2) (\<lambda>s3. Inr (None, s3))
                else sbind (mp_lock mp) (\<lambda>ok.
                  if \<not> ok then Inr (None, s2)
                  else sbind (fill_detail 0 (purposes s2)
                         (replicate (unat (count + 1)) \<lparr>un_purpose = None, un_count = 0\<rparr>)) (\<lambda>arr.
                    Inr (Some (detail,
                         \<lparr>node_count = count + 1, ud_nodes = nodes, ud_array = arr\<rparr>), s2)))))))"

text \<open>
  \<^verbatim>\<open>do_reserve\<close> allocates and at once frees each reserved block. The flag returned by the inner
  loop is the variable \<^verbatim>\<open>cont\<close>.
\<close>

fun reserve_batch :: "string \<Rightarrow> nat \<Rightarrow> nat \<Rightarrow> pool \<Rightarrow> c_fault + bool \<times> pool" where
  "reserve_batch purpose sz 0 s = Inr (True, s)"
| "reserve_batch purpose sz (Suc k) s =
     sbind (mp_malloc purpose sz s) (\<lambda>(p, s1).
       if p = NULL then Inr (False, s1)
       else sbind (mp_free p s1) (\<lambda>s2. reserve_batch purpose sz k s2))"

fun reserve_all :: "batch_reserved list \<Rightarrow> pool \<Rightarrow> c_fault + pool" where
  "reserve_all [] s = Inr s"
| "reserve_all (r # rs) s =
     sbind (reserve_batch (br_purpose r) (br_size r) (br_count r) s) (\<lambda>(cont, s1).
       if cont then reserve_all rs s1 else Inr s1)"

definition do_reserve :: "batch_reserved list \<Rightarrow> pool \<Rightarrow> c_fault + pool" where
  "do_reserve reserveds s =
     (case g_mp s of None \<Rightarrow> Inr s | Some mp \<Rightarrow> reserve_all reserveds s)"

definition pthread_mutex_construct :: "c_heap \<Rightarrow> c_fault + c_heap" where
  "pthread_mutex_construct h =
     (let (pm, h1) = malloc sizeof_pthread_mutex h in
      if pm = NULL then Inl Assertion_failed else Inr h1)"

definition mp_create :: "batch_reserved list \<Rightarrow> pool \<Rightarrow> c_fault + mem_pool option \<times> pool" where
  "mp_create reserveds s =
     (let (p, h) = malloc sizeof_mem_pool (libc s) in
      if p = NULL then Inr (None, s\<lparr>libc := h\<rparr>)
      else sbind (pthread_mutex_construct h) (\<lambda>h2.
        sbind (do_reserve reserveds (s\<lparr>libc := h2\<rparr>)) (\<lambda>s1.
          Inr (Some \<lparr>mp_nodes = NULL, mp_mutex = Some True,
                     mp_stat = \<lparr>total_size = 0, total_nodes = 0, using_nodes = 0,
                                free_nodes = 0\<rparr>\<rparr>, s1))))"

definition get_singleton_mp :: "batch_reserved list \<Rightarrow> pool \<Rightarrow> c_fault + pool" where
  "get_singleton_mp reserveds s =
     (case g_mp s of
        Some mp \<Rightarrow> Inr s
      | None \<Rightarrow> sbind (mp_create reserveds s) (\<lambda>(mp, s1). Inr (s1\<lparr>g_mp := mp\<rparr>)))"

section \<open>Invariant\<close>

text \<open>
  The number of live nodes of a purpose, and the live blocks as a map from addresses: the view of
  the pool its clients have.
\<close>

definition users :: "string \<Rightarrow> mem_node list \<Rightarrow> nat" where
  "users q ns = length (filter (\<lambda>m. is_using m \<and> mn_purpose m = q) ns)"

definition live :: "pool \<Rightarrow> ptr \<Rightarrow> (string \<times> nat) option" where
  "live s = map_of (map (\<lambda>m. (mn_address m, (mn_purpose m, mn_size m)))
                        (filter is_using (mem_nodes s)))"

definition stat_ok :: "mem_pool_stat \<Rightarrow> mem_node list \<Rightarrow> bool" where
  "stat_ok t ns \<longleftrightarrow>
     total_nodes t = of_nat (length ns)
   \<and> total_size t = of_nat (sum_list (map mn_size ns))
   \<and> using_nodes t = of_nat (length (filter is_using ns))
   \<and> free_nodes t = of_nat (length (filter (\<lambda>m. \<not> is_using m) ns))"

definition purposes_ok :: "purpose_node list \<Rightarrow> mem_node list \<Rightarrow> bool" where
  "purposes_ok ps ns \<longleftrightarrow>
     distinct (map pn_purpose ps)
   \<and> (\<forall>p \<in> set ps. 0 < users (pn_purpose p) ns
                  \<and> pn_count p = of_nat (users (pn_purpose p) ns))
   \<and> (\<forall>q. 0 < users q ns \<longrightarrow> q \<in> pn_purpose ` set ps)"

definition blocks_ok :: "mem_node list \<Rightarrow> purpose_node list \<Rightarrow> c_heap \<Rightarrow> bool" where
  "blocks_ok ns ps h \<longleftrightarrow>
     distinct (map mn_self ns @ map mn_address ns @ map pn_self ps)
   \<and> (\<forall>a \<in> set (map mn_self ns @ map mn_address ns @ map pn_self ps). 0 < a \<and> a < brk h)
   \<and> (\<forall>m \<in> set ns. length (block h (mn_address m)) = mn_size m \<and> 0 < mn_size m)
   \<and> (\<forall>p \<in> set ps. length (block h (pn_self p)) = sizeof_purpose_node)
   \<and> 0 < brk h"

text \<open>
  The memory budget: all the memory there is, in use by the pool or available, is at most 64 GiB.
  It bounds the number of nodes below \<open>2\<^sup>31\<close>, so that the purpose counters, which are
  \<^verbatim>\<open>int\<close>s, stay positive.
\<close>

definition budget :: "mem_node list \<Rightarrow> purpose_node list \<Rightarrow> c_heap \<Rightarrow> nat" where
  "budget ns ps h =
     avail h + sum_list (map (\<lambda>m. sizeof_mem_node + mn_size m) ns) + sizeof_purpose_node * length ps"

definition pool_ok :: "pool \<Rightarrow> bool" where
  "pool_ok s \<longleftrightarrow>
     (case g_mp s of
        None \<Rightarrow> False
      | Some mp \<Rightarrow>
          mp_mutex mp = Some True \<and> stat_ok (mp_stat mp) (mem_nodes s)
        \<and> (mp_nodes mp \<noteq> NULL \<longleftrightarrow> mem_nodes s \<noteq> []))
   \<and> purposes_ok (purposes s) (mem_nodes s)
   \<and> blocks_ok (mem_nodes s) (purposes s) (libc s)
   \<and> budget (mem_nodes s) (purposes s) (libc s) \<le> 2 ^ 36"

section \<open>Generic facts\<close>

lemma upd_node_split:
  assumes "distinct (map mn_self ns)" "m \<in> set ns"
  obtains xs ys where "ns = xs @ m # ys" "\<And>f. upd_node (mn_self m) f ns = xs @ f m # ys"
proof -
  obtain xs ys where ns: "ns = xs @ m # ys"
    using assms(2) by (auto simp: in_set_conv_decomp)
  have "map (\<lambda>k. if mn_self k = mn_self m then f k else k) zs = zs"
    if "zs = xs \<or> zs = ys" for zs f
    using assms(1) that by (intro map_idI) (auto simp: ns image_iff)
  then have "upd_node (mn_self m) f ns = xs @ f m # ys" for f
    by (simp add: upd_node_def ns)
  then show ?thesis using that ns by blast
qed

lemma upd_purpose_split:
  assumes "distinct (map pn_self ps)" "p \<in> set ps"
  obtains xs ys where "ps = xs @ p # ys" "\<And>f. upd_purpose (pn_self p) f ps = xs @ f p # ys"
    "filter (\<lambda>r. pn_self r \<noteq> pn_self p) ps = xs @ ys"
proof -
  obtain xs ys where ps: "ps = xs @ p # ys"
    using assms(2) by (auto simp: in_set_conv_decomp)
  have same: "map (\<lambda>k. if pn_self k = pn_self p then f k else k) zs = zs"
             "filter (\<lambda>r. pn_self r \<noteq> pn_self p) zs = zs"
    if "zs = xs \<or> zs = ys" for zs f
    using assms(1) that by (intro map_idI filter_True; auto simp: ps image_iff)+
  then have "upd_purpose (pn_self p) f ps = xs @ f p # ys" for f
    by (simp add: upd_purpose_def ps)
  then show ?thesis using that ps same by simp
qed

lemma find_purpose_in_Some:
  "find_purpose_in q ps = Some p \<Longrightarrow> p \<in> set ps \<and> pn_purpose p = q"
  by (induction ps) (auto split: if_splits)

lemma find_purpose_in_None:
  "find_purpose_in q ps = None \<longleftrightarrow> q \<notin> pn_purpose ` set ps"
  by (induction ps) auto

lemma find_node_Some: "find_node a ns = Some m \<Longrightarrow> m \<in> set ns \<and> mn_address m = a"
  by (induction ns) (auto split: if_splits)

lemma find_node_None: "find_node a ns = None \<longleftrightarrow> a \<notin> mn_address ` set ns"
  by (induction ns) auto

lemma find_node_unique:
  "distinct (map mn_address ns) \<Longrightarrow> m \<in> set ns \<Longrightarrow> find_node (mn_address m) ns = Some m"
  by (induction ns) (auto simp: image_iff)

lemma users_le: "users q ns \<le> length ns"
  by (simp add: users_def)

lemma users_append [simp]: "users q (xs @ ys) = users q xs + users q ys"
  by (simp add: users_def)

lemma users_Cons [simp]:
  "users q (m # ns) = (if is_using m \<and> mn_purpose m = q then 1 else 0) + users q ns"
  by (simp add: users_def)

lemma fold_count: "fold (\<lambda>m num. num + 1) xs k = k + (of_nat (length xs) :: 'a :: len word)"
  by (induction xs arbitrary: k) simp_all

lemma pool_ok_nodes_bound:
  assumes "budget ns ps h \<le> 2 ^ 36"
  shows "length ns < 2 ^ 31"
proof -
  have "sizeof_mem_node * length ns \<le> sum_list (map (\<lambda>m. sizeof_mem_node + mn_size m) ns)"
    by (induction ns) simp_all
  then show ?thesis
    using assms by (simp add: budget_def pool_sizes)
qed

lemma pos_count:
  assumes "0 < k" "k < 2 ^ 31"
  shows "0 <s (of_nat k :: 32 word)" "(of_nat k - 1 :: 32 word) = of_nat (k - 1)"
    "(of_nat k - 1 :: 32 word) = 0 \<longleftrightarrow> k = 1"
proof -
  have k: "sint (of_nat k :: 32 word) = int k"
    using assms by (simp add: signed_of_nat signed_take_bit_int_eq_self)
  show "0 <s (of_nat k :: 32 word)"
    using assms k by (simp add: word_sless_alt)
  show e: "(of_nat k - 1 :: 32 word) = of_nat (k - 1)"
    using assms by (simp add: of_nat_diff)
  have "unat (of_nat (k - 1) :: 32 word) = k - 1"
    using assms by (subst unsigned_of_nat) (simp add: take_bit_nat_eq_self)
  then show "(of_nat k - 1 :: 32 word) = 0 \<longleftrightarrow> k = 1"
    unfolding e word_unat_eq_iff using assms by (simp only: unsigned_0) linarith
qed

section \<open>Best fit\<close>

definition fits :: "nat \<Rightarrow> mem_node \<Rightarrow> bool" where
  "fits n m \<longleftrightarrow> \<not> is_using m \<and> n \<le> mn_size m"

lemma best_fit_Cons:
  "best_fit n m (p # ps) =
     (if fits n p
      then best_fit n (Some (case m of None \<Rightarrow> p | Some q \<Rightarrow> if mn_size p < mn_size q then p else q)) ps
      else best_fit n m ps)"
  by (auto simp: fits_def split: option.splits)

lemma best_fit_from:
  "\<exists>r. best_fit n (Some q) ps = Some r \<and> (r = q \<or> r \<in> set ps \<and> fits n r) \<and> mn_size r \<le> mn_size q
     \<and> (\<forall>p \<in> set ps. fits n p \<longrightarrow> mn_size r \<le> mn_size p)"
proof (induction ps arbitrary: q)
  case (Cons p ps)
  let ?k = "if fits n p \<and> mn_size p < mn_size q then p else q"
  obtain r where r: "best_fit n (Some ?k) ps = Some r" "r = ?k \<or> r \<in> set ps \<and> fits n r"
    "mn_size r \<le> mn_size ?k" "\<forall>p \<in> set ps. fits n p \<longrightarrow> mn_size r \<le> mn_size p"
    using Cons.IH by blast
  have "best_fit n (Some q) (p # ps) = best_fit n (Some ?k) ps"
    by (simp add: best_fit_Cons del: best_fit.simps(2))
  with r show ?case
    by (intro exI [of _ r]) (auto split: if_splits)
qed simp

lemma best_fit_none:
  "(case best_fit n None ps of
      None \<Rightarrow> \<forall>p \<in> set ps. \<not> fits n p
    | Some r \<Rightarrow> r \<in> set ps \<and> fits n r \<and> (\<forall>p \<in> set ps. fits n p \<longrightarrow> mn_size r \<le> mn_size p))"
proof (induction ps)
  case (Cons p ps)
  then show ?case
    using best_fit_from [of n p ps]
    by (auto simp: best_fit_Cons simp del: best_fit.simps(2) split: option.splits)
qed simp

lemma best_fit_None: "best_fit n None ns = None \<Longrightarrow> m \<in> set ns \<Longrightarrow> \<not> fits n m"
  using best_fit_none [of ns n] by simp

lemma best_fit_Some:
  assumes "best_fit n None ns = Some m"
  shows "m \<in> set ns" "\<not> is_using m" "n \<le> mn_size m"
    "k \<in> set ns \<Longrightarrow> fits n k \<Longrightarrow> mn_size m \<le> mn_size k"
  using best_fit_none [of ns n] assms by (auto simp: fits_def)

section \<open>Purposes\<close>

lemma malloc_cases:
  assumes "malloc n h = (a, h')" "0 < brk h"
  obtains (fail) "a = NULL" "h' = h" "avail h < n"
    | (ok) "a = brk h" "n \<le> avail h"
        "h' = h\<lparr>brk := brk h + n + 1, avail := avail h - n,
               block := (block h)(brk h := replicate n (garbage h))\<rparr>"
  using assms by (auto simp: malloc_def split: if_splits)

text \<open>\<open>same_nodes\<close>: two node lists that differ in usage and purposes only.\<close>

definition same_nodes :: "mem_node list \<Rightarrow> mem_node list \<Rightarrow> bool" where
  "same_nodes ns ns' \<longleftrightarrow>
     map (\<lambda>m. (mn_self m, mn_address m, mn_size m)) ns = map (\<lambda>m. (mn_self m, mn_address m, mn_size m)) ns'"

lemma blocks_okD:
  assumes "blocks_ok ns ps h"
  shows "m \<in> set ns \<Longrightarrow> 0 < mn_self m" "m \<in> set ns \<Longrightarrow> mn_self m < brk h"
    "m \<in> set ns \<Longrightarrow> 0 < mn_address m" "m \<in> set ns \<Longrightarrow> mn_address m < brk h"
    "p \<in> set ps \<Longrightarrow> 0 < pn_self p" "p \<in> set ps \<Longrightarrow> pn_self p < brk h"
    "m \<in> set ns \<Longrightarrow> p \<in> set ps \<Longrightarrow> mn_address m \<noteq> pn_self p"
    "m \<in> set ns \<Longrightarrow> length (block h (mn_address m)) = mn_size m"
    "m \<in> set ns \<Longrightarrow> 0 < mn_size m"
    "p \<in> set ps \<Longrightarrow> length (block h (pn_self p)) = sizeof_purpose_node"
    "0 < brk h" "distinct (map mn_self ns)" "distinct (map mn_address ns)"
    "distinct (map pn_self ps)"
  using assms by (auto simp: blocks_ok_def)

lemma same_nodes_maps:
  assumes "same_nodes ns ns'"
  shows "map mn_self ns' = map mn_self ns" "map mn_address ns' = map mn_address ns"
    "map mn_size ns' = map mn_size ns" "length ns' = length ns"
    "(\<lambda>m. (mn_address m, mn_size m)) ` set ns' = (\<lambda>m. (mn_address m, mn_size m)) ` set ns"
proof -
  have e: "map (\<lambda>m. (mn_self m, mn_address m, mn_size m)) ns' = map (\<lambda>m. (mn_self m, mn_address m, mn_size m)) ns"
    using assms by (simp add: same_nodes_def)
  from arg_cong [OF e, of "map fst"] show "map mn_self ns' = map mn_self ns"
    by (simp add: comp_def)
  from arg_cong [OF e, of "map (fst \<circ> snd)"] show "map mn_address ns' = map mn_address ns"
    by (simp add: comp_def)
  from arg_cong [OF e, of "map (snd \<circ> snd)"] show "map mn_size ns' = map mn_size ns"
    by (simp add: comp_def)
  from arg_cong [OF e, of length] show "length ns' = length ns"
    by simp
  from arg_cong [OF e, of "\<lambda>l. snd ` set l"]
  show "(\<lambda>m. (mn_address m, mn_size m)) ` set ns' = (\<lambda>m. (mn_address m, mn_size m)) ` set ns"
    by (simp add: image_image)
qed

lemma blocks_ok_same:
  assumes "same_nodes ns ns'"
  shows "blocks_ok ns' ps h = blocks_ok ns ps h"
proof -
  have e: "(\<forall>m \<in> set ms. length (block h (mn_address m)) = mn_size m \<and> 0 < mn_size m) \<longleftrightarrow>
        (\<forall>(a, z) \<in> (\<lambda>m. (mn_address m, mn_size m)) ` set ms. length (block h a) = z \<and> 0 < z)" for ms
    by auto
  show ?thesis
    unfolding blocks_ok_def e same_nodes_maps [OF assms] ..
qed

lemma budget_same: "same_nodes ns ns' \<Longrightarrow> budget ns' ps h = budget ns ps h"
  by (simp add: budget_def sum_list_addf same_nodes_maps map_replicate_const sum_list_replicate)

lemma add_purpose_fault:
  "add_purpose q s = Inl e \<Longrightarrow> e = Null_dereference \<and> (0 < brk (libc s) \<longrightarrow> avail (libc s) < sizeof_purpose_node)"
  by (auto simp: add_purpose_def purpose_node_create_def malloc_def Let_def split: option.splits if_splits)

text \<open>A counter that follows the number of live nodes of its purpose keeps the counts right.\<close>

lemma purposes_ok_count:
  assumes "purposes_ok (xs @ p # ys) ns" "pn_purpose p = q" "users q ns' = k" "\<And>r. r \<noteq> q \<Longrightarrow> users r ns' = users r ns"
    "0 < k" "c = of_nat k"
  shows "purposes_ok (xs @ p\<lparr>pn_count := c\<rparr> # ys) ns'"
proof -
  have q: "q \<notin> pn_purpose ` set (xs @ ys)"
    using assms(1,2) by (auto simp: purposes_ok_def)
  have old: "pn_purpose r \<noteq> q" if "r \<in> set (xs @ ys)" for r
    using q that by blast
  show ?thesis
    unfolding purposes_ok_def
  proof (intro conjI ballI allI impI)
    show "distinct (map pn_purpose (xs @ p\<lparr>pn_count := c\<rparr> # ys))"
      using assms(1) by (simp add: purposes_ok_def)
    fix r
    assume "r \<in> set (xs @ p\<lparr>pn_count := c\<rparr> # ys)"
    then consider "r = p\<lparr>pn_count := c\<rparr>" | "r \<in> set (xs @ ys)"
      by auto
    then show "0 < users (pn_purpose r) ns'" "pn_count r = of_nat (users (pn_purpose r) ns')"
      using assms old by (cases; simp add: purposes_ok_def)+
  next
    fix r
    assume "0 < users r ns'"
    then have "r = q \<or> r \<in> pn_purpose ` set (xs @ p # ys)"
      using assms(1,4) unfolding purposes_ok_def by metis
    then show "r \<in> pn_purpose ` set (xs @ p\<lparr>pn_count := c\<rparr> # ys)"
      using assms(2) by auto
  qed
qed

lemma add_purpose_ok:
  assumes "purposes_ok (purposes s) ns" "blocks_ok ns (purposes s) (libc s)"
    and "users q ns' = users q ns + 1" "\<And>r. r \<noteq> q \<Longrightarrow> users r ns' = users r ns"
    and "add_purpose q s = Inr s'"
  shows "\<exists>ps h. s' = s\<lparr>purposes := ps, libc := h\<rparr> \<and> purposes_ok ps ns' \<and> blocks_ok ns ps h
           \<and> budget ns ps h = budget ns (purposes s) (libc s)
           \<and> (\<forall>a \<in> mn_address ` set ns. block h a = block (libc s) a)"
proof (cases "find_purpose_in q (purposes s)")
  case None
  then obtain p h where c: "purpose_node_create q (libc s) = Some (p, h)"
    and s': "s' = s\<lparr>purposes := p\<lparr>pn_count := 1\<rparr> # purposes s, libc := h\<rparr>"
    using assms(5) by (auto simp: add_purpose_def find_purpose_def split: option.splits)
  have q: "q \<notin> pn_purpose ` set (purposes s)"
    using None by (simp add: find_purpose_in_None)
  then have u: "users q ns = 0"
    using assms(1) by (auto simp: purposes_ok_def)
  obtain a where m: "malloc sizeof_purpose_node (libc s) = (a, h)" "a \<noteq> NULL"
    and p: "p = \<lparr>pn_self = a, pn_purpose = q, pn_count = 0\<rparr>"
    using c by (auto simp: purpose_node_create_def Let_def split: prod.splits if_splits)
  have b: "0 < brk (libc s)"
    using assms(2) by (simp add: blocks_ok_def)
  from m(1) b show ?thesis
  proof (cases rule: malloc_cases)
    case fail
    then show ?thesis using m(2) by simp
  next
    case ok
    have "purposes_ok (p\<lparr>pn_count := 1\<rparr> # purposes s) ns'"
      unfolding purposes_ok_def
    proof (intro conjI ballI allI impI)
      show "distinct (map pn_purpose (p\<lparr>pn_count := 1\<rparr> # purposes s))"
        using assms(1) q by (simp add: purposes_ok_def p)
      fix r
      assume "r \<in> set (p\<lparr>pn_count := 1\<rparr> # purposes s)"
      then consider "r = p\<lparr>pn_count := 1\<rparr>" | "r \<in> set (purposes s)" "pn_purpose r \<noteq> q"
        using q by auto
      then show "0 < users (pn_purpose r) ns'" "pn_count r = of_nat (users (pn_purpose r) ns')"
        using assms(1,3,4) u by (cases; simp add: purposes_ok_def p)+
    next
      fix r
      assume "0 < users r ns'"
      then show "r \<in> pn_purpose ` set (p\<lparr>pn_count := 1\<rparr> # purposes s)"
        using assms(1,4) by (cases "r = q") (auto simp: purposes_ok_def p)
    qed
    moreover have "blocks_ok ns (p\<lparr>pn_count := 1\<rparr> # purposes s) h"
      using assms(2) blocks_okD(2,4,6,7) [OF assms(2)]
      by (simp add: blocks_ok_def p ok image_iff ball_Un less_Suc_eq_le) (fastforce simp: less_imp_le)
    moreover have "\<forall>a \<in> mn_address ` set ns. block h a = block (libc s) a"
      using blocks_okD(4) [OF assms(2)] by (fastforce simp: ok)
    ultimately show ?thesis
      using ok by (intro exI [of _ "p\<lparr>pn_count := 1\<rparr> # purposes s"] exI [of _ h])
        (auto simp: s' budget_def)
  qed
next
  case (Some p)
  note p = find_purpose_in_Some [OF Some]
  have "distinct (map pn_self (purposes s))"
    using assms(2) by (simp add: blocks_ok_def)
  with p obtain xs ys where ps: "purposes s = xs @ p # ys"
    and u: "\<And>f. upd_purpose (pn_self p) f (purposes s) = xs @ f p # ys"
    by (metis upd_purpose_split)
  let ?ps = "xs @ p\<lparr>pn_count := pn_count p + 1\<rparr> # ys"
  have s': "s' = s\<lparr>purposes := ?ps\<rparr>"
    using assms(5) Some u by (auto simp: add_purpose_def find_purpose_def)
  have "purposes_ok ?ps ns'"
    using assms(1,3,4) p
    by (intro purposes_ok_count [of _ _ _ ns q _ "users q ns + 1"]) (simp_all add: ps purposes_ok_def)
  moreover have "blocks_ok ns ?ps (libc s)"
    using assms(2) by (auto simp: blocks_ok_def ps)
  ultimately show ?thesis
    using s' by (intro exI [of _ ?ps] exI [of _ "libc s"]) (simp add: budget_def ps)
qed

lemma sub_purpose_ok:
  assumes "purposes_ok (purposes s) ns" "blocks_ok ns (purposes s) (libc s)" "length ns < 2 ^ 31"
    and "users q ns = users q ns' + 1" "\<And>r. r \<noteq> q \<Longrightarrow> users r ns' = users r ns"
  shows "\<exists>ps h. sub_purpose q s = Inr (s\<lparr>purposes := ps, libc := h\<rparr>) \<and> purposes_ok ps ns' \<and> blocks_ok ns ps h
           \<and> budget ns ps h = budget ns (purposes s) (libc s)
           \<and> (\<forall>a \<in> mn_address ` set ns. block h a = block (libc s) a)"
proof -
  have "q \<in> pn_purpose ` set (purposes s)"
    using assms(1,4) by (simp add: purposes_ok_def)
  then obtain p where f: "find_purpose_in q (purposes s) = Some p"
    using find_purpose_in_None [of q "purposes s"] by (cases "find_purpose_in q (purposes s)") auto
  note p = find_purpose_in_Some [OF f]
  obtain xs ys where ps: "purposes s = xs @ p # ys"
    and u: "\<And>f. upd_purpose (pn_self p) f (purposes s) = xs @ f p # ys"
    and d: "filter (\<lambda>r. pn_self r \<noteq> pn_self p) (purposes s) = xs @ ys"
    using p blocks_okD(14) [OF assms(2)] by (metis upd_purpose_split)
  have c: "pn_count p = of_nat (users q ns)" "0 < users q ns"
    using assms(1) p by (auto simp: purposes_ok_def)
  have k: "users q ns < 2 ^ 31"
    using assms(3) users_le [of q ns] by linarith
  note pc = pos_count [OF c(2) k]
  show ?thesis
  proof (cases "users q ns = 1")
    case True
    have s': "sub_purpose q s = Inr (s\<lparr>purposes := xs @ ys, libc := c_free (pn_self p) (libc s)\<rparr>)"
      using True pc by (simp only: sub_purpose_def find_purpose_def f option.case c d simp_thms if_False if_True)
    have notin: "q \<notin> pn_purpose ` set (xs @ ys)"
      using assms(1) p by (auto simp: purposes_ok_def ps)
    have "purposes_ok (xs @ ys) ns'"
      unfolding purposes_ok_def
    proof (intro conjI ballI allI impI)
      show "distinct (map pn_purpose (xs @ ys))"
        using assms(1) by (simp add: purposes_ok_def ps)
      fix r
      assume r: "r \<in> set (xs @ ys)"
      then have "pn_purpose r \<noteq> q"
        using notin by blast
      then show "0 < users (pn_purpose r) ns'" "pn_count r = of_nat (users (pn_purpose r) ns')"
        using assms(1,5) r by (auto simp: purposes_ok_def ps)
    next
      fix r
      assume r: "0 < users r ns'"
      then have "r \<noteq> q"
        using assms(4) True by auto
      then have "r \<in> pn_purpose ` set (xs @ p # ys)" "r \<noteq> pn_purpose p"
        using assms(1,5) r p unfolding purposes_ok_def ps by metis+
      then show "r \<in> pn_purpose ` set (xs @ ys)"
        by auto
    qed
    moreover have "pn_self r \<noteq> pn_self p" if "r \<in> set (xs @ ys)" for r
      using blocks_okD(14) [OF assms(2)] that unfolding ps by (auto simp: image_iff)
    then have "blocks_ok ns (xs @ ys) (c_free (pn_self p) (libc s))"
      using assms(2) blocks_okD(7) [OF assms(2), of _ p] p
      by (simp add: blocks_ok_def c_free_def ps)
    moreover have "\<forall>a \<in> mn_address ` set ns. block (c_free (pn_self p) (libc s)) a = block (libc s) a"
      using blocks_okD(7) [OF assms(2), of _ p] p by (auto simp: c_free_def)
    moreover have "budget ns (xs @ ys) (c_free (pn_self p) (libc s)) = budget ns (purposes s) (libc s)"
      using blocks_okD(5,10) [OF assms(2), of p] p by (simp add: budget_def c_free_def ps)
    ultimately show ?thesis
      using s' by blast
  next
    case False
    let ?ps = "xs @ p\<lparr>pn_count := pn_count p - 1\<rparr> # ys"
    have s': "sub_purpose q s = Inr (s\<lparr>purposes := ?ps, libc := libc s\<rparr>)"
      using False pc by (simp add: sub_purpose_def find_purpose_def f c u)
    have "purposes_ok ?ps ns'"
      using assms(1,4,5) p False pc(2) c
      by (intro purposes_ok_count [of _ _ _ ns q _ "users q ns - 1"]) (simp_all add: ps)
    moreover have "blocks_ok ns ?ps (libc s)"
      using assms(2) by (auto simp: blocks_ok_def ps)
    ultimately show ?thesis
      using s' by (intro exI [of _ ?ps] exI [of _ "libc s"]) (simp add: budget_def ps)
  qed
qed

section \<open>Allocation\<close>

lemma live_of_split:
  assumes "mem_nodes s = xs @ m # ys" "distinct (map mn_address (mem_nodes s))"
    and "mem_nodes t = xs @ ys"
  shows "live s = (if is_using m then (live t)(mn_address m \<mapsto> (mn_purpose m, mn_size m)) else live t)"
    "live t (mn_address m) = None"
proof -
  have n: "mn_address m \<notin> mn_address ` set (xs @ ys)"
    using assms(1,2) by auto
  then show t: "live t (mn_address m) = None"
    by (auto simp: live_def assms map_of_eq_None_iff image_iff)
  let ?l = "\<lambda>ns. map_of (map (\<lambda>m. (mn_address m, (mn_purpose m, mn_size m))) (filter is_using ns))"
  have "mn_address m \<notin> dom (?l xs)"
    using n by (auto simp: dom_map_of_conv_image_fst image_iff)
  then show "live s = (if is_using m then (live t)(mn_address m \<mapsto> (mn_purpose m, mn_size m)) else live t)"
    by (simp add: live_def assms map_add_upd_left)
qed

lemma live_Some_iff:
  assumes "distinct (map mn_address (mem_nodes s))"
  shows "live s a = Some (q, z) \<longleftrightarrow>
    (\<exists>m \<in> set (mem_nodes s). is_using m \<and> mn_address m = a \<and> mn_purpose m = q \<and> mn_size m = z)"
proof -
  have "distinct (map fst (map (\<lambda>m. (mn_address m, (mn_purpose m, mn_size m))) (filter is_using (mem_nodes s))))"
    using assms by (simp add: comp_def distinct_map_filter)
  then show ?thesis
    by (auto simp: live_def map_of_eq_Some_iff simp del: map_map)
qed

lemma live_dom: "live s a \<noteq> None \<Longrightarrow> a \<in> mn_address ` set (mem_nodes s)"
  by (auto simp: live_def map_of_eq_None_iff image_iff dest: map_of_SomeD)

lemma pool_okE:
  assumes "pool_ok s"
  obtains mp where "g_mp s = Some mp" "mp_mutex mp = Some True" "stat_ok (mp_stat mp) (mem_nodes s)"
    "mp_nodes mp \<noteq> NULL \<longleftrightarrow> mem_nodes s \<noteq> []"
    "purposes_ok (purposes s) (mem_nodes s)" "blocks_ok (mem_nodes s) (purposes s) (libc s)"
    "budget (mem_nodes s) (purposes s) (libc s) \<le> 2 ^ 36"
  using assms by (auto simp: pool_ok_def split: option.splits)

text \<open>
  What a successful allocation promises: the pool stays well formed, exactly one live block is
  new, it is large enough and its first bytes are zero, and no other live block is touched.
\<close>

definition malloc_post :: "string \<Rightarrow> nat \<Rightarrow> pool \<Rightarrow> ptr \<Rightarrow> pool \<Rightarrow> bool" where
  "malloc_post q n s a s' \<longleftrightarrow>
     pool_ok s' \<and> a \<noteq> NULL \<and> live s a = None
   \<and> (\<exists>z \<ge> n. live s' = (live s)(a \<mapsto> (q, z)) \<and> length (block (libc s') a) = z)
   \<and> take n (block (libc s') a) = replicate n 0
   \<and> (\<forall>b. live s b \<noteq> None \<longrightarrow> block (libc s') b = block (libc s) b)"

text \<open>
  The common tail of both ways of finding a node. The statistics it starts from count the chosen
  node as neither free nor in use.
\<close>

lemma mp_use_node_ok:
  assumes mp: "g_mp s = Some mp" "mp_mutex mp = Some True" "mp_nodes mp \<noteq> NULL"
    and st: "stat_ok (mp_stat mp\<lparr>free_nodes := free_nodes (mp_stat mp) + 1\<rparr>) (mem_nodes s)"
    and ps: "purposes_ok (purposes s) (mem_nodes s)"
    and bl: "blocks_ok (mem_nodes s) (purposes s) (libc s)"
    and bu: "budget (mem_nodes s) (purposes s) (libc s) \<le> 2 ^ 36"
    and m: "m \<in> set (mem_nodes s)" "\<not> is_using m" "n \<le> mn_size m"
  shows "case mp_use_node q n m s of
      Inl e \<Rightarrow> e = Null_dereference \<and> avail (libc s) < sizeof_purpose_node
    | Inr (a, s') \<Rightarrow> a = mn_address m \<and> malloc_post q n s a s'"
proof -
  let ?f = "\<lambda>m. m\<lparr>is_using := True, used_cnt := used_cnt m + 1, mn_purpose := q\<rparr>"
  obtain xs ys where ns: "mem_nodes s = xs @ m # ys"
    and up: "\<And>f. upd_node (mn_self m) f (mem_nodes s) = xs @ f m # ys"
    using upd_node_split [OF blocks_okD(12) [OF bl] m(1)] by metis
  let ?ns = "xs @ ?f m # ys"
  define s1 where "s1 = upd_stat (\<lambda>t. t\<lparr>using_nodes := using_nodes t + 1\<rparr>) (s\<lparr>mem_nodes := ?ns, updated := True\<rparr>)"
  have same: "same_nodes (mem_nodes s) ?ns"
    by (simp add: same_nodes_def ns)
  have s: "purposes s1 = purposes s" "libc s1 = libc s" "mem_nodes s1 = ?ns"
    "g_mp s1 = Some (mp\<lparr>mp_stat := (mp_stat mp)\<lparr>using_nodes := using_nodes (mp_stat mp) + 1\<rparr>\<rparr>)"
    by (simp_all add: s1_def upd_stat_def mp)
  have use: "mp_use_node q n m s =
      sbind (add_purpose q s1) (\<lambda>s3. Inr (mn_address m, s3\<lparr>libc := bzero (mn_address m) n (libc s3)\<rparr>))"
    by (simp add: mp_use_node_def up Let_def s1_def)
  show ?thesis
  proof (cases "add_purpose q s1")
    case (Inl e)
    then show ?thesis
      using add_purpose_fault [OF Inl] blocks_okD(11) [OF bl] by (simp add: use s)
  next
    case (Inr s3)
    have u: "users q ?ns = users q (mem_nodes s) + 1"
      "\<And>r. r \<noteq> q \<Longrightarrow> users r ?ns = users r (mem_nodes s)"
      using m(2) by (simp_all add: ns)
    have pre: "purposes_ok (purposes s1) (mem_nodes s)" "blocks_ok (mem_nodes s) (purposes s1) (libc s1)"
      using ps bl by (simp_all only: s)
    obtain ps' h where s3: "s3 = s1\<lparr>purposes := ps', libc := h\<rparr>"
      and P: "purposes_ok ps' ?ns" and B: "blocks_ok (mem_nodes s) ps' h"
      and Bu: "budget (mem_nodes s) ps' h = budget (mem_nodes s) (purposes s) (libc s)"
      and keep: "\<forall>a \<in> mn_address ` set (mem_nodes s). block h a = block (libc s) a"
      using add_purpose_ok [OF pre u Inr] unfolding s by blast
    let ?h = "bzero (mn_address m) n h"
    let ?s' = "s3\<lparr>libc := ?h\<rparr>"
    have len: "length (block h (mn_address m)) = mn_size m"
      using blocks_okD(8) [OF B] m by blast
    have ne: "mn_address k \<noteq> mn_address m" if "k \<in> set (xs @ ys)" for k
      using blocks_okD(13) [OF bl] that by (auto simp: ns image_iff)
    have "blocks_ok (mem_nodes s) ps' ?h"
      using B len m(3) blocks_okD(7) [OF B m(1)] ne
      by (auto simp: blocks_ok_def bzero_def ns)
    then have B': "blocks_ok ?ns ps' ?h"
      by (simp add: blocks_ok_same [OF same])
    have "budget ?ns ps' ?h \<le> 2 ^ 36"
      using bu Bu by (simp add: budget_same [OF same]) (simp add: budget_def bzero_def)
    moreover have "stat_ok (mp_stat (the (g_mp ?s'))) ?ns"
      using st m(2) by (simp add: stat_ok_def s3 s ns)
    ultimately have ok: "pool_ok ?s'"
      using P B' mp s by (simp add: pool_ok_def s3)
    define t where "t = s\<lparr>mem_nodes := xs @ ys\<rparr>"
    have l: "live s = live t" "live ?s' = (live t)(mn_address m \<mapsto> (q, mn_size m))"
      "live t (mn_address m) = None"
      using live_of_split [OF ns blocks_okD(13) [OF bl], of t] m(2)
        live_of_split [of ?s' xs "?f m" ys t] blocks_okD(13) [OF B']
      by (simp_all add: t_def s3 s)
    have "block ?h b = block (libc s) b" if "live s b \<noteq> None" for b
      using live_dom [OF that] keep l that by (auto simp: bzero_def)
    then have "malloc_post q n s (mn_address m) ?s'"
      using ok l blocks_okD(3) [OF bl m(1)] len m(3)
      by (auto simp: malloc_post_def bzero_def)
    then show ?thesis
      by (simp add: use Inr s3)
  qed
qed

lemma mem_node_create_Some:
  assumes "mem_node_create n h = Some (m, h')" "blocks_ok ns ps h" "0 < n"
  shows "blocks_ok (m # ns) ps h'" "budget (m # ns) ps h' = budget ns ps h"
    "mn_size m = n" "\<not> is_using m" "mn_self m \<noteq> NULL" "mn_address m = brk h + sizeof_mem_node + 1"
    "\<And>b. b < brk h \<Longrightarrow> block h' b = block h b"
proof -
  have b: "0 < brk h"
    using assms(2) by (simp add: blocks_ok_def)
  have fit: "sizeof_mem_node + n \<le> avail h"
    and m: "m = \<lparr>mn_self = brk h, mn_size = n, is_using = False,
                 mn_address = brk h + sizeof_mem_node + 1, mn_purpose = [], used_cnt = 0\<rparr>"
    and h': "h' = h\<lparr>brk := brk h + sizeof_mem_node + n + 2, avail := avail h - sizeof_mem_node - n,
          block := (block h)(brk h := replicate sizeof_mem_node (garbage h),
                             brk h + sizeof_mem_node + 1 := replicate n (garbage h))\<rparr>"
    using assms(1) b by (auto simp: mem_node_create_def malloc_def Let_def split: if_splits)
  have bounds: "mn_self k < brk h \<and> mn_address k < brk h" if "k \<in> set ns" for k
    using blocks_okD(2,4) [OF assms(2) that] by simp
  have pbounds: "pn_self k < brk h" if "k \<in> set ps" for k
    using blocks_okD(6) [OF assms(2) that] by simp
  have out: "brk h + j \<notin> mn_self ` set ns" "brk h + j \<notin> mn_address ` set ns" "brk h + j \<notin> pn_self ` set ps" for j
    using bounds pbounds by fastforce+
  have out0: "brk h \<notin> mn_self ` set ns" "brk h \<notin> mn_address ` set ns" "brk h \<notin> pn_self ` set ps"
    using out [of 0] by simp_all
  have len: "length (block h' (mn_address k)) = mn_size k" "0 < mn_size k" if "k \<in> set ns" for k
    using bounds [OF that] blocks_okD(8,9) [OF assms(2) that] by (simp_all add: h')
  have plen: "length (block h' (pn_self k)) = sizeof_purpose_node" if "k \<in> set ps" for k
    using pbounds [OF that] blocks_okD(10) [OF assms(2) that] by (simp add: h')
  have mem: "0 < a \<and> a < brk h'" if "a \<in> set (map mn_self ns @ map mn_address ns @ map pn_self ps)" for a
  proof -
    have "0 < a \<and> a < brk h"
      using assms(2) that unfolding blocks_ok_def by blast
    then show ?thesis
      by (simp add: h')
  qed
  show "blocks_ok (m # ns) ps h'"
    unfolding blocks_ok_def
  proof (intro conjI)
    show "distinct (map mn_self (m # ns) @ map mn_address (m # ns) @ map pn_self ps)"
      using assms(2) out [of "Suc sizeof_mem_node"] out0 by (simp add: blocks_ok_def m)
    show "\<forall>a \<in> set (map mn_self (m # ns) @ map mn_address (m # ns) @ map pn_self ps). 0 < a \<and> a < brk h'"
      using mem b by (auto simp: m h')
    show "\<forall>k \<in> set (m # ns). length (block h' (mn_address k)) = mn_size k \<and> 0 < mn_size k"
      using len assms(3) by (auto simp: m) (simp add: h')
  qed (use plen in \<open>auto simp: h'\<close>)
  show "budget (m # ns) ps h' = budget ns ps h"
    using fit by (simp add: budget_def m h')
  show "\<And>b. b < brk h \<Longrightarrow> block h' b = block h b"
    by (simp add: h')
qed (use assms in \<open>auto simp: mem_node_create_def malloc_def blocks_ok_def Let_def split: if_splits\<close>)

lemma mem_node_create_None:
  "mem_node_create n h = None \<Longrightarrow> 0 < brk h \<Longrightarrow> avail h < sizeof_mem_node + n"
  by (auto simp: mem_node_create_def malloc_def Let_def split: if_splits)

text \<open>Putting a new node, respectively a free one, to use.\<close>

lemma mp_use_new_node:
  assumes "pool_ok s" "0 < n" "mem_node_create n (libc s) = Some (m, h)"
  shows "case mp_use_node q n m (mp_add_node n m h s) of
      Inl e \<Rightarrow> e = Null_dereference \<and> avail (libc s) < sizeof_mem_node + n + sizeof_purpose_node
    | Inr (a, s') \<Rightarrow> malloc_post q n s a s'"
proof -
  obtain mp where mp: "g_mp s = Some mp" "mp_mutex mp = Some True" "stat_ok (mp_stat mp) (mem_nodes s)"
    "mp_nodes mp \<noteq> NULL \<longleftrightarrow> mem_nodes s \<noteq> []"
    and ps: "purposes_ok (purposes s) (mem_nodes s)"
    and bl: "blocks_ok (mem_nodes s) (purposes s) (libc s)"
    and bu: "budget (mem_nodes s) (purposes s) (libc s) \<le> 2 ^ 36"
    using pool_okE [OF assms(1)] by metis
  note new = mem_node_create_Some [OF assms(3) bl assms(2)]
  define t where "t = mp_add_node n m h s"
  obtain mp' where t: "g_mp t = Some mp'" "mp_mutex mp' = Some True" "mp_nodes mp' \<noteq> NULL"
    "mem_nodes t = m # mem_nodes s" "purposes t = purposes s" "libc t = h"
    and st: "stat_ok (mp_stat mp'\<lparr>free_nodes := free_nodes (mp_stat mp') + 1\<rparr>) (mem_nodes t)"
    using mp new by (auto simp: t_def mp_add_node_def stat_ok_def)
  have "purposes_ok (purposes t) (mem_nodes t)" "blocks_ok (mem_nodes t) (purposes t) (libc t)"
    "budget (mem_nodes t) (purposes t) (libc t) \<le> 2 ^ 36"
    using ps new(1,2,4) bu by (simp_all add: t purposes_ok_def)
  then have "case mp_use_node q n m t of
      Inl e \<Rightarrow> e = Null_dereference \<and> avail (libc t) < sizeof_purpose_node
    | Inr (a, s') \<Rightarrow> a = mn_address m \<and> malloc_post q n t a s'"
    using new(3,4) by (intro mp_use_node_ok [OF t(1,2,3) st]) (simp_all add: t)
  moreover have "avail (libc s) = avail h + sizeof_mem_node + n"
    using new(2,3) by (simp add: budget_def)
  moreover have "live t = live s"
    using new(4) by (simp add: live_def t)
  moreover have "block h b = block (libc s) b" if "live s b \<noteq> None" for b
    using live_dom [OF that] blocks_okD(4) [OF bl] new(7) by auto
  ultimately show ?thesis
    unfolding t_def [symmetric] by (auto simp: malloc_post_def t split: sum.splits)
qed

lemma mp_use_free_node:
  assumes "pool_ok s" "best_fit n None (mem_nodes s) = Some m"
  shows "case mp_use_node q n m (upd_stat (\<lambda>t. t\<lparr>free_nodes := free_nodes t - 1\<rparr>) s) of
      Inl e \<Rightarrow> e = Null_dereference \<and> avail (libc s) < sizeof_purpose_node
    | Inr (a, s') \<Rightarrow> malloc_post q n s a s'"
proof -
  obtain mp where mp: "g_mp s = Some mp" "mp_mutex mp = Some True" "stat_ok (mp_stat mp) (mem_nodes s)"
    "mp_nodes mp \<noteq> NULL \<longleftrightarrow> mem_nodes s \<noteq> []"
    and ps: "purposes_ok (purposes s) (mem_nodes s)"
    and bl: "blocks_ok (mem_nodes s) (purposes s) (libc s)"
    and bu: "budget (mem_nodes s) (purposes s) (libc s) \<le> 2 ^ 36"
    using pool_okE [OF assms(1)] by metis
  note m = best_fit_Some(1-3) [OF assms(2)]
  define t where "t = upd_stat (\<lambda>t. t\<lparr>free_nodes := free_nodes t - 1\<rparr>) s"
  obtain mp' where t: "g_mp t = Some mp'" "mp_mutex mp' = Some True" "mp_nodes mp' \<noteq> NULL"
    "mem_nodes t = mem_nodes s" "purposes t = purposes s" "libc t = libc s"
    and st: "stat_ok (mp_stat mp'\<lparr>free_nodes := free_nodes (mp_stat mp') + 1\<rparr>) (mem_nodes t)"
    using mp m(1) by (auto simp: t_def upd_stat_def stat_ok_def)
  have "case mp_use_node q n m t of
      Inl e \<Rightarrow> e = Null_dereference \<and> avail (libc t) < sizeof_purpose_node
    | Inr (a, s') \<Rightarrow> a = mn_address m \<and> malloc_post q n t a s'"
    using ps bl bu m by (intro mp_use_node_ok [OF t(1,2,3) st]) (simp_all add: t)
  moreover have "live t = live s"
    by (simp add: live_def t)
  ultimately show ?thesis
    unfolding t_def [symmetric] by (auto simp: malloc_post_def t split: sum.splits)
qed

text \<open>
  Allocation from a well-formed pool: it fails by returning NULL with nothing changed, or by the
  unchecked allocation of a purpose node, and only when memory is short; otherwise the
  postcondition holds.
\<close>

lemma mp_malloc_cases:
  assumes ok: "pool_ok s" and n: "0 < n"
  obtains (fault) "mp_malloc q n s = Inl Null_dereference"
      "avail (libc s) < sizeof_mem_node + n + sizeof_purpose_node"
    | (null) "mp_malloc q n s = Inr (NULL, s)" "avail (libc s) < sizeof_mem_node + n"
    | (okay) a s' where "mp_malloc q n s = Inr (a, s')" "malloc_post q n s a s'"
proof -
  obtain mp where mp: "g_mp s = Some mp" "mp_mutex mp = Some True"
    and bl: "blocks_ok (mem_nodes s) (purposes s) (libc s)"
    using pool_okE [OF ok] by metis
  show ?thesis
  proof (cases "best_fit n None (mem_nodes s)")
    case None
    show ?thesis
    proof (cases "mem_node_create n (libc s)")
      case c: None
      have "mp_malloc q n s = Inr (NULL, s)"
        using mp n None c by (simp add: mp_malloc_def mp_lock_def)
      then show ?thesis
        using null mem_node_create_None [OF c blocks_okD(11) [OF bl]] by blast
    next
      case (Some p)
      then obtain m h where c: "mem_node_create n (libc s) = Some (m, h)"
        by (cases p) auto
      have "mp_malloc q n s = mp_use_node q n m (mp_add_node n m h s)"
        using mp n None c by (simp add: mp_malloc_def mp_lock_def)
      then show ?thesis
        using mp_use_new_node [OF ok n c, of q] fault okay by (auto split: sum.splits)
    qed
  next
    case (Some m)
    then have "mp_malloc q n s = mp_use_node q n m (upd_stat (\<lambda>t. t\<lparr>free_nodes := free_nodes t - 1\<rparr>) s)"
      using mp n by (simp add: mp_malloc_def mp_lock_def)
    then show ?thesis
      using mp_use_free_node [OF ok Some, of q] fault okay by (fastforce split: sum.splits)
  qed
qed

section \<open>Release\<close>

lemma mp_free_dead:
  assumes "pool_ok s" "live s a = None"
  shows "mp_free a s = Inr s"
proof -
  obtain mp where mp: "g_mp s = Some mp" "mp_mutex mp = Some True"
    and bl: "blocks_ok (mem_nodes s) (purposes s) (libc s)"
    using pool_okE [OF assms(1)] by metis
  have "\<not> is_using m" if "find_node a (mem_nodes s) = Some m" for m
    using find_node_Some [OF that] assms(2) live_Some_iff [OF blocks_okD(13) [OF bl]] by (metis option.discI)
  then show ?thesis
    using mp by (auto simp: mp_free_def mp_lock_def split: option.splits)
qed

lemma mp_free_live:
  assumes "pool_ok s" "live s a \<noteq> None"
  shows "\<exists>s'. mp_free a s = Inr s' \<and> pool_ok s' \<and> live s' = (live s)(a := None)
           \<and> same_nodes (mem_nodes s) (mem_nodes s')
           \<and> (\<forall>b \<in> mn_address ` set (mem_nodes s). block (libc s') b = block (libc s) b)"
proof -
  obtain mp where mp: "g_mp s = Some mp" "mp_mutex mp = Some True" "stat_ok (mp_stat mp) (mem_nodes s)"
    "mp_nodes mp \<noteq> NULL \<longleftrightarrow> mem_nodes s \<noteq> []"
    and ps: "purposes_ok (purposes s) (mem_nodes s)"
    and bl: "blocks_ok (mem_nodes s) (purposes s) (libc s)"
    and bu: "budget (mem_nodes s) (purposes s) (libc s) \<le> 2 ^ 36"
    using pool_okE [OF assms(1)] by metis
  obtain m where m: "m \<in> set (mem_nodes s)" "is_using m" "mn_address m = a"
    using assms(2) live_Some_iff [OF blocks_okD(13) [OF bl]] by fastforce
  have f: "find_node a (mem_nodes s) = Some m"
    using find_node_unique [OF blocks_okD(13) [OF bl] m(1)] m(3) by simp
  have a: "a \<noteq> NULL"
    using blocks_okD(3) [OF bl m(1)] m(3) by simp
  obtain xs ys where ns: "mem_nodes s = xs @ m # ys"
    and up: "\<And>f. upd_node (mn_self m) f (mem_nodes s) = xs @ f m # ys"
    using upd_node_split [OF blocks_okD(12) [OF bl] m(1)] by metis
  let ?ns = "xs @ m\<lparr>is_using := False\<rparr> # ys"
  let ?q = "mn_purpose m"
  define t where "t = upd_stat (\<lambda>t. t\<lparr>free_nodes := free_nodes t + 1, using_nodes := using_nodes t - 1\<rparr>)
                       (s\<lparr>mem_nodes := ?ns\<rparr>)"
  have t: "purposes t = purposes s" "libc t = libc s" "mem_nodes t = ?ns"
    "g_mp t = Some (mp\<lparr>mp_stat := (mp_stat mp)\<lparr>free_nodes := free_nodes (mp_stat mp) + 1,
                                        using_nodes := using_nodes (mp_stat mp) - 1\<rparr>\<rparr>)"
    by (simp_all add: t_def upd_stat_def mp)
  have e: "mp_free a s = sub_purpose ?q t"
    using mp a f m(2) by (simp add: mp_free_def mp_lock_def up t_def)
  have u: "users ?q (mem_nodes s) = users ?q ?ns + 1"
    "\<And>r. r \<noteq> ?q \<Longrightarrow> users r ?ns = users r (mem_nodes s)"
    using m(2) by (simp_all add: ns)
  have pre: "purposes_ok (purposes t) (mem_nodes s)" "blocks_ok (mem_nodes s) (purposes t) (libc t)"
    using ps bl by (simp_all only: t)
  obtain ps' h where s': "sub_purpose ?q t = Inr (t\<lparr>purposes := ps', libc := h\<rparr>)"
    and P: "purposes_ok ps' ?ns" and B: "blocks_ok (mem_nodes s) ps' h"
    and Bu: "budget (mem_nodes s) ps' h = budget (mem_nodes s) (purposes s) (libc s)"
    and keep: "\<forall>a \<in> mn_address ` set (mem_nodes s). block h a = block (libc s) a"
    using sub_purpose_ok [OF pre pool_ok_nodes_bound [OF bu] u] unfolding t by blast
  let ?s' = "t\<lparr>purposes := ps', libc := h\<rparr>"
  have same: "same_nodes (mem_nodes s) ?ns"
    by (simp add: same_nodes_def ns)
  have "blocks_ok ?ns ps' h" "budget ?ns ps' h \<le> 2 ^ 36"
    using B Bu bu by (simp_all add: blocks_ok_same [OF same] budget_same [OF same])
  moreover have "stat_ok (mp_stat (the (g_mp ?s'))) ?ns"
    using mp(3) m(2) by (simp add: stat_ok_def t ns)
  ultimately have "pool_ok ?s'"
    using P mp t by (simp add: pool_ok_def ns)
  moreover have "live ?s' = (live s)(a := None)"
  proof -
    define r where "r = s\<lparr>mem_nodes := xs @ ys\<rparr>"
    have "live s = (live r)(a \<mapsto> (?q, mn_size m))" "live ?s' = live r" "live r a = None"
      using live_of_split [OF ns blocks_okD(13) [OF bl], of r] m(2,3)
        live_of_split [of ?s' xs "m\<lparr>is_using := False\<rparr>" ys r] blocks_okD(13) [OF \<open>blocks_ok ?ns ps' h\<close>]
      by (simp_all add: r_def t)
    then show ?thesis
      by (simp add: fun_eq_iff)
  qed
  ultimately show ?thesis
    using e s' same keep by (simp add: t)
qed

lemma mp_free_total:
  assumes "pool_ok s"
  obtains s' where "mp_free a s = Inr s'" "pool_ok s'" "live s' = (live s)(a := None)"
    "\<And>b. b \<in> mn_address ` set (mem_nodes s) \<Longrightarrow> block (libc s') b = block (libc s) b"
proof (cases "live s a")
  case None
  then have "(live s)(a := None) = live s"
    by (simp add: fun_eq_iff)
  then show ?thesis
    using that mp_free_dead [OF assms None] assms by simp
next
  case (Some d)
  then show ?thesis
    using that mp_free_live [OF assms, of a] by auto
qed

section \<open>The allocator interface\<close>

text \<open>
  What the clients of the pool rely on. The operations may report a fault; a live address is one
  that was returned and not yet released.
\<close>

locale allocator =
  fixes alloc :: "'t \<Rightarrow> nat \<Rightarrow> 's \<Rightarrow> c_fault + ptr \<times> 's"
    and release :: "ptr \<Rightarrow> 's \<Rightarrow> c_fault + 's"
    and livemap :: "'s \<Rightarrow> ptr \<rightharpoonup> 't \<times> nat"
    and inv :: "'s \<Rightarrow> bool"
  assumes alloc_null: "inv s \<Longrightarrow> alloc t n s = Inr (NULL, s') \<Longrightarrow> s' = s"
    and alloc_inv: "inv s \<Longrightarrow> alloc t n s = Inr (a, s') \<Longrightarrow> inv s'"
    and alloc_fresh: "inv s \<Longrightarrow> alloc t n s = Inr (a, s') \<Longrightarrow> livemap s a = None"
    and alloc_live: "inv s \<Longrightarrow> alloc t n s = Inr (a, s') \<Longrightarrow> a \<noteq> NULL \<Longrightarrow>
          \<exists>z \<ge> n. livemap s' = (livemap s)(a \<mapsto> (t, z))"
    and release_ok: "inv s \<Longrightarrow> \<exists>s'. release a s = Inr s' \<and> inv s' \<and> livemap s' = (livemap s)(a := None)"
begin

lemma release_inv: "inv s \<Longrightarrow> release a s = Inr s' \<Longrightarrow> inv s'"
  using release_ok [of s a] by auto

lemma release_live: "inv s \<Longrightarrow> release a s = Inr s' \<Longrightarrow> livemap s' = (livemap s)(a := None)"
  using release_ok [of s a] by auto

lemma null_not_live: "inv s \<Longrightarrow> alloc t n s = Inr (NULL, s') \<Longrightarrow> livemap s NULL = None"
  by (rule alloc_fresh)

lemma alloc_keeps:
  assumes "inv s" "alloc t n s = Inr (a, s')" "livemap s b \<noteq> None"
  shows "b \<noteq> a" "livemap s' b = livemap s b"
proof -
  show b: "b \<noteq> a"
    using alloc_fresh [OF assms(1,2)] assms(3) by auto
  show "livemap s' b = livemap s b"
    using alloc_null [OF assms(1)] alloc_live [OF assms(1,2)] assms(2) b by (cases "a = NULL") auto
qed

lemma allocs_distinct:
  assumes "inv s" "alloc t n s = Inr (a, s1)" "a \<noteq> NULL" "alloc u k s1 = Inr (b, s2)"
  shows "a \<noteq> b"
proof -
  have "livemap s1 a \<noteq> None"
    using alloc_live [OF assms(1,2,3)] by auto
  then show ?thesis
    using alloc_fresh [OF alloc_inv [OF assms(1,2)] assms(4)] by auto
qed

lemma alloc_release:
  assumes "inv s" "alloc t n s = Inr (a, s1)"
  shows "\<exists>s2. release a s1 = Inr s2 \<and> inv s2 \<and> livemap s2 = livemap s"
proof -
  obtain s2 where s2: "release a s1 = Inr s2" "inv s2" "livemap s2 = (livemap s1)(a := None)"
    using release_ok [OF alloc_inv [OF assms]] by blast
  have n: "livemap s a = None"
    using alloc_fresh [OF assms] .
  have "(livemap s1)(a := None) = livemap s"
    using alloc_null [OF assms(1)] alloc_live [OF assms] assms(2) n
    by (cases "a = NULL") (auto simp: fun_eq_iff)
  then show ?thesis
    using s2 by simp
qed

end

lemma mp_malloc_zero: "mp_malloc q 0 s = Inr (NULL, s)"
  by (simp add: mp_malloc_def split: option.splits)

lemma live_NULL: "pool_ok s \<Longrightarrow> live s NULL = None"
  using live_dom [of s NULL] blocks_okD(3) by (fastforce elim!: pool_okE)

lemma mp_malloc_Inr:
  assumes "pool_ok s" "mp_malloc q n s = Inr (a, s')"
  shows "a = NULL \<and> s' = s \<or> malloc_post q n s a s'"
proof (cases "n = 0")
  case True
  then show ?thesis using assms by (simp add: mp_malloc_zero)
next
  case False
  then have "0 < n" by simp
  from assms(1) this show ?thesis
    by (cases rule: mp_malloc_cases [of s n q]) (use assms(2) in auto)
qed

interpretation mp: allocator mp_malloc mp_free live pool_ok
proof
  fix s s' :: pool and t n a
  assume ok: "pool_ok s"
  show "mp_malloc t n s = Inr (NULL, s') \<Longrightarrow> s' = s"
    using mp_malloc_Inr [OF ok] by (auto simp: malloc_post_def)
  show "mp_malloc t n s = Inr (a, s') \<Longrightarrow> pool_ok s'"
    using mp_malloc_Inr [OF ok] ok by (auto simp: malloc_post_def)
  show "mp_malloc t n s = Inr (a, s') \<Longrightarrow> live s a = None"
    using mp_malloc_Inr [OF ok] live_NULL [OF ok] by (auto simp: malloc_post_def)
  show "mp_malloc t n s = Inr (a, s') \<Longrightarrow> a \<noteq> NULL \<Longrightarrow> \<exists>z \<ge> n. live s' = (live s)(a \<mapsto> (t, z))"
    using mp_malloc_Inr [OF ok] unfolding malloc_post_def by blast
  show "\<exists>s'. mp_free a s = Inr s' \<and> pool_ok s' \<and> live s' = (live s)(a := None)"
    using mp_free_total [OF ok] by metis
qed

section \<open>Results\<close>

lemma get_singleton_mp_empty:
  assumes "g_mp s = None" "mem_nodes s = []" "purposes s = []" "0 < brk (libc s)"
    "sizeof_mem_pool + sizeof_pthread_mutex \<le> avail (libc s)" "avail (libc s) \<le> 2 ^ 36"
  shows "\<exists>s'. get_singleton_mp reserveds s = Inr s' \<and> pool_ok s' \<and> mem_nodes s' = []
    \<and> avail (libc s') = avail (libc s) - sizeof_mem_pool - sizeof_pthread_mutex"
proof -
  have "sizeof_pthread_mutex \<le> avail (libc s) - sizeof_mem_pool" "sizeof_mem_pool \<le> avail (libc s)"
    using assms(5) by simp_all
  then show ?thesis
    using assms
    by (simp add: get_singleton_mp_def mp_create_def malloc_def pthread_mutex_construct_def
        do_reserve_def pool_ok_def stat_ok_def purposes_ok_def users_def blocks_ok_def budget_def Let_def)
qed

text \<open>
  Start-up leaves a well-formed pool, and it is empty. The pointer \<^verbatim>\<open>g_mp\<close> is still NULL
  when \<^verbatim>\<open>mp_create\<close> calls \<^verbatim>\<open>do_reserve\<close>, so none of the blocks listed in \<^verbatim>\<open>reserveds\<close> is
  reserved, whatever the table says.
\<close>

theorem startup_reserves_nothing:
  assumes "g_mp s = None" "mem_nodes s = []" "purposes s = []" "0 < brk (libc s)"
    "sizeof_mem_pool + sizeof_pthread_mutex \<le> avail (libc s)" "avail (libc s) \<le> 2 ^ 36"
  shows "\<exists>s'. get_singleton_mp reserveds s = Inr s' \<and> pool_ok s' \<and> mem_nodes s' = []"
  using get_singleton_mp_empty [OF assms] by blast

definition cold_pool :: pool where
  "cold_pool = \<lparr>g_mp = None, mem_nodes = [], purposes = [], updated = False,
     libc = \<lparr>brk = 4096, avail = 65536, garbage = 0xAA, block = (\<lambda>_. [])\<rparr>\<rparr>"

theorem startup_reserves_nothing_witness:
  "\<exists>s'. get_singleton_mp [\<lparr>br_purpose = ''put_req'', br_size = 2400, br_count = 1000\<rparr>] cold_pool = Inr s'
     \<and> pool_ok s' \<and> mem_nodes s' = []"
  by (rule startup_reserves_nothing) (simp_all add: cold_pool_def pool_sizes)

lemma warm_pool:
  obtains s where "pool_ok s" "avail (libc s) = 65432" "mem_nodes s = []"
  using get_singleton_mp_empty [of cold_pool "[]"] by (auto simp: cold_pool_def pool_sizes)

text \<open>
  C32: allocation. From a well-formed pool \<^verbatim>\<open>mp_malloc\<close> either returns a block that was not
  live, at least as large as asked, zeroed over the requested length, with every other live block
  and its contents kept and the statistics and purpose counts again exact; or returns NULL with
  the pool unchanged, for lack of memory; or, for lack of memory too, dereferences the NULL that
  \<^verbatim>\<open>purpose_node_create\<close> returned.
\<close>

theorem mp_malloc_correct:
  assumes "pool_ok s" "0 < n"
  shows "case mp_malloc q n s of
      Inl e \<Rightarrow> e = Null_dereference \<and> avail (libc s) < sizeof_mem_node + n + sizeof_purpose_node
    | Inr (a, s') \<Rightarrow>
        if a = NULL then s' = s \<and> avail (libc s) < sizeof_mem_node + n
        else malloc_post q n s a s'"
  using assms by (cases rule: mp_malloc_cases [of s n q]) (auto simp: malloc_post_def)

theorem mp_malloc_correct_witness:
  "\<exists>s a s'. pool_ok s \<and> mp_malloc ''dlist_create'' 32 s = Inr (a, s') \<and> malloc_post ''dlist_create'' 32 s a s'"
proof -
  obtain s where s: "pool_ok s" "avail (libc s) = 65432"
    by (rule warm_pool)
  then show ?thesis
    using mp_malloc_correct [of s 32 "''dlist_create''"]
    by (intro exI [of _ s]) (auto simp: pool_sizes split: sum.splits if_splits)
qed

text \<open>
  C33: release. \<^verbatim>\<open>mp_free\<close> never fails on a well-formed pool: it removes exactly the given
  address from the live blocks, keeps the invariant, and ignores a double free and an address the
  pool never gave out.
\<close>

theorem mp_free_correct:
  assumes "pool_ok s"
  shows "\<exists>s'. mp_free a s = Inr s' \<and> pool_ok s' \<and> live s' = (live s)(a := None)
    \<and> (live s a = None \<longrightarrow> s' = s) \<and> length (mem_nodes s') = length (mem_nodes s)"
proof (cases "live s a")
  case None
  moreover have "(live s)(a := None) = live s"
    using None by (simp add: fun_eq_iff)
  ultimately show ?thesis
    using mp_free_dead [OF assms None] assms by simp
next
  case (Some d)
  then show ?thesis
    using mp_free_live [OF assms, of a] same_nodes_maps(4) by auto
qed

theorem mp_free_correct_witness:
  "\<exists>s a s'. pool_ok s \<and> live s a \<noteq> None \<and> mp_free a s = Inr s' \<and> live s' a = None"
proof -
  obtain s where s: "pool_ok s" "avail (libc s) = 65432"
    by (rule warm_pool)
  from s(1) obtain a s1 where "malloc_post ''q'' 8 s a s1"
    by (cases rule: mp_malloc_cases [of s 8 "''q''"]) (use s(2) in \<open>auto simp: pool_sizes\<close>)
  then have "pool_ok s1" "live s1 a \<noteq> None"
    by (auto simp: malloc_post_def)
  moreover from this obtain s2 where "mp_free a s1 = Inr s2" "live s2 = (live s1)(a := None)"
    using mp_free_correct [of s1 a] by blast
  ultimately show ?thesis
    by (intro exI [of _ s1] exI [of _ a] exI [of _ s2]) simp
qed

text \<open>The node that an allocation takes, and the size it has.\<close>

lemma add_purpose_nodes: "add_purpose q s = Inr s' \<Longrightarrow> mem_nodes s' = mem_nodes s"
  by (auto simp: add_purpose_def split: option.splits prod.splits)

lemma mp_use_node_nodes:
  assumes "mp_use_node q n m s = Inr (a, s')"
  shows "a = mn_address m \<and> length (mem_nodes s') = length (mem_nodes s)"
  using assms by (auto simp: mp_use_node_def Let_def upd_stat_def upd_node_def dest!: add_purpose_nodes)

lemma mp_malloc_node:
  assumes "pool_ok s" "0 < n" "mp_malloc q n s = Inr (a, s')" "a \<noteq> NULL"
  shows "case best_fit n None (mem_nodes s) of
      None \<Rightarrow> length (mem_nodes s') = Suc (length (mem_nodes s)) \<and> a \<notin> mn_address ` set (mem_nodes s)
    | Some m \<Rightarrow> length (mem_nodes s') = length (mem_nodes s) \<and> a = mn_address m"
proof -
  obtain mp where mp: "g_mp s = Some mp" "mp_mutex mp = Some True"
    and bl: "blocks_ok (mem_nodes s) (purposes s) (libc s)"
    using pool_okE [OF assms(1)] by metis
  show ?thesis
  proof (cases "best_fit n None (mem_nodes s)")
    case None
    then obtain m h where c: "mem_node_create n (libc s) = Some (m, h)"
      and u: "mp_use_node q n m (mp_add_node n m h s) = Inr (a, s')"
      using assms mp by (auto simp: mp_malloc_def mp_lock_def split: option.splits)
    note new = mem_node_create_Some [OF c bl assms(2)]
    have "a \<notin> mn_address ` set (mem_nodes s)"
      using mp_use_node_nodes [OF u] new(6) blocks_okD(4) [OF bl] by fastforce
    then show ?thesis
      using None mp_use_node_nodes [OF u] by (simp add: mp_add_node_def)
  next
    case (Some m)
    then have "mp_use_node q n m (upd_stat (\<lambda>t. t\<lparr>free_nodes := free_nodes t - 1\<rparr>) s) = Inr (a, s')"
      using assms mp by (simp add: mp_malloc_def mp_lock_def)
    from mp_use_node_nodes [OF this] show ?thesis
      using Some by (simp add: upd_stat_def)
  qed
qed

text \<open>
  Best fit. When a free node is large enough no new memory is taken, and the block returned
  is the smallest of the free nodes that fit; otherwise one node is added.
\<close>

theorem mp_malloc_best_fit:
  assumes "pool_ok s" "0 < n" "mp_malloc q n s = Inr (a, s')" "a \<noteq> NULL"
  shows "if \<exists>m \<in> set (mem_nodes s). fits n m
         then length (mem_nodes s') = length (mem_nodes s)
            \<and> (\<exists>m \<in> set (mem_nodes s). mn_address m = a \<and> fits n m
                 \<and> (\<forall>k \<in> set (mem_nodes s). fits n k \<longrightarrow> mn_size m \<le> mn_size k))
         else length (mem_nodes s') = Suc (length (mem_nodes s)) \<and> a \<notin> mn_address ` set (mem_nodes s)"
proof (cases "best_fit n None (mem_nodes s)")
  case None
  then show ?thesis
    using mp_malloc_node [OF assms] best_fit_None by auto
next
  case (Some m)
  moreover have "fits n m"
    using best_fit_Some(2,3) [OF Some] by (simp add: fits_def)
  ultimately show ?thesis
    using mp_malloc_node [OF assms] best_fit_Some(1,4) [OF Some] by auto
qed

theorem mp_malloc_best_fit_witness:
  "\<exists>s a s'. pool_ok s \<and> mp_malloc ''q'' 8 s = Inr (a, s') \<and> length (mem_nodes s') = 1"
proof -
  obtain s where s: "pool_ok s" "avail (libc s) = 65432" "mem_nodes s = []"
    by (rule warm_pool)
  from s(1) obtain a s1 where r: "mp_malloc ''q'' 8 s = Inr (a, s1)" "a \<noteq> NULL"
    by (cases rule: mp_malloc_cases [of s 8 "''q''"]) (use s(2) in \<open>auto simp: pool_sizes malloc_post_def\<close>)
  then show ?thesis
    using mp_malloc_best_fit [OF s(1) _ r] s by (intro exI [of _ s] exI [of _ a] exI [of _ s1]) simp
qed

text \<open>Writing into blocks without changing their sizes keeps the invariant.\<close>

lemma pool_ok_contents:
  assumes "pool_ok s" "brk h = brk (libc s)" "avail h = avail (libc s)"
    and "\<And>b. length (block h b) = length (block (libc s) b)"
  shows "pool_ok (s\<lparr>libc := h\<rparr>)"
  using assms(1) by (auto simp: pool_ok_def budget_def blocks_ok_def assms(2-4) split: option.splits)

text \<open>
  \<^verbatim>\<open>mp_realloc\<close> of a live block, with memory enough, moves it: the old block is released,
  the new one holds the old contents up to the smaller of the two sizes, and every other block
  stays live.
\<close>

theorem mp_realloc_moves:
  assumes "pool_ok s" "live s addr = Some (q, z)" "0 < n"
    and "sizeof_mem_node + n + sizeof_purpose_node \<le> avail (libc s)"
  shows "\<exists>tmp s' z'. mp_realloc addr n s = Inr (tmp, s') \<and> pool_ok s' \<and> tmp \<noteq> addr \<and> n \<le> z'
    \<and> live s' = ((live s)(addr := None))(tmp \<mapsto> (''mp_realloc'', z'))
    \<and> take (min n z) (block (libc s') tmp) = take (min n z) (block (libc s) addr)"
proof -
  obtain mp where mp: "g_mp s = Some mp" "mp_mutex mp = Some True"
    and bl: "blocks_ok (mem_nodes s) (purposes s) (libc s)"
    using pool_okE [OF assms(1)] by metis
  obtain p where p: "p \<in> set (mem_nodes s)" "mn_address p = addr" "mn_size p = z"
    using assms(2) live_Some_iff [OF blocks_okD(13) [OF bl]] by blast
  have f: "find_node addr (mem_nodes s) = Some p"
    using find_node_unique [OF blocks_okD(13) [OF bl] p(1)] p(2) by simp
  obtain tmp s1 where a: "mp_malloc ''mp_realloc'' n s = Inr (tmp, s1)" "malloc_post ''mp_realloc'' n s tmp s1"
    by (rule mp_malloc_cases [OF assms(1,3), of "''mp_realloc''"]) (use assms(4) in simp_all)
  obtain z' where z': "n \<le> z'" "live s1 = (live s)(tmp \<mapsto> (''mp_realloc'', z'))" "length (block (libc s1) tmp) = z'"
    and post: "pool_ok s1" "tmp \<noteq> NULL" "live s tmp = None" "block (libc s1) addr = block (libc s) addr"
    using a(2) assms(2) by (auto simp: malloc_post_def)
  have ne: "tmp \<noteq> addr"
    using post(3) assms(2) by auto
  have lz: "length (block (libc s) addr) = z"
    using blocks_okD(8) [OF bl p(1)] p by simp
  let ?k = "if n < z then n else z"
  let ?h = "libc s1\<lparr>block := (block (libc s1))(tmp := take ?k (block (libc s) addr) @ drop ?k (block (libc s1) tmp))\<rparr>"
  have cp: "memcpy tmp addr ?k (libc s1) = Inr ?h"
    using z' lz post(4) by (auto simp: memcpy_def)
  let ?s2 = "s1\<lparr>libc := ?h\<rparr>"
  have len: "length (block ?h b) = length (block (libc s1) b)" for b
    using z' lz by auto
  have ok2: "pool_ok ?s2"
    using len by (intro pool_ok_contents [OF post(1)]) simp_all
  have l2: "live ?s2 = live s1"
    by (simp add: live_def)
  obtain s3 where s3: "mp_free addr ?s2 = Inr s3" "pool_ok s3" "live s3 = (live ?s2)(addr := None)"
    "\<And>b. b \<in> mn_address ` set (mem_nodes s1) \<Longrightarrow> block (libc s3) b = block ?h b"
    using mp_free_total [OF ok2, of addr] by auto
  have "tmp \<in> mn_address ` set (mem_nodes s1)"
    using live_dom [of s1 tmp] z'(2) by simp
  then have "block (libc s3) tmp = take ?k (block (libc s) addr) @ drop ?k (block (libc s1) tmp)"
    using s3(4) by simp
  then have "take (min n z) (block (libc s3) tmp) = take (min n z) (block (libc s) addr)"
    using lz by (simp add: min_def)
  moreover have "mp_realloc addr n s = Inr (tmp, s3)"
    using mp f a(1) post(2) cp s3(1) p(3)
    by (simp add: mp_realloc_def mp_lock_def del: sbind_eq_Inr split: if_splits)
  moreover have "live s3 = ((live s)(addr := None))(tmp \<mapsto> (''mp_realloc'', z'))"
    using s3(3) l2 z'(2) ne by (simp add: fun_upd_twist)
  ultimately show ?thesis
    using s3(2) ne z'(1) by blast
qed

text \<open>A pool with one node of 8 bytes, in use or free.\<close>

definition one_node_pool :: "bool \<Rightarrow> pool" where
  "one_node_pool u =
     \<lparr>g_mp = Some \<lparr>mp_nodes = 200, mp_mutex = Some True,
        mp_stat = \<lparr>total_size = 8, total_nodes = 1, using_nodes = (if u then 1 else 0),
                   free_nodes = (if u then 0 else 1)\<rparr>\<rparr>,
      mem_nodes = [\<lparr>mn_self = 200, mn_size = 8, is_using = u, mn_address = 300,
                    mn_purpose = ''q'', used_cnt = 1\<rparr>],
      purposes = (if u then [\<lparr>pn_self = 400, pn_purpose = ''q'', pn_count = 1\<rparr>] else []),
      updated = True,
      libc = \<lparr>brk = 4096, avail = 65536, garbage = 0xAA,
              block = (\<lambda>_. [])(300 := [1, 2, 3, 4, 5, 6, 7, 8], 400 := replicate 32 0)\<rparr>\<rparr>"

lemma one_node_pool_ok: "pool_ok (one_node_pool u)" "live (one_node_pool True) 300 = Some (''q'', 8)"
  "live (one_node_pool False) = (\<lambda>_. None)" "mem_nodes (one_node_pool u) \<noteq> []"
  "avail (libc (one_node_pool u)) = 65536"
  by (cases u; simp add: pool_ok_def one_node_pool_def stat_ok_def purposes_ok_def users_def
      blocks_ok_def budget_def pool_sizes live_def)+

theorem mp_realloc_moves_witness:
  "\<exists>tmp s'. mp_realloc 300 100 (one_node_pool True) = Inr (tmp, s')
     \<and> take 8 (block (libc s') tmp) = [1, 2, 3, 4, 5, 6, 7, 8]"
proof -
  have "block (libc (one_node_pool True)) 300 = [1, 2, 3, 4, 5, 6, 7, 8]"
    by (simp add: one_node_pool_def)
  then show ?thesis
    using mp_realloc_moves [OF one_node_pool_ok(1,2), of 100]
    by (auto simp: pool_sizes one_node_pool_ok(5))
qed

text \<open>
  Tearing the pool down reads freed memory. \<^verbatim>\<open>mp_destroy\<close> does nothing while a block is in
  use; with all blocks free and at least one node it walks the list through the node it has just
  freed.
\<close>

theorem mp_destroy_use_after_free:
  assumes "pool_ok s" "live s = (\<lambda>_. None)" "mem_nodes s \<noteq> []"
  shows "mem_pool_del s = Inl Use_after_free"
proof -
  obtain mp where mp: "g_mp s = Some mp" and bl: "blocks_ok (mem_nodes s) (purposes s) (libc s)"
    using pool_okE [OF assms(1)] by metis
  have "\<not> is_using m" if "m \<in> set (mem_nodes s)" for m
    using live_Some_iff [OF blocks_okD(13) [OF bl]] assms(2) that by (metis option.discI)
  then show ?thesis
    using mp assms(3) by (simp add: mem_pool_del_def mp_destroy_def list_ex_iff)
qed

theorem mp_destroy_use_after_free_witness: "mem_pool_del (one_node_pool False) = Inl Use_after_free"
  by (rule mp_destroy_use_after_free [OF one_node_pool_ok(1,3,4)])

end
