(* ===== verification/Sftt_Dlist.thy ===== *)
theory Sftt_Dlist
  imports Sftt_Mem_Pool "HOL-Library.Multiset"
begin

text \<open>
  The doubly linked list (\<^verbatim>\<open>src/src/dlist.c\<close>, \<^verbatim>\<open>src/include/dlist.h\<close>) on an explicit heap: every
  node and every list header is an object at an address that the memory pool gave out, and the
  operations read and write the fields one by one as the C code does. \<open>is_dlist\<close> relates a list
  header to the sequence of (node address, data) pairs it represents; each operation is shown to
  implement the corresponding operation on sequences, to leave other objects alone and to keep
  the pool's invariant.

  Reading or writing an address that holds no object of the right type is a fault, so a result
  \<open>Inr\<close> also says that the code never touches freed memory. Loops over \<^verbatim>\<open>next\<close> pointers carry
  fuel: a walk can only visit addresses below the top of the C heap, so one that takes more steps
  than that revisits a node and does not end.
\<close>

section \<open>Objects\<close>

record dlist_node =
  dn_data :: ptr
  dn_prev :: ptr
  dn_next :: ptr

record dlist =
  dl_size :: "32 word"
  dl_free_mode :: free_mode
  dl_show :: ptr
  dl_head :: ptr
  dl_tail :: ptr

record kv_node =
  kv_key :: ptr
  kv_value :: ptr

text \<open>
  The objects of this heap. \<open>Box\<close> is a struct whose only field is a pointer to a list:
  \<^verbatim>\<open>struct queue\<close>, \<^verbatim>\<open>struct stack\<close> and \<^verbatim>\<open>struct map\<close>.
\<close>

datatype obj = Node dlist_node | List dlist | Box ptr | Kv kv_node

record heap =
  h_pool :: pool
  h_obj :: "ptr \<rightharpoonup> obj"

definition bad_access :: "ptr \<Rightarrow> c_fault" where
  "bad_access p = (if p = NULL then Null_dereference else Use_after_free)"

definition rd_node :: "heap \<Rightarrow> ptr \<Rightarrow> c_fault + dlist_node" where
  "rd_node h p = (case h_obj h p of Some (Node n) \<Rightarrow> Inr n | _ \<Rightarrow> Inl (bad_access p))"

definition rd_list :: "heap \<Rightarrow> ptr \<Rightarrow> c_fault + dlist" where
  "rd_list h p = (case h_obj h p of Some (List l) \<Rightarrow> Inr l | _ \<Rightarrow> Inl (bad_access p))"

definition put_obj :: "ptr \<Rightarrow> obj \<Rightarrow> heap \<Rightarrow> heap" where
  "put_obj p x h = h\<lparr>h_obj := (h_obj h)(p \<mapsto> x)\<rparr>"

definition wr_node :: "ptr \<Rightarrow> (dlist_node \<Rightarrow> dlist_node) \<Rightarrow> heap \<Rightarrow> c_fault + heap" where
  "wr_node p f h = sbind (rd_node h p) (\<lambda>n. Inr (put_obj p (Node (f n)) h))"

definition wr_list :: "ptr \<Rightarrow> (dlist \<Rightarrow> dlist) \<Rightarrow> heap \<Rightarrow> c_fault + heap" where
  "wr_list p f h = sbind (rd_list h p) (\<lambda>l. Inr (put_obj p (List (f l)) h))"

text \<open>Allocation of an object and its release; a released address holds no object any more.\<close>

definition new_obj :: "string \<Rightarrow> nat \<Rightarrow> obj \<Rightarrow> heap \<Rightarrow> c_fault + ptr \<times> heap" where
  "new_obj purpose n x h =
     sbind (mp_malloc purpose n (h_pool h)) (\<lambda>(a, p).
       if a = NULL then Inr (NULL, h\<lparr>h_pool := p\<rparr>)
       else Inr (a, put_obj a x (h\<lparr>h_pool := p\<rparr>)))"

definition del_obj :: "ptr \<Rightarrow> heap \<Rightarrow> c_fault + heap" where
  "del_obj a h =
     sbind (mp_free a (h_pool h)) (\<lambda>p. Inr (h\<lparr>h_pool := p, h_obj := (h_obj h)(a := None)\<rparr>))"

definition sizeof_dlist_node :: nat where "sizeof_dlist_node = 24"
definition sizeof_dlist :: nat where "sizeof_dlist = 32"

definition walk_fuel :: "heap \<Rightarrow> nat" where
  "walk_fuel h = Suc (brk (libc (h_pool h)))"

section \<open>Operations\<close>

definition dlist_node_create :: "ptr \<Rightarrow> heap \<Rightarrow> c_fault + ptr \<times> heap" where
  "dlist_node_create data h =
     new_obj ''dlist_node_create'' sizeof_dlist_node
       (Node \<lparr>dn_data = data, dn_prev = NULL, dn_next = NULL\<rparr>) h"

definition dlist_init :: "ptr \<Rightarrow> free_mode \<Rightarrow> heap \<Rightarrow> c_fault + heap" where
  "dlist_init list mode h =
     (if list = NULL then Inr h
      else wr_list list (\<lambda>l. \<lparr>dl_size = 0, dl_free_mode = mode, dl_show = NULL,
                              dl_head = NULL, dl_tail = NULL\<rparr>) h)"

text \<open>The pool hands out zeroed memory: a list header with \<^verbatim>\<open>FREE_MODE_NOTHING\<close> and null pointers.\<close>

definition dlist_create :: "free_mode \<Rightarrow> heap \<Rightarrow> c_fault + ptr \<times> heap" where
  "dlist_create mode h =
     sbind (new_obj ''dlist_create'' sizeof_dlist
              (List \<lparr>dl_size = 0, dl_free_mode = FREE_MODE_NOTHING, dl_show = NULL,
                     dl_head = NULL, dl_tail = NULL\<rparr>) h) (\<lambda>(list, h1).
     sbind (dlist_init list mode h1) (\<lambda>h2. Inr (list, h2)))"

definition free_data :: "free_mode \<Rightarrow> ptr \<Rightarrow> heap \<Rightarrow> c_fault + heap" where
  "free_data mode d h =
     (case mode of
        FREE_MODE_NOTHING \<Rightarrow> Inr h
      | FREE_MODE_MP_FREE \<Rightarrow> del_obj d h
      | FREE_MODE_FREE \<Rightarrow>
          Inr (h\<lparr>h_pool := (h_pool h)\<lparr>libc := c_free d (libc (h_pool h))\<rparr>\<rparr>))"

fun destroy_loop :: "nat \<Rightarrow> ptr \<Rightarrow> ptr \<Rightarrow> heap \<Rightarrow> c_fault + heap" where
  "destroy_loop 0 list p h = Inl No_return"
| "destroy_loop (Suc k) list p h =
     (if p = NULL then Inr h
      else sbind (rd_list h list) (\<lambda>l.
           sbind (rd_node h p) (\<lambda>n.
           sbind (free_data (dl_free_mode l) (dn_data n) h) (\<lambda>h1.
           sbind (rd_node h1 p) (\<lambda>n1.
           sbind (del_obj p h1) (\<lambda>h2. destroy_loop k list (dn_next n1) h2))))))"

definition dlist_destroy :: "ptr \<Rightarrow> heap \<Rightarrow> c_fault + heap" where
  "dlist_destroy list h =
     (if list = NULL then Inr h
      else sbind (rd_list h list) (\<lambda>l.
           sbind (destroy_loop (walk_fuel h) list (dl_head l) h) (\<lambda>h1. del_obj list h1)))"

definition dlist_ins_next :: "ptr \<Rightarrow> ptr \<Rightarrow> ptr \<Rightarrow> heap \<Rightarrow> c_fault + 32 word \<times> heap" where
  "dlist_ins_next list elem data h =
     (if list = NULL \<or> elem = NULL then Inr (- 1, h)
      else sbind (dlist_node_create data h) (\<lambda>(node, h1).
        if node = NULL then Inr (- 1, h1)
        else sbind (rd_node h1 elem) (\<lambda>e.
          let next = dn_next e in
          sbind (wr_node node (\<lambda>n. n\<lparr>dn_next := next\<rparr>) h1) (\<lambda>h2.
          sbind (if next \<noteq> NULL then wr_node next (\<lambda>n. n\<lparr>dn_prev := node\<rparr>) h2 else Inr h2) (\<lambda>h3.
          sbind (wr_node node (\<lambda>n. n\<lparr>dn_prev := elem\<rparr>) h3) (\<lambda>h4.
          sbind (wr_node elem (\<lambda>n. n\<lparr>dn_next := node\<rparr>) h4) (\<lambda>h5.
          sbind (wr_list list (\<lambda>l. l\<lparr>dl_size := dl_size l + 1,
                   dl_tail := (if dl_tail l = elem then node else dl_tail l)\<rparr>) h5) (\<lambda>h6.
          sbind (rd_list h6 list) (\<lambda>l. Inr (dl_size l, h6))))))))))"

definition dlist_ins_prev :: "ptr \<Rightarrow> ptr \<Rightarrow> ptr \<Rightarrow> heap \<Rightarrow> c_fault + 32 word \<times> heap" where
  "dlist_ins_prev list elem data h =
     (if list = NULL \<or> elem = NULL then Inr (- 1, h)
      else sbind (dlist_node_create data h) (\<lambda>(node, h1).
        if node = NULL then Inr (- 1, h1)
        else sbind (rd_node h1 elem) (\<lambda>e.
          let prev = dn_prev e in
          sbind (wr_node node (\<lambda>n. n\<lparr>dn_prev := prev\<rparr>) h1) (\<lambda>h2.
          sbind (if prev \<noteq> NULL then wr_node prev (\<lambda>n. n\<lparr>dn_next := node\<rparr>) h2 else Inr h2) (\<lambda>h3.
          sbind (wr_node node (\<lambda>n. n\<lparr>dn_next := elem\<rparr>) h3) (\<lambda>h4.
          sbind (wr_node elem (\<lambda>n. n\<lparr>dn_prev := node\<rparr>) h4) (\<lambda>h5.
          sbind (wr_list list (\<lambda>l. l\<lparr>dl_size := dl_size l + 1,
                   dl_head := (if dl_head l = elem then node else dl_head l)\<rparr>) h5) (\<lambda>h6.
          sbind (rd_list h6 list) (\<lambda>l. Inr (dl_size l, h6))))))))))"

text \<open>The first element of an empty list, the common branch of \<^verbatim>\<open>dlist_prepend\<close> and \<^verbatim>\<open>dlist_append\<close>.\<close>

definition dlist_first :: "ptr \<Rightarrow> ptr \<Rightarrow> heap \<Rightarrow> c_fault + 32 word \<times> heap" where
  "dlist_first list data h =
     sbind (rd_list h list) (\<lambda>l.
       if \<not> (dl_head l = NULL \<and> dl_tail l = NULL) then Inl Assertion_failed
       else sbind (dlist_node_create data h) (\<lambda>(node, h1).
         if node = NULL then Inr (- 1, h1)
         else sbind (wr_list list (\<lambda>l. l\<lparr>dl_head := node, dl_tail := node,
                                         dl_size := dl_size l + 1\<rparr>) h1) (\<lambda>h2.
              sbind (rd_list h2 list) (\<lambda>l. Inr (dl_size l, h2)))))"

definition dlist_prepend :: "ptr \<Rightarrow> ptr \<Rightarrow> heap \<Rightarrow> c_fault + 32 word \<times> heap" where
  "dlist_prepend list data h =
     (if list = NULL then Inr (- 1, h)
      else sbind (rd_list h list) (\<lambda>l.
        if dl_head l = NULL then dlist_first list data h
        else dlist_ins_prev list (dl_head l) data h))"

definition dlist_append :: "ptr \<Rightarrow> ptr \<Rightarrow> heap \<Rightarrow> c_fault + 32 word \<times> heap" where
  "dlist_append list data h =
     (if list = NULL then Inr (- 1, h)
      else sbind (rd_list h list) (\<lambda>l.
        if dl_tail l = NULL then dlist_first list data h
        else dlist_ins_next list (dl_tail l) data h))"

text \<open>
  \<^verbatim>\<open>dlist_remove\<close> stores the data of the removed element through its argument \<^verbatim>\<open>data\<close> when that is
  not NULL; here the stored value is the second component, \<open>None\<close> when nothing is stored.
\<close>

definition dlist_remove ::
  "ptr \<Rightarrow> ptr \<Rightarrow> bool \<Rightarrow> bool \<Rightarrow> heap \<Rightarrow> c_fault + 32 word \<times> ptr option \<times> heap" where
  "dlist_remove list elem data need_free h =
     (if list = NULL \<or> elem = NULL then Inr (- 1, None, h)
      else sbind (rd_node h elem) (\<lambda>e.
        let prev = dn_prev e; next = dn_next e in
        sbind (if prev \<noteq> NULL then wr_node prev (\<lambda>n. n\<lparr>dn_next := next\<rparr>) h else Inr h) (\<lambda>h1.
        sbind (if next \<noteq> NULL then wr_node next (\<lambda>n. n\<lparr>dn_prev := prev\<rparr>) h1 else Inr h1) (\<lambda>h2.
        sbind (wr_list list (\<lambda>l. l\<lparr>dl_head := (if elem = dl_head l then next else dl_head l),
                                   dl_tail := (if elem = dl_tail l then prev else dl_tail l)\<rparr>) h2) (\<lambda>h3.
        sbind (rd_node h3 elem) (\<lambda>e3.
        sbind (if need_free then del_obj elem h3
               else wr_node elem (\<lambda>n. n\<lparr>dn_prev := NULL, dn_next := NULL\<rparr>) h3) (\<lambda>h4.
        sbind (wr_list list (\<lambda>l. l\<lparr>dl_size := dl_size l - 1\<rparr>) h4) (\<lambda>h5.
        sbind (rd_list h5 list) (\<lambda>l.
          Inr (dl_size l, if data then Some (dn_data e3) else None, h5))))))))))"

definition dlist_pop_front :: "ptr \<Rightarrow> bool \<Rightarrow> heap \<Rightarrow> c_fault + 32 word \<times> ptr option \<times> heap" where
  "dlist_pop_front list data h =
     (if list = NULL then Inr (- 1, None, h)
      else sbind (rd_list h list) (\<lambda>l.
        if dl_head l = NULL
        then if \<not> (dl_head l = NULL \<and> dl_tail l = NULL) then Inl Assertion_failed
             else Inr (dl_size l, None, h)
        else dlist_remove list (dl_head l) data True h))"

definition dlist_pop_back :: "ptr \<Rightarrow> bool \<Rightarrow> heap \<Rightarrow> c_fault + 32 word \<times> ptr option \<times> heap" where
  "dlist_pop_back list data h =
     (if list = NULL then Inr (- 1, None, h)
      else sbind (rd_list h list) (\<lambda>l.
        if dl_tail l = NULL
        then if \<not> (dl_head l = NULL \<and> dl_tail l = NULL) then Inl Assertion_failed
             else Inr (dl_size l, None, h)
        else dlist_remove list (dl_tail l) data True h))"

definition dlist_size :: "ptr \<Rightarrow> heap \<Rightarrow> c_fault + 32 word" where
  "dlist_size list h = (if list = NULL then Inr 0 else sbind (rd_list h list) (\<lambda>l. Inr (dl_size l)))"

definition dlist_head :: "ptr \<Rightarrow> heap \<Rightarrow> c_fault + ptr" where
  "dlist_head list h = (if list = NULL then Inr NULL else sbind (rd_list h list) (\<lambda>l. Inr (dl_head l)))"

definition dlist_tail :: "ptr \<Rightarrow> heap \<Rightarrow> c_fault + ptr" where
  "dlist_tail list h = (if list = NULL then Inr NULL else sbind (rd_list h list) (\<lambda>l. Inr (dl_tail l)))"

definition dlist_is_head :: "ptr \<Rightarrow> heap \<Rightarrow> c_fault + bool" where
  "dlist_is_head elem h =
     (if elem = NULL then Inr False else sbind (rd_node h elem) (\<lambda>n. Inr (dn_prev n = NULL)))"

definition dlist_is_tail :: "ptr \<Rightarrow> heap \<Rightarrow> c_fault + bool" where
  "dlist_is_tail elem h =
     (if elem = NULL then Inr False else sbind (rd_node h elem) (\<lambda>n. Inr (dn_next n = NULL)))"

definition dlist_data :: "ptr \<Rightarrow> heap \<Rightarrow> c_fault + ptr" where
  "dlist_data elem h = (if elem \<noteq> NULL then sbind (rd_node h elem) (\<lambda>n. Inr (dn_data n)) else Inr NULL)"

definition dlist_next :: "ptr \<Rightarrow> heap \<Rightarrow> c_fault + ptr" where
  "dlist_next elem h = (if elem \<noteq> NULL then sbind (rd_node h elem) (\<lambda>n. Inr (dn_next n)) else Inr NULL)"

definition dlist_prev :: "ptr \<Rightarrow> heap \<Rightarrow> c_fault + ptr" where
  "dlist_prev elem h = (if elem \<noteq> NULL then sbind (rd_node h elem) (\<lambda>n. Inr (dn_prev n)) else Inr NULL)"

definition dlist_set_show :: "ptr \<Rightarrow> ptr \<Rightarrow> heap \<Rightarrow> c_fault + heap" where
  "dlist_set_show list show h =
     (if list = NULL then Inr h else wr_list list (\<lambda>l. l\<lparr>dl_show := show\<rparr>) h)"

definition dlist_empty :: "ptr \<Rightarrow> heap \<Rightarrow> c_fault + bool" where
  "dlist_empty list h =
     (if list = NULL then Inr True
      else sbind (rd_list h list) (\<lambda>l.
        if dl_size l = 0
        then if dl_head l = NULL \<and> dl_tail l = NULL then Inr True else Inl Assertion_failed
        else if dl_head l \<noteq> NULL \<and> dl_tail l \<noteq> NULL then Inr False else Inl Assertion_failed))"

text \<open>
  The loops of \<^verbatim>\<open>dlist_get_max\<close> and \<^verbatim>\<open>dlist_get_min\<close>: \<open>better a b\<close> is the test under which the
  candidate with data \<open>a\<close> gives way to the node with data \<open>b\<close>.
\<close>

fun get_best_loop :: "nat \<Rightarrow> (ptr \<Rightarrow> ptr \<Rightarrow> bool) \<Rightarrow> ptr \<Rightarrow> ptr \<Rightarrow> heap \<Rightarrow> c_fault + ptr" where
  "get_best_loop 0 better node p h = Inl No_return"
| "get_best_loop (Suc k) better node p h =
     (if p = NULL then Inr node
      else sbind (rd_node h p) (\<lambda>n.
        if node = NULL then get_best_loop k better p (dn_next n) h
        else sbind (rd_node h node) (\<lambda>m.
          get_best_loop k better (if better (dn_data m) (dn_data n) then p else node) (dn_next n) h)))"

definition dlist_get_max :: "ptr \<Rightarrow> (ptr \<Rightarrow> ptr \<Rightarrow> int) \<Rightarrow> heap \<Rightarrow> c_fault + ptr" where
  "dlist_get_max list cmp h =
     (if list = NULL then Inr NULL
      else sbind (rd_list h list) (\<lambda>l.
        get_best_loop (walk_fuel h) (\<lambda>a b. cmp a b < 0) NULL (dl_head l) h))"

definition dlist_get_min :: "ptr \<Rightarrow> (ptr \<Rightarrow> ptr \<Rightarrow> int) \<Rightarrow> heap \<Rightarrow> c_fault + ptr" where
  "dlist_get_min list cmp h =
     (if list = NULL then Inr NULL
      else sbind (rd_list h list) (\<lambda>l.
        get_best_loop (walk_fuel h) (\<lambda>a b. cmp a b > 0) NULL (dl_head l) h))"

text \<open>The selection loop of \<^verbatim>\<open>dlist_sort\<close>, with its variables \<^verbatim>\<open>new_head\<close> and \<^verbatim>\<open>new_tail\<close>.\<close>

fun sort_loop ::
  "nat \<Rightarrow> ptr \<Rightarrow> (ptr \<Rightarrow> ptr \<Rightarrow> int) \<Rightarrow> bool \<Rightarrow> ptr \<Rightarrow> ptr \<Rightarrow> heap \<Rightarrow> c_fault + ptr \<times> ptr \<times> heap" where
  "sort_loop 0 list cmp asc new_head new_tail h = Inl No_return"
| "sort_loop (Suc k) list cmp asc new_head new_tail h =
     sbind (dlist_size list h) (\<lambda>n.
       if \<not> 0 <s n then Inr (new_head, new_tail, h)
       else sbind (if asc then dlist_get_min list cmp h else dlist_get_max list cmp h) (\<lambda>node.
            sbind (dlist_remove list node False False h) (\<lambda>(_, _, h1).
              if new_head = NULL then sort_loop k list cmp asc node node h1
              else sbind (wr_node new_tail (\<lambda>t. t\<lparr>dn_next := node\<rparr>) h1) (\<lambda>h2.
                   sbind (wr_node node (\<lambda>t. t\<lparr>dn_prev := new_tail\<rparr>) h2) (\<lambda>h3.
                     sort_loop k list cmp asc new_head node h3)))))"

definition dlist_sort :: "ptr \<Rightarrow> (ptr \<Rightarrow> ptr \<Rightarrow> int) \<Rightarrow> bool \<Rightarrow> heap \<Rightarrow> c_fault + heap" where
  "dlist_sort list cmp asc h =
     (if list = NULL then Inr h
      else sbind (dlist_size list h) (\<lambda>size0.
           sbind (sort_loop (walk_fuel h) list cmp asc NULL NULL h) (\<lambda>(new_head, new_tail, h1).
           sbind (rd_list h1 list) (\<lambda>l.
             if \<not> (dl_head l = NULL \<and> dl_tail l = NULL) then Inl Assertion_failed
             else wr_list list (\<lambda>l. l\<lparr>dl_head := new_head, dl_tail := new_tail, dl_size := size0\<rparr>) h1))))"

definition dlist_merge :: "ptr \<Rightarrow> ptr \<Rightarrow> heap \<Rightarrow> c_fault + ptr \<times> heap" where
  "dlist_merge list_a list_b h =
     (if list_a = NULL \<and> list_b = NULL then Inr (NULL, h)
      else sbind (if list_a = NULL then Inr True else dlist_empty list_a h) (\<lambda>ea.
        if ea then Inr (list_b, h)
        else sbind (if list_b = NULL then Inr True else dlist_empty list_b h) (\<lambda>eb.
          if eb then Inr (list_a, h)
          else sbind (rd_list h list_a) (\<lambda>la. sbind (rd_list h list_b) (\<lambda>lb.
            sbind (wr_node (dl_tail la) (\<lambda>n. n\<lparr>dn_next := dl_head lb\<rparr>) h) (\<lambda>h1.
            sbind (wr_node (dl_head lb) (\<lambda>n. n\<lparr>dn_prev := dl_tail la\<rparr>) h1) (\<lambda>h2.
            sbind (wr_list list_a (\<lambda>l. l\<lparr>dl_tail := dl_tail lb, dl_size := dl_size l + dl_size lb\<rparr>) h2) (\<lambda>h3.
              Inr (list_a, h3)))))))))"

section \<open>Well-formed heaps\<close>

text \<open>Every object lives in a block of the pool that is in use.\<close>

definition heap_ok :: "heap \<Rightarrow> bool" where
  "heap_ok h \<longleftrightarrow> pool_ok (h_pool h) \<and> dom (h_obj h) \<subseteq> dom (live (h_pool h))"

definition short :: "nat \<Rightarrow> heap \<Rightarrow> bool" where
  "short n h \<longleftrightarrow> avail (libc (h_pool h)) < sizeof_mem_node + n + sizeof_purpose_node"

lemma new_obj_cases:
  assumes "heap_ok h" "0 < n"
  obtains (oom) "new_obj q n x h = Inl Null_dereference" "short n h"
    | (null) "new_obj q n x h = Inr (NULL, h)" "short n h"
    | (okay) a h' where "new_obj q n x h = Inr (a, h')" "a \<noteq> NULL" "h_obj h a = None"
        "h_obj h' = (h_obj h)(a \<mapsto> x)" "heap_ok h'"
proof -
  have ok: "pool_ok (h_pool h)"
    using assms(1) by (simp add: heap_ok_def)
  show ?thesis
  proof (rule mp_malloc_cases [OF ok assms(2), of q])
    assume "mp_malloc q n (h_pool h) = Inl Null_dereference"
      "avail (libc (h_pool h)) < sizeof_mem_node + n + sizeof_purpose_node"
    then show ?thesis
      using oom by (simp add: new_obj_def short_def)
  next
    assume "mp_malloc q n (h_pool h) = Inr (NULL, h_pool h)" "avail (libc (h_pool h)) < sizeof_mem_node + n"
    then show ?thesis
      using null by (simp add: new_obj_def short_def)
  next
    fix a s
    assume m: "mp_malloc q n (h_pool h) = Inr (a, s)" "malloc_post q n (h_pool h) a s"
    then have a: "a \<noteq> NULL"
      by (simp add: malloc_post_def)
    have f: "h_obj h a = None"
      using assms(1) mp.alloc_fresh [OF ok m(1)] by (auto simp: heap_ok_def)
    have "dom (live s) = insert a (dom (live (h_pool h)))"
      using mp.alloc_live [OF ok m(1) a] by auto
    then have "heap_ok (put_obj a x (h\<lparr>h_pool := s\<rparr>))"
      using assms(1) mp.alloc_inv [OF ok m(1)] by (auto simp: heap_ok_def put_obj_def)
    then show ?thesis
      using m(1) a f by (intro okay [of a]) (simp_all add: new_obj_def put_obj_def)
  qed
qed

lemma del_obj_ok:
  assumes "heap_ok h"
  obtains h' where "del_obj a h = Inr h'" "heap_ok h'" "h_obj h' = (h_obj h)(a := None)"
proof -
  have ok: "pool_ok (h_pool h)"
    using assms by (simp add: heap_ok_def)
  obtain s where s: "mp_free a (h_pool h) = Inr s" "pool_ok s" "live s = (live (h_pool h))(a := None)"
    using mp.release_ok [OF ok] by blast
  have "dom ((h_obj h)(a := None)) \<subseteq> dom (live s)"
    using assms s(3) by (auto simp: heap_ok_def)
  then show ?thesis
    using s by (intro that [of "h\<lparr>h_pool := s, h_obj := (h_obj h)(a := None)\<rparr>"])
      (simp_all add: del_obj_def heap_ok_def)
qed

lemma heap_ok_put: "heap_ok h \<Longrightarrow> h_obj h a \<noteq> None \<Longrightarrow> heap_ok (put_obj a x h)"
  by (auto simp: heap_ok_def put_obj_def)

lemma h_obj_put [simp]: "h_obj (put_obj a x h) = (h_obj h)(a \<mapsto> x)"
  by (simp add: put_obj_def)

lemma h_pool_put [simp]: "h_pool (put_obj a x h) = h_pool h"
  by (simp add: put_obj_def)

lemma rd_node_eq [heap_simps]: "h_obj h p = Some (Node n) \<Longrightarrow> rd_node h p = Inr n"
  by (simp add: rd_node_def)

lemma rd_list_eq [heap_simps]: "h_obj h p = Some (List l) \<Longrightarrow> rd_list h p = Inr l"
  by (simp add: rd_list_def)

lemma wr_node_eq [heap_simps]: "h_obj h p = Some (Node n) \<Longrightarrow> wr_node p f h = Inr (put_obj p (Node (f n)) h)"
  by (simp add: wr_node_def rd_node_def)

lemma wr_list_eq [heap_simps]: "h_obj h p = Some (List l) \<Longrightarrow> wr_list p f h = Inr (put_obj p (List (f l)) h)"
  by (simp add: wr_list_def rd_list_def)

section \<open>Chains of nodes\<close>

definition first :: "(ptr \<times> ptr) list \<Rightarrow> ptr \<Rightarrow> ptr" where
  "first xs n = (case xs of [] \<Rightarrow> n | x # _ \<Rightarrow> fst x)"

definition lastp :: "ptr \<Rightarrow> (ptr \<times> ptr) list \<Rightarrow> ptr" where
  "lastp p xs = (if xs = [] then p else fst (last xs))"

lemma first_simps [simp]: "first [] n = n" "first (x # xs) n = fst x"
  by (simp_all add: first_def)

lemma first_append: "first (xs @ ys) n = first xs (first ys n)"
  by (cases xs) simp_all

lemma lastp_simps [simp]: "lastp p [] = p" "lastp p (xs @ [x]) = fst x" "lastp p (x # xs) = lastp (fst x) xs"
  by (auto simp: lastp_def)

lemma lastp_append [simp]: "lastp p (xs @ ys) = lastp (lastp p xs) ys"
  by (simp add: lastp_def)

text \<open>
  \<open>dchain H p xs n\<close>: the nodes of \<open>xs\<close>, given as (address, data), are linked in both directions,
  with \<open>p\<close> before the first and \<open>n\<close> after the last.
\<close>

fun dchain :: "(ptr \<rightharpoonup> obj) \<Rightarrow> ptr \<Rightarrow> (ptr \<times> ptr) list \<Rightarrow> ptr \<Rightarrow> bool" where
  "dchain H p [] n = True"
| "dchain H p ((a, d) # xs) n =
     (a \<noteq> NULL \<and> H a = Some (Node \<lparr>dn_data = d, dn_prev = p, dn_next = first xs n\<rparr>) \<and> dchain H a xs n)"

lemma dchain_append [simp]:
  "dchain H p (xs @ ys) n \<longleftrightarrow> dchain H p xs (first ys n) \<and> dchain H (lastp p xs) ys n"
proof (induction xs arbitrary: p)
  case (Cons x xs)
  then show ?case by (cases x) (simp add: first_append)
qed simp

lemma dchain_cong: "(\<And>a. a \<in> fst ` set xs \<Longrightarrow> H' a = H a) \<Longrightarrow> dchain H' p xs n = dchain H p xs n"
  by (induction xs arbitrary: p) auto

lemma dchain_upd [simp]: "a \<notin> fst ` set xs \<Longrightarrow> dchain (H(a := x)) p xs n = dchain H p xs n"
  by (rule dchain_cong) auto

lemma dchain_addr: "dchain H p xs n \<Longrightarrow> (a, d) \<in> set xs \<Longrightarrow> a \<noteq> NULL \<and> (\<exists>m. H a = Some (Node m) \<and> dn_data m = d)"
  by (induction xs arbitrary: p) auto

lemma dchain_dom: "dchain H p xs n \<Longrightarrow> a \<in> fst ` set xs \<Longrightarrow> a \<noteq> NULL \<and> (\<exists>m. H a = Some (Node m))"
  using dchain_addr by fastforce

lemma dchain_first: "dchain H p xs n \<Longrightarrow> xs \<noteq> [] \<Longrightarrow> first xs n \<noteq> NULL"
  by (cases xs) auto

text \<open>Relinking the ends of a chain.\<close>

lemma dchain_set_prev:
  assumes "dchain H p xs n" "distinct (map fst xs)" "xs \<noteq> []"
  shows "\<exists>m. H (first xs n) = Some (Node m) \<and> first xs n \<noteq> NULL
           \<and> dchain (H(first xs n \<mapsto> Node (m\<lparr>dn_prev := q\<rparr>))) q xs n"
  using assms by (cases xs) auto

lemma dchain_set_next:
  assumes "dchain H p xs n" "distinct (map fst xs)" "xs \<noteq> []"
  shows "\<exists>m. H (lastp p xs) = Some (Node m) \<and> lastp p xs \<noteq> NULL
           \<and> dchain (H(lastp p xs \<mapsto> Node (m\<lparr>dn_next := k\<rparr>))) p xs k"
proof -
  obtain ys a d where xs: "xs = ys @ [(a, d)]"
    using assms(3) by (metis append_butlast_last_id surj_pair)
  show ?thesis
    using assms(1,2) by (auto simp: xs)
qed

text \<open>A list header and the sequence it represents.\<close>

definition is_dlist :: "heap \<Rightarrow> ptr \<Rightarrow> free_mode \<Rightarrow> (ptr \<times> ptr) list \<Rightarrow> bool" where
  "is_dlist h list mode xs \<longleftrightarrow>
     list \<noteq> NULL \<and> distinct (map fst xs) \<and> dchain (h_obj h) NULL xs NULL
   \<and> (\<exists>sh. h_obj h list = Some (List \<lparr>dl_size = of_nat (length xs), dl_free_mode = mode, dl_show = sh,
                               dl_head = first xs NULL, dl_tail = lastp NULL xs\<rparr>))"

definition keeps :: "ptr set \<Rightarrow> heap \<Rightarrow> heap \<Rightarrow> bool" where
  "keeps A h h' \<longleftrightarrow> (\<forall>b. b \<notin> A \<longrightarrow> h_obj h b \<noteq> None \<longrightarrow> h_obj h' b = h_obj h b)"

lemma keeps_refl [simp]: "keeps A h h"
  by (simp add: keeps_def)

lemma keeps_trans: "keeps A h h1 \<Longrightarrow> keeps A h1 h2 \<Longrightarrow> keeps A h h2"
  by (simp add: keeps_def)

lemma keeps_mono: "keeps A h h' \<Longrightarrow> A \<subseteq> B \<Longrightarrow> keeps B h h'"
  by (auto simp: keeps_def)

text \<open>Operations on one list leave every list with other nodes as it is.\<close>

lemma keeps_is_dlist:
  assumes "keeps A h h'" "is_dlist h list mode xs" "list \<notin> A" "A \<inter> fst ` set xs = {}"
  shows "is_dlist h' list mode xs"
proof -
  have "h_obj h' a = h_obj h a" if "a \<in> fst ` set xs" for a
    using assms that dchain_dom [of "h_obj h" NULL xs NULL a] by (auto simp: keeps_def is_dlist_def)
  then have "dchain (h_obj h') NULL xs NULL = dchain (h_obj h) NULL xs NULL"
    by (rule dchain_cong)
  then show ?thesis
    using assms by (auto simp: is_dlist_def keeps_def)
qed

section \<open>Insertion\<close>

text \<open>
  The contract of every insertion: data goes between \<open>xs\<close> and \<open>ys\<close> in a new node; a failure is for
  lack of memory and changes nothing.
\<close>

definition ins_spec ::
  "c_fault + 32 word \<times> heap \<Rightarrow> heap \<Rightarrow> ptr \<Rightarrow> free_mode \<Rightarrow> (ptr \<times> ptr) list \<Rightarrow> ptr \<Rightarrow> (ptr \<times> ptr) list \<Rightarrow> bool"
where
  "ins_spec res h list mode xs data ys \<longleftrightarrow>
     (case res of
        Inl e \<Rightarrow> e = Null_dereference \<and> short sizeof_dlist_node h
      | Inr (r, h') \<Rightarrow>
          (r = - 1 \<and> h' = h \<and> short sizeof_dlist_node h)
        \<or> (heap_ok h' \<and> r = of_nat (Suc (length (xs @ ys)))
           \<and> keeps (insert list (fst ` set (xs @ ys))) h h'
           \<and> (\<exists>node. h_obj h node = None \<and> is_dlist h' list mode (xs @ (node, data) # ys))))"

lemma is_dlist_header:
  assumes "is_dlist h list mode xs"
  obtains sh where "h_obj h list = Some (List \<lparr>dl_size = of_nat (length xs), dl_free_mode = mode, dl_show = sh,
                               dl_head = first xs NULL, dl_tail = lastp NULL xs\<rparr>)" "list \<noteq> NULL"
  using assms by (auto simp: is_dlist_def)

lemma is_dlist_fields:
  assumes "is_dlist h list mode xs"
  obtains l where "h_obj h list = Some (List l)" "dl_head l = first xs NULL" "dl_tail l = lastp NULL xs"
    "dl_size l = of_nat (length xs)" "dl_free_mode l = mode" "list \<noteq> NULL"
  using assms by (auto simp: is_dlist_def)

lemma is_dlist_notin:
  assumes "is_dlist h list mode xs"
  shows "list \<notin> fst ` set xs"
proof
  assume "list \<in> fst ` set xs"
  then obtain m where "h_obj h list = Some (Node m)"
    using assms dchain_dom unfolding is_dlist_def by blast
  then show False
    using is_dlist_header [OF assms] by (metis obj.distinct(1) option.inject)
qed

lemma is_dlist_splitD:
  assumes "is_dlist h list mode (xs @ (e, d) # ys)"
  shows "h_obj h e = Some (Node \<lparr>dn_data = d, dn_prev = lastp NULL xs, dn_next = first ys NULL\<rparr>)"
    "e \<noteq> NULL" "list \<noteq> NULL" "dchain (h_obj h) NULL xs e" "dchain (h_obj h) e ys NULL"
    "e \<notin> fst ` set xs" "e \<notin> fst ` set ys" "fst ` set xs \<inter> fst ` set ys = {}"
    "distinct (map fst xs)" "distinct (map fst ys)"
    "list \<noteq> e" "list \<notin> fst ` set xs" "list \<notin> fst ` set ys"
  using assms is_dlist_notin [OF assms] by (simp_all add: is_dlist_def image_Un Int_Un_distrib)

lemma heap_ok_same_dom:
  assumes "heap_ok h1" "h_pool h2 = h_pool h1" "dom (h_obj h2) = dom (h_obj h1)"
  shows "heap_ok h2"
  using assms by (simp add: heap_ok_def)

lemma first_in: "xs \<noteq> [] \<Longrightarrow> first xs n \<in> fst ` set xs"
  by (cases xs) auto

lemma lastp_in: "xs \<noteq> [] \<Longrightarrow> lastp n xs \<in> fst ` set xs"
  by (simp add: lastp_def)

lemma lastp_neq: "e \<noteq> b \<Longrightarrow> e \<notin> fst ` set zs \<Longrightarrow> lastp b zs \<noteq> e"
  by (cases zs rule: rev_cases) auto

lemma first_neq: "e \<notin> fst ` set zs \<Longrightarrow> e \<noteq> b \<Longrightarrow> first zs b \<noteq> e"
  by (cases zs) auto

lemma ins_specI:
  assumes "res = Inr (r, h')" "r = of_nat (Suc (length (xs @ ys)))" "heap_ok h1" "h_pool h' = h_pool h1"
    "dom (h_obj h') = dom (h_obj h1)" "keeps (insert list (fst ` set (xs @ ys))) h h'"
    "h_obj h node = None" "is_dlist h' list mode (xs @ (node, data) # ys)"
  shows "ins_spec res h list mode xs data ys"
  using assms heap_ok_same_dom [OF assms(3-5)] by (auto simp: ins_spec_def)

lemmas ins_exec = dlist_ins_next_def dlist_ins_prev_def dlist_node_create_def heap_simps

lemma dlist_ins_next_spec:
  assumes ok: "heap_ok h" and l: "is_dlist h list mode (xs @ (e, d) # ys)"
  shows "ins_spec (dlist_ins_next list e data h) h list mode (xs @ [(e, d)]) data ys"
proof (rule new_obj_cases [OF ok, of sizeof_dlist_node "''dlist_node_create''"
        "Node \<lparr>dn_data = data, dn_prev = NULL, dn_next = NULL\<rparr>"])
  note D = is_dlist_splitD [OF l]
  fix node h1
  assume n: "new_obj ''dlist_node_create'' sizeof_dlist_node (Node \<lparr>dn_data = data, dn_prev = NULL, dn_next = NULL\<rparr>) h = Inr (node, h1)"
    and nn: "node \<noteq> NULL" "h_obj h node = None" "heap_ok h1"
    and h1: "h_obj h1 = (h_obj h)(node \<mapsto> Node \<lparr>dn_data = data, dn_prev = NULL, dn_next = NULL\<rparr>)"
  obtain sh where hd: "h_obj h list = Some (List \<lparr>dl_size = of_nat (length (xs @ (e, d) # ys)), dl_free_mode = mode, dl_show = sh,
      dl_head = first (xs @ (e, d) # ys) NULL, dl_tail = lastp NULL (xs @ (e, d) # ys)\<rparr>)"
    using is_dlist_header [OF l] by metis
  have new: "node \<notin> fst ` set xs" "node \<notin> fst ` set ys" "node \<noteq> e" "node \<noteq> list"
    using nn(2) D(1) hd dchain_dom [OF D(4), of node] dchain_dom [OF D(5), of node] by auto
  let ?r = "of_nat (Suc (length (xs @ (e, d) # ys))) :: 32 word"
  let ?l = "List \<lparr>dl_size = ?r, dl_free_mode = mode, dl_show = sh, dl_head = first (xs @ (e, d) # ys) NULL,
                  dl_tail = lastp node ys\<rparr>"
  let ?e = "Node \<lparr>dn_data = d, dn_prev = lastp NULL xs, dn_next = node\<rparr>"
  show ?thesis
  proof (cases ys)
    case Nil
    have "\<exists>h'. dlist_ins_next list e data h = Inr (?r, h') \<and> h_pool h' = h_pool h1
      \<and> h_obj h' = (h_obj h1)(node \<mapsto> Node \<lparr>dn_data = data, dn_prev = e, dn_next = NULL\<rparr>, e \<mapsto> ?e, list \<mapsto> ?l)"
      using D(1-3,11) nn hd h1 new(3,4) by (simp add: Nil n ins_exec)
    then obtain h' where r: "dlist_ins_next list e data h = Inr (?r, h')" "h_pool h' = h_pool h1"
      and h': "h_obj h' = (h_obj h1)(node \<mapsto> Node \<lparr>dn_data = data, dn_prev = e, dn_next = NULL\<rparr>, e \<mapsto> ?e, list \<mapsto> ?l)"
      by blast
    show ?thesis
      using D nn hd h1 h' new
      by (intro ins_specI [OF r(1) _ nn(3) r(2) _ _ nn(2)])
        (auto simp: Nil keeps_def is_dlist_def first_append)
  next
    case (Cons y zs)
    obtain b c where y: "y = (b, c)"
      by (cases y)
    have "\<exists>h'. dlist_ins_next list e data h = Inr (?r, h') \<and> h_pool h' = h_pool h1
      \<and> h_obj h' = (h_obj h1)(node \<mapsto> Node \<lparr>dn_data = data, dn_prev = NULL, dn_next = b\<rparr>,
          b \<mapsto> Node \<lparr>dn_data = c, dn_prev = node, dn_next = first zs NULL\<rparr>,
          node \<mapsto> Node \<lparr>dn_data = data, dn_prev = e, dn_next = b\<rparr>, e \<mapsto> ?e, list \<mapsto> ?l)"
      using D nn hd h1 new lastp_neq [of e b zs] by (simp add: Cons y n ins_exec)
    then obtain h' where r: "dlist_ins_next list e data h = Inr (?r, h')" "h_pool h' = h_pool h1"
      and h': "h_obj h' = (h_obj h1)(node \<mapsto> Node \<lparr>dn_data = data, dn_prev = NULL, dn_next = b\<rparr>,
          b \<mapsto> Node \<lparr>dn_data = c, dn_prev = node, dn_next = first zs NULL\<rparr>,
          node \<mapsto> Node \<lparr>dn_data = data, dn_prev = e, dn_next = b\<rparr>, e \<mapsto> ?e, list \<mapsto> ?l)"
      by blast
    show ?thesis
      using D nn hd h1 h' new
      by (intro ins_specI [OF r(1) _ nn(3) r(2) _ _ nn(2)])
        (auto simp: Cons y keeps_def is_dlist_def first_append)
  qed
qed (auto simp: ins_spec_def dlist_ins_next_def dlist_node_create_def is_dlist_splitD [OF l] sizeof_dlist_node_def)

lemma dlist_ins_prev_spec:
  assumes ok: "heap_ok h" and l: "is_dlist h list mode (xs @ (e, d) # ys)"
  shows "ins_spec (dlist_ins_prev list e data h) h list mode xs data ((e, d) # ys)"
proof (rule new_obj_cases [OF ok, of sizeof_dlist_node "''dlist_node_create''"
        "Node \<lparr>dn_data = data, dn_prev = NULL, dn_next = NULL\<rparr>"])
  note D = is_dlist_splitD [OF l]
  fix node h1
  assume n: "new_obj ''dlist_node_create'' sizeof_dlist_node (Node \<lparr>dn_data = data, dn_prev = NULL, dn_next = NULL\<rparr>) h = Inr (node, h1)"
    and nn: "node \<noteq> NULL" "h_obj h node = None" "heap_ok h1"
    and h1: "h_obj h1 = (h_obj h)(node \<mapsto> Node \<lparr>dn_data = data, dn_prev = NULL, dn_next = NULL\<rparr>)"
  obtain sh where hd: "h_obj h list = Some (List \<lparr>dl_size = of_nat (length (xs @ (e, d) # ys)), dl_free_mode = mode, dl_show = sh,
      dl_head = first (xs @ (e, d) # ys) NULL, dl_tail = lastp NULL (xs @ (e, d) # ys)\<rparr>)"
    using is_dlist_header [OF l] by metis
  have new: "node \<notin> fst ` set xs" "node \<notin> fst ` set ys" "node \<noteq> e" "node \<noteq> list"
    using nn(2) D(1) hd dchain_dom [OF D(4), of node] dchain_dom [OF D(5), of node] by auto
  let ?r = "of_nat (Suc (length (xs @ (e, d) # ys))) :: 32 word"
  let ?l = "List \<lparr>dl_size = ?r, dl_free_mode = mode, dl_show = sh, dl_head = first xs node,
                  dl_tail = lastp NULL (xs @ (e, d) # ys)\<rparr>"
  let ?e = "Node \<lparr>dn_data = d, dn_prev = node, dn_next = first ys NULL\<rparr>"
  show ?thesis
  proof (cases xs rule: rev_cases)
    case Nil
    have "\<exists>h'. dlist_ins_prev list e data h = Inr (?r, h') \<and> h_pool h' = h_pool h1
      \<and> h_obj h' = (h_obj h1)(node \<mapsto> Node \<lparr>dn_data = data, dn_prev = NULL, dn_next = e\<rparr>, e \<mapsto> ?e, list \<mapsto> ?l)"
      using D nn hd h1 new by (simp add: Nil n ins_exec)
    then obtain h' where r: "dlist_ins_prev list e data h = Inr (?r, h')" "h_pool h' = h_pool h1"
      and h': "h_obj h' = (h_obj h1)(node \<mapsto> Node \<lparr>dn_data = data, dn_prev = NULL, dn_next = e\<rparr>, e \<mapsto> ?e, list \<mapsto> ?l)"
      by blast
    show ?thesis
      using D nn hd h1 h' new
      by (intro ins_specI [OF r(1) _ nn(3) r(2) _ _ nn(2)])
        (auto simp: Nil keeps_def is_dlist_def first_append)
  next
    case (snoc zs y)
    obtain b c where y: "y = (b, c)"
      by (cases y)
    have f: "first (zs @ [(b, c)]) e \<noteq> e" "first (zs @ (b, c) # (e, d) # ys) NULL \<noteq> e"
      using D(6) first_neq [of e "zs @ [(b, c)]"] by (cases zs; simp add: snoc y)+
    have "\<exists>h'. dlist_ins_prev list e data h = Inr (?r, h') \<and> h_pool h' = h_pool h1
      \<and> h_obj h' = (h_obj h1)(node \<mapsto> Node \<lparr>dn_data = data, dn_prev = b, dn_next = NULL\<rparr>,
          b \<mapsto> Node \<lparr>dn_data = c, dn_prev = lastp NULL zs, dn_next = node\<rparr>,
          node \<mapsto> Node \<lparr>dn_data = data, dn_prev = b, dn_next = e\<rparr>, e \<mapsto> ?e, list \<mapsto> ?l)"
      using D nn hd h1 new f by (simp add: snoc y n ins_exec first_append)
    then obtain h' where r: "dlist_ins_prev list e data h = Inr (?r, h')" "h_pool h' = h_pool h1"
      and h': "h_obj h' = (h_obj h1)(node \<mapsto> Node \<lparr>dn_data = data, dn_prev = b, dn_next = NULL\<rparr>,
          b \<mapsto> Node \<lparr>dn_data = c, dn_prev = lastp NULL zs, dn_next = node\<rparr>,
          node \<mapsto> Node \<lparr>dn_data = data, dn_prev = b, dn_next = e\<rparr>, e \<mapsto> ?e, list \<mapsto> ?l)"
      by blast
    show ?thesis
      using D nn hd h1 h' new
      by (intro ins_specI [OF r(1) _ nn(3) r(2) _ _ nn(2)])
        (auto simp: snoc y keeps_def is_dlist_def first_append)
  qed
qed (auto simp: ins_spec_def dlist_ins_prev_def dlist_node_create_def is_dlist_splitD [OF l] sizeof_dlist_node_def)

lemma dlist_first_spec:
  assumes ok: "heap_ok h" and l: "is_dlist h list mode []"
  shows "ins_spec (dlist_first list data h) h list mode [] data []"
proof (rule new_obj_cases [OF ok, of sizeof_dlist_node "''dlist_node_create''"
        "Node \<lparr>dn_data = data, dn_prev = NULL, dn_next = NULL\<rparr>"])
  obtain sh where hd: "h_obj h list = Some (List \<lparr>dl_size = 0, dl_free_mode = mode, dl_show = sh,
      dl_head = NULL, dl_tail = NULL\<rparr>)" "list \<noteq> NULL"
    using is_dlist_header [OF l] by auto
  show "0 < sizeof_dlist_node"
    by (simp add: sizeof_dlist_node_def)
  show "new_obj ''dlist_node_create'' sizeof_dlist_node (Node \<lparr>dn_data = data, dn_prev = NULL, dn_next = NULL\<rparr>) h =
      Inl Null_dereference \<Longrightarrow> short sizeof_dlist_node h \<Longrightarrow> ?thesis"
    using hd by (simp add: dlist_first_def dlist_node_create_def heap_simps ins_spec_def)
  show "new_obj ''dlist_node_create'' sizeof_dlist_node (Node \<lparr>dn_data = data, dn_prev = NULL, dn_next = NULL\<rparr>) h =
      Inr (NULL, h) \<Longrightarrow> short sizeof_dlist_node h \<Longrightarrow> ?thesis"
    using hd by (simp add: dlist_first_def dlist_node_create_def heap_simps ins_spec_def)
  fix node h1
  assume n: "new_obj ''dlist_node_create'' sizeof_dlist_node (Node \<lparr>dn_data = data, dn_prev = NULL, dn_next = NULL\<rparr>) h = Inr (node, h1)"
    and nn: "node \<noteq> NULL" "h_obj h node = None" "heap_ok h1"
    and h1: "h_obj h1 = (h_obj h)(node \<mapsto> Node \<lparr>dn_data = data, dn_prev = NULL, dn_next = NULL\<rparr>)"
  have ne: "node \<noteq> list"
    using nn(2) hd by auto
  let ?l = "List \<lparr>dl_size = 1, dl_free_mode = mode, dl_show = sh, dl_head = node, dl_tail = node\<rparr>"
  have r: "dlist_first list data h = Inr (1, put_obj list ?l h1)"
    using nn h1 ne hd by (simp add: n dlist_first_def dlist_node_create_def heap_simps)
  show ?thesis
    using nn h1 ne hd by (intro ins_specI [OF r _ nn(3) _ _ _ nn(2)]) (auto simp: keeps_def is_dlist_def)
qed

lemma dlist_append_spec:
  assumes "heap_ok h" "is_dlist h list mode xs"
  shows "ins_spec (dlist_append list data h) h list mode xs data []"
proof (cases xs rule: rev_cases)
  case Nil
  obtain sh where "h_obj h list = Some (List \<lparr>dl_size = 0, dl_free_mode = mode, dl_show = sh,
      dl_head = NULL, dl_tail = NULL\<rparr>)" "list \<noteq> NULL"
    using is_dlist_header [OF assms(2)] Nil by auto
  then show ?thesis
    using dlist_first_spec [of h list mode data] assms by (simp add: Nil dlist_append_def heap_simps)
next
  case (snoc ys y)
  obtain e d where y: "y = (e, d)"
    by (cases y)
  note l = assms(2) [unfolded snoc y]
  obtain l' where "h_obj h list = Some (List l')" "dl_tail l' = lastp NULL (ys @ [(e, d)])" "list \<noteq> NULL"
    using is_dlist_fields [OF l] by metis
  then show ?thesis
    using dlist_ins_next_spec [OF assms(1) l, of data] is_dlist_splitD(2) [OF l]
    by (simp add: snoc y dlist_append_def heap_simps)
qed

lemma dlist_prepend_spec:
  assumes "heap_ok h" "is_dlist h list mode xs"
  shows "ins_spec (dlist_prepend list data h) h list mode [] data xs"
proof (cases xs)
  case Nil
  obtain sh where "h_obj h list = Some (List \<lparr>dl_size = 0, dl_free_mode = mode, dl_show = sh,
      dl_head = NULL, dl_tail = NULL\<rparr>)" "list \<noteq> NULL"
    using is_dlist_header [OF assms(2)] Nil by auto
  then show ?thesis
    using dlist_first_spec [of h list mode data] assms by (simp add: Nil dlist_prepend_def heap_simps)
next
  case (Cons y ys)
  obtain e d where y: "y = (e, d)"
    by (cases y)
  have l: "is_dlist h list mode ([] @ (e, d) # ys)"
    using assms(2) by (simp add: Cons y)
  obtain l' where "h_obj h list = Some (List l')" "dl_head l' = first ([] @ (e, d) # ys) NULL" "list \<noteq> NULL"
    using is_dlist_fields [OF l] by metis
  then show ?thesis
    using dlist_ins_prev_spec [OF assms(1) l, of data] is_dlist_splitD(2) [OF l]
    by (simp add: Cons y dlist_prepend_def heap_simps)
qed

section \<open>Removal\<close>

lemma first_nonempty: "xs \<noteq> [] \<Longrightarrow> first xs n = fst (hd xs)"
  by (cases xs) simp_all

text \<open>The two conditional pointer updates that cut an element out, as a pair of relinking lemmas.\<close>

lemma relink_next:
  assumes "dchain (h_obj h) NULL xs n" "distinct (map fst xs)"
  shows "\<exists>h1. (if lastp NULL xs \<noteq> NULL then wr_node (lastp NULL xs) (\<lambda>m. m\<lparr>dn_next := k\<rparr>) h else Inr h) = Inr h1
    \<and> h_pool h1 = h_pool h \<and> dom (h_obj h1) = dom (h_obj h) \<and> dchain (h_obj h1) NULL xs k
    \<and> (\<forall>b. b \<notin> fst ` set xs \<longrightarrow> h_obj h1 b = h_obj h b)"
proof (cases "xs = []")
  case False
  obtain m where "h_obj h (lastp NULL xs) = Some (Node m)" "lastp NULL xs \<noteq> NULL"
    "dchain ((h_obj h)(lastp NULL xs \<mapsto> Node (m\<lparr>dn_next := k\<rparr>))) NULL xs k"
    using dchain_set_next [OF assms False] by blast
  then show ?thesis
    using lastp_in [OF False, of NULL] by (auto simp: wr_node_eq)
qed simp

lemma relink_prev:
  assumes "dchain (h_obj h) p xs NULL" "distinct (map fst xs)"
  shows "\<exists>h1. (if first xs NULL \<noteq> NULL then wr_node (first xs NULL) (\<lambda>m. m\<lparr>dn_prev := k\<rparr>) h else Inr h) = Inr h1
    \<and> h_pool h1 = h_pool h \<and> dom (h_obj h1) = dom (h_obj h) \<and> dchain (h_obj h1) k xs NULL
    \<and> (\<forall>b. b \<notin> fst ` set xs \<longrightarrow> h_obj h1 b = h_obj h b)"
proof (cases "xs = []")
  case False
  obtain m where "h_obj h (first xs NULL) = Some (Node m)" "first xs NULL \<noteq> NULL"
    "dchain ((h_obj h)(first xs NULL \<mapsto> Node (m\<lparr>dn_prev := k\<rparr>))) k xs NULL"
    using dchain_set_prev [OF assms False] by blast
  then show ?thesis
    using first_in [OF False, of NULL] by (auto simp: wr_node_eq)
qed simp

lemma dlist_remove_spec:
  assumes ok: "heap_ok h" and l: "is_dlist h list mode (xs @ (e, d) # ys)"
  shows "\<exists>h'. dlist_remove list e want nf h = Inr (of_nat (length (xs @ ys)), if want then Some d else None, h')
    \<and> heap_ok h' \<and> is_dlist h' list mode (xs @ ys)
    \<and> keeps (insert list (fst ` set (xs @ (e, d) # ys))) h h'
    \<and> h_obj h' e = (if nf then None else Some (Node \<lparr>dn_data = d, dn_prev = NULL, dn_next = NULL\<rparr>))"
proof -
  note D = is_dlist_splitD [OF l]
  obtain sh where hd: "h_obj h list = Some (List \<lparr>dl_size = of_nat (length (xs @ (e, d) # ys)), dl_free_mode = mode, dl_show = sh,
      dl_head = first (xs @ (e, d) # ys) NULL, dl_tail = lastp NULL (xs @ (e, d) # ys)\<rparr>)"
    using is_dlist_header [OF l] by metis
  let ?p = "lastp NULL xs" and ?n = "first ys NULL"
  obtain h1 where s1: "(if ?p \<noteq> NULL then wr_node ?p (\<lambda>m. m\<lparr>dn_next := ?n\<rparr>) h else Inr h) = Inr h1"
    and p1: "h_pool h1 = h_pool h" "dom (h_obj h1) = dom (h_obj h)"
    and c1: "dchain (h_obj h1) NULL xs ?n" and k1: "\<And>b. b \<notin> fst ` set xs \<Longrightarrow> h_obj h1 b = h_obj h b"
    using relink_next [OF D(4,9)] by blast
  have "dchain (h_obj h1) e ys NULL = dchain (h_obj h) e ys NULL"
    by (rule dchain_cong) (use D(8) k1 in blast)
  then have "dchain (h_obj h1) e ys NULL"
    using D(5) by simp
  from relink_prev [OF this D(10)] obtain h2 where s2: "(if ?n \<noteq> NULL then wr_node ?n (\<lambda>m. m\<lparr>dn_prev := ?p\<rparr>) h1 else Inr h1) = Inr h2"
    and p2: "h_pool h2 = h_pool h1" "dom (h_obj h2) = dom (h_obj h1)"
    and c2: "dchain (h_obj h2) ?p ys NULL" and k2: "\<And>b. b \<notin> fst ` set ys \<Longrightarrow> h_obj h2 b = h_obj h1 b"
    by blast
  have "dchain (h_obj h2) NULL xs ?n = dchain (h_obj h1) NULL xs ?n"
    by (rule dchain_cong) (use D(8) k2 in blast)
  then have c2': "dchain (h_obj h2) NULL xs ?n"
    using c1 by simp
  have e2: "h_obj h2 e = h_obj h e" "h_obj h2 list = h_obj h list"
    using D k1 k2 by auto
  let ?l3 = "\<lparr>dl_size = of_nat (length (xs @ (e, d) # ys)), dl_free_mode = mode, dl_show = sh,
      dl_head = first xs ?n, dl_tail = lastp ?p ys\<rparr>"
  define h3 where "h3 = put_obj list (List ?l3) h2"
  have ends: "e = first (xs @ (e, d) # ys) NULL \<longleftrightarrow> xs = []" "e = lastp NULL (xs @ (e, d) # ys) \<longleftrightarrow> ys = []"
    using D(6,7) first_in [of xs e] lastp_in [of ys e] by (auto simp: first_append)
  have s3: "wr_list list (\<lambda>l. l\<lparr>dl_head := (if e = dl_head l then ?n else dl_head l),
      dl_tail := (if e = dl_tail l then ?p else dl_tail l)\<rparr>) h2 = Inr h3"
    using hd e2 ends by (cases "xs = []"; cases "ys = []") (auto simp: wr_list_eq first_append lastp_def first_nonempty h3_def)
  have ok3: "heap_ok h3"
  proof (rule heap_ok_same_dom [OF ok])
    have "list \<in> dom (h_obj h)"
      using hd by blast
    then show "dom (h_obj h3) = dom (h_obj h)"
      using p1 p2 by (simp add: h3_def insert_absorb)
  qed (simp add: h3_def p1 p2)
  have e3: "h_obj h3 e = Some (Node \<lparr>dn_data = d, dn_prev = ?p, dn_next = ?n\<rparr>)"
    using D e2 by (simp add: h3_def)
  obtain h4 where s4: "(if nf then del_obj e h3 else wr_node e (\<lambda>n. n\<lparr>dn_prev := NULL, dn_next := NULL\<rparr>) h3) = Inr h4"
    and ok4: "heap_ok h4"
    and o4: "h_obj h4 = (h_obj h3)(e := (if nf then None else Some (Node \<lparr>dn_data = d, dn_prev = NULL, dn_next = NULL\<rparr>)))"
  proof (cases nf)
    case True
    obtain h4 where "del_obj e h3 = Inr h4" "heap_ok h4" "h_obj h4 = (h_obj h3)(e := None)"
      by (rule del_obj_ok [OF ok3])
    then show ?thesis
      using that True by simp
  next
    case False
    show ?thesis
      using that [OF _ heap_ok_put [OF ok3, of e "Node \<lparr>dn_data = d, dn_prev = NULL, dn_next = NULL\<rparr>"]] False e3
      by (simp add: wr_node_eq [OF e3])
  qed
  let ?l5 = "?l3\<lparr>dl_size := of_nat (length (xs @ ys))\<rparr>"
  let ?h5 = "put_obj list (List ?l5) h4"
  have l4: "h_obj h4 list = Some (List ?l3)"
    using o4 D(11) by (simp add: h3_def)
  have "dlist_remove list e want nf h = Inr (of_nat (length (xs @ ys)), if want then Some d else None, ?h5)"
    using D(1-3) s1 s2 s3 s4 l4 e3
    by (simp only: dlist_remove_def simp_thms if_False rd_node_eq [OF D(1)] rd_node_eq [OF e3] sbind_simps Let_def dlist_node.simps s1 s2 s3 s4
       wr_list_eq [OF l4]) (simp add: rd_list_eq)
  moreover have "heap_ok ?h5"
    using ok4 l4 by (intro heap_ok_put) simp_all
  moreover have "is_dlist ?h5 list mode (xs @ ys)"
    using D c2 c2' o4 by (simp add: is_dlist_def first_append h3_def)
  moreover have "keeps (insert list (fst ` set (xs @ (e, d) # ys))) h ?h5"
    using o4 k1 k2 by (simp add: keeps_def h3_def image_Un)
  ultimately show ?thesis
    using o4 D(11) by (intro exI [of _ ?h5]) simp
qed

lemma dlist_pop_front_spec:
  assumes "heap_ok h" "is_dlist h list mode ((e, d) # xs)"
  shows "\<exists>h'. dlist_pop_front list want h = Inr (of_nat (length xs), if want then Some d else None, h')
    \<and> heap_ok h' \<and> is_dlist h' list mode xs \<and> keeps (insert list (fst ` set ((e, d) # xs))) h h'
    \<and> h_obj h' e = None"
proof -
  have l: "is_dlist h list mode ([] @ (e, d) # xs)"
    using assms(2) by simp
  obtain l' where f: "h_obj h list = Some (List l')" "dl_head l' = first ((e, d) # xs) NULL" "list \<noteq> NULL"
    using is_dlist_fields [OF assms(2)] by metis
  have "dlist_pop_front list want h = dlist_remove list e want True h"
    using f is_dlist_splitD(2) [OF l] by (simp add: dlist_pop_front_def heap_simps)
  then show ?thesis
    using dlist_remove_spec [OF assms(1) l, of want True] by simp
qed

lemma dlist_pop_back_spec:
  assumes "heap_ok h" "is_dlist h list mode (xs @ [(e, d)])"
  shows "\<exists>h'. dlist_pop_back list want h = Inr (of_nat (length xs), if want then Some d else None, h')
    \<and> heap_ok h' \<and> is_dlist h' list mode xs \<and> keeps (insert list (fst ` set (xs @ [(e, d)]))) h h'
    \<and> h_obj h' e = None"
proof -
  obtain l' where f: "h_obj h list = Some (List l')" "dl_tail l' = lastp NULL (xs @ [(e, d)])" "list \<noteq> NULL"
    using is_dlist_fields [OF assms(2)] by metis
  have "dlist_pop_back list want h = dlist_remove list e want True h"
    using f is_dlist_splitD(2) [OF assms(2)] by (simp add: dlist_pop_back_def heap_simps)
  then show ?thesis
    using dlist_remove_spec [OF assms(1), of list mode xs e d "[]" want True] assms(2) by simp
qed

lemma dlist_pop_empty:
  assumes "is_dlist h list mode []"
  shows "dlist_pop_front list want h = Inr (0, None, h)" "dlist_pop_back list want h = Inr (0, None, h)"
proof -
  obtain l' where "h_obj h list = Some (List l')" "dl_head l' = first [] NULL" "dl_tail l' = lastp NULL []"
    "dl_size l' = of_nat (length ([] :: (ptr \<times> ptr) list))" "list \<noteq> NULL"
    using is_dlist_fields [OF assms] by metis
  then show "dlist_pop_front list want h = Inr (0, None, h)" "dlist_pop_back list want h = Inr (0, None, h)"
    by (simp_all add: dlist_pop_front_def dlist_pop_back_def heap_simps)
qed

text \<open>Queries.\<close>

lemma dlist_queries:
  assumes "is_dlist h list mode xs"
  shows "dlist_size list h = Inr (of_nat (length xs))" "dlist_head list h = Inr (first xs NULL)"
    "dlist_tail list h = Inr (lastp NULL xs)"
proof -
  obtain l' where "h_obj h list = Some (List l')" "dl_head l' = first xs NULL" "dl_tail l' = lastp NULL xs"
    "dl_size l' = of_nat (length xs)" "list \<noteq> NULL"
    using is_dlist_fields [OF assms] by metis
  then show "dlist_size list h = Inr (of_nat (length xs))" "dlist_head list h = Inr (first xs NULL)"
    "dlist_tail list h = Inr (lastp NULL xs)"
    by (simp_all add: dlist_size_def dlist_head_def dlist_tail_def heap_simps)
qed

lemma dlist_data_eq: "is_dlist h list mode (xs @ (e, d) # ys) \<Longrightarrow> dlist_data e h = Inr d"
  using is_dlist_splitD(1,2) by (simp add: dlist_data_def heap_simps)

lemma dlist_empty_eq:
  assumes "is_dlist h list mode xs" "length xs < 2 ^ 32"
  shows "dlist_empty list h = Inr (xs = [])"
proof -
  obtain l' where l': "h_obj h list = Some (List l')" "dl_head l' = first xs NULL" "dl_tail l' = lastp NULL xs"
    "dl_size l' = of_nat (length xs)" "list \<noteq> NULL"
    using is_dlist_fields [OF assms(1)] by metis
  have z: "of_nat (length xs) = (0 :: 32 word) \<longleftrightarrow> xs = []"
    using assms(2) by (simp add: word_unat_eq_iff unsigned_of_nat take_bit_nat_eq_self)
  have "dchain (h_obj h) NULL xs NULL"
    using assms(1) by (simp add: is_dlist_def)
  then have "xs \<noteq> [] \<Longrightarrow> first xs NULL \<noteq> NULL \<and> lastp NULL xs \<noteq> NULL"
    using dchain_dom first_in lastp_in by metis
  then show ?thesis
    using l' z by (auto simp: dlist_empty_def heap_simps)
qed

text \<open>Creation.\<close>

lemma dlist_create_cases:
  assumes "heap_ok h"
  obtains (oom) "dlist_create mode h = Inl Null_dereference" "short sizeof_dlist h"
    | (null) "dlist_create mode h = Inr (NULL, h)" "short sizeof_dlist h"
    | (okay) list h' where "dlist_create mode h = Inr (list, h')" "heap_ok h'" "h_obj h list = None"
        "is_dlist h' list mode []" "keeps {} h h'"
proof (rule new_obj_cases [OF assms, of sizeof_dlist "''dlist_create''"
        "List \<lparr>dl_size = 0, dl_free_mode = FREE_MODE_NOTHING, dl_show = NULL, dl_head = NULL, dl_tail = NULL\<rparr>"])
  show "0 < sizeof_dlist"
    by (simp add: sizeof_dlist_def)
next
  fix a h1
  assume n: "new_obj ''dlist_create'' sizeof_dlist (List \<lparr>dl_size = 0, dl_free_mode = FREE_MODE_NOTHING, dl_show = NULL,
      dl_head = NULL, dl_tail = NULL\<rparr>) h = Inr (a, h1)" "a \<noteq> NULL" "h_obj h a = None" "heap_ok h1"
    and h1: "h_obj h1 = (h_obj h)(a \<mapsto> List \<lparr>dl_size = 0, dl_free_mode = FREE_MODE_NOTHING, dl_show = NULL,
      dl_head = NULL, dl_tail = NULL\<rparr>)"
  let ?h' = "put_obj a (List \<lparr>dl_size = 0, dl_free_mode = mode, dl_show = NULL, dl_head = NULL, dl_tail = NULL\<rparr>) h1"
  show ?thesis
  proof (rule okay)
    show "dlist_create mode h = Inr (a, ?h')"
      using n h1 by (simp add: dlist_create_def dlist_init_def heap_simps)
    show "heap_ok ?h'"
      using n h1 by (intro heap_ok_put) simp_all
    show "is_dlist ?h' a mode []" "keeps {} h ?h'" "h_obj h a = None"
      using n h1 by (auto simp: is_dlist_def keeps_def)
  qed
qed (use oom null in \<open>simp_all add: dlist_create_def dlist_init_def\<close>)

section \<open>Walks\<close>

lemma heap_ok_addr:
  assumes "heap_ok h" "h_obj h a \<noteq> None"
  shows "a \<in> mn_address ` set (mem_nodes (h_pool h))" "a < brk (libc (h_pool h))"
proof -
  have "live (h_pool h) a \<noteq> None"
    using assms by (auto simp: heap_ok_def)
  then show a: "a \<in> mn_address ` set (mem_nodes (h_pool h))"
    by (rule live_dom)
  have "pool_ok (h_pool h)"
    using assms(1) by (simp add: heap_ok_def)
  then show "a < brk (libc (h_pool h))"
    by (rule pool_okE) (use a blocks_okD(4) in blast)
qed

text \<open>A chain is shorter than the fuel of a walk, and its length is a positive \<^verbatim>\<open>int\<close>.\<close>

lemma dchain_bounds:
  assumes "heap_ok h" "dchain (h_obj h) p xs n" "distinct (map fst xs)"
  shows "length xs < walk_fuel h" "length xs < 2 ^ 31"
proof -
  have sub: "h_obj h a \<noteq> None" if "a \<in> set (map fst xs)" for a
    using dchain_dom [OF assms(2)] that by fastforce
  have len: "length xs = card (set (map fst xs))"
    using distinct_card [OF assms(3)] by simp
  have "set (map fst xs) \<subseteq> {..<brk (libc (h_pool h))}"
    using heap_ok_addr(2) [OF assms(1) sub] by blast
  then have "card (set (map fst xs)) \<le> brk (libc (h_pool h))"
    using card_mono [of "{..<brk (libc (h_pool h))}"] by fastforce
  then show "length xs < walk_fuel h"
    using len by (simp add: walk_fuel_def)
  have "set (map fst xs) \<subseteq> set (map mn_address (mem_nodes (h_pool h)))"
    using heap_ok_addr(1) [OF assms(1) sub] by auto
  then have "card (set (map fst xs)) \<le> length (mem_nodes (h_pool h))"
    using card_length [of "map mn_address (mem_nodes (h_pool h))"] card_mono [OF finite_set] le_trans length_map by metis
  moreover have "length (mem_nodes (h_pool h)) < 2 ^ 31"
  proof -
    have "pool_ok (h_pool h)"
      using assms(1) by (simp add: heap_ok_def)
    then show ?thesis
      by (rule pool_okE) (rule pool_ok_nodes_bound)
  qed
  ultimately show "length xs < 2 ^ 31"
    using len by linarith
qed

lemma is_dlist_bounds:
  assumes "heap_ok h" "is_dlist h list mode xs"
  shows "length xs < walk_fuel h" "length xs < 2 ^ 31"
  using assms dchain_bounds by (auto simp: is_dlist_def)

subsection \<open>Destruction\<close>

lemma destroy_loop_ok:
  assumes "heap_ok h" "h_obj h list = Some (List l)" "list \<notin> fst ` set xs" "dchain (h_obj h) p xs NULL"
    "distinct (map fst xs)" "length xs < k" "dl_free_mode l \<noteq> FREE_MODE_FREE"
    "dl_free_mode l = FREE_MODE_MP_FREE \<Longrightarrow> snd ` set xs \<inter> insert list (fst ` set xs) = {}"
  shows "\<exists>h'. destroy_loop k list (first xs NULL) h = Inr h' \<and> heap_ok h' \<and>
    h_obj h' = (\<lambda>a. if a \<in> fst ` set xs \<or> dl_free_mode l = FREE_MODE_MP_FREE \<and> a \<in> snd ` set xs
                    then None else h_obj h a)"
  using assms
proof (induction xs arbitrary: h p k)
  case Nil
  then show ?case by (cases k) simp_all
next
  case (Cons x xs)
  obtain a d where x: "x = (a, d)"
    by (cases x)
  obtain j where k: "k = Suc j"
    using Cons.prems(6) by (cases k) simp_all
  let ?mp = "dl_free_mode l = FREE_MODE_MP_FREE"
  have a: "a \<noteq> NULL" "h_obj h a = Some (Node \<lparr>dn_data = d, dn_prev = p, dn_next = first xs NULL\<rparr>)"
    "dchain (h_obj h) a xs NULL" "a \<notin> fst ` set xs" "list \<noteq> a" "list \<notin> fst ` set xs" "distinct (map fst xs)"
    using Cons.prems by (auto simp: x)
  have d: "?mp \<Longrightarrow> d \<noteq> a \<and> d \<noteq> list \<and> d \<notin> fst ` set xs \<and> a \<notin> snd ` set xs"
    using Cons.prems(8) by (auto simp: x)
  obtain h1 where h1: "free_data (dl_free_mode l) d h = Inr h1" "heap_ok h1"
    "h_obj h1 = (h_obj h)(d := if ?mp then None else h_obj h d)"
  proof (cases ?mp)
    case True
    then show ?thesis
      using that del_obj_ok [OF Cons.prems(1), of d] by (auto simp: free_data_def)
  next
    case False
    then have "dl_free_mode l = FREE_MODE_NOTHING"
      using Cons.prems(7) by (cases "dl_free_mode l") simp_all
    then show ?thesis
      using that [of h] Cons.prems(1) by (simp add: free_data_def)
  qed
  have a1: "h_obj h1 a = h_obj h a" "h_obj h1 list = h_obj h list"
    using d h1(3) by auto
  obtain h2 where h2: "del_obj a h1 = Inr h2" "heap_ok h2" "h_obj h2 = (h_obj h1)(a := None)"
    by (rule del_obj_ok [OF h1(2)])
  have "dchain (h_obj h2) a xs NULL = dchain (h_obj h) a xs NULL"
    by (rule dchain_cong) (use d a(4) h1(3) h2(3) in auto)
  then have c: "dchain (h_obj h2) a xs NULL"
    using a(3) by simp
  have "\<exists>h'. destroy_loop j list (first xs NULL) h2 = Inr h' \<and> heap_ok h' \<and>
    h_obj h' = (\<lambda>b. if b \<in> fst ` set xs \<or> ?mp \<and> b \<in> snd ` set xs then None else h_obj h2 b)"
    using Cons.prems a a1 h2 d by (intro Cons.IH [OF _ _ _ c]) (auto simp: x k)
  then obtain h' where h': "destroy_loop j list (first xs NULL) h2 = Inr h'" "heap_ok h'"
    "h_obj h' = (\<lambda>b. if b \<in> fst ` set xs \<or> ?mp \<and> b \<in> snd ` set xs then None else h_obj h2 b)"
    by blast
  have "destroy_loop k list (first (x # xs) NULL) h = Inr h'"
    using a a1 Cons.prems(2) h1(1) h2(1) h'(1) by (simp add: x k heap_simps)
  moreover have "h_obj h' = (\<lambda>b. if b \<in> fst ` set (x # xs) \<or> ?mp \<and> b \<in> snd ` set (x # xs) then None else h_obj h b)"
    using h'(3) h2(3) h1(3) by (auto simp: fun_eq_iff x)
  ultimately show ?case
    using h'(2) by blast
qed

lemma dlist_destroy_spec:
  assumes "heap_ok h" "is_dlist h list mode xs" "mode \<noteq> FREE_MODE_FREE"
    "mode = FREE_MODE_MP_FREE \<Longrightarrow> snd ` set xs \<inter> insert list (fst ` set xs) = {}"
  shows "\<exists>h'. dlist_destroy list h = Inr h' \<and> heap_ok h' \<and>
    h_obj h' = (\<lambda>a. if a = list \<or> a \<in> fst ` set xs \<or> mode = FREE_MODE_MP_FREE \<and> a \<in> snd ` set xs
                    then None else h_obj h a)"
proof -
  obtain l where l: "h_obj h list = Some (List l)" "dl_head l = first xs NULL" "dl_free_mode l = mode" "list \<noteq> NULL"
    using is_dlist_fields [OF assms(2)] by metis
  have d: "dchain (h_obj h) NULL xs NULL" "distinct (map fst xs)"
    using assms(2) by (simp_all add: is_dlist_def)
  obtain h1 where h1: "destroy_loop (walk_fuel h) list (first xs NULL) h = Inr h1" "heap_ok h1"
    "h_obj h1 = (\<lambda>a. if a \<in> fst ` set xs \<or> mode = FREE_MODE_MP_FREE \<and> a \<in> snd ` set xs then None else h_obj h a)"
    using destroy_loop_ok [OF assms(1) l(1) is_dlist_notin [OF assms(2)] d is_dlist_bounds(1) [OF assms(1,2)]]
      assms(3,4) l(3) by auto
  obtain h2 where h2: "del_obj list h1 = Inr h2" "heap_ok h2" "h_obj h2 = (h_obj h1)(list := None)"
    by (rule del_obj_ok [OF h1(2)])
  have "dlist_destroy list h = Inr h2"
    using l h1(1) h2(1) by (simp add: dlist_destroy_def heap_simps)
  moreover have "h_obj h2 = (\<lambda>a. if a = list \<or> a \<in> fst ` set xs \<or> mode = FREE_MODE_MP_FREE \<and> a \<in> snd ` set xs
                    then None else h_obj h a)"
    using h2(3) h1(3) by (auto simp: fun_eq_iff)
  ultimately show ?thesis
    using h2(2) by blast
qed

subsection \<open>Minimum and maximum\<close>

fun best :: "(ptr \<Rightarrow> ptr \<Rightarrow> bool) \<Rightarrow> ptr \<times> ptr \<Rightarrow> (ptr \<times> ptr) list \<Rightarrow> ptr \<times> ptr" where
  "best better m [] = m"
| "best better m (x # xs) = best better (if better (snd m) (snd x) then x else m) xs"

lemma get_best_loop_eq:
  assumes "dchain (h_obj h) p xs NULL" "length xs < k" "m = (a, d)" "a \<noteq> NULL"
    "\<exists>n. h_obj h a = Some (Node n) \<and> dn_data n = d"
  shows "get_best_loop k better a (first xs NULL) h = Inr (fst (best better m xs))"
  using assms
proof (induction xs arbitrary: p k m a d)
  case Nil
  then show ?case by (cases k) simp_all
next
  case (Cons x xs)
  obtain b c where x: "x = (b, c)"
    by (cases x)
  obtain j where k: "k = Suc j"
    using Cons.prems(2) by (cases k) simp_all
  obtain n where n: "h_obj h a = Some (Node n)" "dn_data n = d"
    using Cons.prems(5) by blast
  have b: "b \<noteq> NULL" "h_obj h b = Some (Node \<lparr>dn_data = c, dn_prev = p, dn_next = first xs NULL\<rparr>)"
    "dchain (h_obj h) b xs NULL"
    using Cons.prems(1) by (simp_all add: x)
  have "get_best_loop j better (fst (if better d c then (b, c) else (a, d))) (first xs NULL) h =
      Inr (fst (best better (if better d c then (b, c) else (a, d)) xs))"
  proof (cases "better d c")
    case True
    then show ?thesis
      using Cons.IH [OF b(3), of j "(b, c)" b c] b Cons.prems(2) by (simp add: k)
  next
    case False
    then show ?thesis
      using Cons.IH [OF b(3), of j "(a, d)" a d] n Cons.prems by (simp add: k)
  qed
  then show ?case
    using b n Cons.prems(3,4) by (auto simp: x k heap_simps)
qed

lemma get_best_eq:
  assumes "dchain (h_obj h) NULL xs NULL" "length xs < k"
  shows "get_best_loop k better NULL (first xs NULL) h =
     Inr (case xs of [] \<Rightarrow> NULL | x # ys \<Rightarrow> fst (best better x ys))"
proof (cases xs)
  case Nil
  then show ?thesis using assms by (cases k) simp_all
next
  case (Cons x ys)
  obtain a d where x: "x = (a, d)"
    by (cases x)
  obtain j where k: "k = Suc j"
    using assms(2) by (cases k) simp_all
  have a: "a \<noteq> NULL" "h_obj h a = Some (Node \<lparr>dn_data = d, dn_prev = NULL, dn_next = first ys NULL\<rparr>)"
    "dchain (h_obj h) a ys NULL"
    using assms(1) by (simp_all add: Cons x)
  have "get_best_loop j better a (first ys NULL) h = Inr (fst (best better (a, d) ys))"
    using get_best_loop_eq [OF a(3), of j "(a, d)" a d better] a assms(2) by (simp add: Cons k)
  then show ?thesis
    using a by (simp add: Cons x k heap_simps)
qed

lemma best_in: "best better m xs \<in> insert m (set xs)"
proof (induction xs arbitrary: m)
  case (Cons x xs)
  show ?case
    using Cons.IH [of "if better (snd m) (snd x) then x else m"] by (auto split: if_splits)
qed simp

text \<open>
  With a comparison that is a total preorder, as \<^verbatim>\<open>qsort\<close>-style comparison functions are, the
  element found is extremal.
\<close>

definition cmp_order :: "(ptr \<Rightarrow> ptr \<Rightarrow> int) \<Rightarrow> bool" where
  "cmp_order cmp \<longleftrightarrow>
     (\<forall>a b. cmp a b > 0 \<longleftrightarrow> cmp b a < 0) \<and> (\<forall>a b c. cmp a b \<le> 0 \<longrightarrow> cmp b c \<le> 0 \<longrightarrow> cmp a c \<le> 0)"

lemma cmp_orderD:
  assumes "cmp_order cmp"
  shows "cmp a b > 0 \<longleftrightarrow> cmp b a < 0" "cmp a b \<le> 0 \<Longrightarrow> cmp b c \<le> 0 \<Longrightarrow> cmp a c \<le> 0" "cmp a a \<le> 0"
    "\<not> cmp a b \<le> 0 \<Longrightarrow> cmp b a \<le> 0"
proof -
  show g: "cmp a b > 0 \<longleftrightarrow> cmp b a < 0" for a b
    using assms unfolding cmp_order_def by blast
  show "cmp a b \<le> 0 \<Longrightarrow> cmp b c \<le> 0 \<Longrightarrow> cmp a c \<le> 0"
    using assms unfolding cmp_order_def by blast
  show "cmp a a \<le> 0" "\<not> cmp a b \<le> 0 \<Longrightarrow> cmp b a \<le> 0"
    using g [of a a] g [of a b] by linarith+
qed

lemma best_least:
  assumes le: "\<And>a b. better a b \<Longrightarrow> le b a" "\<And>a b. \<not> better a b \<Longrightarrow> le a b"
    "\<And>a b c. le a b \<Longrightarrow> le b c \<Longrightarrow> le a c"
  shows "x \<in> insert m (set xs) \<Longrightarrow> le (snd (best better m xs)) (snd x)"
proof (induction xs arbitrary: m x)
  case Nil
  then show ?case using le(1,2) [of "snd x" "snd x"] by auto
next
  case (Cons y ys)
  let ?k = "if better (snd m) (snd y) then y else m"
  have k: "le (snd ?k) (snd m)" "le (snd ?k) (snd y)"
    using le(1,2) [of "snd m" "snd y"] le(1,2) [of "snd m" "snd m"] le(1,2) [of "snd y" "snd y"] by auto
  have "le (snd (best better ?k ys)) (snd ?k)"
    by (rule Cons.IH) simp
  then have "le (snd (best better ?k ys)) (snd m)" "le (snd (best better ?k ys)) (snd y)"
    using k le(3) by blast+
  moreover have "le (snd (best better ?k ys)) (snd x)" if "x \<in> set ys"
    by (rule Cons.IH) (simp add: that)
  ultimately show ?case
    using Cons.prems by auto
qed

text \<open>The order that \<^verbatim>\<open>dlist_sort\<close> establishes, and the element it selects.\<close>

definition sort_le :: "(ptr \<Rightarrow> ptr \<Rightarrow> int) \<Rightarrow> bool \<Rightarrow> ptr \<Rightarrow> ptr \<Rightarrow> bool" where
  "sort_le cmp asc a b \<longleftrightarrow> (if asc then cmp a b \<le> 0 else cmp b a \<le> 0)"

lemma select_spec:
  assumes "heap_ok h" "is_dlist h list mode xs" "xs \<noteq> []" "cmp_order cmp"
  shows "\<exists>as e d bs. (if asc then dlist_get_min list cmp h else dlist_get_max list cmp h) = Inr e
    \<and> xs = as @ (e, d) # bs \<and> (\<forall>x \<in> set xs. sort_le cmp asc d (snd x))"
proof -
  obtain x ys where xs: "xs = x # ys"
    using assms(3) by (cases xs) simp_all
  obtain l where l: "h_obj h list = Some (List l)" "dl_head l = first xs NULL" "list \<noteq> NULL"
    using is_dlist_fields [OF assms(2)] by metis
  let ?b = "\<lambda>a b. if asc then cmp a b > 0 else cmp a b < 0"
  let ?m = "best ?b x ys"
  have "get_best_loop (walk_fuel h) ?b NULL (first xs NULL) h = Inr (fst ?m)"
    using get_best_eq [of h xs "walk_fuel h" ?b] assms(2) is_dlist_bounds(1) [OF assms(1,2)]
    by (simp add: is_dlist_def xs)
  then have r: "(if asc then dlist_get_min list cmp h else dlist_get_max list cmp h) = Inr (fst ?m)"
    using l by (cases asc) (simp_all add: dlist_get_min_def dlist_get_max_def heap_simps)
  have "?m \<in> set xs"
    using best_in [of ?b x ys] by (simp add: xs)
  then obtain as bs where "xs = as @ ?m # bs"
    using split_list by fastforce
  then have s: "xs = as @ (fst ?m, snd ?m) # bs"
    by simp
  have "sort_le cmp asc (snd ?m) (snd y)" if "y \<in> set xs" for y
  proof (rule best_least)
    fix a b c
    show "(if asc then cmp a b > 0 else cmp a b < 0) \<Longrightarrow> sort_le cmp asc b a"
      using cmp_orderD(1) [OF assms(4), of a b] by (cases asc) (simp_all add: sort_le_def)
    show "\<not> (if asc then cmp a b > 0 else cmp a b < 0) \<Longrightarrow> sort_le cmp asc a b"
      using cmp_orderD(1) [OF assms(4), of b a] by (cases asc) (simp_all add: sort_le_def not_less)
    show "sort_le cmp asc a b \<Longrightarrow> sort_le cmp asc b c \<Longrightarrow> sort_le cmp asc a c"
      using cmp_orderD(2) [OF assms(4), of a b c] cmp_orderD(2) [OF assms(4), of c b a]
      by (cases asc) (simp_all add: sort_le_def)
    show "y \<in> insert x (set ys)"
      using that by (simp add: xs)
  qed
  then show ?thesis
    using r s by blast
qed

subsection \<open>Sorting\<close>

text \<open>
  One round of the loop: the selected node leaves the list and joins the end of the new chain
  \<open>zs\<close>. The nodes of the list and of the new chain stay apart.
\<close>

lemma sort_round:
  assumes ok: "heap_ok h" and l: "is_dlist h list mode (as @ (e, d) # bs)"
    and z: "dchain (h_obj h) NULL zs NULL" "distinct (map fst zs)"
      "fst ` set zs \<inter> insert list (fst ` set (as @ (e, d) # bs)) = {}"
  shows "\<exists>r h1 h3. dlist_remove list e False False h = Inr (r, None, h1)
    \<and> (if zs = [] then h3 = h1
       else \<exists>h2. wr_node (lastp NULL zs) (\<lambda>t. t\<lparr>dn_next := e\<rparr>) h1 = Inr h2
              \<and> wr_node e (\<lambda>t. t\<lparr>dn_prev := lastp NULL zs\<rparr>) h2 = Inr h3)
    \<and> heap_ok h3 \<and> is_dlist h3 list mode (as @ bs) \<and> dchain (h_obj h3) NULL (zs @ [(e, d)]) NULL"
proof -
  note D = is_dlist_splitD [OF l]
  obtain h1 where h1: "dlist_remove list e False False h = Inr (of_nat (length (as @ bs)), None, h1)" "heap_ok h1"
    "is_dlist h1 list mode (as @ bs)" "keeps (insert list (fst ` set (as @ (e, d) # bs))) h h1"
    "h_obj h1 e = Some (Node \<lparr>dn_data = d, dn_prev = NULL, dn_next = NULL\<rparr>)"
    using dlist_remove_spec [OF ok l, of False False] by auto
  have "dchain (h_obj h1) NULL zs NULL = dchain (h_obj h) NULL zs NULL"
  proof (rule dchain_cong)
    fix a
    assume a: "a \<in> fst ` set zs"
    then have "h_obj h a \<noteq> None" "a \<notin> insert list (fst ` set (as @ (e, d) # bs))"
      using dchain_dom [OF z(1)] z(3) by blast+
    then show "h_obj h1 a = h_obj h a"
      using h1(4) unfolding keeps_def by blast
  qed
  then have z1: "dchain (h_obj h1) NULL zs NULL"
    using z(1) by simp
  show ?thesis
  proof (cases "zs = []")
    case True
    then show ?thesis
      using h1 D(2) by auto
  next
    case False
    let ?t = "lastp NULL zs"
    have t: "?t \<noteq> e" "?t \<noteq> list" "?t \<notin> fst ` set (as @ bs)"
      using z(3) lastp_in [OF False, of NULL] by auto
    have e: "e \<noteq> list" "e \<notin> fst ` set (as @ bs)" "e \<notin> fst ` set zs"
      using D z(3) by auto
    obtain m where m: "h_obj h1 ?t = Some (Node m)"
      "dchain ((h_obj h1)(?t \<mapsto> Node (m\<lparr>dn_next := e\<rparr>))) NULL zs e"
      using dchain_set_next [OF z1 z(2) False] by blast
    define h2 where "h2 = put_obj ?t (Node (m\<lparr>dn_next := e\<rparr>)) h1"
    define h3 where "h3 = put_obj e (Node \<lparr>dn_data = d, dn_prev = ?t, dn_next = NULL\<rparr>) h2"
    have e2: "h_obj h2 e = Some (Node \<lparr>dn_data = d, dn_prev = NULL, dn_next = NULL\<rparr>)"
      using h1(5) t(1) by (simp add: h2_def)
    have w: "wr_node ?t (\<lambda>t. t\<lparr>dn_next := e\<rparr>) h1 = Inr h2" "wr_node e (\<lambda>t. t\<lparr>dn_prev := ?t\<rparr>) h2 = Inr h3"
      using m(1) e2 by (simp_all add: wr_node_eq h2_def h3_def)
    have "heap_ok h3"
      using h1(2,5) m(1) t(1) by (simp add: h2_def h3_def heap_ok_put)
    moreover have "is_dlist h3 list mode (as @ bs)"
    proof (rule keeps_is_dlist [OF _ h1(3)])
      show "keeps {?t, e} h1 h3"
        by (simp add: keeps_def h2_def h3_def)
      show "list \<notin> {?t, e}" "{?t, e} \<inter> fst ` set (as @ bs) = {}"
        using t e by blast+
    qed
    moreover have "dchain (h_obj h3) NULL (zs @ [(e, d)]) NULL"
      using m(2) e(3) D(2) by (simp add: h2_def h3_def)
    ultimately show ?thesis
      using h1(1) w False
      by (intro exI [of _ "of_nat (length (as @ bs))"] exI [of _ h1] exI [of _ h3]) (simp del: dchain_append)
  qed
qed

lemma sort_loop_ok:
  assumes "heap_ok h" "is_dlist h list mode xs" "dchain (h_obj h) NULL zs NULL" "distinct (map fst zs)"
    "fst ` set zs \<inter> insert list (fst ` set xs) = {}" "length xs < k" "cmp_order cmp"
    "sorted_wrt (sort_le cmp asc) (map snd zs)" "\<forall>z \<in> set zs. \<forall>x \<in> set xs. sort_le cmp asc (snd z) (snd x)"
  shows "\<exists>h' ws. sort_loop k list cmp asc (first zs NULL) (lastp NULL zs) h = Inr (first ws NULL, lastp NULL ws, h')
    \<and> heap_ok h' \<and> is_dlist h' list mode [] \<and> dchain (h_obj h') NULL ws NULL \<and> mset ws = mset (zs @ xs)
    \<and> sorted_wrt (sort_le cmp asc) (map snd ws)"
  using assms
proof (induction "length xs" arbitrary: xs zs h k)
  case 0
  then have "xs = []" by simp
  then show ?case
    using 0 dlist_queries(1) [OF 0(3)] by (cases k) auto
next
  case (Suc n)
  obtain j where k: "k = Suc j"
    using Suc.prems(6) by (cases k) simp_all
  have ne: "xs \<noteq> []"
    using Suc.hyps(2) by auto
  obtain as e d bs where sel: "(if asc then dlist_get_min list cmp h else dlist_get_max list cmp h) = Inr e"
    and xs: "xs = as @ (e, d) # bs" and least: "\<forall>x \<in> set xs. sort_le cmp asc d (snd x)"
    using select_spec [OF Suc.prems(1,2) ne Suc.prems(7)] by blast
  note D = is_dlist_splitD [OF Suc.prems(2) [unfolded xs]]
  obtain r h1 h3 where rd: "dlist_remove list e False False h = Inr (r, None, h1)"
    and link: "if zs = [] then h3 = h1
       else \<exists>h2. wr_node (lastp NULL zs) (\<lambda>t. t\<lparr>dn_next := e\<rparr>) h1 = Inr h2
              \<and> wr_node e (\<lambda>t. t\<lparr>dn_prev := lastp NULL zs\<rparr>) h2 = Inr h3"
    and h3: "heap_ok h3" "is_dlist h3 list mode (as @ bs)" "dchain (h_obj h3) NULL (zs @ [(e, d)]) NULL"
    using sort_round [OF Suc.prems(1) Suc.prems(2) [unfolded xs] Suc.prems(3,4) Suc.prems(5) [unfolded xs]] by blast
  let ?zs = "zs @ [(e, d)]"
  have "\<exists>h' ws. sort_loop j list cmp asc (first ?zs NULL) (lastp NULL ?zs) h3 = Inr (first ws NULL, lastp NULL ws, h')
    \<and> heap_ok h' \<and> is_dlist h' list mode [] \<and> dchain (h_obj h') NULL ws NULL \<and> mset ws = mset (?zs @ as @ bs)
    \<and> sorted_wrt (sort_le cmp asc) (map snd ws)"
  proof (rule Suc.hyps(1) [OF _ h3])
    show "n = length (as @ bs)" "length (as @ bs) < j"
      using Suc.hyps(2) Suc.prems(6) by (simp_all add: xs k)
    show "distinct (map fst ?zs)" "fst ` set ?zs \<inter> insert list (fst ` set (as @ bs)) = {}"
      using Suc.prems(4,5) D by (auto simp: xs)
    show "sorted_wrt (sort_le cmp asc) (map snd ?zs)"
      using Suc.prems(8,9) by (auto simp: sorted_wrt_append xs)
    show "\<forall>z \<in> set ?zs. \<forall>x \<in> set (as @ bs). sort_le cmp asc (snd z) (snd x)"
      using Suc.prems(9) least by (auto simp: xs)
  qed (rule Suc.prems(7))
  then obtain h' ws where ih: "sort_loop j list cmp asc (first ?zs NULL) e h3 = Inr (first ws NULL, lastp NULL ws, h')"
    "heap_ok h'" "is_dlist h' list mode []" "dchain (h_obj h') NULL ws NULL" "mset ws = mset (?zs @ as @ bs)"
    "sorted_wrt (sort_le cmp asc) (map snd ws)"
    by auto
  have pos: "0 <s (of_nat (length xs) :: 32 word)"
    using pos_count(1) [of "length xs"] is_dlist_bounds(2) [OF Suc.prems(1,2)] ne by simp
  have zn: "zs \<noteq> [] \<Longrightarrow> first zs NULL \<noteq> NULL"
    using Suc.prems(3) by (rule dchain_first)
  have "sort_loop k list cmp asc (first zs NULL) (lastp NULL zs) h = sort_loop j list cmp asc (first ?zs NULL) e h3"
    using dlist_queries(1) [OF Suc.prems(2)] pos sel rd link zn
    by (cases "zs = []") (auto simp: k first_append first_nonempty)
  then show ?case
    using ih by (intro exI [of _ h'] exI [of _ ws]) (simp add: xs)
qed

lemma dlist_sort_spec:
  assumes "heap_ok h" "is_dlist h list mode xs" "cmp_order cmp"
  shows "\<exists>h' ws. dlist_sort list cmp asc h = Inr h' \<and> heap_ok h' \<and> is_dlist h' list mode ws
    \<and> mset ws = mset xs \<and> sorted_wrt (sort_le cmp asc) (map snd ws)"
proof -
  obtain h1 ws where s: "sort_loop (walk_fuel h) list cmp asc NULL NULL h = Inr (first ws NULL, lastp NULL ws, h1)"
    and ok: "heap_ok h1" and l1: "is_dlist h1 list mode []" and c: "dchain (h_obj h1) NULL ws NULL"
    and m: "mset ws = mset xs" and st: "sorted_wrt (sort_le cmp asc) (map snd ws)"
    using sort_loop_ok [OF assms(1,2), of "[]" "walk_fuel h" cmp asc] is_dlist_bounds(1) [OF assms(1,2)] assms(3) by auto
  obtain sh where hd: "h_obj h1 list = Some (List \<lparr>dl_size = 0, dl_free_mode = mode, dl_show = sh, dl_head = NULL, dl_tail = NULL\<rparr>)"
    "list \<noteq> NULL"
    using is_dlist_header [OF l1] by auto
  let ?l = "List \<lparr>dl_size = of_nat (length xs), dl_free_mode = mode, dl_show = sh, dl_head = first ws NULL, dl_tail = lastp NULL ws\<rparr>"
  have "dlist_sort list cmp asc h = Inr (put_obj list ?l h1)"
    using hd s dlist_queries(1) [OF assms(2)] by (simp add: dlist_sort_def heap_simps)
  moreover have "heap_ok (put_obj list ?l h1)"
    using ok hd by (simp add: heap_ok_put)
  moreover have "list \<notin> fst ` set ws"
    using dchain_dom [OF c, of list] hd by auto
  moreover have "distinct (map fst ws)"
    using assms(2) m by (metis is_dlist_def mset_eq_imp_distinct_iff mset_map)
  moreover have "length ws = length xs"
    using m by (metis size_mset)
  ultimately show ?thesis
    using c hd m st by (intro exI [of _ "put_obj list ?l h1"] exI [of _ ws]) (simp add: is_dlist_def)
qed

section \<open>Merging\<close>

text \<open>
  \<^verbatim>\<open>dlist_merge\<close> of two non-empty lists with different nodes makes the first represent the
  concatenation. The header of the second list is left as it was, so from then on both headers
  reach the second list's nodes.
\<close>

lemma dlist_merge_spec:
  assumes ok: "heap_ok h" and a: "is_dlist h la mode xs" and b: "is_dlist h lb mode' ys"
    and ne: "xs \<noteq> []" "ys \<noteq> []" and dj: "la \<noteq> lb" "fst ` set xs \<inter> fst ` set ys = {}"
  shows "\<exists>h'. dlist_merge la lb h = Inr (la, h') \<and> heap_ok h' \<and> is_dlist h' la mode (xs @ ys)
    \<and> h_obj h' lb = h_obj h lb"
proof -
  obtain sh where ha: "h_obj h la = Some (List \<lparr>dl_size = of_nat (length xs), dl_free_mode = mode, dl_show = sh,
      dl_head = first xs NULL, dl_tail = lastp NULL xs\<rparr>)" "la \<noteq> NULL"
    using is_dlist_header [OF a] by metis
  obtain sh' where hb: "h_obj h lb = Some (List \<lparr>dl_size = of_nat (length ys), dl_free_mode = mode', dl_show = sh',
      dl_head = first ys NULL, dl_tail = lastp NULL ys\<rparr>)" "lb \<noteq> NULL"
    using is_dlist_header [OF b] by metis
  have ca: "dchain (h_obj h) NULL xs NULL" "distinct (map fst xs)" and cb: "dchain (h_obj h) NULL ys NULL" "distinct (map fst ys)"
    using a b by (simp_all add: is_dlist_def)
  have out: "la \<notin> fst ` set xs" "lb \<notin> fst ` set ys" "lb \<notin> fst ` set xs" "la \<notin> fst ` set ys"
    using is_dlist_notin [OF a] is_dlist_notin [OF b] dchain_dom [OF ca(1), of lb] dchain_dom [OF cb(1), of la] ha hb
    by auto
  let ?t = "lastp NULL xs" and ?f = "first ys NULL"
  have tf: "?t \<in> fst ` set xs" "?f \<in> fst ` set ys"
    using lastp_in [OF ne(1)] first_in [OF ne(2)] by auto
  obtain m where m: "h_obj h ?t = Some (Node m)" "dchain ((h_obj h)(?t \<mapsto> Node (m\<lparr>dn_next := ?f\<rparr>))) NULL xs ?f"
    using dchain_set_next [OF ca ne(1)] by blast
  obtain n where n: "h_obj h ?f = Some (Node n)" "dchain ((h_obj h)(?f \<mapsto> Node (n\<lparr>dn_prev := ?t\<rparr>))) ?t ys NULL"
    using dchain_set_prev [OF cb ne(2)] by blast
  have tneq: "?t \<noteq> ?f"
    using tf dj(2) by (metis IntI empty_iff)
  have neq: "?t \<noteq> ?f" "?t \<noteq> la" "?t \<noteq> lb" "?f \<noteq> la" "?f \<noteq> lb" "?t \<notin> fst ` set ys" "?f \<notin> fst ` set xs"
    using tneq tf dj out by (simp, metis, metis, metis, metis, metis disjoint_iff, metis disjoint_iff)
  define h1 where "h1 = put_obj ?t (Node (m\<lparr>dn_next := ?f\<rparr>)) h"
  define h2 where "h2 = put_obj ?f (Node (n\<lparr>dn_prev := ?t\<rparr>)) h1"
  define h3 where "h3 = put_obj la (List \<lparr>dl_size = of_nat (length xs) + of_nat (length ys), dl_free_mode = mode, dl_show = sh,
      dl_head = first xs NULL, dl_tail = lastp NULL ys\<rparr>) h2"
  have o1: "h_obj h1 ?f = Some (Node n)"
    using n neq by (simp add: h1_def)
  have o2: "h_obj h2 la = h_obj h la"
    using neq by (simp add: h1_def h2_def)
  have lens: "length xs < 2 ^ 32" "length ys < 2 ^ 32"
    using is_dlist_bounds(2) [OF ok a] is_dlist_bounds(2) [OF ok b] by simp_all
  have "dlist_merge la lb h = Inr (la, h3)"
    using ha hb dlist_empty_eq [OF a lens(1)] dlist_empty_eq [OF b lens(2)] ne m(1) o1 o2
    by (simp add: dlist_merge_def rd_list_eq wr_node_eq wr_list_eq h1_def [symmetric] h2_def [symmetric])
      (simp add: h3_def)
  moreover have c2: "dchain (h_obj h3) ?t ys NULL"
    using n(2) neq out by (simp add: h1_def h2_def h3_def fun_upd_twist [of ?t ?f])
  moreover have "heap_ok h3"
    using ok m(1) n(1) ha neq by (simp add: h1_def h2_def h3_def heap_ok_put)
  moreover have "dchain (h_obj h3) NULL xs ?f"
    using m(2) neq out by (simp add: h1_def h2_def h3_def)
  then have "is_dlist h3 la mode (xs @ ys)"
    using c2 ca(2) cb(2) dj(2) ha(2) first_nonempty [OF ne(1)] ne(2) by (simp add: is_dlist_def h3_def first_append lastp_def)
  moreover have "h_obj h3 lb = h_obj h lb"
    using neq dj by (simp add: h1_def h2_def h3_def)
  ultimately show ?thesis
    by blast
qed

section \<open>The sequence interface\<close>

text \<open>
  What \<^verbatim>\<open>queue.c\<close>, \<^verbatim>\<open>stack.c\<close> and the traversals of \<^verbatim>\<open>compress.c\<close> need of a list: insertion at
  either end and removal at the front, over a representation relation. An insertion may fail with
  -1 and then changes nothing.
\<close>

locale sequence =
  fixes inv :: "'s \<Rightarrow> bool"
    and repr :: "'s \<Rightarrow> ptr \<Rightarrow> (ptr \<times> ptr) list \<Rightarrow> bool"
    and push_back :: "ptr \<Rightarrow> ptr \<Rightarrow> 's \<Rightarrow> c_fault + 32 word \<times> 's"
    and push_front :: "ptr \<Rightarrow> ptr \<Rightarrow> 's \<Rightarrow> c_fault + 32 word \<times> 's"
    and pop :: "ptr \<Rightarrow> 's \<Rightarrow> c_fault + 32 word \<times> ptr option \<times> 's"
  assumes push_back: "inv s \<Longrightarrow> repr s l xs \<Longrightarrow> push_back l d s = Inr (r, s') \<Longrightarrow> r \<noteq> - 1 \<Longrightarrow>
        inv s' \<and> (\<exists>a. repr s' l (xs @ [(a, d)])) \<and> r = of_nat (Suc (length xs))"
    and push_front: "inv s \<Longrightarrow> repr s l xs \<Longrightarrow> push_front l d s = Inr (r, s') \<Longrightarrow> r \<noteq> - 1 \<Longrightarrow>
        inv s' \<and> (\<exists>a. repr s' l ((a, d) # xs)) \<and> r = of_nat (Suc (length xs))"
    and push_back_fail: "inv s \<Longrightarrow> repr s l xs \<Longrightarrow> push_back l d s = Inr (- 1, s') \<Longrightarrow> s' = s"
    and push_front_fail: "inv s \<Longrightarrow> repr s l xs \<Longrightarrow> push_front l d s = Inr (- 1, s') \<Longrightarrow> s' = s"
    and pop_Cons: "inv s \<Longrightarrow> repr s l ((a, d) # xs) \<Longrightarrow>
        \<exists>s'. pop l s = Inr (of_nat (length xs), Some d, s') \<and> inv s' \<and> repr s' l xs"
    and pop_Nil: "inv s \<Longrightarrow> repr s l [] \<Longrightarrow> pop l s = Inr (0, None, s)"
begin

lemma lifo:
  assumes "inv s" "repr s l xs" "push_front l d s = Inr (r, s1)" "r \<noteq> - 1"
  shows "\<exists>s2. pop l s1 = Inr (of_nat (length xs), Some d, s2) \<and> inv s2 \<and> repr s2 l xs"
  using push_front [OF assms] pop_Cons by blast

lemma fifo:
  assumes "inv s" "repr s l xs" "push_back l d s = Inr (r, s1)" "r \<noteq> - 1"
  shows "\<exists>s2. pop l s1 = Inr (of_nat (length xs), Some (hd (map snd xs @ [d])), s2) \<and> inv s2
    \<and> (\<exists>ys. repr s2 l ys \<and> map snd ys = tl (map snd xs @ [d]))"
proof -
  obtain a where a: "inv s1" "repr s1 l (xs @ [(a, d)])"
    using push_back [OF assms] by blast
  then show ?thesis
    using pop_Cons [of s1 l] by (cases xs) (fastforce+)
qed

end

lemma of_nat_Suc_neq:
  assumes "k < 2 ^ 31"
  shows "of_nat (Suc k) \<noteq> (- 1 :: 32 word)"
proof
  assume h: "of_nat (Suc k) = (- 1 :: 32 word)"
  have "(of_nat (Suc (Suc k)) :: 32 word) = of_nat (Suc k) + 1"
    by simp
  then have "(of_nat (Suc (Suc k)) :: 32 word) = 0"
    unfolding h by simp
  moreover have "unat (of_nat (Suc (Suc k)) :: 32 word) = Suc (Suc k)"
    using assms by (subst unsigned_of_nat) (simp add: take_bit_nat_eq_self)
  ultimately show False
    by (metis nat.distinct(1) unsigned_0)
qed

text \<open>The return value tells success from failure.\<close>

lemma ins_spec_Inr:
  assumes "ins_spec (Inr (r, h')) h list mode xs data ys" "heap_ok h" "is_dlist h list mode (xs @ ys)"
  shows "if r = - 1 then h' = h \<and> short sizeof_dlist_node h
    else heap_ok h' \<and> r = of_nat (Suc (length (xs @ ys))) \<and> keeps (insert list (fst ` set (xs @ ys))) h h'
      \<and> (\<exists>a. h_obj h a = None \<and> is_dlist h' list mode (xs @ (a, data) # ys))"
  using assms(1) of_nat_Suc_neq [OF is_dlist_bounds(2) [OF assms(2,3)]]
  unfolding ins_spec_def sum.case prod.case by argo

lemma dlist_append_Inr:
  assumes "heap_ok h" "is_dlist h list mode xs" "dlist_append list data h = Inr (r, h')"
  shows "if r = - 1 then h' = h \<and> short sizeof_dlist_node h
    else heap_ok h' \<and> r = of_nat (Suc (length xs)) \<and> keeps (insert list (fst ` set xs)) h h'
      \<and> (\<exists>a. h_obj h a = None \<and> is_dlist h' list mode (xs @ [(a, data)]))"
  using ins_spec_Inr [of r h' h list mode xs data "[]"] dlist_append_spec [OF assms(1,2), of data]
  unfolding assms(3) append_Nil2 using assms(1,2) by blast

lemma dlist_prepend_Inr:
  assumes "heap_ok h" "is_dlist h list mode xs" "dlist_prepend list data h = Inr (r, h')"
  shows "if r = - 1 then h' = h \<and> short sizeof_dlist_node h
    else heap_ok h' \<and> r = of_nat (Suc (length xs)) \<and> keeps (insert list (fst ` set xs)) h h'
      \<and> (\<exists>a. h_obj h a = None \<and> is_dlist h' list mode ((a, data) # xs))"
  using ins_spec_Inr [of r h' h list mode "[]" data xs] dlist_prepend_spec [OF assms(1,2), of data]
  unfolding assms(3) append_Nil using assms(1,2) by blast

interpretation dl: sequence heap_ok "\<lambda>h l xs. is_dlist h l mode xs" dlist_append dlist_prepend
    "\<lambda>l. dlist_pop_front l True" for mode
proof
  fix s s' :: heap and l d a xs r
  assume ok: "heap_ok s"
  show "heap_ok s' \<and> (\<exists>a. is_dlist s' l mode (xs @ [(a, d)])) \<and> r = of_nat (Suc (length xs))"
    if "is_dlist s l mode xs" "dlist_append l d s = Inr (r, s')" "r \<noteq> - 1"
    using dlist_append_Inr [OF ok that(1,2)] that(3) unfolding if_not_P [OF that(3)] by blast
  show "heap_ok s' \<and> (\<exists>a. is_dlist s' l mode ((a, d) # xs)) \<and> r = of_nat (Suc (length xs))"
    if "is_dlist s l mode xs" "dlist_prepend l d s = Inr (r, s')" "r \<noteq> - 1"
    using dlist_prepend_Inr [OF ok that(1,2)] that(3) unfolding if_not_P [OF that(3)] by blast
  show "s' = s" if "is_dlist s l mode xs" "dlist_append l d s = Inr (- 1, s')"
    using dlist_append_Inr [OF ok that] by simp
  show "s' = s" if "is_dlist s l mode xs" "dlist_prepend l d s = Inr (- 1, s')"
    using dlist_prepend_Inr [OF ok that] by simp
  show "is_dlist s l mode ((a, d) # xs) \<Longrightarrow>
        \<exists>s'. dlist_pop_front l True s = Inr (of_nat (length xs), Some d, s') \<and> heap_ok s' \<and> is_dlist s' l mode xs"
    using dlist_pop_front_spec [OF ok, of l mode a d xs True] by auto
  show "is_dlist s l mode [] \<Longrightarrow> dlist_pop_front l True s = Inr (0, None, s)"
    by (rule dlist_pop_empty)
qed

section \<open>Results\<close>

text \<open>A heap with an empty list at a given address, for the witnesses.\<close>

lemma some_list:
  obtains h list where "heap_ok h" "is_dlist h list mode []" "\<not> short 100 h"
proof -
  define h where "h = \<lparr>h_pool = one_node_pool True, h_obj = (\<lambda>_. None)(300 \<mapsto> List \<lparr>dl_size = 0, dl_free_mode = mode,
      dl_show = NULL, dl_head = NULL, dl_tail = NULL\<rparr>)\<rparr>"
  have "heap_ok h" "is_dlist h 300 mode []" "\<not> short 100 h"
    using one_node_pool_ok(1,2,5) by (auto simp: h_def heap_ok_def is_dlist_def short_def pool_sizes)
  then show ?thesis by (rule that)
qed

text \<open>
  C34: \<^verbatim>\<open>dlist_append\<close> on the heap implements appending to a sequence. With the list representing
  \<open>xs\<close>, either memory is short and the call reports it, or the list represents \<open>xs\<close> followed by the
  data in a new node, the size is returned, the pool and heap invariants hold, and no object
  outside the list changes.
\<close>

theorem dlist_append_refines:
  assumes "heap_ok h" "is_dlist h list mode xs"
  shows "case dlist_append list data h of
      Inl e \<Rightarrow> e = Null_dereference \<and> short sizeof_dlist_node h
    | Inr (r, h') \<Rightarrow>
        if r = - 1 then h' = h \<and> short sizeof_dlist_node h
        else heap_ok h' \<and> r = of_nat (Suc (length xs)) \<and> keeps (insert list (fst ` set xs)) h h'
           \<and> (\<exists>a. h_obj h a = None \<and> is_dlist h' list mode (xs @ [(a, data)]))"
proof (cases "dlist_append list data h")
  case (Inl e)
  then show ?thesis
    using dlist_append_spec [OF assms, of data] by (simp add: ins_spec_def)
next
  case (Inr p)
  obtain r h' where p: "p = (r, h')"
    by (cases p)
  show ?thesis
    using dlist_append_Inr [OF assms Inr [unfolded p]] unfolding Inr p sum.case prod.case .
qed

theorem dlist_append_refines_witness:
  "\<exists>h list r h' a. is_dlist h list FREE_MODE_NOTHING [] \<and> dlist_append list 7 h = Inr (r, h')
     \<and> is_dlist h' list FREE_MODE_NOTHING [(a, 7)]"
proof -
  obtain h list where h: "heap_ok h" "is_dlist h list FREE_MODE_NOTHING []" "\<not> short 100 h"
    by (rule some_list)
  then have "\<not> short sizeof_dlist_node h"
    by (simp add: short_def sizeof_dlist_node_def)
  then show ?thesis
    using dlist_append_refines [OF h(1,2), of 7] h(2) by (fastforce split: sum.splits prod.splits if_splits)
qed

text \<open>
  C35: \<^verbatim>\<open>dlist_remove\<close> of any element of a list implements its removal from the sequence: it
  never faults, returns the new size and the data, frees the node or leaves it detached, and
  changes nothing outside the list.
\<close>

theorem dlist_remove_refines:
  assumes "heap_ok h" "is_dlist h list mode (xs @ (e, d) # ys)"
  shows "\<exists>h'. dlist_remove list e True need_free h = Inr (of_nat (length (xs @ ys)), Some d, h')
    \<and> heap_ok h' \<and> is_dlist h' list mode (xs @ ys)
    \<and> keeps (insert list (fst ` set (xs @ (e, d) # ys))) h h'
    \<and> (need_free \<longrightarrow> h_obj h' e = None)"
  using dlist_remove_spec [OF assms, of True need_free] by auto

lemma some_singleton:
  obtains h list a where "heap_ok h" "is_dlist h list mode [(a, d)]"
proof -
  obtain h list where h: "heap_ok h" "is_dlist h list mode []" "\<not> short 100 h"
    by (rule some_list)
  then have n: "\<not> short sizeof_dlist_node h"
    by (simp add: short_def sizeof_dlist_node_def)
  then obtain p where p: "dlist_append list d h = Inr p"
    using dlist_append_spec [OF h(1,2), of d] by (cases "dlist_append list d h") (auto simp: ins_spec_def)
  obtain r h' where rh: "p = (r, h')"
    by (cases p)
  show ?thesis
    using dlist_append_Inr [OF h(1,2) p [unfolded rh]] n that by (auto split: if_splits)
qed

theorem dlist_remove_refines_witness:
  "\<exists>h list a r h'. is_dlist h list FREE_MODE_NOTHING [(a, 7)] \<and> dlist_remove list a True True h = Inr (r, Some 7, h')
     \<and> is_dlist h' list FREE_MODE_NOTHING []"
proof -
  obtain h list a where h: "heap_ok h" "is_dlist h list FREE_MODE_NOTHING ([] @ (a, 7) # [])"
    using some_singleton by (metis append_Nil)
  then show ?thesis
    using dlist_remove_refines [OF h, of True] by auto blast
qed

text \<open>
  C36: \<^verbatim>\<open>dlist_sort\<close> terminates and sorts in place: with a comparison that is a total preorder the
  list represents, in the same nodes, a permutation of the elements in ascending or descending
  order; the assertion in the code holds.
\<close>

theorem dlist_sort_correct:
  assumes "heap_ok h" "is_dlist h list mode xs" "cmp_order cmp"
  shows "\<exists>h' ws. dlist_sort list cmp asc h = Inr h' \<and> heap_ok h' \<and> is_dlist h' list mode ws
    \<and> mset ws = mset xs \<and> sorted_wrt (sort_le cmp asc) (map snd ws)"
  using dlist_sort_spec [OF assms] .

definition cmp_ptr :: "ptr \<Rightarrow> ptr \<Rightarrow> int" where
  "cmp_ptr a b = int a - int b"

theorem dlist_sort_correct_witness:
  "\<exists>h list a h' ws. is_dlist h list FREE_MODE_NOTHING [(a, 7)] \<and> dlist_sort list cmp_ptr True h = Inr h'
     \<and> is_dlist h' list FREE_MODE_NOTHING ws \<and> mset ws = {#(a, 7)#}"
proof -
  obtain h list a where h: "heap_ok h" "is_dlist h list FREE_MODE_NOTHING [(a, 7)]"
    by (rule some_singleton)
  have "cmp_order cmp_ptr"
    by (auto simp: cmp_order_def cmp_ptr_def)
  then show ?thesis
    using dlist_sort_correct [OF h, of cmp_ptr True] h(2) by auto
qed

text \<open>
  \<^verbatim>\<open>dlist_destroy\<close> terminates and releases exactly the header, the nodes and, in mode
  \<^verbatim>\<open>FREE_MODE_MP_FREE\<close>, the data of a list whose data are not its own nodes; it reads no node
  after freeing it.
\<close>

theorem dlist_destroy_releases:
  assumes "heap_ok h" "is_dlist h list mode xs" "mode \<noteq> FREE_MODE_FREE"
    "mode = FREE_MODE_MP_FREE \<Longrightarrow> snd ` set xs \<inter> insert list (fst ` set xs) = {}"
  shows "\<exists>h'. dlist_destroy list h = Inr h' \<and> heap_ok h' \<and>
    h_obj h' = (\<lambda>a. if a = list \<or> a \<in> fst ` set xs \<or> mode = FREE_MODE_MP_FREE \<and> a \<in> snd ` set xs
                    then None else h_obj h a)"
  using dlist_destroy_spec [OF assms] .

theorem dlist_destroy_releases_witness:
  "\<exists>h list a h'. is_dlist h list FREE_MODE_NOTHING [(a, 7)] \<and> dlist_destroy list h = Inr h' \<and> h_obj h' a = None"
proof -
  obtain h list a where h: "heap_ok h" "is_dlist h list FREE_MODE_NOTHING [(a, 7)]"
    by (rule some_singleton)
  then show ?thesis
    using dlist_destroy_releases [OF h] by fastforce
qed

end
