(* ===== verification/Sftt_Containers.thy ===== *)
theory Sftt_Containers
  imports Sftt_Dlist
begin

text \<open>
  Queues, stacks and maps over the doubly linked list (\<^verbatim>\<open>src/src/queue.c\<close>, \<^verbatim>\<open>src/src/stack.c\<close>,
  \<^verbatim>\<open>src/src/map.c\<close>): each is a struct holding one list pointer. The interfaces \<open>fifo_queue\<close> and
  \<open>lifo_stack\<close> state what a queue and a stack promise; draining what was put in returns it in
  order, respectively in reverse order. A map is an association list keyed by pointers.
\<close>

section \<open>Queue\<close>

definition sizeof_box :: nat where "sizeof_box = 8"
definition sizeof_kv_node :: nat where "sizeof_kv_node = 16"

definition rd_box :: "heap \<Rightarrow> ptr \<Rightarrow> c_fault + ptr" where
  "rd_box h p = (case h_obj h p of Some (Box l) \<Rightarrow> Inr l | _ \<Rightarrow> Inl (bad_access p))"

definition wr_box :: "ptr \<Rightarrow> ptr \<Rightarrow> heap \<Rightarrow> c_fault + heap" where
  "wr_box p l h = sbind (rd_box h p) (\<lambda>_. Inr (put_obj p (Box l) h))"

definition queue_create :: "free_mode \<Rightarrow> heap \<Rightarrow> c_fault + ptr \<times> heap" where
  "queue_create mode h =
     sbind (new_obj ''queue_create'' sizeof_box (Box NULL) h) (\<lambda>(q, h1).
       if q = NULL then Inr (NULL, h1)
       else sbind (dlist_create mode h1) (\<lambda>(list, h2).
            sbind (wr_box q list h2) (\<lambda>h3.
              if list = NULL then sbind (del_obj q h3) (\<lambda>h4. Inr (NULL, h4))
              else Inr (q, h3))))"

definition queue_init :: "ptr \<Rightarrow> free_mode \<Rightarrow> heap \<Rightarrow> c_fault + heap" where
  "queue_init q mode h =
     (if q = NULL then Inl Assertion_failed
      else sbind (dlist_create mode h) (\<lambda>(list, h1). wr_box q list h1))"

definition queue_destroy :: "ptr \<Rightarrow> heap \<Rightarrow> c_fault + heap" where
  "queue_destroy q h =
     (if q = NULL then Inl Assertion_failed
      else sbind (rd_box h q) (\<lambda>list.
           sbind (dlist_destroy list h) (\<lambda>h1.
           sbind (wr_box q NULL h1) (\<lambda>h2. del_obj q h2))))"

definition queue_enqueue :: "ptr \<Rightarrow> ptr \<Rightarrow> heap \<Rightarrow> c_fault + 32 word \<times> heap" where
  "queue_enqueue q data h =
     (if q = NULL then Inl Assertion_failed
      else sbind (rd_box h q) (\<lambda>list. dlist_append list data h))"

definition queue_dequeue :: "ptr \<Rightarrow> bool \<Rightarrow> heap \<Rightarrow> c_fault + 32 word \<times> ptr option \<times> heap" where
  "queue_dequeue q data h =
     (if q = NULL then Inl Assertion_failed
      else sbind (rd_box h q) (\<lambda>list. dlist_pop_front list data h))"

definition queue_peek :: "ptr \<Rightarrow> heap \<Rightarrow> c_fault + ptr" where
  "queue_peek q h =
     (if q = NULL then Inl Assertion_failed
      else sbind (rd_box h q) (\<lambda>list.
           sbind (dlist_head list h) (\<lambda>head. if head = NULL then Inr NULL else dlist_data head h)))"

definition queue_size :: "ptr \<Rightarrow> heap \<Rightarrow> c_fault + 32 word" where
  "queue_size q h =
     (if q = NULL then Inl Assertion_failed
      else sbind (rd_box h q) (\<lambda>list. dlist_size list h))"

definition queue_is_empty :: "ptr \<Rightarrow> heap \<Rightarrow> c_fault + bool" where
  "queue_is_empty q h =
     (if q = NULL then Inr False
      else sbind (rd_box h q) (\<lambda>list. if list = NULL then Inr False else dlist_empty list h))"

section \<open>Stack\<close>

definition stack_create :: "free_mode \<Rightarrow> heap \<Rightarrow> c_fault + ptr \<times> heap" where
  "stack_create mode h =
     sbind (new_obj ''stack_create'' sizeof_box (Box NULL) h) (\<lambda>(s, h1).
       if s = NULL then Inr (NULL, h1)
       else sbind (dlist_create mode h1) (\<lambda>(list, h2).
            sbind (wr_box s list h2) (\<lambda>h3.
              if list = NULL then sbind (del_obj s h3) (\<lambda>h4. Inr (NULL, h4))
              else Inr (s, h3))))"

definition stack_init :: "ptr \<Rightarrow> free_mode \<Rightarrow> heap \<Rightarrow> c_fault + heap" where
  "stack_init s mode h =
     (if s = NULL then Inl Assertion_failed
      else sbind (dlist_create mode h) (\<lambda>(list, h1). wr_box s list h1))"

definition stack_destroy :: "ptr \<Rightarrow> heap \<Rightarrow> c_fault + heap" where
  "stack_destroy s h =
     (if s = NULL then Inl Assertion_failed
      else sbind (rd_box h s) (\<lambda>list.
           sbind (dlist_destroy list h) (\<lambda>h1.
           sbind (wr_box s NULL h1) (\<lambda>h2. del_obj s h2))))"

definition stack_push :: "ptr \<Rightarrow> ptr \<Rightarrow> heap \<Rightarrow> c_fault + 32 word \<times> heap" where
  "stack_push s data h =
     (if s = NULL then Inl Assertion_failed
      else sbind (rd_box h s) (\<lambda>list. dlist_prepend list data h))"

definition stack_pop :: "ptr \<Rightarrow> bool \<Rightarrow> heap \<Rightarrow> c_fault + 32 word \<times> ptr option \<times> heap" where
  "stack_pop s data h =
     (if s = NULL then Inl Assertion_failed
      else sbind (rd_box h s) (\<lambda>list. dlist_pop_front list data h))"

definition stack_peek :: "ptr \<Rightarrow> heap \<Rightarrow> c_fault + ptr" where
  "stack_peek s h =
     (if s = NULL then Inl Assertion_failed
      else sbind (rd_box h s) (\<lambda>list.
           sbind (dlist_head list h) (\<lambda>node. if node = NULL then Inr NULL else dlist_data node h)))"

definition stack_size :: "ptr \<Rightarrow> heap \<Rightarrow> c_fault + 32 word" where
  "stack_size s h =
     (if s = NULL then Inl Assertion_failed
      else sbind (rd_box h s) (\<lambda>list. dlist_size list h))"

definition stack_is_empty :: "ptr \<Rightarrow> heap \<Rightarrow> c_fault + bool" where
  "stack_is_empty s h =
     (if s = NULL then Inr True
      else sbind (rd_box h s) (\<lambda>list.
        if list = NULL then Inr True else sbind (dlist_size list h) (\<lambda>n. Inr (n = 0))))"

text \<open>\<^verbatim>\<open>stack_peek_all\<close> copies the data into the caller's array, here the list of what it stores.\<close>

fun peek_loop :: "nat \<Rightarrow> ptr \<Rightarrow> heap \<Rightarrow> c_fault + ptr list" where
  "peek_loop 0 p h = Inl No_return"
| "peek_loop (Suc k) p h =
     (if p = NULL then Inr []
      else sbind (rd_node h p) (\<lambda>n.
           sbind (peek_loop k (dn_next n) h) (\<lambda>ds. Inr (dn_data n # ds))))"

definition stack_peek_all :: "ptr \<Rightarrow> heap \<Rightarrow> c_fault + ptr list" where
  "stack_peek_all s h =
     sbind (rd_box h s) (\<lambda>list.
     sbind (rd_list h list) (\<lambda>l. peek_loop (walk_fuel h) (dl_head l) h))"

section \<open>Map\<close>

text \<open>\<^verbatim>\<open>map_add\<close> is \<open>map_add_kv\<close> here: the plain name is taken by the library's maps.\<close>

definition rd_kv :: "heap \<Rightarrow> ptr \<Rightarrow> c_fault + kv_node" where
  "rd_kv h p = (case h_obj h p of Some (Kv x) \<Rightarrow> Inr x | _ \<Rightarrow> Inl (bad_access p))"

definition map_init :: "ptr \<Rightarrow> heap \<Rightarrow> c_fault + 32 word \<times> heap" where
  "map_init m h =
     (if m = NULL then Inr (- 1, h)
      else sbind (dlist_create FREE_MODE_MP_FREE h) (\<lambda>(list, h1).
           sbind (wr_box m list h1) (\<lambda>h2.
             if list = NULL then sbind (del_obj m h2) (\<lambda>h3. Inr (- 1, h3)) else Inr (0, h2))))"

definition map_create :: "heap \<Rightarrow> c_fault + ptr \<times> heap" where
  "map_create h =
     sbind (new_obj ''map_create'' sizeof_box (Box NULL) h) (\<lambda>(m, h1).
       if m = NULL then Inr (NULL, h1)
       else sbind (dlist_create FREE_MODE_MP_FREE h1) (\<lambda>(list, h2).
            sbind (wr_box m list h2) (\<lambda>h3.
              if list = NULL then sbind (del_obj m h3) (\<lambda>h4. Inr (NULL, h4))
              else Inr (m, h3))))"

text \<open>
  The loop that \<^verbatim>\<open>map_add\<close>, \<^verbatim>\<open>map_find\<close> and \<^verbatim>\<open>map_remove\<close> share: the first list node whose
  key passes the test, with the address of its \<^verbatim>\<open>kv_node\<close>.
\<close>

fun map_scan :: "nat \<Rightarrow> (ptr \<Rightarrow> bool) \<Rightarrow> ptr \<Rightarrow> heap \<Rightarrow> c_fault + (ptr \<times> ptr) option" where
  "map_scan 0 test p h = Inl No_return"
| "map_scan (Suc k) test p h =
     (if p = NULL then Inr None
      else sbind (rd_node h p) (\<lambda>n.
           sbind (rd_kv h (dn_data n)) (\<lambda>kvn.
             if test (kv_key kvn) then Inr (Some (p, dn_data n))
             else map_scan k test (dn_next n) h)))"

definition map_add_kv :: "ptr \<Rightarrow> ptr \<Rightarrow> ptr \<Rightarrow> heap \<Rightarrow> c_fault + 32 word \<times> heap" where
  "map_add_kv m key value0 h =
     (if m = NULL then Inr (- 1, h)
      else sbind (new_obj ''map_add'' sizeof_kv_node (Kv \<lparr>kv_key = key, kv_value = value0\<rparr>) h) (\<lambda>(data, h1).
        if data = NULL then Inr (- 1, h1)
        else sbind (rd_box h1 m) (\<lambda>list.
             sbind (rd_list h1 list) (\<lambda>l.
             sbind (map_scan (walk_fuel h1) (\<lambda>k. k = key) (dl_head l) h1) (\<lambda>r.
               case r of
                 Some (ln, kvn) \<Rightarrow>
                   sbind (rd_kv h1 kvn) (\<lambda>x.
                   sbind (del_obj data (put_obj kvn (Kv (x\<lparr>kv_value := value0\<rparr>)) h1)) (\<lambda>h2. Inr (0, h2)))
               | None \<Rightarrow> dlist_append list data h1)))))"

definition map_find ::
  "ptr \<Rightarrow> (ptr \<Rightarrow> ptr \<Rightarrow> bool) \<Rightarrow> ptr \<Rightarrow> heap \<Rightarrow> c_fault + 32 word \<times> ptr option" where
  "map_find m is_equal key h =
     (if m = NULL then Inr (- 1, None)
      else sbind (rd_box h m) (\<lambda>list.
           sbind (rd_list h list) (\<lambda>l.
           sbind (map_scan (walk_fuel h) (\<lambda>k. is_equal k key) (dl_head l) h) (\<lambda>r.
             case r of
               Some (ln, kvn) \<Rightarrow> sbind (rd_kv h kvn) (\<lambda>x. Inr (0, Some (kv_value x)))
             | None \<Rightarrow> Inr (- 1, None)))))"

definition map_remove :: "ptr \<Rightarrow> ptr \<Rightarrow> bool \<Rightarrow> heap \<Rightarrow> c_fault + 32 word \<times> ptr option \<times> heap" where
  "map_remove m key want h =
     (if m = NULL then Inr (- 1, None, h)
      else sbind (rd_box h m) (\<lambda>list.
           sbind (rd_list h list) (\<lambda>l.
           sbind (map_scan (walk_fuel h) (\<lambda>k. k = key) (dl_head l) h) (\<lambda>r.
             case r of
               Some (ln, kvn) \<Rightarrow>
                 sbind (dlist_remove list ln want True h) (\<lambda>(_, out, h1). Inr (0, out, h1))
             | None \<Rightarrow> Inr (- 1, None, h)))))"

definition map_destroy :: "ptr \<Rightarrow> heap \<Rightarrow> c_fault + heap" where
  "map_destroy m h =
     (if m = NULL then Inr h
      else sbind (rd_box h m) (\<lambda>list.
        if list = NULL then Inr h
        else sbind (dlist_destroy list h) (\<lambda>h1. del_obj m h1)))"

section \<open>Representation\<close>

definition is_box :: "heap \<Rightarrow> ptr \<Rightarrow> free_mode \<Rightarrow> (ptr \<times> ptr) list \<Rightarrow> bool" where
  "is_box h q mode xs \<longleftrightarrow> q \<noteq> NULL \<and> (\<exists>l. h_obj h q = Some (Box l) \<and> is_dlist h l mode xs)"

lemma rd_box_eq [heap_simps]: "h_obj h p = Some (Box l) \<Longrightarrow> rd_box h p = Inr l"
  by (simp add: rd_box_def)

lemma wr_box_eq [heap_simps]: "h_obj h p = Some (Box l) \<Longrightarrow> wr_box p k h = Inr (put_obj p (Box k) h)"
  by (simp add: wr_box_def rd_box_def)

lemma rd_kv_eq [heap_simps]: "h_obj h p = Some (Kv x) \<Longrightarrow> rd_kv h p = Inr x"
  by (simp add: rd_kv_def)

text \<open>An object that is neither a list header nor a node is outside every list.\<close>

lemma outside:
  assumes "is_dlist h l mode xs" "h_obj h q = Some x" "\<And>n. x \<noteq> Node n" "\<And>k. x \<noteq> List k"
  shows "q \<notin> insert l (fst ` set xs)"
proof
  assume "q \<in> insert l (fst ` set xs)"
  then consider "q = l" | "q \<in> fst ` set xs" by blast
  then show False
  proof cases
    case 1
    then show ?thesis
      using is_dlist_fields [OF assms(1)] assms(2,4) by (metis option.inject)
  next
    case 2
    then show ?thesis
      using dchain_dom [of "h_obj h" NULL xs NULL q] assms(1,2,3) by (auto simp: is_dlist_def)
  qed
qed

lemma box_kept:
  assumes "h_obj h q = Some (Box l)" "is_dlist h l mode xs" "keeps (insert l (fst ` set xs)) h h'"
  shows "h_obj h' q = Some (Box l)"
  using assms outside [OF assms(2,1)] by (simp add: keeps_def)

section \<open>Queues are first-in first-out, stacks last-in first-out\<close>

text \<open>Putting several elements in, all successfully, and taking elements out.\<close>

fun fill :: "(ptr \<Rightarrow> 's \<Rightarrow> c_fault + 32 word \<times> 's) \<Rightarrow> ptr list \<Rightarrow> 's \<Rightarrow> 's option" where
  "fill put [] s = Some s"
| "fill put (d # ds) s = (case put d s of Inl e \<Rightarrow> None | Inr (r, s') \<Rightarrow> if r = - 1 then None else fill put ds s')"

fun drain :: "('s \<Rightarrow> c_fault + 32 word \<times> ptr option \<times> 's) \<Rightarrow> nat \<Rightarrow> 's \<Rightarrow> (ptr list \<times> 's) option" where
  "drain get 0 s = Some ([], s)"
| "drain get (Suc k) s =
     (case get s of
        Inr (r, Some d, s') \<Rightarrow> (case drain get k s' of None \<Rightarrow> None | Some (ds, t) \<Rightarrow> Some (d # ds, t))
      | _ \<Rightarrow> None)"

locale drainable =
  fixes inv :: "'s \<Rightarrow> bool"
    and repr :: "'s \<Rightarrow> ptr \<Rightarrow> (ptr \<times> ptr) list \<Rightarrow> bool"
    and take_out :: "ptr \<Rightarrow> 's \<Rightarrow> c_fault + 32 word \<times> ptr option \<times> 's"
  assumes take_Cons: "inv s \<Longrightarrow> repr s q ((a, d) # xs) \<Longrightarrow>
        \<exists>s'. take_out q s = Inr (of_nat (length xs), Some d, s') \<and> inv s' \<and> repr s' q xs"
    and take_Nil: "inv s \<Longrightarrow> repr s q [] \<Longrightarrow> take_out q s = Inr (0, None, s)"
begin

lemma drain_all:
  assumes "inv s" "repr s q xs"
  shows "\<exists>s'. drain (take_out q) (length xs) s = Some (map snd xs, s') \<and> inv s' \<and> repr s' q []"
  using assms
proof (induction xs arbitrary: s)
  case (Cons x xs)
  obtain a d where x: "x = (a, d)"
    by (cases x)
  obtain s1 where s1: "take_out q s = Inr (of_nat (length xs), Some d, s1)" "inv s1" "repr s1 q xs"
    using take_Cons [of s q a d xs] Cons.prems by (auto simp: x)
  obtain s2 where "drain (take_out q) (length xs) s1 = Some (map snd xs, s2)" "inv s2" "repr s2 q []"
    using Cons.IH [OF s1(2,3)] by blast
  then show ?case
    using s1(1) by (simp add: x)
qed simp

end

locale fifo_queue = drainable inv repr take_out
  for inv :: "'s \<Rightarrow> bool" and repr :: "'s \<Rightarrow> ptr \<Rightarrow> (ptr \<times> ptr) list \<Rightarrow> bool" and take_out +
  fixes enqueue :: "ptr \<Rightarrow> ptr \<Rightarrow> 's \<Rightarrow> c_fault + 32 word \<times> 's"
  assumes enqueue_ok: "inv s \<Longrightarrow> repr s q xs \<Longrightarrow> enqueue q d s = Inr (r, s') \<Longrightarrow> r \<noteq> - 1 \<Longrightarrow>
        inv s' \<and> (\<exists>a. repr s' q (xs @ [(a, d)]))"
begin

lemma fill_repr:
  assumes "inv s" "repr s q xs" "fill (enqueue q) ds s = Some s'"
  shows "inv s' \<and> (\<exists>ys. map snd ys = map snd xs @ ds \<and> repr s' q ys)"
  using assms
proof (induction ds arbitrary: s xs)
  case Nil
  then show ?case by auto
next
  case (Cons d ds)
  obtain r s1 where s1: "enqueue q d s = Inr (r, s1)" "r \<noteq> - 1" "fill (enqueue q) ds s1 = Some s'"
    using Cons.prems(3) by (auto split: sum.splits if_splits)
  obtain a where a: "inv s1" "repr s1 q (xs @ [(a, d)])"
    using enqueue_ok [OF Cons.prems(1,2) s1(1,2)] by blast
  show ?case
    using Cons.IH [OF a s1(3)] by simp
qed

lemma fifo:
  assumes "inv s" "repr s q []" "fill (enqueue q) ds s = Some s1"
  shows "\<exists>s2. drain (take_out q) (length ds) s1 = Some (ds, s2) \<and> inv s2 \<and> repr s2 q []"
proof -
  obtain ys where "inv s1" "map snd ys = ds" "repr s1 q ys"
    using fill_repr [OF assms] by auto
  then show ?thesis
    using drain_all [of s1 q ys] by auto
qed

end

locale lifo_stack = drainable inv repr take_out
  for inv :: "'s \<Rightarrow> bool" and repr :: "'s \<Rightarrow> ptr \<Rightarrow> (ptr \<times> ptr) list \<Rightarrow> bool" and take_out +
  fixes push :: "ptr \<Rightarrow> ptr \<Rightarrow> 's \<Rightarrow> c_fault + 32 word \<times> 's"
  assumes push_ok: "inv s \<Longrightarrow> repr s q xs \<Longrightarrow> push q d s = Inr (r, s') \<Longrightarrow> r \<noteq> - 1 \<Longrightarrow>
        inv s' \<and> (\<exists>a. repr s' q ((a, d) # xs))"
begin

lemma fill_repr:
  assumes "inv s" "repr s q xs" "fill (push q) ds s = Some s'"
  shows "inv s' \<and> (\<exists>ys. map snd ys = rev ds @ map snd xs \<and> repr s' q ys)"
  using assms
proof (induction ds arbitrary: s xs)
  case Nil
  then show ?case by auto
next
  case (Cons d ds)
  obtain r s1 where s1: "push q d s = Inr (r, s1)" "r \<noteq> - 1" "fill (push q) ds s1 = Some s'"
    using Cons.prems(3) by (auto split: sum.splits if_splits)
  obtain a where a: "inv s1" "repr s1 q ((a, d) # xs)"
    using push_ok [OF Cons.prems(1,2) s1(1,2)] by blast
  show ?case
    using Cons.IH [OF a s1(3)] by simp
qed

lemma lifo:
  assumes "inv s" "repr s q []" "fill (push q) ds s = Some s1"
  shows "\<exists>s2. drain (take_out q) (length ds) s1 = Some (rev ds, s2) \<and> inv s2 \<and> repr s2 q []"
proof -
  obtain ys where y: "inv s1" "map snd ys = rev ds" "repr s1 q ys"
    using fill_repr [OF assms] by auto
  moreover have "length ys = length ds"
    using arg_cong [OF y(2), of length] by simp
  ultimately show ?thesis
    using drain_all [of s1 q ys] by simp
qed

end

lemma box_pop:
  assumes "heap_ok h" "is_box h q mode ((a, d) # xs)"
  shows "\<exists>h'. queue_dequeue q True h = Inr (of_nat (length xs), Some d, h') \<and> heap_ok h' \<and> is_box h' q mode xs"
proof -
  obtain l where l: "q \<noteq> NULL" "h_obj h q = Some (Box l)" "is_dlist h l mode ((a, d) # xs)"
    using assms(2) by (auto simp: is_box_def)
  obtain h' where h': "dlist_pop_front l True h = Inr (of_nat (length xs), Some d, h')" "heap_ok h'"
    "is_dlist h' l mode xs" "keeps (insert l (fst ` set ((a, d) # xs))) h h'"
    using dlist_pop_front_spec [OF assms(1) l(3), of True] by auto
  have "h_obj h' q = Some (Box l)"
    by (rule box_kept [OF l(2,3) h'(4)])
  then show ?thesis
    using l h' by (auto simp: queue_dequeue_def heap_simps is_box_def)
qed

lemma box_pop_empty: "is_box h q mode [] \<Longrightarrow> queue_dequeue q True h = Inr (0, None, h)"
  by (auto simp: is_box_def queue_dequeue_def heap_simps dlist_pop_empty)

lemma stack_pop_eq: "stack_pop = queue_dequeue"
  by (intro ext) (simp add: stack_pop_def queue_dequeue_def)

lemma enqueue_repr:
  assumes "heap_ok h" "is_box h q mode xs" "queue_enqueue q d h = Inr (r, h')" "r \<noteq> - 1"
  shows "heap_ok h' \<and> (\<exists>a. is_box h' q mode (xs @ [(a, d)]))"
proof -
  obtain l where l: "q \<noteq> NULL" "h_obj h q = Some (Box l)" "is_dlist h l mode xs"
    using assms(2) by (auto simp: is_box_def)
  then have "dlist_append l d h = Inr (r, h')"
    using assms(3) by (simp add: queue_enqueue_def heap_simps)
  from dlist_append_Inr [OF assms(1) l(3) this] obtain a where
    "heap_ok h'" "is_dlist h' l mode (xs @ [(a, d)])" "keeps (insert l (fst ` set xs)) h h'"
    using assms(4) by auto
  then show ?thesis
    using box_kept [OF l(2,3)] l(1) by (auto simp: is_box_def)
qed

lemma push_repr:
  assumes "heap_ok h" "is_box h q mode xs" "stack_push q d h = Inr (r, h')" "r \<noteq> - 1"
  shows "heap_ok h' \<and> (\<exists>a. is_box h' q mode ((a, d) # xs))"
proof -
  obtain l where l: "q \<noteq> NULL" "h_obj h q = Some (Box l)" "is_dlist h l mode xs"
    using assms(2) by (auto simp: is_box_def)
  then have "dlist_prepend l d h = Inr (r, h')"
    using assms(3) by (simp add: stack_push_def heap_simps)
  from dlist_prepend_Inr [OF assms(1) l(3) this] obtain a where
    "heap_ok h'" "is_dlist h' l mode ((a, d) # xs)" "keeps (insert l (fst ` set xs)) h h'"
    using assms(4) by auto
  then show ?thesis
    using box_kept [OF l(2,3)] l(1) by (auto simp: is_box_def)
qed

interpretation qu: fifo_queue heap_ok "\<lambda>h q xs. is_box h q mode xs" "\<lambda>q. queue_dequeue q True" queue_enqueue for mode
  by unfold_locales (auto intro: box_pop box_pop_empty dest: enqueue_repr)

interpretation st: lifo_stack heap_ok "\<lambda>h q xs. is_box h q mode xs" "\<lambda>q. stack_pop q True" stack_push for mode
  by unfold_locales (auto simp: stack_pop_eq intro: box_pop box_pop_empty dest: push_repr)

lemma create_box:
  assumes "heap_ok h" "f = queue_create mode \<or> f = stack_create mode" "f h = Inr (q, h')" "q \<noteq> NULL"
  shows "heap_ok h' \<and> is_box h' q mode [] \<and> h_obj h q = None"
proof -
  obtain purpose where f: "f h = sbind (new_obj purpose sizeof_box (Box NULL) h) (\<lambda>(q, h1).
       if q = NULL then Inr (NULL, h1)
       else sbind (dlist_create mode h1) (\<lambda>(list, h2).
            sbind (wr_box q list h2) (\<lambda>h3.
              if list = NULL then sbind (del_obj q h3) (\<lambda>h4. Inr (NULL, h4))
              else Inr (q, h3))))"
  proof (cases "f = queue_create mode")
    case True
    show thesis
      by (rule that [of "''queue_create''"]) (simp only: True queue_create_def)
  next
    case False
    then have "f = stack_create mode"
      using assms(2) by blast
    show thesis
      by (rule that [of "''stack_create''"]) (simp only: \<open>f = stack_create mode\<close> stack_create_def)
  qed
  show ?thesis
  proof (rule new_obj_cases [OF assms(1), of sizeof_box purpose "Box NULL"])
    fix a h1
    assume n: "new_obj purpose sizeof_box (Box NULL) h = Inr (a, h1)" "a \<noteq> NULL" "h_obj h a = None"
      "h_obj h1 = (h_obj h)(a \<mapsto> Box NULL)" "heap_ok h1"
    show ?thesis
    proof (rule dlist_create_cases [OF n(5), of mode])
      fix l h2
      assume c: "dlist_create mode h1 = Inr (l, h2)" "heap_ok h2" "h_obj h1 l = None" "is_dlist h2 l mode []" "keeps {} h1 h2"
      have a2: "h_obj h2 a = Some (Box NULL)"
        using n(4) c(5) by (simp add: keeps_def)
      have l: "l \<noteq> NULL" "a \<noteq> l"
        using c(4) a2 by (auto simp: is_dlist_def)
      have "f h = Inr (a, put_obj a (Box l) h2)"
        using n(1,2) c(1) l a2 by (simp add: f heap_simps)
      moreover have "is_dlist (put_obj a (Box l) h2) l mode []"
        using c(4) l by (auto simp: is_dlist_def)
      ultimately show ?thesis
        using assms(3) n c l a2 by (auto simp: is_box_def heap_ok_put)
    qed (use assms(3,4) n in \<open>auto simp: f wr_box_def rd_box_def sizeof_box_def\<close>)
  qed (use assms(3,4) in \<open>auto simp: f sizeof_box_def\<close>)
qed

section \<open>Maps\<close>

text \<open>
  \<open>is_map h m kvs\<close>: the map holds the association list \<open>kvs\<close>, given as (address of the
  \<^verbatim>\<open>kv_node\<close>, key, value) in list order.
\<close>

definition is_map :: "heap \<Rightarrow> ptr \<Rightarrow> (ptr \<times> ptr \<times> ptr) list \<Rightarrow> bool" where
  "is_map h m kvs \<longleftrightarrow>
     (\<exists>xs. is_box h m FREE_MODE_MP_FREE xs \<and> map snd xs = map fst kvs) \<and> distinct (map fst kvs)
   \<and> (\<forall>(a, k, v) \<in> set kvs. h_obj h a = Some (Kv \<lparr>kv_key = k, kv_value = v\<rparr>))"

fun kv_first :: "(ptr \<Rightarrow> bool) \<Rightarrow> (ptr \<times> ptr) list \<Rightarrow> (ptr \<times> ptr \<times> ptr) list \<Rightarrow> (ptr \<times> ptr) option" where
  "kv_first test ((ln, _) # xs) ((a, k, v) # kvs) = (if test k then Some (ln, a) else kv_first test xs kvs)"
| "kv_first test _ _ = None"

lemma map_scan_eq:
  assumes "dchain (h_obj h) p xs NULL" "length xs < n" "map snd xs = map fst kvs"
    "\<forall>(a, k, v) \<in> set kvs. h_obj h a = Some (Kv \<lparr>kv_key = k, kv_value = v\<rparr>)"
  shows "map_scan n test (first xs NULL) h = Inr (kv_first test xs kvs)"
  using assms
proof (induction xs arbitrary: p n kvs)
  case Nil
  then show ?case by (cases n) simp_all
next
  case (Cons x xs)
  obtain ln a where x: "x = (ln, a)"
    by (cases x)
  obtain k v kvs' where kvs: "kvs = (a, k, v) # kvs'"
    using Cons.prems(3) by (cases kvs) (auto simp: x)
  obtain j where n: "n = Suc j"
    using Cons.prems(2) by (cases n) simp_all
  show ?case
    using Cons.IH [of ln j kvs'] Cons.prems by (simp add: x kvs n heap_simps)
qed

lemma kv_first_split:
  "kv_first test xs kvs = Some (ln, a) \<Longrightarrow> map snd xs = map fst kvs \<Longrightarrow>
   \<exists>as bs cs k v ds. xs = as @ (ln, a) # bs \<and> kvs = cs @ (a, k, v) # ds \<and> length as = length cs \<and> test k
     \<and> (\<forall>(b, j, w) \<in> set cs. \<not> test j)"
proof (induction test xs kvs rule: kv_first.induct)
  case (1 test ln' a' xs b k v kvs)
  show ?case
  proof (cases "test k")
    case True
    then show ?thesis
      using "1.prems" by (intro exI [of _ "[]"] exI [of _ xs] exI [of _ "[]"] exI [of _ k] exI [of _ v] exI [of _ kvs]) simp
  next
    case False
    then obtain as bs cs k' v' ds where "xs = as @ (ln, a) # bs" "kvs = cs @ (a, k', v') # ds" "length as = length cs" "test k'"
      "\<forall>(b, j, w) \<in> set cs. \<not> test j"
      using "1.IH" "1.prems" by auto
    then show ?thesis
      using False by (intro exI [of _ "(ln', a') # as"] exI [of _ bs] exI [of _ "(b, k, v) # cs"] exI) auto
  qed
qed auto

lemma kv_first_None: "kv_first test xs kvs = None \<Longrightarrow> length xs = length kvs \<Longrightarrow> (a, k, v) \<in> set kvs \<Longrightarrow> \<not> test k"
  by (induction test xs kvs rule: kv_first.induct) (auto split: if_splits)

lemma is_mapE:
  assumes "is_map h m kvs"
  obtains l xs where "m \<noteq> NULL" "h_obj h m = Some (Box l)" "is_dlist h l FREE_MODE_MP_FREE xs" "map snd xs = map fst kvs"
    "distinct (map fst kvs)" "\<And>a k v. (a, k, v) \<in> set kvs \<Longrightarrow> h_obj h a = Some (Kv \<lparr>kv_key = k, kv_value = v\<rparr>)"
proof -
  obtain xs l where "m \<noteq> NULL" "h_obj h m = Some (Box l)" "is_dlist h l FREE_MODE_MP_FREE xs" "map snd xs = map fst kvs"
    "distinct (map fst kvs)" "\<forall>(a, k, v) \<in> set kvs. h_obj h a = Some (Kv \<lparr>kv_key = k, kv_value = v\<rparr>)"
    using assms unfolding is_map_def is_box_def by blast
  then show ?thesis
    by (intro that) auto
qed

text \<open>The scan over a represented map finds the first entry whose key passes the test.\<close>

lemma map_scan_map:
  assumes "heap_ok h" "is_dlist h l FREE_MODE_MP_FREE xs" "map snd xs = map fst kvs"
    "\<And>a k v. (a, k, v) \<in> set kvs \<Longrightarrow> h_obj h a = Some (Kv \<lparr>kv_key = k, kv_value = v\<rparr>)"
  shows "map_scan (walk_fuel h) test (first xs NULL) h = Inr (kv_first test xs kvs)"
  using assms is_dlist_bounds(1) [OF assms(1,2)]
  by (intro map_scan_eq [of h NULL]) (auto simp: is_dlist_def)

lemma map_find_spec:
  assumes "heap_ok h" "is_map h m kvs"
  shows "map_find m is_equal key h =
    Inr (case find (\<lambda>(a, k, v). is_equal k key) kvs of None \<Rightarrow> (- 1, None) | Some (a, k, v) \<Rightarrow> (0, Some v))"
proof -
  obtain l xs where m: "m \<noteq> NULL" "h_obj h m = Some (Box l)" "is_dlist h l FREE_MODE_MP_FREE xs" "map snd xs = map fst kvs"
    "\<And>a k v. (a, k, v) \<in> set kvs \<Longrightarrow> h_obj h a = Some (Kv \<lparr>kv_key = k, kv_value = v\<rparr>)"
    using is_mapE [OF assms(2)] by metis
  have scan: "map_find m is_equal key h = (case kv_first (\<lambda>k. is_equal k key) xs kvs of
      Some (ln, kvn) \<Rightarrow> sbind (rd_kv h kvn) (\<lambda>x. Inr (0, Some (kv_value x))) | None \<Rightarrow> Inr (- 1, None))"
  proof -
    obtain l' where "h_obj h l = Some (List l')" "dl_head l' = first xs NULL"
      using is_dlist_fields [OF m(3)] by metis
    then show ?thesis
      using m map_scan_map [OF assms(1) m(3,4,5)] by (simp add: map_find_def heap_simps)
  qed
  have len: "length xs = length kvs"
    using m(4) by (metis length_map)
  show ?thesis
  proof (cases "kv_first (\<lambda>k. is_equal k key) xs kvs")
    case None
    then have "find (\<lambda>(a, k, v). is_equal k key) kvs = None"
      using kv_first_None [OF None len] by (auto simp: find_None_iff)
    then show ?thesis
      using scan None by simp
  next
    case (Some p)
    obtain ln a where p: "p = (ln, a)"
      by (cases p)
    obtain cs k v ds where c: "kvs = cs @ (a, k, v) # ds" "is_equal k key" "\<forall>(b, j, w) \<in> set cs. \<not> is_equal j key"
      using kv_first_split [OF Some [unfolded p] m(4)] by metis
    have "find (\<lambda>(a, k, v). is_equal k key) kvs = Some (a, k, v)"
      using c by (induction cs arbitrary: kvs) auto
    moreover have "h_obj h a = Some (Kv \<lparr>kv_key = k, kv_value = v\<rparr>)"
      using m(5) c(1) by simp
    ultimately show ?thesis
      using scan Some p by (simp add: heap_simps)
  qed
qed

lemma is_box_keeps:
  assumes "keeps A h h'" "is_box h m mode xs" "h_obj h m = Some (Box l)" "m \<notin> A" "A \<inter> insert l (fst ` set xs) = {}"
  shows "is_box h' m mode xs"
proof -
  have l: "is_dlist h l mode xs"
    using assms(2,3) by (auto simp: is_box_def)
  have "is_dlist h' l mode xs"
    using assms(5) by (intro keeps_is_dlist [OF assms(1) l]) auto
  then show ?thesis
    using assms(1-4) by (auto simp: is_box_def keeps_def)
qed

lemma map_add_found:
  assumes ok: "heap_ok h1" and m: "is_map h1 m (cs @ (a, key, v0) # ds)"
    and data: "h_obj h1 data = Some (Kv x)" "data \<notin> fst ` set (cs @ (a, key, v0) # ds)"
  shows "\<exists>h2. del_obj data (put_obj a (Kv \<lparr>kv_key = key, kv_value = value0\<rparr>) h1) = Inr h2 \<and> heap_ok h2
    \<and> is_map h2 m (cs @ (a, key, value0) # ds)"
proof -
  let ?kvs = "cs @ (a, key, v0) # ds"
  obtain l xs where M: "m \<noteq> NULL" "h_obj h1 m = Some (Box l)" "is_dlist h1 l FREE_MODE_MP_FREE xs" "map snd xs = map fst ?kvs"
    "distinct (map fst ?kvs)" "\<And>a k v. (a, k, v) \<in> set ?kvs \<Longrightarrow> h_obj h1 a = Some (Kv \<lparr>kv_key = k, kv_value = v\<rparr>)"
    using is_mapE [OF m] by metis
  have a: "h_obj h1 a = Some (Kv \<lparr>kv_key = key, kv_value = v0\<rparr>)"
    using M(6) by simp
  let ?h = "put_obj a (Kv \<lparr>kv_key = key, kv_value = value0\<rparr>) h1"
  have "heap_ok ?h"
    using ok a by (simp add: heap_ok_put)
  then obtain h2 where h2: "del_obj data ?h = Inr h2" "heap_ok h2" "h_obj h2 = (h_obj ?h)(data := None)"
    by (rule del_obj_ok)
  have k: "keeps {a, data} h1 h2"
    by (simp add: keeps_def h2(3))
  have "m \<notin> {a, data}"
    using M(2) a data by auto
  moreover have "{a, data} \<inter> insert l (fst ` set xs) = {}"
    using outside [OF M(3) a] outside [OF M(3) data(1)] by blast
  ultimately have "is_box h2 m FREE_MODE_MP_FREE xs"
    using M(1-3) by (intro is_box_keeps [OF k _ M(2)]) (auto simp: is_box_def)
  moreover have "b \<noteq> a \<and> b \<noteq> data" if "(b, k, v) \<in> set (cs @ ds)" for b k v
  proof -
    have "b \<in> fst ` set (cs @ ds)"
      using that by (metis fst_conv imageI)
    then show ?thesis
      using M(5) data(2) by auto
  qed
  then have "\<forall>(b, k, v) \<in> set (cs @ (a, key, value0) # ds). h_obj h2 b = Some (Kv \<lparr>kv_key = k, kv_value = v\<rparr>)"
    using M(6) data(2) by (auto simp: h2(3)) blast+
  ultimately show ?thesis
    using h2 M(4,5) by (auto simp: is_map_def)
qed

lemma map_add_new:
  assumes ok: "heap_ok h1" and m: "is_map h1 m kvs" "h_obj h1 m = Some (Box l)"
    and data: "h_obj h1 data = Some (Kv \<lparr>kv_key = key, kv_value = value0\<rparr>)" "data \<notin> fst ` set kvs"
    and r: "dlist_append l data h1 = Inr (r, h')" "r \<noteq> - 1"
  shows "heap_ok h' \<and> is_map h' m (kvs @ [(data, key, value0)])"
proof -
  obtain k xs where M0: "m \<noteq> NULL" "h_obj h1 m = Some (Box k)" "is_dlist h1 k FREE_MODE_MP_FREE xs" "map snd xs = map fst kvs"
    "distinct (map fst kvs)" "\<And>a k v. (a, k, v) \<in> set kvs \<Longrightarrow> h_obj h1 a = Some (Kv \<lparr>kv_key = k, kv_value = v\<rparr>)"
    using is_mapE [OF m(1)] by metis
  have "k = l"
    using M0(2) m(2) by simp
  note M = M0(1,3-6) [unfolded this]
  obtain b where b: "heap_ok h'" "is_dlist h' l FREE_MODE_MP_FREE (xs @ [(b, data)])" "keeps (insert l (fst ` set xs)) h1 h'"
    using dlist_append_Inr [OF ok M(2) r(1)] r(2) by auto
  have keep: "h_obj h' a = h_obj h1 a" if "h_obj h1 a = Some (Kv x)" for a x
    using outside [OF M(2) that] b(3) that by (simp add: keeps_def)
  have "is_box h' m FREE_MODE_MP_FREE (xs @ [(b, data)])"
    using M(1) b(2) box_kept [OF m(2) M(2) b(3)] by (auto simp: is_box_def)
  moreover have "\<forall>(a, k, v) \<in> set (kvs @ [(data, key, value0)]). h_obj h' a = Some (Kv \<lparr>kv_key = k, kv_value = v\<rparr>)"
  proof clarify
    fix a k v
    assume "(a, k, v) \<in> set (kvs @ [(data, key, value0)])"
    then have "h_obj h1 a = Some (Kv \<lparr>kv_key = k, kv_value = v\<rparr>)"
      using M(5) data(1) by auto
    then show "h_obj h' a = Some (Kv \<lparr>kv_key = k, kv_value = v\<rparr>)"
      using keep by simp
  qed
  ultimately show ?thesis
    using b(1) M(3,4) data(2) unfolding is_map_def by (intro conjI exI [of _ "xs @ [(b, data)]"]) auto
qed

lemma map_add_spec:
  assumes ok: "heap_ok h" and m: "is_map h m kvs" and r: "map_add_kv m key value0 h = Inr (r, h')" "r \<noteq> - 1"
  shows "heap_ok h' \<and> (\<exists>kvs'. is_map h' m kvs' \<and> map_of (map snd kvs') = (map_of (map snd kvs))(key \<mapsto> value0))"
proof (rule new_obj_cases [OF ok, of sizeof_kv_node "''map_add''" "Kv \<lparr>kv_key = key, kv_value = value0\<rparr>"])
  have mn: "m \<noteq> NULL"
    using m by (auto simp: is_map_def is_box_def)
  fix data h1
  assume n: "new_obj ''map_add'' sizeof_kv_node (Kv \<lparr>kv_key = key, kv_value = value0\<rparr>) h = Inr (data, h1)"
    "data \<noteq> NULL" "h_obj h data = None" "heap_ok h1"
    and h1: "h_obj h1 = (h_obj h)(data \<mapsto> Kv \<lparr>kv_key = key, kv_value = value0\<rparr>)"
  have k: "keeps {} h h1"
    using n(3) by (auto simp: keeps_def h1)
  obtain l xs where M: "h_obj h m = Some (Box l)" "is_dlist h l FREE_MODE_MP_FREE xs" "map snd xs = map fst kvs"
    "distinct (map fst kvs)" "\<And>a k v. (a, k, v) \<in> set kvs \<Longrightarrow> h_obj h a = Some (Kv \<lparr>kv_key = k, kv_value = v\<rparr>)"
    using is_mapE [OF m] by metis
  have M1: "h_obj h1 m = Some (Box l)" "is_dlist h1 l FREE_MODE_MP_FREE xs"
    "\<And>a k v. (a, k, v) \<in> set kvs \<Longrightarrow> h_obj h1 a = Some (Kv \<lparr>kv_key = k, kv_value = v\<rparr>)"
    using M n(3) keeps_is_dlist [OF k M(2)] by (auto simp: h1)
  have map1: "is_map h1 m kvs"
    using M1 M(3,4) mn unfolding is_map_def is_box_def by blast
  have nin: "data \<notin> fst ` set kvs"
    using M(5) n(3) by force
  obtain l' where "h_obj h1 l = Some (List l')" "dl_head l' = first xs NULL"
    using is_dlist_fields [OF M1(2)] by metis
  then have e: "map_add_kv m key value0 h = (case kv_first (\<lambda>k. k = key) xs kvs of
      Some (ln, kvn) \<Rightarrow> sbind (rd_kv h1 kvn) (\<lambda>x.
        sbind (del_obj data (put_obj kvn (Kv (x\<lparr>kv_value := value0\<rparr>)) h1)) (\<lambda>h2. Inr (0, h2)))
    | None \<Rightarrow> dlist_append l data h1)"
    using n(1,2) mn M1(1) map_scan_map [OF n(4) M1(2) M(3) M1(3)] by (simp add: map_add_kv_def heap_simps)
  show ?thesis
  proof (cases "kv_first (\<lambda>k. k = key) xs kvs")
    case None
    have "key \<notin> fst ` set (map snd kvs)"
      using kv_first_None [OF None] M(3) by (force dest: map_eq_imp_length_eq)
    then have "map_of (map snd (kvs @ [(data, key, value0)])) = (map_of (map snd kvs))(key \<mapsto> value0)"
      by (simp add: map_add_upd_left dom_map_of_conv_image_fst)
    then show ?thesis
      using map_add_new [OF n(4) map1 M1(1) _ nin, of key value0 r h'] e r None h1 by auto
  next
    case (Some p)
    obtain ln a where p: "p = (ln, a)"
      by (cases p)
    obtain cs v ds where c: "kvs = cs @ (a, key, v) # ds" "\<forall>(b, j, w) \<in> set cs. j \<noteq> key"
      using kv_first_split [OF Some [unfolded p] M(3)] by blast
    obtain h2 where h2: "del_obj data (put_obj a (Kv \<lparr>kv_key = key, kv_value = value0\<rparr>) h1) = Inr h2" "heap_ok h2"
      "is_map h2 m (cs @ (a, key, value0) # ds)"
      using map_add_found [OF n(4) map1 [unfolded c(1)], of data _ value0] nin h1 unfolding c(1) by auto
    have "rd_kv h1 a = Inr \<lparr>kv_key = key, kv_value = v\<rparr>"
      using M1(3) c(1) by (simp add: heap_simps)
    then have "h' = h2"
      using e r(1) Some p h2(1) by simp
    moreover have "map_of (map snd (cs @ (a, key, value0) # ds)) = (map_of (map snd kvs))(key \<mapsto> value0)"
      using c(2) unfolding c(1) by (induction cs) (auto simp: fun_eq_iff)
    ultimately show ?thesis
      using h2 by blast
  qed
qed (use r m in \<open>auto simp: map_add_kv_def sizeof_kv_node_def is_map_def is_box_def\<close>)

text \<open>
  Removing a key: the entry leaves the map, but what is handed to the caller is the address of the
  \<^verbatim>\<open>kv_node\<close>, which stays allocated, and not the value it holds.
\<close>

lemma map_remove_spec:
  assumes ok: "heap_ok h" and m: "is_map h m (cs @ (a, key, v) # ds)" and c: "\<forall>(b, j, w) \<in> set cs. j \<noteq> key"
  shows "\<exists>h'. map_remove m key True h = Inr (0, Some a, h') \<and> heap_ok h' \<and> is_map h' m (cs @ ds)
    \<and> h_obj h' a = Some (Kv \<lparr>kv_key = key, kv_value = v\<rparr>)"
proof -
  let ?kvs = "cs @ (a, key, v) # ds"
  obtain l xs where M: "m \<noteq> NULL" "h_obj h m = Some (Box l)" "is_dlist h l FREE_MODE_MP_FREE xs" "map snd xs = map fst ?kvs"
    "distinct (map fst ?kvs)" "\<And>a k v. (a, k, v) \<in> set ?kvs \<Longrightarrow> h_obj h a = Some (Kv \<lparr>kv_key = k, kv_value = v\<rparr>)"
    using is_mapE [OF m] by metis
  obtain as ln bs where xs: "xs = as @ (ln, a) # bs" "map snd as = map fst cs" "map snd bs = map fst ds"
    using M(4) by (auto simp: map_eq_append_conv map_eq_Cons_conv)
  have "kv_first (\<lambda>k. k = key) xs ?kvs = Some (ln, a)"
    using xs(2) c unfolding xs(1) by (induction as arbitrary: cs) (auto simp: Cons_eq_map_conv)
  moreover obtain l' where "h_obj h l = Some (List l')" "dl_head l' = first xs NULL"
    using is_dlist_fields [OF M(3)] by metis
  moreover obtain h' where h': "dlist_remove l ln True True h = Inr (of_nat (length (as @ bs)), Some a, h')" "heap_ok h'"
    "is_dlist h' l FREE_MODE_MP_FREE (as @ bs)" "keeps (insert l (fst ` set xs)) h h'"
    using dlist_remove_spec [OF ok M(3) [unfolded xs(1)], of True True] unfolding xs(1) by auto
  ultimately have r: "map_remove m key True h = Inr (0, Some a, h')"
    using M(1,2) map_scan_map [OF ok M(3,4,6)] by (simp add: map_remove_def heap_simps)
  have keep: "h_obj h' b = h_obj h b" if "h_obj h b = Some (Kv x)" for b x
    using outside [OF M(3) that] h'(4) that by (simp add: keeps_def)
  have "is_box h' m FREE_MODE_MP_FREE (as @ bs)"
    using M(1) h'(3) box_kept [OF M(2,3) h'(4)] by (auto simp: is_box_def)
  moreover have "h_obj h' b = Some (Kv \<lparr>kv_key = k, kv_value = w\<rparr>)" if "(b, k, w) \<in> set ?kvs" for b k w
    using M(6) [OF that] keep by simp
  ultimately have "is_map h' m (cs @ ds)" "h_obj h' a = Some (Kv \<lparr>kv_key = key, kv_value = v\<rparr>)"
    using M(5) xs(2,3) unfolding is_map_def by (auto intro!: exI [of _ "as @ bs"])
  then show ?thesis
    using r h'(2) by blast
qed

section \<open>Results\<close>

text \<open>
  A queue is first-in first-out. Elements enqueued into an empty queue, all successfully, are
  returned by as many calls of \<^verbatim>\<open>queue_dequeue\<close> in the order they went in, and the queue is empty
  again.
\<close>

theorem queue_is_fifo:
  assumes "heap_ok h" "is_box h q mode []" "fill (queue_enqueue q) ds h = Some h1"
  shows "\<exists>h2. drain (queue_dequeue q True) (length ds) h1 = Some (ds, h2) \<and> heap_ok h2 \<and> is_box h2 q mode []"
  by (rule qu.fifo [OF assms])

text \<open>
  For the witnesses: a pool with four blocks in use, and heaps on it with an empty queue, stack or
  map at address 300 whose list is at 500, and with a map of one entry.
\<close>

definition four_node_pool :: pool where
  "four_node_pool =
     \<lparr>g_mp = Some \<lparr>mp_nodes = 210, mp_mutex = Some True,
        mp_stat = \<lparr>total_size = 80, total_nodes = 4, using_nodes = 4, free_nodes = 0\<rparr>\<rparr>,
      mem_nodes = [\<lparr>mn_self = 210, mn_size = 8, is_using = True, mn_address = 300, mn_purpose = ''q'', used_cnt = 1\<rparr>,
                   \<lparr>mn_self = 220, mn_size = 32, is_using = True, mn_address = 500, mn_purpose = ''q'', used_cnt = 1\<rparr>,
                   \<lparr>mn_self = 230, mn_size = 24, is_using = True, mn_address = 700, mn_purpose = ''q'', used_cnt = 1\<rparr>,
                   \<lparr>mn_self = 240, mn_size = 16, is_using = True, mn_address = 800, mn_purpose = ''q'', used_cnt = 1\<rparr>],
      purposes = [\<lparr>pn_self = 400, pn_purpose = ''q'', pn_count = 4\<rparr>], updated = True,
      libc = \<lparr>brk = 4096, avail = 65536, garbage = 0xAA,
              block = (\<lambda>_. [])(300 := replicate 8 0, 500 := replicate 32 0, 700 := replicate 24 0,
                               800 := replicate 16 0, 400 := replicate 32 0)\<rparr>\<rparr>"

definition box_heap :: "free_mode \<Rightarrow> heap" where
  "box_heap mode = \<lparr>h_pool = four_node_pool,
     h_obj = (\<lambda>_. None)(300 \<mapsto> Box 500,
       500 \<mapsto> List \<lparr>dl_size = 0, dl_free_mode = mode, dl_show = NULL, dl_head = NULL, dl_tail = NULL\<rparr>)\<rparr>"

definition map_heap :: heap where
  "map_heap = \<lparr>h_pool = four_node_pool,
     h_obj = (\<lambda>_. None)(300 \<mapsto> Box 500,
       500 \<mapsto> List \<lparr>dl_size = 1, dl_free_mode = FREE_MODE_MP_FREE, dl_show = NULL, dl_head = 700, dl_tail = 700\<rparr>,
       700 \<mapsto> Node \<lparr>dn_data = 800, dn_prev = NULL, dn_next = NULL\<rparr>,
       800 \<mapsto> Kv \<lparr>kv_key = 1, kv_value = 2\<rparr>)\<rparr>"

lemma box_heap_ok: "heap_ok (box_heap mode)" "is_box (box_heap mode) 300 mode []" "\<not> short 100 (box_heap mode)"
  "heap_ok map_heap" "is_map map_heap 300 [(800, 1, 2)]" "\<not> short 100 map_heap"
proof -
  have "pool_ok four_node_pool"
    by (simp add: pool_ok_def four_node_pool_def stat_ok_def purposes_ok_def users_def blocks_ok_def budget_def pool_sizes)
  then show "heap_ok (box_heap mode)" "heap_ok map_heap"
    by (auto simp: heap_ok_def box_heap_def map_heap_def live_def four_node_pool_def)
  show "is_box (box_heap mode) 300 mode []"
    by (simp add: is_box_def box_heap_def is_dlist_def)
  have "is_box map_heap 300 FREE_MODE_MP_FREE [(700, 800)]" "h_obj map_heap 800 = Some (Kv \<lparr>kv_key = 1, kv_value = 2\<rparr>)"
    by (simp_all add: is_box_def map_heap_def is_dlist_def)
  then show "is_map map_heap 300 [(800, 1, 2)]"
    unfolding is_map_def by (intro conjI exI [of _ "[(700, 800)]"]) simp_all
  show "\<not> short 100 (box_heap mode)" "\<not> short 100 map_heap"
    by (simp_all add: short_def box_heap_def map_heap_def four_node_pool_def pool_sizes)
qed

lemma box_heap_fill: "\<exists>h1. fill (queue_enqueue 300) [7] (box_heap mode) = Some h1"
  "\<exists>h1. fill (stack_push 300) [7] (box_heap mode) = Some h1"
proof -
  have l: "is_dlist (box_heap mode) 500 mode []" "h_obj (box_heap mode) 300 = Some (Box 500)"
    by (simp_all add: box_heap_def is_dlist_def)
  have s: "\<not> short sizeof_dlist_node (box_heap mode)"
    using box_heap_ok(3) [of mode] by (simp add: short_def sizeof_dlist_node_def)
  obtain r h1 where "dlist_append 500 7 (box_heap mode) = Inr (r, h1)"
    using dlist_append_spec [OF box_heap_ok(1) l(1), of 7] s
    by (cases "dlist_append 500 7 (box_heap mode)") (auto simp: ins_spec_def)
  then show "\<exists>h1. fill (queue_enqueue 300) [7] (box_heap mode) = Some h1"
    using dlist_append_Inr [OF box_heap_ok(1) l(1)] s l(2) by (auto simp: queue_enqueue_def rd_box_def split: if_splits)
  obtain r h1 where "dlist_prepend 500 7 (box_heap mode) = Inr (r, h1)"
    using dlist_prepend_spec [OF box_heap_ok(1) l(1), of 7] s
    by (cases "dlist_prepend 500 7 (box_heap mode)") (auto simp: ins_spec_def)
  then show "\<exists>h1. fill (stack_push 300) [7] (box_heap mode) = Some h1"
    using dlist_prepend_Inr [OF box_heap_ok(1) l(1)] s l(2) by (auto simp: stack_push_def rd_box_def split: if_splits)
qed

theorem queue_is_fifo_witness:
  "\<exists>h1 h2. fill (queue_enqueue 300) [7] (box_heap FREE_MODE_NOTHING) = Some h1
     \<and> drain (queue_dequeue 300 True) 1 h1 = Some ([7], h2)"
proof -
  obtain h1 where h1: "fill (queue_enqueue 300) [7] (box_heap FREE_MODE_NOTHING) = Some h1"
    using box_heap_fill(1) by blast
  from queue_is_fifo [OF box_heap_ok(1,2) h1] h1 show ?thesis
    by auto
qed

text \<open>
  A stack is last-in first-out. Elements pushed onto an empty stack, all successfully, are
  popped in reverse order.
\<close>

theorem stack_is_lifo:
  assumes "heap_ok h" "is_box h s mode []" "fill (stack_push s) ds h = Some h1"
  shows "\<exists>h2. drain (stack_pop s True) (length ds) h1 = Some (rev ds, h2) \<and> heap_ok h2 \<and> is_box h2 s mode []"
  by (rule st.lifo [OF assms])

theorem stack_is_lifo_witness:
  "\<exists>h1 h2. fill (stack_push 300) [7] (box_heap FREE_MODE_NOTHING) = Some h1
     \<and> drain (stack_pop 300 True) 1 h1 = Some ([7], h2)"
proof -
  obtain h1 where h1: "fill (stack_push 300) [7] (box_heap FREE_MODE_NOTHING) = Some h1"
    using box_heap_fill(2) by blast
  from stack_is_lifo [OF box_heap_ok(1,2) h1] h1 show ?thesis
    by auto
qed

lemma find_map_of:
  "find (\<lambda>(a, k, v). k = key) kvs = None \<longleftrightarrow> map_of (map snd kvs) key = None"
  "find (\<lambda>(a, k, v). k = key) kvs = Some (a, k, v) \<Longrightarrow> map_of (map snd kvs) key = Some v"
  by (induction kvs) (auto split: if_splits)

lemma map_find_map_of:
  assumes "heap_ok h" "is_map h m kvs"
  shows "map_find m (=) key h =
    Inr (case map_of (map snd kvs) key of None \<Rightarrow> (- 1, None) | Some v \<Rightarrow> (0, Some v))"
proof (cases "find (\<lambda>(a, k, v). k = key) kvs")
  case None
  then show ?thesis
    using map_find_spec [OF assms, of "(=)" key] find_map_of(1) [of key kvs] by simp
next
  case (Some p)
  obtain a k v where p: "p = (a, k, v)"
    by (cases p)
  show ?thesis
    using map_find_spec [OF assms, of "(=)" key] Some find_map_of(2) [OF Some [unfolded p]] by (simp add: p)
qed

text \<open>
  A map finds what was last added. After a successful \<^verbatim>\<open>map_add\<close> the key is found with the
  new value, whether it was present or not, and every other key is found, or not found, as before.
\<close>

theorem map_find_after_add:
  assumes "heap_ok h" "is_map h m kvs" "map_add_kv m key value0 h = Inr (r, h')" "r \<noteq> - 1"
  shows "map_find m (=) key h' = Inr (0, Some value0)
    \<and> (\<forall>k. k \<noteq> key \<longrightarrow> map_find m (=) k h' = map_find m (=) k h)"
proof -
  obtain kvs' where k: "heap_ok h'" "is_map h' m kvs'" "map_of (map snd kvs') = (map_of (map snd kvs))(key \<mapsto> value0)"
    using map_add_spec [OF assms] by blast
  show ?thesis
    using map_find_map_of [OF k(1,2)] map_find_map_of [OF assms(1,2)] k(3) by simp
qed

lemma map_heap_add: "\<exists>h'. map_add_kv 300 1 9 map_heap = Inr (0, h')"
proof (rule new_obj_cases [OF box_heap_ok(4), of sizeof_kv_node "''map_add''" "Kv \<lparr>kv_key = 1, kv_value = 9\<rparr>"])
  fix data h1
  assume n: "new_obj ''map_add'' sizeof_kv_node (Kv \<lparr>kv_key = 1, kv_value = 9\<rparr>) map_heap = Inr (data, h1)"
    "data \<noteq> NULL" "h_obj map_heap data = None" "heap_ok h1"
    and h1: "h_obj h1 = (h_obj map_heap)(data \<mapsto> Kv \<lparr>kv_key = 1, kv_value = 9\<rparr>)"
  have d: "data \<noteq> 300" "data \<noteq> 500" "data \<noteq> 700" "data \<noteq> 800"
    using n(3) by (auto simp: map_heap_def)
  obtain k where k: "walk_fuel h1 = Suc k"
    by (simp add: walk_fuel_def)
  obtain h2 where "del_obj data (put_obj 800 (Kv \<lparr>kv_key = 1, kv_value = 9\<rparr>) h1) = Inr h2"
    using del_obj_ok [OF heap_ok_put [OF n(4), of 800 "Kv \<lparr>kv_key = 1, kv_value = 9\<rparr>"]] h1 d by (auto simp: map_heap_def)
  moreover have "h_obj h1 300 = Some (Box 500)" "h_obj h1 800 = Some (Kv \<lparr>kv_key = 1, kv_value = 2\<rparr>)"
    "h_obj h1 700 = Some (Node \<lparr>dn_data = 800, dn_prev = NULL, dn_next = NULL\<rparr>)"
    "h_obj h1 500 = Some (List \<lparr>dl_size = 1, dl_free_mode = FREE_MODE_MP_FREE, dl_show = NULL, dl_head = 700, dl_tail = 700\<rparr>)"
    using d by (simp_all add: h1 map_heap_def)
  ultimately have "map_add_kv 300 1 9 map_heap = Inr (0, h2)"
    using n(1,2) by (simp add: map_add_kv_def heap_simps k del: sbind_eq_Inr)
  then show ?thesis ..
qed (use box_heap_ok(6) in \<open>simp_all add: short_def sizeof_kv_node_def\<close>)

theorem map_find_after_add_witness:
  "\<exists>h'. map_add_kv 300 1 9 map_heap = Inr (0, h') \<and> map_find 300 (=) 1 h' = Inr (0, Some 9)"
proof -
  obtain h' where h': "map_add_kv 300 1 9 map_heap = Inr (0, h')"
    using map_heap_add by blast
  from map_find_after_add [OF box_heap_ok(4,5) h'] h' show ?thesis
    by simp
qed

text \<open>
  \<^verbatim>\<open>map_remove\<close> hands out the wrong pointer. It takes the entry out of the map, but stores
  through \<^verbatim>\<open>value\<close> the address of the \<^verbatim>\<open>kv_node\<close> instead of the value, and the
  \<^verbatim>\<open>kv_node\<close> stays allocated although nothing refers to it any more.
\<close>

theorem map_remove_returns_node:
  assumes "heap_ok h" "is_map h m (cs @ (a, key, v) # ds)" "key \<notin> fst ` snd ` set cs"
  shows "\<exists>h'. map_remove m key True h = Inr (0, Some a, h') \<and> heap_ok h' \<and> is_map h' m (cs @ ds)
    \<and> live (h_pool h') a \<noteq> None"
proof -
  have "\<forall>(b, j, w) \<in> set cs. j \<noteq> key"
    using assms(3) by force
  from map_remove_spec [OF assms(1,2) this] obtain h' where h':
    "map_remove m key True h = Inr (0, Some a, h')" "heap_ok h'" "is_map h' m (cs @ ds)" "h_obj h' a \<noteq> None"
    by auto
  then show ?thesis
    unfolding heap_ok_def by blast
qed

theorem map_remove_returns_node_witness: "\<exists>h'. map_remove 300 1 True map_heap = Inr (0, Some 800, h') \<and> is_map h' 300 []"
  using map_remove_returns_node [of map_heap 300 "[]" 800 1 2 "[]"] box_heap_ok(4,5) by auto

end
