(* ===== verification/Sftt_Md5.thy ===== *)
theory Sftt_Md5
  imports Sftt_Prelude
begin

text \<open>
  The MD5 implementation (\<^verbatim>\<open>src/src/md5.c\<close>, \<^verbatim>\<open>src/include/md5.h\<close>) that file transfers use to compare
  files. The context is the record \<open>MD5_CTX\<close>; the macros \<^verbatim>\<open>FF\<close> to \<^verbatim>\<open>II\<close> are the constructors of
  \<open>md5_macro\<close> and the 64 macro calls of \<^verbatim>\<open>MD5Transform\<close> are the table \<open>md5_steps\<close>, whose rows pass the
  registers on in the rotation in which the calls name them.

  The results are that feeding a text in pieces is feeding it whole, so that the block-wise digests of
  strings and files are the MD5 of the text as the algorithm defines it (\<open>md5_reference\<close>), and the
  shape of the printed digest.
\<close>

section \<open>Contexts\<close>

record MD5_CTX =
  md_count :: "32 word \<times> 32 word"
  md_state :: "32 word \<times> 32 word \<times> 32 word \<times> 32 word"
  md_buffer :: bytes

definition BLOCK_SIZE :: nat where "BLOCK_SIZE = 1024"
definition MD5_LEN :: nat where "MD5_LEN = 16"

definition PADDING :: bytes where
  "PADDING = 0x80 # replicate 63 0"

section \<open>The compression function\<close>

datatype md5_macro = FF | GG | HH | II

fun md5_fn :: "md5_macro \<Rightarrow> 32 word \<Rightarrow> 32 word \<Rightarrow> 32 word \<Rightarrow> 32 word" where
  "md5_fn FF x y z = (x AND y) OR (NOT x AND z)"
| "md5_fn GG x y z = (x AND z) OR (y AND NOT z)"
| "md5_fn HH x y z = x XOR y XOR z"
| "md5_fn II x y z = y XOR (x OR NOT z)"

definition ROTATE_LEFT :: "32 word \<Rightarrow> nat \<Rightarrow> 32 word" where
  "ROTATE_LEFT x n = push_bit n x OR drop_bit (32 - n) x"

definition md5_step ::
    "md5_macro \<Rightarrow> 32 word \<Rightarrow> nat \<Rightarrow> 32 word \<Rightarrow> 32 word \<times> 32 word \<times> 32 word \<times> 32 word
     \<Rightarrow> 32 word \<times> 32 word \<times> 32 word \<times> 32 word" where
  "md5_step f x s ac r =
     (case r of (a, b, c, d) \<Rightarrow>
        let a = a + (md5_fn f b c d + x + ac);
            a = ROTATE_LEFT a s;
            a = a + b
        in (d, a, b, c))"

definition md5_steps :: "(md5_macro \<times> nat \<times> nat \<times> 32 word) list" where
  "md5_steps =
    [(FF, 0, 7, 0xd76aa478), (FF, 1, 12, 0xe8c7b756), (FF, 2, 17, 0x242070db), (FF, 3, 22, 0xc1bdceee),
     (FF, 4, 7, 0xf57c0faf), (FF, 5, 12, 0x4787c62a), (FF, 6, 17, 0xa8304613), (FF, 7, 22, 0xfd469501),
     (FF, 8, 7, 0x698098d8), (FF, 9, 12, 0x8b44f7af), (FF, 10, 17, 0xffff5bb1), (FF, 11, 22, 0x895cd7be),
     (FF, 12, 7, 0x6b901122), (FF, 13, 12, 0xfd987193), (FF, 14, 17, 0xa679438e), (FF, 15, 22, 0x49b40821),
     (GG, 1, 5, 0xf61e2562), (GG, 6, 9, 0xc040b340), (GG, 11, 14, 0x265e5a51), (GG, 0, 20, 0xe9b6c7aa),
     (GG, 5, 5, 0xd62f105d), (GG, 10, 9, 0x2441453), (GG, 15, 14, 0xd8a1e681), (GG, 4, 20, 0xe7d3fbc8),
     (GG, 9, 5, 0x21e1cde6), (GG, 14, 9, 0xc33707d6), (GG, 3, 14, 0xf4d50d87), (GG, 8, 20, 0x455a14ed),
     (GG, 13, 5, 0xa9e3e905), (GG, 2, 9, 0xfcefa3f8), (GG, 7, 14, 0x676f02d9), (GG, 12, 20, 0x8d2a4c8a),
     (HH, 5, 4, 0xfffa3942), (HH, 8, 11, 0x8771f681), (HH, 11, 16, 0x6d9d6122), (HH, 14, 23, 0xfde5380c),
     (HH, 1, 4, 0xa4beea44), (HH, 4, 11, 0x4bdecfa9), (HH, 7, 16, 0xf6bb4b60), (HH, 10, 23, 0xbebfbc70),
     (HH, 13, 4, 0x289b7ec6), (HH, 0, 11, 0xeaa127fa), (HH, 3, 16, 0xd4ef3085), (HH, 6, 23, 0x4881d05),
     (HH, 9, 4, 0xd9d4d039), (HH, 12, 11, 0xe6db99e5), (HH, 15, 16, 0x1fa27cf8), (HH, 2, 23, 0xc4ac5665),
     (II, 0, 6, 0xf4292244), (II, 7, 10, 0x432aff97), (II, 14, 15, 0xab9423a7), (II, 5, 21, 0xfc93a039),
     (II, 12, 6, 0x655b59c3), (II, 3, 10, 0x8f0ccc92), (II, 10, 15, 0xffeff47d), (II, 1, 21, 0x85845dd1),
     (II, 8, 6, 0x6fa87e4f), (II, 15, 10, 0xfe2ce6e0), (II, 6, 15, 0xa3014314), (II, 13, 21, 0x4e0811a1),
     (II, 4, 6, 0xf7537e82), (II, 11, 10, 0xbd3af235), (II, 2, 15, 0x2ad7d2bb), (II, 9, 21, 0xeb86d391)]"

fun MD5Encode :: "32 word list \<Rightarrow> bytes" where
  "MD5Encode [] = []"
| "MD5Encode (w # ws) =
     [ucast (w AND 0xFF), ucast (drop_bit 8 w AND 0xFF), ucast (drop_bit 16 w AND 0xFF),
      ucast (drop_bit 24 w AND 0xFF)] @ MD5Encode ws"

fun MD5Decode :: "bytes \<Rightarrow> 32 word list" where
  "MD5Decode (b0 # b1 # b2 # b3 # bs) =
     (ucast b0 OR push_bit 8 (ucast b1) OR push_bit 16 (ucast b2) OR push_bit 24 (ucast b3))
     # MD5Decode bs"
| "MD5Decode _ = []"

definition MD5Transform ::
    "32 word \<times> 32 word \<times> 32 word \<times> 32 word \<Rightarrow> bytes \<Rightarrow> 32 word \<times> 32 word \<times> 32 word \<times> 32 word" where
  "MD5Transform state blk =
     (let x = MD5Decode blk;
          (a, b, c, d) = fold (\<lambda>(f, k, s, ac). md5_step f (x ! k) s ac) md5_steps state
      in case state of (s0, s1, s2, s3) \<Rightarrow> (s0 + a, s1 + b, s2 + c, s3 + d))"

section \<open>Init, update and final\<close>

definition MD5Init :: "bytes \<Rightarrow> MD5_CTX" where
  "MD5Init buf =
     \<lparr>md_count = (0, 0), md_state = (0x67452301, 0xEFCDAB89, 0x98BADCFE, 0x10325476), md_buffer = buf\<rparr>"

text \<open>The loop over whole blocks of the input; the result has the rest of the input.\<close>

fun transform_blocks ::
    "32 word \<times> 32 word \<times> 32 word \<times> 32 word \<Rightarrow> bytes
     \<Rightarrow> (32 word \<times> 32 word \<times> 32 word \<times> 32 word) \<times> bytes" where
  "transform_blocks state inp =
     (if 64 \<le> length inp then transform_blocks (MD5Transform state (take 64 inp)) (drop 64 inp)
      else (state, inp))"

definition MD5Update :: "MD5_CTX \<Rightarrow> bytes \<Rightarrow> MD5_CTX" where
  "MD5Update context input =
     (let inputlen = of_nat (length input) :: 32 word;
          (c0, c1) = md_count context;
          index = unat (drop_bit 3 c0 AND 0x3F);
          partlen = 64 - index;
          c0' = c0 + push_bit 3 inputlen;
          c1' = (if c0' < push_bit 3 inputlen then c1 + 1 else c1) + drop_bit 29 inputlen
      in if partlen \<le> length input
         then
           let state = MD5Transform (md_state context) (take index (md_buffer context) @ take partlen input);
               (state', rest) = transform_blocks state (drop partlen input)
           in \<lparr>md_count = (c0', c1'), md_state = state',
               md_buffer = rest @ drop (length rest) (take index (md_buffer context) @ take partlen input)\<rparr>
         else \<lparr>md_count = (c0', c1'), md_state = md_state context,
               md_buffer = take index (md_buffer context) @ input
                           @ drop (index + length input) (md_buffer context)\<rparr>)"

definition MD5Final :: "MD5_CTX \<Rightarrow> bytes" where
  "MD5Final context =
     (let (c0, c1) = md_count context;
          index = unat (drop_bit 3 c0 AND 0x3F);
          padlen = (if index < 56 then 56 - index else 120 - index);
          bits = MD5Encode [c0, c1];
          context1 = MD5Update context (take padlen PADDING);
          context2 = MD5Update context1 bits
      in case md_state context2 of (s0, s1, s2, s3) \<Rightarrow> MD5Encode [s0, s1, s2, s3])"

section \<open>Digests of strings and files\<close>

definition dec_to_hex_char :: "nat \<Rightarrow> c_fault + char" where
  "dec_to_hex_char dec = (if dec < 16 then Inr (''0123456789abcdef'' ! dec) else Inl Assertion_failed)"

fun md5_printable_str :: "bytes \<Rightarrow> c_fault + string" where
  "md5_printable_str [] = Inr []"
| "md5_printable_str (b # bs) =
     sbind (dec_to_hex_char (unat b div 16)) (\<lambda>hi.
       sbind (dec_to_hex_char (unat b mod 16)) (\<lambda>lo.
         sbind (md5_printable_str bs) (\<lambda>str. Inr (hi # lo # str))))"

text \<open>The loop of \<^verbatim>\<open>md5_str\<close> over the string, and of \<^verbatim>\<open>md5_file\<close> over the bytes \<^verbatim>\<open>fread\<close> returns.\<close>

function md5_loop :: "MD5_CTX \<Rightarrow> bytes \<Rightarrow> MD5_CTX" where
  "md5_loop context data =
     (let ret = (if length data < BLOCK_SIZE then length data else BLOCK_SIZE);
          context1 = MD5Update context (take ret data)
      in if ret < BLOCK_SIZE then context1 else md5_loop context1 (drop BLOCK_SIZE data))"
  by pat_completeness auto
termination
  by (relation "measure (\<lambda>(c, d). length d)") (auto simp: BLOCK_SIZE_def split: if_splits)

text \<open>\<open>junk\<close> is what the uninitialised \<^verbatim>\<open>context.buffer\<close> holds.\<close>

definition md5_str :: "bytes \<Rightarrow> bytes \<Rightarrow> c_fault + string" where
  "md5_str junk str = md5_printable_str (MD5Final (md5_loop (MD5Init junk) str))"

definition md5_file :: "bytes \<Rightarrow> bytes option \<Rightarrow> c_fault + int \<times> string option" where
  "md5_file junk file =
     (case file of
        None \<Rightarrow> Inr (-1, None)
      | Some data \<Rightarrow>
          sbind (md5_printable_str (MD5Final (md5_loop (MD5Init junk) data))) (\<lambda>digest.
            Inr (0, Some digest)))"

section \<open>The reference\<close>

text \<open>
  MD5 of a text: pad it with a one bit, zero bits up to 56 bytes modulo 64 and its length in bits, and
  run the compression function over the blocks.
\<close>

declare transform_blocks.simps [simp del] md5_loop.simps [simp del]

definition pad_len :: "nat \<Rightarrow> nat" where
  "pad_len n = (if n mod 64 < 56 then 56 - n mod 64 else 120 - n mod 64)"

definition bit_count :: "nat \<Rightarrow> 32 word \<times> 32 word" where
  "bit_count n = (of_nat (8 * n), of_nat (8 * n div 2 ^ 32))"

definition md5_reference :: "bytes \<Rightarrow> bytes" where
  "md5_reference m =
     (let padded = m @ 0x80 # replicate (pad_len (length m) - 1) 0
                   @ le32 (of_nat (8 * length m)) @ le32 (of_nat (8 * length m div 2 ^ 32))
      in case fst (transform_blocks (md_state (MD5Init [])) padded) of
           (s0, s1, s2, s3) \<Rightarrow> le32 s0 @ le32 s1 @ le32 s2 @ le32 s3)"

section \<open>Blocks\<close>

lemma transform_blocks_short: "length inp < 64 \<Longrightarrow> transform_blocks st inp = (st, inp)"
  by (subst transform_blocks.simps) simp

lemma transform_blocks_block:
  "length b = 64 \<Longrightarrow> transform_blocks st (b @ r) = transform_blocks (MD5Transform st b) r"
  by (subst transform_blocks.simps) simp

lemma transform_blocks_long:
  "64 \<le> length inp \<Longrightarrow>
     transform_blocks st inp = transform_blocks (MD5Transform st (take 64 inp)) (drop 64 inp)"
  using transform_blocks_block [of "take 64 inp" st "drop 64 inp"] by simp

lemma transform_blocks_rest:
  "transform_blocks st inp = (st', r) \<Longrightarrow> length r = length inp mod 64"
proof (induction st inp arbitrary: st' r rule: transform_blocks.induct)
  case (1 st inp)
  show ?case
  proof (cases "64 \<le> length inp")
    case True
    then have "transform_blocks (MD5Transform st (take 64 inp)) (drop 64 inp) = (st', r)"
      using 1(2) transform_blocks_long [OF True] by simp
    from 1(1) [OF True this] have "length r = (length inp - 64) mod 64"
      by (simp only: length_drop)
    then show ?thesis
      using le_mod_geq [OF True] by (rule trans [OF _ sym])
  next
    case False
    then show ?thesis
      using 1(2) transform_blocks_short [of inp st] by auto
  qed
qed

lemma transform_blocks_append:
  "transform_blocks st (a @ b) =
     (case transform_blocks st a of (st', r) \<Rightarrow> transform_blocks st' (r @ b))"
proof (induction st a rule: transform_blocks.induct)
  case (1 st a)
  show ?case
  proof (cases "64 \<le> length a")
    case True
    then have "transform_blocks st (a @ b) = transform_blocks (MD5Transform st (take 64 a)) (drop 64 a @ b)"
      using transform_blocks_block [of "take 64 a" st "drop 64 a @ b"] by (simp flip: append_assoc)
    moreover have "transform_blocks st a = transform_blocks (MD5Transform st (take 64 a)) (drop 64 a)"
      using True by (rule transform_blocks_long)
    ultimately show ?thesis
      using 1 True by simp
  next
    case False
    then show ?thesis
      by (simp add: transform_blocks_short)
  qed
qed

section \<open>Counting\<close>

lemma count_index: "unat (drop_bit 3 (of_nat (8 * n) :: 32 word) AND 0x3F) = n mod 64"
proof -
  have m: "w AND 0x3F = take_bit 6 w" for w :: "32 word"
    by (simp add: take_bit_eq_mask mask_eq_exp_minus_1)
  have "unat (drop_bit 3 (of_nat (8 * n) :: 32 word) AND 0x3F) = (8 * n mod 4294967296) div 8 mod 64"
    by (simp only: m unsigned_take_bit_eq unat_drop_bit_eq unsigned_of_nat id_apply of_nat_eq_id) (simp add: take_bit_eq_mod drop_bit_eq_div)
  also have "8 * n mod 4294967296 = 8 * (n mod 536870912)"
    using mult_mod_right [of 8 n 536870912] by simp
  also have "8 * (n mod 536870912) div 8 mod 64 = n mod 64"
    by (simp add: mod_mod_cancel)
  finally show ?thesis .
qed

lemma div_add_carry:
  fixes a b m :: nat
  assumes "0 < m"
  shows "(a + b) div m = a div m + (if (a + b) mod m < b mod m then 1 else 0) + b div m"
proof -
  let ?s = "a mod m + b mod m"
  have lt: "a mod m < m" "b mod m < m"
    using assms by simp_all
  have s: "(a + b) mod m = ?s mod m"
    by (rule mod_add_eq [symmetric])
  have d: "(a + b) div m = a div m + b div m + ?s div m"
    by (rule div_add1_eq)
  show ?thesis
  proof (cases "m \<le> ?s")
    case True
    then have "?s mod m = ?s - m"
      using lt by (simp only: le_mod_geq mod_less)
    moreover have "?s < m + m"
      using lt by (rule add_strict_mono)
    then have "?s div m = 1"
      using True div_nat_eqI [of m 1 ?s] by simp
    ultimately have "(a + b) mod m < b mod m" "?s div m = 1"
      using s lt True by linarith+
    then show ?thesis
      using d by simp
  next
    case False
    then have "?s mod m = ?s" "?s div m = 0"
      by simp_all
    then have "\<not> (a + b) mod m < b mod m" "?s div m = 0"
      using s by linarith+
    then show ?thesis
      using d by simp
  qed
qed

lemma count_step:
  fixes k n :: nat
  defines "l \<equiv> of_nat k :: 32 word"
  assumes "k < 2 ^ 32"
  shows "(let c0 = of_nat (8 * n) + push_bit 3 l in
     (c0, (if c0 < push_bit 3 l then of_nat (8 * n div 2 ^ 32) + 1 else of_nat (8 * n div 2 ^ 32)) + drop_bit 29 l))
   = bit_count (n + k)"
proof -
  have p: "push_bit 3 l = of_nat (8 * k)"
    by (simp add: l_def push_bit_eq_mult)
  have d: "drop_bit 29 l = of_nat (8 * k div 2 ^ 32)"
  proof -
    have "unat (drop_bit 29 l) = k div 2 ^ 29"
      using assms(2) by (simp only: l_def unat_drop_bit_eq unsigned_of_nat id_apply of_nat_eq_id) (simp add: take_bit_eq_mod drop_bit_eq_div)
    also have "k div 2 ^ 29 = 8 * k div 2 ^ 32"
      by simp
    finally show ?thesis
      by (metis of_nat_unat ucast_id)
  qed
  have u: "unat (of_nat x :: 32 word) = x mod 2 ^ 32" for x
    by (simp add: unsigned_of_nat take_bit_eq_mod)
  have s: "of_nat (8 * n) + of_nat (8 * k) = (of_nat (8 * (n + k)) :: 32 word)"
    by (simp add: algebra_simps)
  have c: "of_nat (8 * (n + k)) < (of_nat (8 * k) :: 32 word) \<longleftrightarrow> 8 * (n + k) mod 2 ^ 32 < 8 * k mod 2 ^ 32"
    by (simp only: word_less_nat_alt u)
  have "8 * (n + k) div 2 ^ 32 =
      8 * n div 2 ^ 32 + (if 8 * (n + k) mod 2 ^ 32 < 8 * k mod 2 ^ 32 then 1 else 0) + 8 * k div 2 ^ 32"
    using div_add_carry [of "2 ^ 32" "8 * n" "8 * k"] by (simp only: distrib_left) simp
  then have "of_nat (8 * (n + k) div 2 ^ 32) =
      (if of_nat (8 * (n + k)) < (of_nat (8 * k) :: 32 word) then of_nat (8 * n div 2 ^ 32) + 1 else of_nat (8 * n div 2 ^ 32))
       + (of_nat (8 * k div 2 ^ 32) :: 32 word)"
    unfolding c by (simp only: of_nat_add of_nat_0 of_nat_1 add_0_right split: if_splits) auto
  then show ?thesis
    by (simp only: p d s Let_def bit_count_def)
qed

section \<open>Contexts hold a text\<close>

text \<open>
  A context holds a text: its whole blocks have been through the compression function, the rest is in
  the buffer, and the count is the number of its bits.
\<close>

definition ctx_holds :: "MD5_CTX \<Rightarrow> bytes \<Rightarrow> bool" where
  "ctx_holds c m \<longleftrightarrow> length (md_buffer c) = 64 \<and> md_count c = bit_count (length m)
     \<and> (\<exists>r. transform_blocks (md_state (MD5Init [])) m = (md_state c, r)
            \<and> r = take (length m mod 64) (md_buffer c))"

lemma ctx_holds_init: "length junk = 64 \<Longrightarrow> ctx_holds (MD5Init junk) []"
  by (simp add: ctx_holds_def MD5Init_def bit_count_def transform_blocks_short)

lemma MD5Update_eq:
  assumes "md_count c = (c0, c1)" "unat (drop_bit 3 c0 AND 0x3F) = i" "l = of_nat (length input)"
    "(let c0' = c0 + push_bit 3 l in (c0', (if c0' < push_bit 3 l then c1 + 1 else c1) + drop_bit 29 l)) = cnt"
  shows "MD5Update c input =
    (if 64 - i \<le> length input
     then case transform_blocks (MD5Transform (md_state c) (take i (md_buffer c) @ take (64 - i) input))
                 (drop (64 - i) input) of
            (st, r) \<Rightarrow> \<lparr>md_count = cnt, md_state = st,
                        md_buffer = r @ drop (length r) (take i (md_buffer c) @ take (64 - i) input)\<rparr>
     else \<lparr>md_count = cnt, md_state = md_state c,
           md_buffer = take i (md_buffer c) @ input @ drop (i + length input) (md_buffer c)\<rparr>)"
  by (simp only: MD5Update_def Let_def assms(1,2,4) [unfolded Let_def] assms(3) [symmetric] prod.case)

lemma MD5Update_holds:
  assumes "ctx_holds c m" "length input < 2 ^ 32"
  shows "ctx_holds (MD5Update c input) (m @ input)"
proof -
  let ?i = "length m mod 64" and ?n = "length input"
  let ?p = "take ?i (md_buffer c)" and ?x = "take (64 - ?i) input"
  have b: "length (md_buffer c) = 64" "md_count c = bit_count (length m)"
    and t: "transform_blocks (md_state (MD5Init [])) m = (md_state c, ?p)"
    using assms(1) by (auto simp: ctx_holds_def)
  have i: "?i < 64" "length ?p = ?i"
    using b(1) by simp_all
  have tm: "transform_blocks (md_state (MD5Init [])) (m @ input) = transform_blocks (md_state c) (?p @ input)"
    by (subst transform_blocks_append) (simp only: t prod.case)
  note upd = MD5Update_eq [OF b(2) [unfolded bit_count_def] count_index refl count_step [OF assms(2)]]
  show ?thesis
  proof (cases "64 - ?i \<le> ?n")
    case True
    obtain st r where r: "transform_blocks (MD5Transform (md_state c) (?p @ ?x)) (drop (64 - ?i) input) = (st, r)"
      by fastforce
    define blk where "blk = ?p @ ?x"
    have blk: "length blk = 64"
      using i True by (simp add: blk_def)
    then have "transform_blocks (md_state c) (?p @ input) = (st, r)"
      using transform_blocks_block [of blk "md_state c" "drop (64 - ?i) input"] r by (simp add: blk_def)
    then have tr: "transform_blocks (md_state (MD5Init [])) (m @ input) = (st, r)"
      using tm by simp
    then have "length r = length (m @ input) mod 64"
      by (rule transform_blocks_rest)
    moreover from this have "length r < 64"
      by simp
    moreover have "MD5Update c input = \<lparr>md_count = bit_count (length m + ?n), md_state = st,
        md_buffer = r @ drop (length r) blk\<rparr>"
      using True by (simp only: upd r if_True prod.case blk_def)
    ultimately show ?thesis
      using tr blk by (simp add: ctx_holds_def)
  next
    case False
    then have "MD5Update c input = \<lparr>md_count = bit_count (length m + ?n), md_state = md_state c,
        md_buffer = ?p @ input @ drop (?i + ?n) (md_buffer c)\<rparr>"
      by (simp only: upd if_False)
    moreover have "transform_blocks (md_state c) (?p @ input) = (md_state c, ?p @ input)"
      using False i by (intro transform_blocks_short) simp
    moreover have "length (m @ input) mod 64 = ?i + ?n"
      using False mod_less [of "?i + ?n" 64] by (simp add: mod_add_left_eq [of "length m" 64, symmetric])
    ultimately show ?thesis
      using tm False i b(1) by (simp add: ctx_holds_def)
  qed
qed

lemma MD5Encode_le32: "MD5Encode ws = concat (map le32 ws)"
proof -
  have m: "w AND 0xFF = take_bit 8 w" for w :: "32 word"
    by (simp add: take_bit_eq_mask mask_eq_exp_minus_1)
  have "ucast (take_bit 8 w) = (ucast w :: byte)" for w :: "32 word"
    by (rule bit_word_eqI) (auto simp: bit_simps)
  then show ?thesis
    by (induction ws) (simp_all add: le32_def m)
qed

lemma pad_len_bounds: "0 < pad_len n" "pad_len n \<le> 64"
proof -
  have "n mod 64 < 64"
    by simp
  then show "0 < pad_len n" "pad_len n \<le> 64"
    by (auto simp: pad_len_def)
qed

lemma MD5Final_holds:
  assumes "ctx_holds c m"
  shows "MD5Final c = md5_reference m"
proof -
  let ?c0 = "of_nat (8 * length m) :: 32 word" and ?c1 = "of_nat (8 * length m div 2 ^ 32) :: 32 word"
  define pad where "pad = take (pad_len (length m)) PADDING"
  have p: "pad = 0x80 # replicate (pad_len (length m) - 1) 0"
    using pad_len_bounds [of "length m"] by (cases "pad_len (length m)") (auto simp: pad_def PADDING_def)
  have small: "length pad < 2 ^ 32" "length (le32 ?c0 @ le32 ?c1) < 2 ^ 32"
    using pad_len_bounds [of "length m"] by (simp_all add: p)
  let ?c' = "MD5Update (MD5Update c pad) (le32 ?c0 @ le32 ?c1)"
  have "ctx_holds ?c' ((m @ pad) @ le32 ?c0 @ le32 ?c1)"
    by (intro MD5Update_holds assms small)
  then have "md_state ?c' = fst (transform_blocks (md_state (MD5Init [])) (m @ pad @ le32 ?c0 @ le32 ?c1))"
    by (auto simp: ctx_holds_def)
  moreover have "md_count c = (?c0, ?c1)"
    using assms by (simp add: ctx_holds_def bit_count_def)
  ultimately show ?thesis
    by (simp only: MD5Final_def md5_reference_def count_index pad_len_def [symmetric] pad_def [symmetric] Let_def
        MD5Encode_le32 prod.case append_Cons [symmetric] p [symmetric])
      (simp split: prod.splits)
qed

lemma md5_loop_holds: "ctx_holds c m \<Longrightarrow> ctx_holds (md5_loop c d) (m @ d)"
proof (induction c d arbitrary: m rule: md5_loop.induct)
  case (1 c d)
  have u: "ctx_holds (MD5Update c (take k d)) (m @ take k d)" if "k \<le> 1024" for k
    using that by (intro MD5Update_holds 1(2)) simp
  show ?case
  proof (cases "length d < BLOCK_SIZE")
    case True
    then show ?thesis
      using u [of "length d"] by (subst md5_loop.simps) (simp add: BLOCK_SIZE_def Let_def)
  next
    case False
    have "ctx_holds (MD5Update c (take BLOCK_SIZE d)) (m @ take BLOCK_SIZE d)"
      using u [of BLOCK_SIZE] by (simp add: BLOCK_SIZE_def)
    with 1(1) [OF refl refl] False
    have "ctx_holds (md5_loop (MD5Update c (take BLOCK_SIZE d)) (drop BLOCK_SIZE d))
        ((m @ take BLOCK_SIZE d) @ drop BLOCK_SIZE d)"
      by (simp only: if_False less_irrefl not_False_eq_True simp_thms)
    then show ?thesis
      using False by (subst md5_loop.simps) (simp add: Let_def)
  qed
qed

lemma md5_digest: "length junk = 64 \<Longrightarrow> MD5Final (md5_loop (MD5Init junk) d) = md5_reference d"
  using MD5Final_holds [OF md5_loop_holds [OF ctx_holds_init]] by simp

section \<open>Printing\<close>

definition hex_digit :: "char \<Rightarrow> bool" where
  "hex_digit c \<longleftrightarrow> c \<in> set ''0123456789abcdef''"

lemma dec_to_hex_char_ok: "n < 16 \<Longrightarrow> dec_to_hex_char n = Inr (''0123456789abcdef'' ! n)"
  by (simp add: dec_to_hex_char_def)

fun hex_of :: "bytes \<Rightarrow> string" where
  "hex_of [] = []"
| "hex_of (b # bs) = ''0123456789abcdef'' ! (unat b div 16) # ''0123456789abcdef'' ! (unat b mod 16) # hex_of bs"

lemma byte_nibbles: "unat (b :: byte) div 16 < 16" "unat b mod 16 < 16"
proof -
  have "unat b < 256"
    using unsigned_less [of b, where ?'a = nat] by simp
  then show "unat b div 16 < 16" "unat b mod 16 < 16"
    by simp_all
qed

lemma md5_printable: "md5_printable_str bs = Inr (hex_of bs)"
  by (induction bs) (simp_all add: dec_to_hex_char_ok byte_nibbles)

lemma length_hex_of [simp]: "length (hex_of bs) = 2 * length bs"
  by (induction bs) simp_all

lemma hex_of_inj: "hex_of a = hex_of b \<Longrightarrow> a = b"
proof (induction a arbitrary: b)
  case (Cons x xs)
  then obtain y ys where b: "b = y # ys"
    by (cases b) auto
  have d: "distinct ''0123456789abcdef''"
    by simp
  have "unat x div 16 = unat y div 16" "unat x mod 16 = unat y mod 16"
    using Cons.prems byte_nibbles [of x] byte_nibbles [of y] nth_eq_iff_index_eq [OF d] by (simp_all add: b)
  then have "unat x = unat y"
    by (metis div_mult_mod_eq)
  then show ?case
    using Cons by (simp add: b word_unat_eq_iff)
next
  case Nil
  then show ?case by (cases b) auto
qed

lemma length_md5_reference [simp]: "length (md5_reference m) = 16"
  by (simp add: md5_reference_def Let_def split: prod.splits)

section \<open>Results\<close>

text \<open>
  C26: the digest of a string, which the code computes block by block with a buffer it never
  initialises, is the hexadecimal MD5 of the string: 32 characters that depend on the string only.
\<close>

theorem md5_str_reference:
  assumes "length junk = 64"
  shows "md5_str junk str = Inr (hex_of (md5_reference str)) \<and> length (hex_of (md5_reference str)) = 32"
  using md5_digest [OF assms] by (simp add: md5_str_def md5_printable)

theorem md5_str_reference_witness:
  "md5_str (replicate 64 7) [97, 98, 99] = Inr (hex_of (md5_reference [97, 98, 99]))"
  using md5_str_reference [of "replicate 64 7" "[97, 98, 99]"] by simp

section \<open>Test vectors\<close>

lemma transform_empty:
  "MD5Transform (md_state (MD5Init [])) (0x80 # replicate 55 0 @ [0, 0, 0, 0, 0, 0, 0, 0]) = (0xD98C1DD4, 0x04B2008F, 0x980980E9, 0x7E42F8EC)"
  by code_simp

lemma transform_a:
  "MD5Transform (md_state (MD5Init [])) (97 # 0x80 # replicate 54 0 @ [8, 0, 0, 0, 0, 0, 0, 0]) =
     (0xB975C10C, 0xA8B6F1C0, 0xE299C331, 0x61267769)"
  by code_simp

lemma md5_reference_block:
  assumes "length m < 56"
  shows "md5_reference m =
    (case MD5Transform (md_state (MD5Init [])) (m @ 0x80 # replicate (55 - length m) 0
        @ le32 (of_nat (8 * length m)) @ le32 0) of
       (s0, s1, s2, s3) \<Rightarrow> concat (map le32 [s0, s1, s2, s3]))"
proof -
  have "8 * length m div 2 ^ 32 = 0" "pad_len (length m) - 1 = 55 - length m"
    using assms by (simp_all add: pad_len_def)
  then show ?thesis
    using assms transform_blocks_block [of "m @ 0x80 # replicate (55 - length m) 0
        @ le32 (of_nat (8 * length m)) @ le32 0" "md_state (MD5Init [])" "[]"]
    by (simp add: md5_reference_def Let_def transform_blocks_short)
qed

lemma md5_vectors:
  "hex_of (md5_reference []) = ''d41d8cd98f00b204e9800998ecf8427e''"
  "hex_of (md5_reference [97]) = ''0cc175b9c0f1b6a831c399e269772661''"
proof -
  have le: "le32 0 = [0, 0, 0, 0]" "le32 8 = [8, 0, 0, 0]"
    by (simp_all add: le32_def)
  show "hex_of (md5_reference []) = ''d41d8cd98f00b204e9800998ecf8427e''"
    by (simp add: md5_reference_block le transform_empty) (simp add: le32_def)
  show "hex_of (md5_reference [97]) = ''0cc175b9c0f1b6a831c399e269772661''"
    by (simp add: md5_reference_block le transform_a) (simp add: le32_def)
qed

text \<open>
  The digests of the empty text and of ''a'' are the ones that RFC 1321 lists for MD5.
\<close>

theorem md5_test_suite:
  assumes "length junk = 64"
  shows "md5_str junk [] = Inr ''d41d8cd98f00b204e9800998ecf8427e''
    \<and> md5_str junk [97] = Inr ''0cc175b9c0f1b6a831c399e269772661''"
  using md5_digest [OF assms] by (simp add: md5_str_def md5_printable md5_vectors)

theorem md5_test_suite_witness: "md5_str (replicate 64 0) [] = Inr ''d41d8cd98f00b204e9800998ecf8427e''"
  using md5_test_suite [of "replicate 64 0"] by simp

end
