(* ===== verification/Sftt_File.thy ===== *)
theory Sftt_File
  imports Sftt_Md5
begin

text \<open>
  Paths and files (\<^verbatim>\<open>src/src/file.c\<close>, \<^verbatim>\<open>src/src/mkdirp.c\<close>, \<^verbatim>\<open>src/src/path-normalize.c\<close>).

  The file system of the host is the record \<open>fsys\<close>: the nodes by their resolved path (a list of
  names below the root; symbolic links are not modelled), the working directory, the names a
  directory lists, the umask, for which paths permission is denied, and how many directories the process
  can still open (its limit of descriptors). A call of \<^verbatim>\<open>lstat\<close> or \<^verbatim>\<open>stat\<close>
  that fails leaves the struct of the caller uninitialised; \<open>stat_junk\<close> is the mode it then holds.

  The results are the behaviour of the path functions, that a directory made by \<open>mkdirp\<close> exists with
  all its parents, and what the enumeration of a directory tree lists when a path grows too long.
\<close>

section \<open>Names\<close>

definition FILE_NAME_MAX_LEN :: nat where "FILE_NAME_MAX_LEN = 256"

text \<open>\<^verbatim>\<open>basename\<close> and \<^verbatim>\<open>dirname\<close> of the C library.\<close>

definition strip_slashes :: "string \<Rightarrow> string" where
  "strip_slashes p = rev (dropWhile (\<lambda>c. c = CHR ''/'') (rev p))"

definition base_name :: "string \<Rightarrow> string" where
  "base_name p =
     (if p = [] then ''.''
      else if strip_slashes p = [] then ''/''
      else rev (takeWhile (\<lambda>c. c \<noteq> CHR ''/'') (rev (strip_slashes p))))"

definition dir_name :: "string \<Rightarrow> string" where
  "dir_name p =
     (let q = strip_slashes p;
          d = rev (dropWhile (\<lambda>c. c \<noteq> CHR ''/'') (rev q))
      in if p = [] then ''.''
         else if q = [] then ''/''
         else if d = [] then ''.''
         else if strip_slashes d = [] then ''/''
         else strip_slashes d)"

text \<open>
  \<^verbatim>\<open>strncpy\<close> of at most \<open>n\<close> characters into a zeroed buffer of more than \<open>n\<close> characters.
\<close>

definition strncpy_str :: "string \<Rightarrow> nat \<Rightarrow> string" where
  "strncpy_str s n = take n s"

definition is_absolute_path :: "string option \<Rightarrow> bool" where
  "is_absolute_path path = (case path of None \<Rightarrow> False | Some p \<Rightarrow> p \<noteq> [] \<and> hd p = CHR ''/'')"

definition is_relative_path :: "string option \<Rightarrow> bool" where
  "is_relative_path path = (case path of None \<Rightarrow> False | Some p \<Rightarrow> p = [] \<or> hd p \<noteq> CHR ''/'')"

definition path_join :: "string option \<Rightarrow> string option \<Rightarrow> string option" where
  "path_join dir fname =
     (case (dir, fname) of (Some d, Some f) \<Rightarrow> Some (d @ ''/'' @ f) | _ \<Rightarrow> None)"

record path_entry =
  abs_path :: string
  rel_path :: string

definition set_path_entry :: "string \<Rightarrow> string \<Rightarrow> path_entry" where
  "set_path_entry ap rp =
     \<lparr>abs_path = strncpy_str ap (FILE_NAME_MAX_LEN - 1), rel_path = strncpy_str rp (FILE_NAME_MAX_LEN - 1)\<rparr>"

definition dup_path_entry :: "path_entry \<Rightarrow> path_entry" where
  "dup_path_entry src = set_path_entry (abs_path src) (rel_path src)"

definition path_append :: "string \<Rightarrow> string \<Rightarrow> nat \<Rightarrow> int \<times> string" where
  "path_append path sub_path max_len =
     (if length path + length sub_path > max_len - 2 then (-1, path)
      else (0, path @ ''/'' @ sub_path))"

function path_normalize :: "string \<Rightarrow> string" where
  "path_normalize [] = []"
| "path_normalize (c # cs) =
     c # (if c = CHR ''/'' then path_normalize (dropWhile (\<lambda>c. c = CHR ''/'') cs) else path_normalize cs)"
  by pat_completeness auto
termination
  by (relation "measure length") (auto intro: le_imp_less_Suc length_dropWhile_le)

section \<open>The file system\<close>

record fnode =
  st_mode :: "32 word"
  st_data :: bytes

record fsys =
  nodes :: "string list \<rightharpoonup> fnode"
  cwd :: "string list"
  listing :: "string list \<Rightarrow> string list"
  denied :: "string list \<Rightarrow> bool"
  umask :: "32 word"
  stat_junk :: "32 word"
  dir_end :: nat
  free_fds :: nat

fun split_path :: "string \<Rightarrow> string \<Rightarrow> string list" where
  "split_path acc [] = [acc]"
| "split_path acc (c # cs) = (if c = CHR ''/'' then acc # split_path [] cs else split_path (acc @ [c]) cs)"

fun walk_names :: "string list \<Rightarrow> string list \<Rightarrow> string list" where
  "walk_names base [] = base"
| "walk_names base (n # ns) =
     (if n = [] \<or> n = ''.'' then walk_names base ns
      else if n = ''..'' then walk_names (butlast base) ns
      else walk_names (base @ [n]) ns)"

definition resolve :: "fsys \<Rightarrow> string \<Rightarrow> string list" where
  "resolve fs p = walk_names (if is_absolute_path (Some p) then [] else cwd fs) (split_path [] p)"

definition S_ISDIR :: "32 word \<Rightarrow> bool" where "S_ISDIR m \<longleftrightarrow> m AND 0xF000 = 0x4000"
definition S_ISREG :: "32 word \<Rightarrow> bool" where "S_ISREG m \<longleftrightarrow> m AND 0xF000 = 0x8000"

definition lstat_mode :: "fsys \<Rightarrow> string \<Rightarrow> 32 word" where
  "lstat_mode fs p = (case nodes fs (resolve fs p) of None \<Rightarrow> stat_junk fs | Some n \<Rightarrow> st_mode n)"

text \<open>Opening for reading gives the bytes; \<^verbatim>\<open>"w+"\<close> creates or truncates a regular file.\<close>

definition fopen_r :: "fsys \<Rightarrow> string \<Rightarrow> bytes option" where
  "fopen_r fs p =
     (if denied fs (resolve fs p) then None else map_option st_data (nodes fs (resolve fs p)))"

definition dir_at :: "fsys \<Rightarrow> string list \<Rightarrow> bool" where
  "dir_at fs k \<longleftrightarrow> (case nodes fs k of None \<Rightarrow> False | Some n \<Rightarrow> S_ISDIR (st_mode n))"

definition fopen_w :: "fsys \<Rightarrow> string \<Rightarrow> fsys option" where
  "fopen_w fs p =
     (let k = resolve fs p in
      if denied fs k \<or> k = [] then None
      else case nodes fs k of
          None \<Rightarrow>
            if dir_at fs (butlast k)
            then Some (fs\<lparr>nodes := (nodes fs)(k \<mapsto> \<lparr>st_mode = 0x8000 OR (0x1B6 AND NOT (umask fs)), st_data = []\<rparr>)\<rparr>)
            else None
        | Some n \<Rightarrow>
            if S_ISDIR (st_mode n) then None
            else Some (fs\<lparr>nodes := (nodes fs)(k \<mapsto> n\<lparr>st_data := []\<rparr>)\<rparr>))"

text \<open>\<^verbatim>\<open>fwrite\<close> at the end of the open file \<open>p\<close>.\<close>

definition fappend :: "fsys \<Rightarrow> string \<Rightarrow> bytes \<Rightarrow> fsys" where
  "fappend fs p bs =
     (case nodes fs (resolve fs p) of
        None \<Rightarrow> fs
      | Some n \<Rightarrow> fs\<lparr>nodes := (nodes fs)(resolve fs p \<mapsto> n\<lparr>st_data := st_data n @ bs\<rparr>)\<rparr>)"

datatype mkdir_result = Made fsys | Exists | Failed

definition mkdir :: "fsys \<Rightarrow> string \<Rightarrow> 32 word \<Rightarrow> mkdir_result" where
  "mkdir fs p mode =
     (let k = resolve fs p in
      if nodes fs k \<noteq> None then Exists
      else if k = [] \<or> denied fs k \<or> \<not> dir_at fs (butlast k) then Failed
      else Made (fs\<lparr>nodes := (nodes fs)(k \<mapsto>
             \<lparr>st_mode = 0x4000 OR (mode AND 0xFFF AND NOT (umask fs)), st_data = []\<rparr>)\<rparr>))"

section \<open>file.c\<close>

definition file_size :: "fsys \<Rightarrow> string \<Rightarrow> nat" where
  "file_size fs p =
     (case fopen_r fs p of
        None \<Rightarrow> 0
      | Some bs \<Rightarrow> if dir_at fs (resolve fs p) then dir_end fs else length bs)"

definition file_get_contents :: "fsys \<Rightarrow> string \<Rightarrow> bytes option" where
  "file_get_contents fs p = map_option (take (file_size fs p)) (fopen_r fs p)"

definition file_put_contents :: "fsys \<Rightarrow> string \<Rightarrow> bytes \<Rightarrow> 64 word \<times> fsys" where
  "file_put_contents fs p txt =
     (case fopen_w fs p of None \<Rightarrow> (-1, fs) | Some fs1 \<Rightarrow> (of_nat (length txt), fappend fs1 p txt))"

definition file_existed :: "fsys \<Rightarrow> string option \<Rightarrow> bool" where
  "file_existed fs path =
     (case path of None \<Rightarrow> False | Some p \<Rightarrow> p \<noteq> [] \<and> nodes fs (resolve fs p) \<noteq> None)"

definition is_dir :: "fsys \<Rightarrow> string \<Rightarrow> bool" where
  "is_dir fs p = S_ISDIR (lstat_mode fs p)"

definition is_file :: "fsys \<Rightarrow> string \<Rightarrow> bool" where
  "is_file fs p = S_ISREG (lstat_mode fs p)"

text \<open>
  \<open>junk\<close> is what uninitialised local buffers hold: the block buffer of the digest, and \<^verbatim>\<open>real_md5\<close> when the
  file cannot be opened.
\<close>

definition same_file :: "bytes \<Rightarrow> fsys \<Rightarrow> string \<Rightarrow> string \<Rightarrow> c_fault + bool" where
  "same_file junk fs p md5 =
     (if \<not> file_existed fs (Some p) then Inr False
      else sbind (md5_file junk (fopen_r fs p)) (\<lambda>(ret, digest).
        Inr ((case digest of None \<Rightarrow> map byte_char (takeWhile (\<lambda>b. b \<noteq> 0) junk) | Some d \<Rightarrow> d) = md5)))"

definition file_mode :: "fsys \<Rightarrow> string \<Rightarrow> 32 word" where
  "file_mode fs p = lstat_mode fs p"

definition set_file_mode :: "fsys \<Rightarrow> string \<Rightarrow> 32 word \<Rightarrow> int \<times> fsys" where
  "set_file_mode fs p mode =
     (case nodes fs (resolve fs p) of
        None \<Rightarrow> (-1, fs)
      | Some n \<Rightarrow>
          if denied fs (resolve fs p) then (-1, fs)
          else (0, fs\<lparr>nodes := (nodes fs)(resolve fs p \<mapsto>
                     n\<lparr>st_mode := (st_mode n AND 0xF000) OR (mode AND 0xFFF)\<rparr>)\<rparr>))"

definition create_new_file :: "fsys \<Rightarrow> string \<Rightarrow> 32 word \<Rightarrow> int \<times> fsys" where
  "create_new_file fs fname mode =
     (case fopen_w fs fname of None \<Rightarrow> (-1, fs) | Some fs1 \<Rightarrow> set_file_mode fs1 fname mode)"

text \<open>
  \<^verbatim>\<open>mkdirp\<close>: the parent is the path up to its last separator; a separator at the start is not one.
\<close>

definition last_sep :: "string \<Rightarrow> nat option" where
  "last_sep p =
     (let is = filter (\<lambda>i. p ! i = CHR ''/'') [1 ..< length p] in if is = [] then None else Some (last is))"

lemma last_sep_less: "last_sep p = Some i \<Longrightarrow> i < length p"
  by (auto simp: last_sep_def Let_def split: if_splits) (metis (no_types, lifting) atLeastLessThan_iff
      filter_is_subset last_in_set set_upt subsetD)

lemma length_path_normalize: "length (path_normalize p) \<le> length p"
proof (induction p rule: path_normalize.induct)
  case (2 c cs)
  then show ?case
    using length_dropWhile_le [of "\<lambda>c. c = CHR ''/''" cs] by auto
qed simp

function mkdirp :: "fsys \<Rightarrow> string \<Rightarrow> 32 word \<Rightarrow> int \<times> fsys" where
  "mkdirp fs path mode =
     (if path = [] then (-1, fs)
      else
        let pathname = path_normalize path;
            (rc, fs1) = (case last_sep pathname of
                           None \<Rightarrow> (0, fs)
                         | Some i \<Rightarrow> mkdirp fs (take i pathname) mode)
        in if rc \<noteq> 0 then (-1, fs1)
           else case mkdir fs1 pathname mode of
               Made fs2 \<Rightarrow> (0, fs2)
             | Exists \<Rightarrow> (0, fs1)
             | Failed \<Rightarrow> (-1, fs1))"
  by pat_completeness auto
termination
  by (relation "measure (\<lambda>(fs, p, m). length p)")
    (auto dest!: last_sep_less intro: less_le_trans [OF _ length_path_normalize])

definition make_or_update_dir :: "fsys \<Rightarrow> string \<Rightarrow> 32 word \<Rightarrow> int \<times> fsys" where
  "make_or_update_dir fs p mode =
     (if \<not> file_existed fs (Some p)
      then
        let (ret, fs1) = mkdirp fs p mode in
        if ret = -1 then (-1, fs1) else set_file_mode fs1 p mode
      else set_file_mode fs p mode)"

definition try_make_dir :: "fsys \<Rightarrow> string \<Rightarrow> 32 word \<Rightarrow> int \<times> fsys" where
  "try_make_dir fs p mode =
     (if \<not> file_existed fs (Some p)
      then
        let (ret, fs1) = mkdirp fs p mode in
        if ret = -1 then (-1, fs1) else set_file_mode fs1 p mode
      else (0, fs))"

text \<open>\<^verbatim>\<open>get_dirname\<close> fails on the empty path, which \<^verbatim>\<open>__strdup\<close> does not copy.\<close>

definition get_dirname :: "string \<Rightarrow> string option" where
  "get_dirname p = (if p = [] then None else Some (dir_name p))"

definition get_basename :: "string \<Rightarrow> string" where
  "get_basename p = base_name p"

definition DEFAULT_DIR_MODE :: "32 word" where "DEFAULT_DIR_MODE = 0x1ED"

definition create_new_file_with_parent :: "fsys \<Rightarrow> string \<Rightarrow> 32 word \<Rightarrow> int \<times> fsys" where
  "create_new_file_with_parent fs fname mode =
     (case get_dirname fname of
        None \<Rightarrow> (-1, fs)
      | Some dir \<Rightarrow>
          let (ret, fs1) = try_make_dir fs dir DEFAULT_DIR_MODE in
          if ret \<noteq> 0 then (-1, fs1) else create_new_file fs1 fname mode)"

text \<open>
  The enumeration of a directory tree. Each level of the recursion keeps its directory open until
  \<^verbatim>\<open>closedir\<close> at its end; \<open>fds\<close> is the number of descriptors still free when it is entered, and
  \<^verbatim>\<open>opendir\<close> fails when there is none. The result of a level that fails is NULL, which its caller ignores.
\<close>

definition child_entry :: "path_entry \<Rightarrow> string \<Rightarrow> path_entry" where
  "child_entry root name =
     (let entry = dup_path_entry root in
      entry\<lparr>abs_path := snd (path_append (abs_path entry) name (FILE_NAME_MAX_LEN - 1)),
            rel_path := snd (path_append (rel_path entry) name (FILE_NAME_MAX_LEN - 1))\<rparr>)"

fun path_entries :: "nat \<Rightarrow> fsys \<Rightarrow> path_entry \<Rightarrow> path_entry list option"
  and child_entries :: "nat \<Rightarrow> fsys \<Rightarrow> path_entry \<Rightarrow> string list \<Rightarrow> path_entry list" where
  "path_entries 0 fs root = None"
| "path_entries (Suc fds) fs root =
     (if \<not> is_dir fs (abs_path root) then None
      else if denied fs (resolve fs (abs_path root)) then None
      else Some (root # child_entries fds fs root (listing fs (resolve fs (abs_path root)))))"
| "child_entries fds fs root [] = []"
| "child_entries fds fs root (name # names) =
     (if name = ''.'' \<or> name = ''..'' then child_entries fds fs root names
      else
        let entry = child_entry root name in
        (if is_dir fs (abs_path entry)
         then (case path_entries fds fs entry of None \<Rightarrow> [] | Some sub_list \<Rightarrow> sub_list)
         else [entry])
        @ child_entries fds fs root names)"

definition get_path_entry_list :: "fsys \<Rightarrow> string \<Rightarrow> string option \<Rightarrow> path_entry list option" where
  "get_path_entry_list fs path pwd =
     (if \<not> is_dir fs path then None
      else
        let rp = (if is_absolute_path (Some path) then path
                  else case pwd of None \<Rightarrow> path | Some d \<Rightarrow> the (path_join (Some d) (Some path)))
        in if \<not> file_existed fs (Some rp) then None
           else path_entries (free_fds fs) fs (set_path_entry rp (base_name rp)))"

declare mkdirp.simps [simp del]

section \<open>Directories\<close>

lemma walk_names_skip [simp]: "walk_names base ([] # ns) = walk_names base ns"
  by simp

lemma walk_names_cong:
  "filter (\<lambda>n. n \<noteq> []) ns = filter (\<lambda>n. n \<noteq> []) ns' \<Longrightarrow> walk_names base ns = walk_names base ns'"
proof -
  have "walk_names base ns = walk_names base (filter (\<lambda>n. n \<noteq> []) ns)" for ns
    by (induction base ns rule: walk_names.induct) auto
  then show "filter (\<lambda>n. n \<noteq> []) ns = filter (\<lambda>n. n \<noteq> []) ns' \<Longrightarrow> walk_names base ns = walk_names base ns'"
    by metis
qed

lemma split_path_slashes:
  "filter (\<lambda>n. n \<noteq> []) (split_path [] (dropWhile (\<lambda>c. c = CHR ''/'') cs)) = filter (\<lambda>n. n \<noteq> []) (split_path [] cs)"
  by (induction cs) auto

lemma split_path_normalize:
  "filter (\<lambda>n. n \<noteq> []) (split_path acc (path_normalize p)) = filter (\<lambda>n. n \<noteq> []) (split_path acc p)"
  by (induction p arbitrary: acc rule: path_normalize.induct) (auto simp: split_path_slashes)

lemma resolve_normalize: "p \<noteq> [] \<Longrightarrow> resolve fs (path_normalize p) = resolve fs p"
  using walk_names_cong [OF split_path_normalize [of "[]" p]]
  by (cases p) (simp_all add: resolve_def is_absolute_path_def del: split_path.simps)

lemma resolve_cwd: "cwd fs' = cwd fs \<Longrightarrow> resolve fs' p = resolve fs p"
  by (simp add: resolve_def)

definition fs_grows :: "fsys \<Rightarrow> fsys \<Rightarrow> bool" where
  "fs_grows fs fs' \<longleftrightarrow> cwd fs' = cwd fs \<and> (\<forall>k n. nodes fs k = Some n \<longrightarrow> nodes fs' k = Some n)"

lemma fs_grows_refl [simp]: "fs_grows fs fs"
  by (simp add: fs_grows_def)

lemma fs_grows_trans: "fs_grows a b \<Longrightarrow> fs_grows b c \<Longrightarrow> fs_grows a c"
  by (simp add: fs_grows_def)

lemma mkdir_Made: "mkdir fs p mode = Made fs' \<Longrightarrow> fs_grows fs fs' \<and> nodes fs' (resolve fs p) \<noteq> None"
  by (auto simp: mkdir_def fs_grows_def Let_def split: if_splits)

lemma mkdir_Exists: "mkdir fs p mode = Exists \<Longrightarrow> nodes fs (resolve fs p) \<noteq> None"
  by (auto simp: mkdir_def Let_def split: if_splits)

lemma mkdirp_spec:
  "mkdirp fs path mode = (ret, fs') \<Longrightarrow>
     fs_grows fs fs' \<and> (ret = 0 \<or> ret = -1) \<and> (ret = 0 \<longrightarrow> nodes fs' (resolve fs path) \<noteq> None)"
proof (induction fs path mode arbitrary: ret fs' rule: mkdirp.induct)
  case (1 fs path mode)
  show ?case
  proof (cases "path = []")
    case True
    then show ?thesis
      using "1.prems" by (simp add: mkdirp.simps)
  next
    case False
    let ?p = "path_normalize path"
    obtain rc fs1 where r: "(case last_sep ?p of None \<Rightarrow> (0, fs) | Some i \<Rightarrow> mkdirp fs (take i ?p) mode) = (rc, fs1)"
      by (cases "case last_sep ?p of None \<Rightarrow> (0 :: int, fs) | Some i \<Rightarrow> mkdirp fs (take i ?p) mode")
    have g: "fs_grows fs fs1"
      using r 1(1) [OF False refl] by (fastforce split: option.splits)
    have k: "resolve fs1 ?p = resolve fs path"
      using g resolve_normalize [OF False] resolve_cwd [of fs1 fs] by (simp add: fs_grows_def)
    have "(if rc \<noteq> 0 then (-1, fs1) else case mkdir fs1 ?p mode of Made fs2 \<Rightarrow> (0, fs2) | Exists \<Rightarrow> (0, fs1)
        | Failed \<Rightarrow> (-1, fs1)) = (ret, fs')"
      using "1.prems" False r by (subst (asm) mkdirp.simps) (simp add: Let_def)
    then show ?thesis
      using g k mkdir_Made [of fs1 ?p mode] mkdir_Exists [of fs1 ?p mode]
      by (auto split: if_splits mkdir_result.splits dest: fs_grows_trans)
  qed
qed

section \<open>Trees of directories\<close>

lemma child_entry_path:
  "length (abs_path root) \<le> 255 \<Longrightarrow> abs_path (child_entry root name) =
     (if 253 < length (abs_path root) + length name then abs_path root else abs_path root @ ''/'' @ name)"
  by (simp add: child_entry_def dup_path_entry_def set_path_entry_def strncpy_str_def path_append_def
      FILE_NAME_MAX_LEN_def Let_def)

text \<open>An enumeration lists paths that are at least as long as the one it starts from.\<close>

lemma entries_longer:
  "length (abs_path root) \<le> 255 \<Longrightarrow> path_entries fds fs root = Some l \<Longrightarrow> e \<in> set l \<Longrightarrow>
     length (abs_path root) \<le> length (abs_path e)"
  "length (abs_path root) \<le> 255 \<Longrightarrow> e \<in> set (child_entries fds fs root names) \<Longrightarrow>
     length (abs_path root) \<le> length (abs_path e)"
proof (induction fds fs root and fds fs root names arbitrary: l e and e rule: path_entries_child_entries.induct)
  case (4 fds fs root name names)
  then show ?case
    by (force simp: child_entry_path Let_def split: if_splits option.splits)
qed (auto split: if_splits)

text \<open>The names that do not fit behind a path, and how often an enumeration lists a path.\<close>

definition too_long :: "string \<Rightarrow> string list \<Rightarrow> string list" where
  "too_long path names =
     filter (\<lambda>n. n \<noteq> ''.'' \<and> n \<noteq> ''..'' \<and> 253 < length path + length n) names"

definition times_listed :: "string \<Rightarrow> path_entry list \<Rightarrow> nat" where
  "times_listed path l = length (filter (\<lambda>e. abs_path e = path) l)"

lemma times_listed_simps [simp]:
  "times_listed p [] = 0" "times_listed p (e # l) = (if abs_path e = p then 1 else 0) + times_listed p l"
  "times_listed p (l @ l') = times_listed p l + times_listed p l'"
  by (simp_all add: times_listed_def)

lemma other_child_elsewhere:
  assumes "length (abs_path root) + length name \<le> 253" "path_entries fds fs (child_entry root name) = Some l"
  shows "times_listed (abs_path root) l = 0"
proof -
  have len: "length (abs_path (child_entry root name)) = length (abs_path root) + 1 + length name"
    using assms(1) by (simp add: child_entry_path)
  then have "length (abs_path root) < length (abs_path e)" if "e \<in> set l" for e
    using entries_longer(1) [OF _ assms(2) that] assms(1) by simp
  then show ?thesis
    by (fastforce simp: times_listed_def filter_empty_conv)
qed

lemma child_entries_times:
  assumes "length (abs_path root) \<le> 255" "is_dir fs (abs_path root)"
    "\<And>r. abs_path r = abs_path root \<Longrightarrow>
       (case path_entries fds fs r of None \<Rightarrow> 0 | Some l \<Rightarrow> times_listed (abs_path root) l) = k"
  shows "times_listed (abs_path root) (child_entries fds fs root names) = length (too_long (abs_path root) names) * k"
proof (induction names)
  case (Cons name names)
  let ?e = "child_entry root name"
  show ?case
  proof (cases "name = ''.'' \<or> name = ''..''")
    case False
    show ?thesis
    proof (cases "253 < length (abs_path root) + length name")
      case True
      then have "abs_path ?e = abs_path root"
        using assms(1) by (simp add: child_entry_path)
      then show ?thesis
        using assms(2) assms(3) [of ?e] Cons.IH True False
        by (auto simp: too_long_def Let_def split: option.splits)
    next
      case long: False
      then have "abs_path ?e \<noteq> abs_path root"
        using assms(1) by (simp add: child_entry_path)
      moreover have "times_listed (abs_path root) l = 0" if "path_entries fds fs ?e = Some l" for l
        using other_child_elsewhere [OF _ that] long by simp
      ultimately show ?thesis
        using Cons.IH long False by (auto simp: too_long_def Let_def split: option.splits)
    qed
  qed (use Cons.IH in \<open>auto simp: too_long_def\<close>)
qed (simp add: too_long_def)

lemma path_entries_times:
  assumes "length path \<le> 255" "is_dir fs path" "\<not> denied fs (resolve fs path)"
  shows "abs_path root = path \<Longrightarrow>
    (case path_entries fds fs root of None \<Rightarrow> 0 | Some l \<Rightarrow> times_listed path l) =
      (\<Sum>i<fds. length (too_long path (listing fs (resolve fs path))) ^ i)"
proof (induction fds arbitrary: root)
  case (Suc fds)
  let ?m = "length (too_long path (listing fs (resolve fs path)))"
  have "times_listed path (child_entries fds fs root (listing fs (resolve fs path))) = ?m * (\<Sum>i<fds. ?m ^ i)"
    by (rule child_entries_times [of root, unfolded Suc.prems, OF assms(1,2) Suc.IH])
  then show ?case
    using Suc.prems assms by (simp add: sum.lessThan_Suc_shift sum_distrib_left del: sum.lessThan_Suc)
qed simp

section \<open>Results\<close>

text \<open>
  \<^verbatim>\<open>mkdirp\<close> that reports success leaves a file at the path; it returns 0 or -1 only, and whatever it
  reports it removes and changes nothing that was there.
\<close>

theorem mkdirp_makes:
  assumes "mkdirp fs path mode = (ret, fs')"
  shows "ret \<in> {0, -1} \<and> (ret = 0 \<longrightarrow> nodes fs' (resolve fs path) \<noteq> None)
    \<and> (\<forall>k n. nodes fs k = Some n \<longrightarrow> nodes fs' k = Some n)"
  using mkdirp_spec [OF assms] by (auto simp: fs_grows_def)

definition small_fs :: fsys where
  "small_fs = \<lparr>nodes = [[] \<mapsto> \<lparr>st_mode = 0x41ED, st_data = []\<rparr>], cwd = [], 
     listing = (\<lambda>_. [''.'', ''..'', replicate 252 CHR ''a'', ''b'', replicate 252 CHR ''b'']),
     denied = (\<lambda>_. False), umask = 0, stat_junk = 0, dir_end = 0, free_fds = 10\<rparr>"

lemma mkdirp_example: "fst (mkdirp small_fs ''/a/b'' 0x1ED) = 0"
  by (simp add: mkdirp.simps last_sep_def mkdir_def small_fs_def resolve_def is_absolute_path_def dir_at_def
      S_ISDIR_def Let_def)

theorem mkdirp_makes_witness: "nodes (snd (mkdirp small_fs ''/a/b'' 0x1ED)) [''a'', ''b''] \<noteq> None"
proof -
  obtain fs' where m: "mkdirp small_fs ''/a/b'' 0x1ED = (0, fs')"
    using mkdirp_example by (cases "mkdirp small_fs ''/a/b'' 0x1ED") simp
  have "resolve small_fs ''/a/b'' = [''a'', ''b'']"
    by (simp add: resolve_def is_absolute_path_def)
  then show ?thesis
    using mkdirp_makes [OF m] m by simp
qed

text \<open>
  C27: a directory with names that do not fit into the path buffer is enumerated as its own child.
  \<^verbatim>\<open>path_append\<close> refuses a path of more than 254 characters and leaves the path as it was, its result is
  ignored, and the directory is entered again through each such name, level by level, until no descriptor
  is left and \<^verbatim>\<open>opendir\<close> fails. With \<open>n\<close> free descriptors and \<open>m\<close> such names the directory is therefore
  listed $1 + m + \dots + m^{n-1}$ times instead of once.
\<close>

theorem long_path_lists_itself:
  assumes "is_dir fs path" "is_absolute_path (Some path)" "file_existed fs (Some path)" "length path \<le> 255"
    "\<not> denied fs (resolve fs path)" "0 < free_fds fs"
  shows "\<exists>l. get_path_entry_list fs path None = Some l \<and>
    times_listed path l = (\<Sum>i<free_fds fs. length (too_long path (listing fs (resolve fs path))) ^ i)"
proof -
  let ?root = "set_path_entry path (base_name path)"
  have root: "abs_path ?root = path"
    using assms(4) by (simp add: set_path_entry_def strncpy_str_def FILE_NAME_MAX_LEN_def)
  obtain l where "path_entries (free_fds fs) fs ?root = Some l"
    using assms root by (cases "free_fds fs") auto
  then show ?thesis
    using path_entries_times [OF assms(4,1,5) root, of "free_fds fs"] assms
    by (simp add: get_path_entry_list_def)
qed

theorem long_path_lists_itself_witness:
  "\<exists>l. get_path_entry_list small_fs ''//'' None = Some l \<and> times_listed ''//'' l = 2 ^ 10 - 1"
proof -
  have m: "too_long ''//'' (listing small_fs (resolve small_fs ''//'')) =
      [replicate 252 CHR ''a'', replicate 252 CHR ''b'']"
    by (simp add: too_long_def small_fs_def list_eq_iff_nth_eq)
  have "(\<Sum>i<10. 2 ^ i) = (2 ^ 10 - 1 :: nat)"
    by (simp add: numeral_eq_Suc)
  then show ?thesis
    using long_path_lists_itself [of small_fs "''//''", unfolded m]
    by (simp add: small_fs_def is_dir_def lstat_mode_def resolve_def is_absolute_path_def S_ISDIR_def file_existed_def
        numeral_2_eq_2 [symmetric])
qed

end
