(* ===== verification/Sftt_Utils.thy ===== *)
theory Sftt_Utils
  imports Sftt_File
begin

text \<open>
  Text utilities: strings and paths (\<^verbatim>\<open>src/src/utils.c\<close>), numbers (\<^verbatim>\<open>src/src/strtox.c\<close>), addresses
  (\<^verbatim>\<open>src/src/validate.c\<close>).
  Zero-terminated strings are lists of characters; functions that overwrite their argument return the
  new string. Random numbers, times and terminal output are left out.

  The results are that simplifying a path does not change the file it names, that numbers are read as
  written with every overflow detected, and which texts pass as addresses.
\<close>

section \<open>utils.c\<close>

text \<open>\<^verbatim>\<open>strip\<close>: the trailing blanks, then the leading ones; the rest moves to the front.\<close>

fun strip_len :: "string \<Rightarrow> nat \<Rightarrow> nat" where
  "strip_len line 0 = 0"
| "strip_len line (Suc n) = (if line ! n = CHR '' '' then strip_len line n else Suc n)"

function strip_lead :: "string \<Rightarrow> nat \<Rightarrow> nat \<Rightarrow> nat" where
  "strip_lead line len i = (if i < len \<and> line ! i = CHR '' '' then strip_lead line len (i + 1) else i)"
  by pat_completeness auto
termination
  by (relation "measure (\<lambda>(line, len, i). len - i)") auto

definition strip :: "string \<Rightarrow> string" where
  "strip line =
     (let len = strip_len line (length line) in
      if len < 1 then []
      else
        let i = strip_lead line len 0 in
        if i \<ge> len then [] else drop i (take len line))"

text \<open>\<^verbatim>\<open>simplify_path\<close>: trailing slashes except one at the start, then runs of slashes.\<close>

fun trim_len :: "string \<Rightarrow> nat \<Rightarrow> nat" where
  "trim_len path 0 = 0"
| "trim_len path (Suc n) = (if 0 < n \<and> path ! n = CHR ''/'' then trim_len path n else Suc n)"

fun squeeze :: "bool \<Rightarrow> string \<Rightarrow> string" where
  "squeeze slash [] = []"
| "squeeze slash (c # cs) =
     (if c = CHR ''/'' \<and> slash then squeeze slash cs else c # squeeze (c = CHR ''/'') cs)"

definition simplify_path :: "string \<Rightarrow> string" where
  "simplify_path path =
     (if length path = 0 then path else squeeze False (take (trim_len path (length path)) path))"

definition get_right_most_path :: "string option \<Rightarrow> bool \<Rightarrow> int \<times> string option \<times> string" where
  "get_right_most_path path sub_path_given =
     (case path of
        Some p \<Rightarrow>
          if \<not> sub_path_given then (-1, path, [])
          else
            let p1 = simplify_path p in
            if length p1 = 0 then (0, Some p1, [])
            else if CHR ''/'' \<notin> set p1 then (0, Some p1, p1)
            else (0, Some p1, rev (takeWhile (\<lambda>c. c \<noteq> CHR ''/'') (rev p1)))
      | None \<Rightarrow> (-1, None, []))"

text \<open>
  \<^verbatim>\<open>is_int\<close> with the C library's \<^verbatim>\<open>atol\<close> and \<^verbatim>\<open>atoi\<close>: white space, a sign, digits; \<^verbatim>\<open>atol\<close> stays within the range
  of \<^verbatim>\<open>long\<close> and \<^verbatim>\<open>atoi\<close> keeps the low 32 bits.
\<close>

definition isspace :: "char \<Rightarrow> bool" where
  "isspace c \<longleftrightarrow> c \<in> {CHR '' '', CHR 0x09, CHR 0x0A, CHR 0x0B, CHR 0x0C, CHR 0x0D}"

definition is_digit :: "char \<Rightarrow> bool" where
  "is_digit c \<longleftrightarrow> c \<in> set ''0123456789''"

definition digit_val :: "char \<Rightarrow> nat" where
  "digit_val c = of_char c - 48"

definition digits_val :: "nat \<Rightarrow> nat \<Rightarrow> nat list \<Rightarrow> nat" where
  "digits_val base acc ds = fold (\<lambda>d n. n * base + d) ds acc"

definition atol :: "string \<Rightarrow> int" where
  "atol s =
     (case dropWhile isspace s of
        [] \<Rightarrow> 0
      | c # cs \<Rightarrow>
          let (neg, ds) = (if c = CHR ''-'' then (True, cs) else if c = CHR ''+'' then (False, cs) else (False, c # cs));
              v = int (digits_val 10 0 (map digit_val (takeWhile is_digit ds)))
          in if neg then max (- v) (- (2 ^ 63)) else min v (2 ^ 63 - 1))"

definition atoi :: "string \<Rightarrow> int" where
  "atoi s = sint (word_of_int (atol s) :: 32 word)"

definition is_int :: "string \<Rightarrow> bool" where
  "is_int buf =
     (case buf of
        [] \<Rightarrow> False
      | c # cs \<Rightarrow>
          if \<not> (c = CHR ''-'' \<or> c = CHR ''+'' \<or> is_digit c) then False
          else if length buf > 11 then False
          else if \<not> list_all is_digit cs then False
          else atol buf = atoi buf)"

text \<open>
  \<^verbatim>\<open>get_first_word\<close>: \<open>Inr None\<close> is the result -1. The length that it passes to \<^verbatim>\<open>strncpy\<close> is \<^verbatim>\<open>buf - pos\<close>, which
  is negative or zero.
\<close>

definition get_first_word :: "string option \<Rightarrow> bool \<Rightarrow> int \<Rightarrow> c_fault + string option" where
  "get_first_word buf word_given len =
     (case buf of
        None \<Rightarrow> Inr None
      | Some b \<Rightarrow>
          if \<not> word_given \<or> len \<le> 0 then Inr None
          else if length b = 0 then Inr None
          else if CHR '' '' \<notin> set b
          then (if int (length b) < len then Inr None else Inl Out_of_bounds)
          else
            let pos = length (takeWhile (\<lambda>c. c \<noteq> CHR '' '') b) in
            if int pos > len then Inr None
            else if pos = 0 then Inr (Some [])
            else Inl Out_of_bounds)"

definition strdup :: "string option \<Rightarrow> string option" where
  "strdup buf = (case buf of None \<Rightarrow> None | Some b \<Rightarrow> if b = [] then None else Some b)"

definition gen_int :: "nat \<Rightarrow> int \<Rightarrow> int \<Rightarrow> c_fault + int" where
  "gen_int r lo hi =
     (if \<not> hi > lo then Inl Assertion_failed else Inr (int r mod (hi - lo) + lo))"

section \<open>Paths keep their meaning\<close>

fun no_runs :: "string \<Rightarrow> bool" where
  "no_runs (c # d # cs) \<longleftrightarrow> \<not> (c = CHR ''/'' \<and> d = CHR ''/'') \<and> no_runs (d # cs)"
| "no_runs cs \<longleftrightarrow> True"

lemma split_path_squeeze:
  "(slash \<longrightarrow> acc = []) \<Longrightarrow>
     filter (\<lambda>n. n \<noteq> []) (split_path acc (squeeze slash cs)) = filter (\<lambda>n. n \<noteq> []) (split_path acc cs)"
  by (induction slash cs arbitrary: acc rule: squeeze.induct) auto

lemma split_path_trailing:
  "filter (\<lambda>n. n \<noteq> []) (split_path acc (xs @ replicate k (CHR ''/''))) = filter (\<lambda>n. n \<noteq> []) (split_path acc xs)"
proof (induction acc xs rule: split_path.induct)
  case (1 acc)
  have "filter (\<lambda>n. n \<noteq> []) (split_path [] (replicate k (CHR ''/''))) = []" for k
    by (induction k) auto
  then show ?case
    by (cases k) auto
qed auto

lemma trim_len_spec:
  "n \<le> length path \<Longrightarrow> 0 < n \<Longrightarrow>
     0 < trim_len path n \<and> trim_len path n \<le> n
     \<and> take n path = take (trim_len path n) path @ replicate (n - trim_len path n) (CHR ''/'')
     \<and> (1 < trim_len path n \<longrightarrow> path ! (trim_len path n - 1) \<noteq> CHR ''/'')"
proof (induction n)
  case (Suc n)
  show ?case
  proof (cases "0 < n \<and> path ! n = CHR ''/''")
    case True
    let ?m = "trim_len path n"
    have i: "0 < ?m" "?m \<le> n" "take n path = take ?m path @ replicate (n - ?m) (CHR ''/'')"
      "1 < ?m \<longrightarrow> path ! (?m - 1) \<noteq> CHR ''/''"
      using Suc True by auto
    have "take (Suc n) path = take ?m path @ replicate (n - ?m) (CHR ''/'') @ [CHR ''/'']"
      using Suc.prems(1) True i(3) by (simp add: take_Suc_conv_app_nth)
    then have "take (Suc n) path = take ?m path @ replicate (Suc n - ?m) (CHR ''/'')"
      using i(2) by (simp add: replicate_append_same Suc_diff_le)
    then show ?thesis
      using i True by simp
  qed auto
qed simp

lemma squeeze_no_runs: "no_runs (squeeze slash cs) \<and> (slash \<longrightarrow> squeeze slash cs = [] \<or> hd (squeeze slash cs) \<noteq> CHR ''/'')"
proof (induction slash cs rule: squeeze.induct)
  case (2 slash c cs)
  then show ?case
    by (cases "squeeze (c = CHR ''/'') cs") (auto split: if_splits)
qed simp

lemma squeeze_last: "cs \<noteq> [] \<Longrightarrow> last cs \<noteq> CHR ''/'' \<Longrightarrow> squeeze slash cs \<noteq> [] \<and> last (squeeze slash cs) = last cs"
  by (induction slash cs rule: squeeze.induct) (auto split: if_splits)

text \<open>
  \<open>simplify_path\<close> names the same file. Whatever the file system and the working directory, the
  simplified path resolves to the node the path resolves to; it has no run of slashes, and no slash at
  its end unless it is the root.
\<close>

theorem simplify_path_correct:
  "resolve fs (simplify_path p) = resolve fs p \<and> no_runs (simplify_path p)
    \<and> \<not> (1 < length (simplify_path p) \<and> last (simplify_path p) = CHR ''/'')"
proof (cases "p = []")
  case False
  define k where "k = trim_len p (length p)"
  have t: "0 < k" "k \<le> length p" "p = take k p @ replicate (length p - k) (CHR ''/'')"
    "1 < k \<Longrightarrow> p ! (k - 1) \<noteq> CHR ''/''"
    using trim_len_spec [of "length p" p] False by (auto simp: k_def)
  have p: "p = take k p @ replicate (length p - k) (CHR ''/'')" and k: "0 < k" "k \<le> length p"
    using t(1-3) False by auto
  have s: "simplify_path p = squeeze False (take k p)"
    using False by (simp add: simplify_path_def k_def)
  have f: "filter (\<lambda>n. n \<noteq> []) (split_path [] (squeeze False (take k p))) = filter (\<lambda>n. n \<noteq> []) (split_path [] p)"
    by (subst p) (simp only: split_path_trailing split_path_squeeze simp_thms)
  have "is_absolute_path (Some (simplify_path p)) = is_absolute_path (Some p)"
    unfolding s using False k by (cases p; cases k) (auto simp: is_absolute_path_def)
  then have "resolve fs (simplify_path p) = resolve fs p"
    unfolding resolve_def s by (simp only: walk_names_cong [OF f])
  moreover have "simplify_path p = ''/'' \<or> last (simplify_path p) \<noteq> CHR ''/''"
  proof (cases "1 < k")
    case True
    then have "last (take k p) \<noteq> CHR ''/''"
      using t(4) k by (subst last_conv_nth) auto
    then show ?thesis
      using squeeze_last [of "take k p" False] k \<open>p \<noteq> []\<close> by (auto simp: s)
  next
    case False
    then have "k = 1"
      using k(1) by simp
    then show ?thesis
      unfolding s using \<open>p \<noteq> []\<close> by (cases p) auto
  qed
  ultimately show ?thesis
    using squeeze_no_runs [of False] by (auto simp: s)
qed (simp add: simplify_path_def)

section \<open>strtox.c\<close>

text \<open>
  Characters are read as signed \<^verbatim>\<open>char\<close>: the ones from 128 on become large unsigned values. The counter \<open>rv\<close>
  has its overflow mark in the top bit.
\<close>

definition char_uint :: "char \<Rightarrow> 32 word" where
  "char_uint c = scast (char_byte c)"

definition KSTRTOX_OVERFLOW :: "32 word" where "KSTRTOX_OVERFLOW = push_bit 31 1"

definition tolower_fast :: "char \<Rightarrow> char" where
  "tolower_fast c = byte_char (char_byte c OR 0x20)"

definition isxdigit :: "char \<Rightarrow> bool" where
  "isxdigit c \<longleftrightarrow> is_digit c \<or> c \<in> set ''abcdef'' \<or> c \<in> set ''ABCDEF''"

definition digit_of :: "char \<Rightarrow> 32 word option" where
  "digit_of ch =
     (let c = char_uint ch; lc = c OR 0x20 in
      if 48 \<le> c \<and> c \<le> 57 then Some (c - 48)
      else if 97 \<le> lc \<and> lc \<le> 102 then Some (lc - 97 + 10)
      else None)"

fun parse_integer :: "string \<Rightarrow> 32 word \<Rightarrow> 64 word \<Rightarrow> 32 word \<Rightarrow> 32 word \<times> 64 word" where
  "parse_integer [] base res rv = (rv, res)"
| "parse_integer (c # s) base res rv =
     (case digit_of c of
        None \<Rightarrow> (rv, res)
      | Some val \<Rightarrow>
          if val \<ge> base then (rv, res)
          else
            let rv1 = (if res AND push_bit 60 (-1) \<noteq> 0 \<and> res > (- 1 - ucast val) div ucast base
                       then rv OR KSTRTOX_OVERFLOW else rv)
            in parse_integer s base (res * ucast base + ucast val) (rv1 + 1))"

definition nth_or_0 :: "string \<Rightarrow> nat \<Rightarrow> char" where
  "nth_or_0 s i = (if i < length s then s ! i else CHR 0x00)"

definition fixup_radix :: "string \<Rightarrow> 32 word \<Rightarrow> string \<times> 32 word" where
  "fixup_radix s base =
     (let base1 =
            (if base = 0
             then if nth_or_0 s 0 = CHR ''0''
                  then if tolower_fast (nth_or_0 s 1) = CHR ''x'' \<and> isxdigit (nth_or_0 s 2) then 16 else 8
                  else 10
             else base)
      in if base1 = 16 \<and> nth_or_0 s 0 = CHR ''0'' \<and> tolower_fast (nth_or_0 s 1) = CHR ''x''
         then (drop 2 s, base1) else (s, base1))"

datatype kstrto_error = ERANGE | EINVAL

definition kstrtoull_tail :: "string \<Rightarrow> 32 word \<Rightarrow> kstrto_error + 64 word" where
  "kstrtoull_tail s base =
     (let (s1, base1) = fixup_radix s base; (rv, res) = parse_integer s1 base1 0 0 in
      if rv AND KSTRTOX_OVERFLOW \<noteq> 0 then Inl ERANGE
      else if rv = 0 then Inl EINVAL
      else
        let s2 = drop (unat rv) s1; s3 = (case s2 of [] \<Rightarrow> [] | c # cs \<Rightarrow> if c = CHR 0x0A then cs else s2)
        in if s3 \<noteq> [] then Inl EINVAL else Inr res)"

definition kstrtoull :: "string \<Rightarrow> 32 word \<Rightarrow> kstrto_error + 64 word" where
  "kstrtoull s base = kstrtoull_tail (case s of [] \<Rightarrow> [] | c # cs \<Rightarrow> if c = CHR ''+'' then cs else s) base"

definition kstrtouint :: "string \<Rightarrow> 32 word \<Rightarrow> kstrto_error + 32 word" where
  "kstrtouint s base =
     (case kstrtoull s base of
        Inl e \<Rightarrow> Inl e
      | Inr tmp \<Rightarrow> if tmp \<noteq> ucast (ucast tmp :: 32 word) then Inl ERANGE else Inr (ucast tmp))"

definition kstrtou32 :: "string \<Rightarrow> 32 word \<Rightarrow> kstrto_error + 32 word" where
  "kstrtou32 s base = kstrtouint s base"

section \<open>Numbers are read as written\<close>

text \<open>The value of a digit character, and the digits a text starts with.\<close>

definition char_digit :: "char \<Rightarrow> nat option" where
  "char_digit c =
     (if is_digit c then Some (of_char c - 48)
      else if c \<in> set ''abcdef'' then Some (of_char c - 87)
      else if c \<in> set ''ABCDEF'' then Some (of_char c - 55)
      else None)"

fun digits :: "nat \<Rightarrow> string \<Rightarrow> nat list" where
  "digits base [] = []"
| "digits base (c # s) =
     (case char_digit c of None \<Rightarrow> [] | Some d \<Rightarrow> if d < base then d # digits base s else [])"

lemma digit_of_char: "digit_of c = map_option of_nat (char_digit c)"
proof (cases c)
  case (Char b0 b1 b2 b3 b4 b5 b6 b7)
  show ?thesis
    unfolding Char
    by (cases b0; cases b1; cases b2; cases b3; cases b4; cases b5; cases b6; cases b7;
        simp add: digit_of_def char_uint_def char_byte_def char_digit_def is_digit_def Let_def;
        simp add: word_le_nat_alt unsigned_minus_1_eq_mask mask_eq_exp_minus_1)
qed

lemma char_digit_less: "char_digit c = Some d \<Longrightarrow> d < 16"
proof -
  have "is_digit c \<Longrightarrow> of_char c \<le> (57 :: nat)" "c \<in> set ''abcdef'' \<Longrightarrow> of_char c \<le> (102 :: nat)"
    "c \<in> set ''ABCDEF'' \<Longrightarrow> of_char c \<le> (70 :: nat)"
    unfolding is_digit_def by (simp_all, (elim disjE; simp)+)
  then show "char_digit c = Some d \<Longrightarrow> d < 16"
    unfolding char_digit_def by (simp split: if_split_asm)
qed

text \<open>The counter: below \<open>2 ^ 31\<close> it counts, from there on the number has overflowed.\<close>

lemma overflow_flag: "(rv AND KSTRTOX_OVERFLOW \<noteq> 0) \<longleftrightarrow> 2 ^ 31 \<le> unat rv"
proof -
  have "unat rv < 2 ^ 32"
    using unsigned_less [of rv, where ?'a = nat] by simp
  then have "unat rv div 2 ^ 31 < 2"
    by (simp add: less_mult_imp_div_less)
  then have "odd (unat rv div 2 ^ 31) \<longleftrightarrow> 0 < unat rv div 2 ^ 31"
    by (cases "unat rv div 2 ^ 31") auto
  then have "odd (unat rv div 2 ^ 31) \<longleftrightarrow> 2 ^ 31 \<le> unat rv"
    by (simp only: div_greater_zero_iff) simp
  moreover have "bit (unat rv) 31 = bit rv 31"
    by (simp add: bit_simps)
  ultimately show ?thesis
    by (simp add: KSTRTOX_OVERFLOW_def push_bit_eq_mult and_exp_eq_0_iff_not_bit [of rv 31, simplified] bit_iff_odd [of "unat rv"])
qed

lemma overflow_or: "unat rv < 2 ^ 31 \<Longrightarrow> unat (rv OR KSTRTOX_OVERFLOW) = unat rv + 2 ^ 31"
proof -
  assume rv: "unat rv < 2 ^ 31"
  then have "rv AND KSTRTOX_OVERFLOW = 0"
    using overflow_flag [of rv] by auto
  then have "rv OR KSTRTOX_OVERFLOW = rv + KSTRTOX_OVERFLOW"
    using word_plus_and_or [of rv KSTRTOX_OVERFLOW] by simp
  then show ?thesis
    using rv by (simp add: KSTRTOX_OVERFLOW_def unat_word_ariths)
qed

lemma digits_val_simps [simp]: "digits_val base v [] = v" "digits_val base v (d # ds) = digits_val base (v * base + d) ds"
  by (simp_all add: digits_val_def)

lemma digits_val_ge: "0 < base \<Longrightarrow> v \<le> digits_val base v ds"
proof (induction ds arbitrary: v)
  case (Cons d ds)
  have "v \<le> v * base + d"
    using Cons.prems by (simp add: trans_le_add1)
  then show ?case
    using Cons.IH [OF Cons.prems, of "v * base + d"] by simp
qed simp

lemma unat_ucast_digit: "d < 16 \<Longrightarrow> unat (ucast (of_nat d :: 32 word) :: 64 word) = d"
  by (simp add: unsigned_ucast_eq unsigned_of_nat take_bit_nat_eq_self)

text \<open>The overflow test is exact.\<close>

lemma overflow_test:
  fixes res :: "64 word"
  assumes "base \<le> 16" "0 < base" "d < base"
  defines "b \<equiv> ucast (of_nat base :: 32 word) :: 64 word" and "val \<equiv> ucast (of_nat d :: 32 word) :: 64 word"
  shows "(res AND push_bit 60 (- 1) \<noteq> 0 \<and> res > (- 1 - val) div b) \<longleftrightarrow> 2 ^ 64 \<le> unat res * base + d"
    "unat res * base + d < 2 ^ 64 \<Longrightarrow> unat (res * b + val) = unat res * base + d"
proof -
  have d: "unat val = d" "unat b = base"
    using assms unat_ucast_digit [of d] by (auto simp: unsigned_ucast_eq unsigned_of_nat take_bit_nat_eq_self)
  have m: "unat (- 1 - val) = 2 ^ 64 - 1 - d"
    using d(1) by (simp add: unat_sub unsigned_minus_1_eq_mask mask_eq_exp_minus_1)
  have q: "res > (- 1 - val) div b \<longleftrightarrow> 2 ^ 64 \<le> unat res * base + d"
  proof -
    have "res > (- 1 - val) div b \<longleftrightarrow> (2 ^ 64 - 1 - d) div base < unat res"
      by (simp only: word_less_nat_alt unat_div m d)
    also have "\<dots> \<longleftrightarrow> 2 ^ 64 - 1 - d < unat res * base"
      by (rule div_less_iff_less_mult [OF assms(2)])
    also have "\<dots> \<longleftrightarrow> 2 ^ 64 \<le> unat res * base + d"
      using assms(1,3) by auto
    finally show ?thesis .
  qed
  have small: "2 ^ 60 \<le> unat res" if "2 ^ 64 \<le> unat res * base + d"
  proof (rule ccontr)
    assume "\<not> 2 ^ 60 \<le> unat res"
    then have "unat res * base + d < (2 ^ 60 - 1) * 16 + 16"
      using assms mult_le_mono [of "unat res" "2 ^ 60 - 1" base 16] by simp
    then show False
      using that by simp
  qed
  have hi: "res AND push_bit 60 (- 1) \<noteq> 0" if "2 ^ 60 \<le> unat res"
  proof
    assume z0: "res AND push_bit 60 (- 1) = 0"
    have z: "\<not> bit res k" if "60 \<le> k" for k
    proof
      assume k: "bit res k"
      then have "bit (res AND push_bit 60 (- 1)) k"
        using that bit_imp_le_length [OF k] by (simp add: bit_and_iff bit_push_bit_iff bit_not_iff bit_mask_iff)
      then show False
        by (simp only: z0 bit_0_eq bot_apply bot_bool_def)
    qed
    have "bit res n \<Longrightarrow> n < 60" for n
      using z not_le by blast
    then have "take_bit 60 res = res"
      by (intro bit_eqI) (auto simp: bit_simps)
    then have "unat res < 2 ^ 60"
      by (metis take_bit_nat_less_exp unsigned_take_bit_eq)
    then show False
      using \<open>2 ^ 60 \<le> unat res\<close> by simp
  qed
  show "(res AND push_bit 60 (- 1) \<noteq> 0 \<and> res > (- 1 - val) div b) \<longleftrightarrow> 2 ^ 64 \<le> unat res * base + d"
    using q small hi by blast
  show "unat res * base + d < 2 ^ 64 \<Longrightarrow> unat (res * b + val) = unat res * base + d"
    using d by (simp add: unat_word_ariths)
qed

lemma unat_inc: "unat w + 1 < 2 ^ 32 \<Longrightarrow> unat (w + 1 :: 32 word) = unat w + 1"
  by (simp add: unat_word_ariths)

lemma parse_integer_flagged:
  "2 ^ 31 \<le> unat rv \<Longrightarrow> unat rv + length s < 2 ^ 32 \<Longrightarrow> 2 ^ 31 \<le> unat (fst (parse_integer s base res rv))"
proof (induction s base res rv rule: parse_integer.induct)
  case (2 c s base res rv)
  have o: "rv OR KSTRTOX_OVERFLOW = rv"
  proof -
    have "bit rv 31"
      using overflow_flag [of rv] 2(2) by (simp add: KSTRTOX_OVERFLOW_def and_exp_eq_0_iff_not_bit [of rv 31, simplified])
    then show ?thesis
      by (intro bit_eqI) (auto simp: KSTRTOX_OVERFLOW_def bit_simps bit_exp_iff [of 31, simplified])
  qed
  have "unat (rv + 1) = unat rv + 1"
    using 2(3) by (simp add: unat_word_ariths)
  then show ?case
    using 2 by (auto simp: o Let_def split: option.splits)
qed simp

lemma parse_integer_value:
  assumes "2 \<le> base" "base \<le> 16"
  shows "unat rv + length s < 2 ^ 31 \<Longrightarrow>
    (let v = digits_val base (unat res) (digits base s) in
     if v < 2 ^ 64
     then unat (fst (parse_integer s (of_nat base) res rv)) = unat rv + length (digits base s)
          \<and> unat (snd (parse_integer s (of_nat base) res rv)) = v
     else 2 ^ 31 \<le> unat (fst (parse_integer s (of_nat base) res rv)))"
proof (induction s arbitrary: res rv)
  case (Cons c s)
  have b: "unat (of_nat base :: 32 word) = base"
    using assms by (simp add: unat_of_nat)
  show ?case
  proof (cases "digits base (c # s)")
    case Nil
    then have "parse_integer (c # s) (of_nat base) res rv = (rv, res)"
      using b by (auto simp: digit_of_char word_le_nat_alt unat_of_nat dest: char_digit_less split: option.splits if_splits)
    then show ?thesis
      using unsigned_less [of res, where ?'a = nat] by (simp add: Nil Let_def del: digits.simps parse_integer.simps)
  next
    case (Cons d ds)
    then have cd: "char_digit c = Some d" "d < base" "ds = digits base s"
      by (auto split: option.splits if_splits)
    let ?ov = "2 ^ 64 \<le> unat res * base + d"
    let ?rv = "if ?ov then rv OR KSTRTOX_OVERFLOW else rv"
    let ?b = "ucast (of_nat base :: 32 word) :: 64 word" and ?v = "ucast (of_nat d :: 32 word) :: 64 word"
    note t = overflow_test [of base d, OF assms(2) _ cd(2)]
    have step: "parse_integer (c # s) (of_nat base) res rv = parse_integer s (of_nat base) (res * ?b + ?v) (?rv + 1)"
      using t(1) [of res] cd assms b
      by (simp add: digit_of_char word_le_nat_alt unat_of_nat Let_def)
    show ?thesis
    proof (cases ?ov)
      case True
      have "2 ^ 64 \<le> digits_val base (unat res) (digits base (c # s))"
        using True digits_val_ge [of base "unat res * base + d" ds] assms(1) by (simp add: Cons del: digits.simps)
      moreover have "unat (rv OR KSTRTOX_OVERFLOW) = unat rv + 2 ^ 31"
        using Cons.prems by (intro overflow_or) simp
      then have "unat ((rv OR KSTRTOX_OVERFLOW) + 1) = unat rv + 2 ^ 31 + 1"
        using Cons.prems unat_inc [of "rv OR KSTRTOX_OVERFLOW"] by simp
      then have "2 ^ 31 \<le> unat (fst (parse_integer s (of_nat base) (res * ?b + ?v) ((rv OR KSTRTOX_OVERFLOW) + 1)))"
        using Cons.prems by (intro parse_integer_flagged) auto
      ultimately show ?thesis
        using True by (simp add: step Let_def del: digits.simps parse_integer.simps)
    next
      case False
      have "unat (rv + 1) = unat rv + 1"
        using Cons.prems by (simp add: unat_word_ariths)
      moreover have "unat (res * ?b + ?v) = unat res * base + d"
        using t(2) [of res] False assms(1) by simp
      ultimately show ?thesis
        using Cons.IH [of "rv + 1" "res * ?b + ?v"] Cons.prems False
        by (auto simp add: step Cons Let_def cd(3) simp del: digits.simps parse_integer.simps split: if_splits)
    qed
  qed
next
  case Nil
  show ?case
    using unsigned_less [of res, where ?'a = nat] by (simp add: Let_def)
qed

lemma length_digits: "length (digits base s) \<le> length s"
  by (induction s) (auto split: option.splits)

lemma char_byte_inj [simp]: "char_byte c = char_byte d \<longleftrightarrow> c = d"
  by (metis byte_char_byte)

lemma byte_char_inverse [simp]: "char_byte (byte_char b) = b"
proof -
  have "unat b < 256"
    using unsigned_less [of b, where ?'a = nat] by simp
  then show ?thesis
    by (simp add: byte_char_def char_byte_def)
qed

lemma tolower_x: "tolower_fast c = CHR ''x'' \<longleftrightarrow> c = CHR ''x'' \<or> c = CHR ''X''"
proof -
  let ?b = "char_byte c"
  have v: "char_byte CHR ''x'' = 0x78" "char_byte CHR ''X'' = 0x58"
    by (simp_all add: char_byte_def)
  have "?b OR 0x20 = 0x78 \<longleftrightarrow> ?b = 0x78 \<or> ?b = 0x58"
  proof
    assume o: "?b OR 0x20 = 0x78"
    show "?b = 0x78 \<or> ?b = 0x58"
    proof (cases "bit ?b 5")
      case True
      then have "?b OR 0x20 = ?b"
        by (intro bit_eqI) (auto simp: bit_simps bit_exp_iff [of 5, simplified])
      then show ?thesis
        using o by simp
    next
      case False
      then have "?b AND NOT 0x20 = ?b"
        by (intro bit_eqI) (auto simp: bit_simps bit_exp_iff [of 5, simplified])
      moreover have "(?b OR 0x20) AND NOT 0x20 = ?b AND NOT 0x20"
        by (intro bit_eqI) (auto simp: bit_simps)
      ultimately show ?thesis
        using o by simp
    qed
  qed auto
  then show ?thesis
    unfolding tolower_fast_def by (metis byte_char_byte byte_char_inverse v)
qed

text \<open>
  C24: numbers are read as written. For a base from 2 to 16 and a text of less than \<open>2 ^ 31\<close> characters
  without sign and radix prefix, \<open>kstrtoull\<close> fails with EINVAL when the text does not start with a digit, with
  ERANGE exactly when the digits denote a number of more than 64 bits, with EINVAL when anything
  but one newline follows the digits, and otherwise returns the number. In particular no overflow
  goes unnoticed.
\<close>

definition number_tail :: "string \<Rightarrow> bool" where
  "number_tail s \<longleftrightarrow> s = [] \<or> s = [CHR 0x0A]"

theorem kstrtoull_correct:
  assumes "2 \<le> base" "base \<le> 16" "length s < 2 ^ 31" "nth_or_0 s 0 \<noteq> CHR ''+''"
    "base \<noteq> 16 \<or> take 2 s \<noteq> ''0x'' \<and> take 2 s \<noteq> ''0X''"
  shows "kstrtoull s (of_nat base) =
    (let ds = digits base s; v = digits_val base 0 ds in
     if v \<ge> 2 ^ 64 then Inl ERANGE
     else if ds = [] \<or> \<not> number_tail (drop (length ds) s) then Inl EINVAL
     else Inr (of_nat v))"
proof -
  have f: "fixup_radix s (of_nat base) = (s, of_nat base)"
  proof -
    have "of_nat base = (16 :: 32 word) \<longleftrightarrow> base = 16" "of_nat base \<noteq> (0 :: 32 word)"
      using assms(1,2) by (auto simp: word_unat_eq_iff unat_of_nat)
    then show ?thesis
      using assms(5) by (cases s; cases "tl s") (auto simp: fixup_radix_def Let_def nth_or_0_def tolower_x)
  qed
  obtain rv res where p: "parse_integer s (of_nat base) 0 0 = (rv, res)"
    by fastforce
  have sgn: "(case s of [] \<Rightarrow> [] | c # cs \<Rightarrow> if c = CHR ''+'' then cs else s) = s"
    using assms(4) by (cases s) (auto simp: nth_or_0_def)
  define ds v where "ds = digits base s" and "v = digits_val base 0 ds"
  have r: "if v < 2 ^ 64 then unat rv = length ds \<and> unat res = v else 2 ^ 31 \<le> unat rv"
    using parse_integer_value [OF assms(1,2), of 0 s 0] assms(3) p by (auto simp: Let_def ds_def v_def split: if_splits)
  have tl: "((case s2 of [] \<Rightarrow> [] | c # cs \<Rightarrow> if c = CHR 0x0A then cs else s2) \<noteq> []) \<longleftrightarrow> \<not> number_tail s2" for s2
    by (auto simp: number_tail_def split: list.splits)
  have k: "kstrtoull s (of_nat base) = (if rv AND KSTRTOX_OVERFLOW \<noteq> 0 then Inl ERANGE
      else if rv = 0 \<or> \<not> number_tail (drop (unat rv) s) then Inl EINVAL else Inr res)"
    unfolding kstrtoull_def sgn kstrtoull_tail_def f Let_def prod.case p tl by simp
  show ?thesis
  proof (cases "v < 2 ^ 64")
    case True
    then have u: "unat rv = length ds" "unat res = v" "\<not> 2 ^ 31 \<le> unat rv"
      using r length_digits [of base s] assms(3) by (simp_all add: ds_def)
    have "rv = 0 \<longleftrightarrow> ds = []" "res = of_nat v"
      using u(1,2) by (auto simp: unat_eq_0 [symmetric])
    then show ?thesis
      using True u(3) unfolding ds_def [symmetric] Let_def v_def [symmetric] k overflow_flag u(1) by simp
  next
    case False
    then show ?thesis
      using r unfolding ds_def [symmetric] Let_def v_def [symmetric] k overflow_flag by simp
  qed
qed

theorem kstrtoull_correct_witness:
  "kstrtoull ''18446744073709551615'' 10 = Inr 18446744073709551615 \<and> kstrtoull ''18446744073709551616'' 10 = Inl ERANGE"
proof -
  have d: "digits 10 ''18446744073709551615'' = [1, 8, 4, 4, 6, 7, 4, 4, 0, 7, 3, 7, 0, 9, 5, 5, 1, 6, 1, 5]"
    "digits 10 ''18446744073709551616'' = [1, 8, 4, 4, 6, 7, 4, 4, 0, 7, 3, 7, 0, 9, 5, 5, 1, 6, 1, 6]"
    by (simp_all add: char_digit_def is_digit_def)
  show ?thesis
    using kstrtoull_correct [of 10 "''18446744073709551615''"] kstrtoull_correct [of 10 "''18446744073709551616''"]
    by (simp add: d nth_or_0_def number_tail_def Let_def del: digits.simps)
qed

section \<open>validate.c\<close>

text \<open>The loop that copies at most three characters up to a dot.\<close>

fun dd_scan :: "nat \<Rightarrow> string \<Rightarrow> string" where
  "dd_scan 0 p = []"
| "dd_scan (Suc n) [] = []"
| "dd_scan (Suc n) (c # p) = (if c = CHR ''.'' then [] else c # dd_scan n p)"

text \<open>The result is the rest of the address behind a valid number.\<close>

definition is_valid_dotted_decimal :: "string \<Rightarrow> bool \<Rightarrow> bool \<Rightarrow> string option" where
  "is_valid_dotted_decimal p is_first is_last =
     (if \<not> is_first \<and> nth_or_0 p 0 \<noteq> CHR ''.'' then None
      else
        let p1 = (if is_first then p else drop 1 p); tmp = dd_scan 3 p1; j = length tmp in
        if j = 0 then None
        else if is_last \<and> nth_or_0 p1 j \<noteq> CHR 0x00 then None
        else
          let decimal = atoi tmp in
          if tmp ! 0 = CHR ''0'' \<and> decimal \<noteq> 0 then None
          else if \<not> (0 \<le> decimal \<and> decimal \<le> 255) then None
          else Some (drop j p1))"

definition is_valid_ipv4 :: "string \<Rightarrow> bool" where
  "is_valid_ipv4 ip =
     (if length ip < 7 \<or> length ip > 15 then False
      else if \<not> list_all (\<lambda>c. is_digit c \<or> c = CHR ''.'') ip then False
      else
        case is_valid_dotted_decimal ip True False of
          None \<Rightarrow> False
        | Some p1 \<Rightarrow>
            (case is_valid_dotted_decimal p1 False False of
               None \<Rightarrow> False
             | Some p2 \<Rightarrow>
                 (case is_valid_dotted_decimal p2 False False of
                    None \<Rightarrow> False
                  | Some p3 \<Rightarrow> is_valid_dotted_decimal p3 False True \<noteq> None)))"

section \<open>Addresses\<close>

definition octet :: "string \<Rightarrow> bool" where
  "octet a \<longleftrightarrow> 0 < length a \<and> length a \<le> 3 \<and> list_all is_digit a
     \<and> digits_val 10 0 (map digit_val a) \<le> 255 \<and> (a ! 0 = CHR ''0'' \<longrightarrow> digits_val 10 0 (map digit_val a) = 0)"

lemma digit_val_less: "is_digit c \<Longrightarrow> digit_val c \<le> 9"
proof -
  have "is_digit c \<Longrightarrow> of_char c \<le> (57 :: nat)"
    unfolding is_digit_def by (simp, (elim disjE; simp)+)
  then show "is_digit c \<Longrightarrow> digit_val c \<le> 9"
    by (simp add: digit_val_def)
qed

lemma digit_not_space: "is_digit c \<Longrightarrow> \<not> isspace c"
  by (auto simp: is_digit_def isspace_def)

lemma not_digits [simp]: "\<not> is_digit CHR ''.''" "\<not> is_digit CHR ''-''" "\<not> is_digit CHR ''+''" "\<not> is_digit CHR 0x00"
  by (simp_all add: is_digit_def)

lemma atoi_digits:
  assumes "list_all is_digit a" "length a \<le> 3" "a \<noteq> []"
  shows "atoi a = int (digits_val 10 0 (map digit_val a))"
proof -
  have v: "digits_val 10 0 (map digit_val a) \<le> 999"
  proof -
    consider c where "a = [c]" | c d where "a = [c, d]" | c d e where "a = [c, d, e]"
      using assms(2,3) by (cases a; cases "tl a"; cases "tl (tl a)") auto
    then show ?thesis
      using assms(1) by cases (auto dest!: digit_val_less)
  qed
  then have s: "sint (word_of_int (int (digits_val 10 0 (map digit_val a))) :: 32 word) = int (digits_val 10 0 (map digit_val a))"
    by (intro sint_word_of_int32) simp_all
  have "atol a = int (digits_val 10 0 (map digit_val a))"
    using assms(1,3) v by (cases a) (auto simp: atol_def list_all_iff digit_not_space takeWhile_eq_all_conv [THEN iffD2])
  then show ?thesis
    using s by (simp add: atoi_def)
qed

lemma dd_scan_props: "length (dd_scan n p) \<le> n" "p = dd_scan n p @ drop (length (dd_scan n p)) p" "CHR ''.'' \<notin> set (dd_scan n p)"
proof -
  have "length (dd_scan n p) \<le> n \<and> p = dd_scan n p @ drop (length (dd_scan n p)) p \<and> CHR ''.'' \<notin> set (dd_scan n p)"
    by (induction n p rule: dd_scan.induct) auto
  then show "length (dd_scan n p) \<le> n" "p = dd_scan n p @ drop (length (dd_scan n p)) p" "CHR ''.'' \<notin> set (dd_scan n p)"
    by blast+
qed

lemma dd_scan_octet: "length a \<le> n \<Longrightarrow> CHR ''.'' \<notin> set a \<Longrightarrow> r = [] \<or> hd r = CHR ''.'' \<Longrightarrow> dd_scan n (a @ r) = a"
proof (induction a arbitrary: n)
  case Nil
  then show ?case
    by (cases n; cases r) auto
next
  case (Cons c a)
  then show ?case
    by (cases n) auto
qed

text \<open>Both forms of a number, at the start and behind a dot, come down to the same test.\<close>

definition octet_at :: "string \<Rightarrow> bool \<Rightarrow> string option" where
  "octet_at p is_last =
     (let tmp = dd_scan 3 p; j = length tmp in
      if tmp = [] \<or> is_last \<and> nth_or_0 p j \<noteq> CHR 0x00 \<or> tmp ! 0 = CHR ''0'' \<and> atoi tmp \<noteq> 0
        \<or> \<not> (0 \<le> atoi tmp \<and> atoi tmp \<le> 255)
      then None else Some (drop j p))"

lemma valid_dotted_decimal:
  "is_valid_dotted_decimal p True is_last = octet_at p is_last"
  "is_valid_dotted_decimal p False is_last =
     (case p of [] \<Rightarrow> None | c # q \<Rightarrow> if c = CHR ''.'' then octet_at q is_last else None)"
proof -
  show "is_valid_dotted_decimal p True is_last = octet_at p is_last"
    unfolding is_valid_dotted_decimal_def octet_at_def Let_def by simp
  show "is_valid_dotted_decimal p False is_last =
     (case p of [] \<Rightarrow> None | c # q \<Rightarrow> if c = CHR ''.'' then octet_at q is_last else None)"
    unfolding is_valid_dotted_decimal_def octet_at_def Let_def by (cases p) (auto simp: nth_or_0_def [of _ 0])
qed

lemma octet_at_Some:
  assumes "list_all (\<lambda>c. is_digit c \<or> c = CHR ''.'') p" "octet_at p is_last = Some r"
  shows "\<exists>a. octet a \<and> p = a @ r \<and> (is_last \<longrightarrow> r = [])"
proof -
  define a where "a = dd_scan 3 p"
  have a: "a \<noteq> []" "is_last \<longrightarrow> nth_or_0 p (length a) = CHR 0x00" "a ! 0 = CHR ''0'' \<longrightarrow> atoi a = 0"
    "atoi a \<le> 255" "r = drop (length a) p"
    using assms(2) unfolding octet_at_def Let_def a_def [symmetric] by (auto split: if_split_asm)
  have p: "p = a @ r" "CHR ''.'' \<notin> set a" "length a \<le> 3"
    using dd_scan_props [where n = 3 and p = p] unfolding a_def [symmetric] a(5) by blast+
  have d: "list_all is_digit a"
    using assms(1) p(1,2) by (auto simp: list_all_iff)
  have "octet a"
    using a(3,4) d p(3) a(1) atoi_digits [OF d p(3) a(1)] by (auto simp: octet_def)
  moreover have "r = []" if is_last
  proof (rule ccontr)
    assume r: "r \<noteq> []"
    then have "nth_or_0 p (length a) = hd r"
      unfolding p(1) by (simp add: nth_or_0_def nth_append hd_conv_nth)
    moreover have "hd r \<in> set p"
      using r p(1) by simp
    ultimately have "CHR 0x00 \<in> set p"
      using a(2) that by simp
    then have "is_digit CHR 0x00 \<or> CHR 0x00 = CHR ''.''"
      using assms(1) unfolding list_all_iff by blast
    then show False
      by simp
  qed
  ultimately show ?thesis
    using p(1) by blast
qed

lemma octet_at_octet:
  assumes "octet a" "r = [] \<or> hd r = CHR ''.''" "is_last \<longrightarrow> r = []"
  shows "octet_at (a @ r) is_last = Some r"
proof -
  have d: "list_all is_digit a" "a \<noteq> []" "length a \<le> 3"
    using assms(1) by (auto simp: octet_def)
  have "CHR ''.'' \<notin> set a"
    using d(1) by (auto simp: list_all_iff)
  then have s: "dd_scan 3 (a @ r) = a"
    using d(3) assms(2) by (intro dd_scan_octet)
  have "nth_or_0 (a @ r) (length a) = CHR 0x00" if is_last
    using assms(3) that by (simp add: nth_or_0_def)
  then show ?thesis
    using assms(1) d atoi_digits [OF d(1,3,2)] unfolding octet_at_def s Let_def by (auto simp: octet_def)
qed

text \<open>
  \<open>is_valid_ipv4\<close> accepts exactly the texts of four numbers with dots between them, each of one to
  three digits and at most 255, and with a leading zero only if the number is zero.
\<close>

theorem is_valid_ipv4_correct:
  "is_valid_ipv4 ip \<longleftrightarrow> (\<exists>a b c d. octet a \<and> octet b \<and> octet c \<and> octet d
     \<and> ip = a @ ''.'' @ b @ ''.'' @ c @ ''.'' @ d)"
proof
  assume v: "is_valid_ipv4 ip"
  then have all: "list_all (\<lambda>c. is_digit c \<or> c = CHR ''.'') ip"
    by (simp add: is_valid_ipv4_def split: if_splits)
  from v obtain p1 p2 p3 p4 where p: "is_valid_dotted_decimal ip True False = Some p1"
    "is_valid_dotted_decimal p1 False False = Some p2" "is_valid_dotted_decimal p2 False False = Some p3"
    "is_valid_dotted_decimal p3 False True = Some p4"
    by (auto simp: is_valid_ipv4_def split: if_splits option.splits)
  obtain a where a: "octet a" "ip = a @ p1"
    using octet_at_Some [OF all] p(1) by (auto simp: valid_dotted_decimal)
  obtain q1 where q1: "p1 = ''.'' @ q1" "octet_at q1 False = Some p2"
    using p(2) by (auto simp: valid_dotted_decimal split: list.splits if_splits)
  then obtain b where b: "octet b" "q1 = b @ p2"
    using octet_at_Some [OF _ q1(2)] all a by auto
  obtain q2 where q2: "p2 = ''.'' @ q2" "octet_at q2 False = Some p3"
    using p(3) by (auto simp: valid_dotted_decimal split: list.splits if_splits)
  then obtain c where c: "octet c" "q2 = c @ p3"
    using octet_at_Some [OF _ q2(2)] all a q1 b by auto
  obtain q3 where q3: "p3 = ''.'' @ q3" "octet_at q3 True = Some p4"
    using p(4) by (auto simp: valid_dotted_decimal split: list.splits if_splits)
  then obtain d where "octet d" "q3 = d"
    using octet_at_Some [OF _ q3(2)] all a q1 b q2 c by auto
  then show "\<exists>a b c d. octet a \<and> octet b \<and> octet c \<and> octet d \<and> ip = a @ ''.'' @ b @ ''.'' @ c @ ''.'' @ d"
    using a q1 b q2 c q3 by auto
next
  assume "\<exists>a b c d. octet a \<and> octet b \<and> octet c \<and> octet d \<and> ip = a @ ''.'' @ b @ ''.'' @ c @ ''.'' @ d"
  then obtain a b c d where o: "octet a" "octet b" "octet c" "octet d"
    and ip: "ip = a @ ''.'' @ b @ ''.'' @ c @ ''.'' @ d"
    by blast
  have l: "1 \<le> length x \<and> length x \<le> 3 \<and> list_all is_digit x" if "octet x" for x
    using that by (simp add: octet_def Suc_le_eq)
  have len: "\<not> (length ip < 7 \<or> length ip > 15)"
    using l [OF o(1)] l [OF o(2)] l [OF o(3)] l [OF o(4)] unfolding ip length_append list.size by linarith
  have ds: "list_all (\<lambda>c. is_digit c \<or> c = CHR ''.'') ip"
    using l [OF o(1)] l [OF o(2)] l [OF o(3)] l [OF o(4)] by (auto simp: ip list_all_iff)
  note s = octet_at_octet [OF o(1), of "''.'' @ b @ ''.'' @ c @ ''.'' @ d" False]
    octet_at_octet [OF o(2), of "''.'' @ c @ ''.'' @ d" False] octet_at_octet [OF o(3), of "''.'' @ d" False]
    octet_at_octet [OF o(4), of "[]" True]
  show "is_valid_ipv4 ip"
    unfolding is_valid_ipv4_def using len ds s by (simp add: valid_dotted_decimal ip)
qed

end
