(* ===== verification/Sftt_Config.thy ===== *)
theory Sftt_Config
  imports Sftt_Utils
begin

text \<open>
  Versions (\<^verbatim>\<open>src/src/version.c\<close>) and configuration files (\<^verbatim>\<open>src/src/config.c\<close>). The two character arrays at
  the start of the server's configuration struct are adjacent, and \<^verbatim>\<open>strncpy\<close> is modelled on both
  together: the copy of a store path runs on into the log directory.

  The results are the meaning of a configuration file as a sequence of settings, which of them survive, and
  which client versions a server accepts.
\<close>

section \<open>Strings in memory\<close>

definition cstr :: "string \<Rightarrow> string" where
  "cstr mem = takeWhile (\<lambda>c. c \<noteq> CHR 0x00) mem"

definition strncpy_at :: "string \<Rightarrow> nat \<Rightarrow> string \<Rightarrow> nat \<Rightarrow> string" where
  "strncpy_at mem off src n = take off mem @ take n (src @ replicate n CHR 0x00) @ drop (off + n) mem"

definition fgets :: "nat \<Rightarrow> string \<Rightarrow> string \<times> string" where
  "fgets sz data =
     (let chunk = take (sz - 1) data;
          k = length (takeWhile (\<lambda>c. c \<noteq> CHR 0x0A) chunk);
          n = (if k < length chunk then k + 1 else k)
      in (take n data, drop n data))"

fun digits_text :: "nat \<Rightarrow> string \<Rightarrow> string" where
  "digits_text n acc =
     (let acc1 = char_of (48 + n mod 10) # acc in if n < 10 then acc1 else digits_text (n div 10) acc1)"

definition show_int :: "int \<Rightarrow> string" where
  "show_int i = (if i < 0 then CHR ''-'' # digits_text (nat (- i)) [] else digits_text (nat i) [])"

section \<open>version.c\<close>

definition VERSION :: string where "VERSION = ''0.1.3''"

record version_info =
  major :: "16 word"
  minor :: "16 word"
  revision :: "16 word"

definition get_short :: "string \<Rightarrow> int \<Rightarrow> 16 word" where
  "get_short p len =
     (if len \<le> 0 then -1
      else
        let q = take (nat len) p in
        if \<not> list_all is_digit q then -1
        else fold (\<lambda>c num. num * 10 + of_nat (digit_val c)) q 0)"

text \<open>\<^verbatim>\<open>strchr\<close> as the text before and behind the first occurrence.\<close>

definition strchr :: "string \<Rightarrow> char \<Rightarrow> (string \<times> string) option" where
  "strchr p c =
     (let a = takeWhile (\<lambda>x. x \<noteq> c) p in
      if length a < length p then Some (a, drop (length a + 1) p) else None)"

definition parse_version :: "string \<Rightarrow> version_info option" where
  "parse_version p =
     (case strchr p CHR ''.'' of
        None \<Rightarrow> None
      | Some (a, p1) \<Rightarrow>
          if get_short a (int (length a)) = -1 then None
          else
            (case strchr p1 CHR ''.'' of
               None \<Rightarrow> None
             | Some (b, p2) \<Rightarrow>
                 if get_short b (int (length b)) = -1 then None
                 else Some \<lparr>major = get_short a (int (length a)), minor = get_short b (int (length b)),
                            revision = word_of_int (atoi p2)\<rparr>))"

definition get_version_info :: "version_info option" where
  "get_version_info = parse_version VERSION"

definition version_text :: "version_info \<Rightarrow> string" where
  "version_text v = show_int (sint (major v)) @ ''.'' @ show_int (sint (minor v)) @ ''.'' @ show_int (sint (revision v))"

definition mismatch_text :: "version_info \<Rightarrow> version_info \<Rightarrow> string" where
  "mismatch_text client server =
     ''Version not matched, cannot connect!'' @ [CHR 0x0A] @ ''Client's version is '' @ version_text client
       @ '', server's version is '' @ version_text server @ ''!'' @ [CHR 0x0A] @ ''Please use version of ''"

definition check_version :: "version_info \<Rightarrow> version_info \<Rightarrow> nat \<Rightarrow> int \<times> string option" where
  "check_version client server len =
     (let exact = take (len - 1) (mismatch_text client server @ version_text server @ '' for client!'');
          series = take (len - 1) (mismatch_text client server @ show_int (sint (major server)) @ ''.''
                     @ show_int (sint (minor server)) @ ''.xx for client!'')
      in if major client = major server \<and> minor client = minor server
         then (if major server = 0 \<and> minor server = 0 \<and> revision client \<noteq> revision server
               then (-1, Some exact) else (0, None))
         else if major server = 0 \<and> minor server = 0 then (-1, Some exact)
         else (-1, Some series))"

section \<open>config.c\<close>

definition DIR_PATH_MAX_LEN :: nat where "DIR_PATH_MAX_LEN = 1024"
definition CONFIG_LINE_MAX_SIZE :: nat where "CONFIG_LINE_MAX_SIZE = 1024"
definition CONFIG_NAME_MAX_LEN :: nat where "CONFIG_NAME_MAX_LEN = 256"
definition CONFIG_VALUE_MAX_LEN :: nat where "CONFIG_VALUE_MAX_LEN = 512"

record sftt_server_config =
  store_path :: string
  log_dir :: string
  block_size :: int
  update_th :: int

record sftt_client_config =
  cblock_size :: int
  clog_dir :: string

definition config_search_pathes :: "string list" where
  "config_search_pathes = [''/etc/sftt'', ''./config'', ''.'', ''/root/sftt/config'']"

definition search_config :: "fsys \<Rightarrow> string \<Rightarrow> string option" where
  "search_config fs fname =
     find (\<lambda>tmp. file_existed fs (Some tmp)) (map (\<lambda>d. take 254 (d @ ''/'' @ fname)) config_search_pathes)"

text \<open>The name and the value of a line; both functions that treat lines begin with it.\<close>

definition config_pair :: "string \<Rightarrow> (string \<times> string) option" where
  "config_pair line0 =
     (let line = strip line0 in
      if length line < 1 then None
      else
        let config_name = takeWhile (\<lambda>c. c \<noteq> CHR '' '') (take CONFIG_NAME_MAX_LEN line);
            i = length config_name
        in if i \<ge> length line \<or> i \<ge> CONFIG_NAME_MAX_LEN then None
           else
             let r = dropWhile (\<lambda>c. c = CHR '' '') (drop i line) in
             if r = [] \<or> r ! 0 \<noteq> CHR ''='' then None
             else
               let r1 = dropWhile (\<lambda>c. c = CHR '' '') (drop 1 r) in
               if r1 = [] then None
               else
                 let config_value = takeWhile (\<lambda>c. c \<noteq> CHR '' '') (take CONFIG_VALUE_MAX_LEN r1) in
                 if length config_value \<ge> CONFIG_VALUE_MAX_LEN then None
                 else Some (config_name, config_value))"

definition set_server_config :: "string \<times> string \<Rightarrow> sftt_server_config \<Rightarrow> sftt_server_config" where
  "set_server_config nv ssc =
     (let (config_name, config_value) = nv in
      if config_name = ''store_path''
      then (let mem = strncpy_at (store_path ssc @ log_dir ssc) 0 config_value DIR_PATH_MAX_LEN in
            ssc\<lparr>store_path := take FILE_NAME_MAX_LEN mem, log_dir := drop FILE_NAME_MAX_LEN mem\<rparr>)
      else if config_name = ''block_size'' then ssc\<lparr>block_size := atoi config_value\<rparr>
      else if config_name = ''update_threshold'' then ssc\<lparr>update_th := atoi config_value\<rparr>
      else if config_name = ''log_dir''
      then ssc\<lparr>log_dir := strncpy_at (log_dir ssc) 0 config_value DIR_PATH_MAX_LEN\<rparr>
      else ssc)"

definition deal_server_config_line :: "string \<Rightarrow> sftt_server_config \<Rightarrow> int \<times> sftt_server_config" where
  "deal_server_config_line line ssc =
     (case config_pair line of None \<Rightarrow> (-1, ssc) | Some nv \<Rightarrow> (0, set_server_config nv ssc))"

definition set_client_config :: "string \<times> string \<Rightarrow> sftt_client_config \<Rightarrow> sftt_client_config" where
  "set_client_config nv scc =
     (let (config_name, config_value) = nv in
      if config_name = ''block_size'' then scc\<lparr>cblock_size := atoi config_value\<rparr>
      else if config_name = ''log_dir''
      then scc\<lparr>clog_dir := strncpy_at (clog_dir scc) 0 config_value DIR_PATH_MAX_LEN\<rparr>
      else scc)"

definition deal_client_config_line :: "string \<Rightarrow> sftt_client_config \<Rightarrow> int \<times> sftt_client_config" where
  "deal_client_config_line line scc =
     (case config_pair line of None \<Rightarrow> (-1, scc) | Some nv \<Rightarrow> (0, set_client_config nv scc))"

lemma fgets_rest: "data \<noteq> [] \<Longrightarrow> length (snd (fgets CONFIG_LINE_MAX_SIZE data)) < length data"
  by (cases data) (auto simp: fgets_def CONFIG_LINE_MAX_SIZE_def Let_def)

text \<open>
  The loop over the lines of the open file: at the end of the file \<^verbatim>\<open>fgets\<close> stores nothing and \<^verbatim>\<open>feof\<close> ends the
  loop; a line that starts with a zero byte ends it early. After a failed read, as from a directory, \<^verbatim>\<open>fgets\<close> stores
  nothing and \<^verbatim>\<open>feof\<close> stays false, so the loop does not end.
\<close>

function config_lines :: "(string \<Rightarrow> 'c \<Rightarrow> 'c) \<Rightarrow> string \<Rightarrow> 'c \<Rightarrow> 'c" where
  "config_lines deal data conf =
     (if data = [] then conf
      else
        let (mem, rest) = fgets CONFIG_LINE_MAX_SIZE data; line = cstr mem in
        if length line < 1 then conf
        else if line ! 0 = CHR ''#'' then config_lines deal rest conf
        else config_lines deal rest (deal (if last line = CHR 0x0A then butlast line else line) conf))"
  by pat_completeness auto
termination
  by (relation "measure (\<lambda>(deal, data, conf). length data)")
    (auto simp: prod_eq_iff dest: fgets_rest)

declare config_lines.simps [simp del] strip_lead.simps [simp del]

definition get_sftt_server_config :: "fsys \<Rightarrow> sftt_server_config option \<Rightarrow> c_fault + int \<times> sftt_server_config option" where
  "get_sftt_server_config fs ssc =
     (case ssc of
        None \<Rightarrow> Inr (-1, None)
      | Some c \<Rightarrow>
          (case search_config fs ''sftt_server.conf'' of
             None \<Rightarrow> Inr (-1, ssc)
           | Some server_config_path \<Rightarrow>
               (case fopen_r fs server_config_path of
                  None \<Rightarrow> Inr (-1, ssc)
                | Some data \<Rightarrow>
                    if dir_at fs (resolve fs server_config_path) then Inl No_return
                    else Inr (0, Some (config_lines (\<lambda>line. snd \<circ> deal_server_config_line line) (map byte_char data) c)))))"

definition get_sftt_client_config :: "fsys \<Rightarrow> sftt_client_config option \<Rightarrow> c_fault + int \<times> sftt_client_config option" where
  "get_sftt_client_config fs scc =
     (case scc of
        None \<Rightarrow> Inr (-1, None)
      | Some c \<Rightarrow>
          (case search_config fs ''sftt_client.conf'' of
             None \<Rightarrow> Inr (-1, scc)
           | Some client_config_path \<Rightarrow>
               (case fopen_r fs client_config_path of
                  None \<Rightarrow> Inr (-1, scc)
                | Some data \<Rightarrow>
                    if dir_at fs (resolve fs client_config_path) then Inl No_return
                    else Inr (0, Some (config_lines (\<lambda>line. snd \<circ> deal_client_config_line line) (map byte_char data) c)))))"

section \<open>Lines and settings\<close>

text \<open>A setting that a line can carry, and the line.\<close>

fun wf_setting :: "string \<times> string \<Rightarrow> bool" where
  "wf_setting (n, v) \<longleftrightarrow> n \<noteq> [] \<and> v \<noteq> [] \<and> length n < 256 \<and> length v < 512
     \<and> list_all (\<lambda>c. c \<noteq> CHR '' '' \<and> c \<noteq> CHR 0x0A \<and> c \<noteq> CHR 0x00) (n @ v) \<and> hd n \<noteq> CHR ''#''"

fun setting_text :: "string \<times> string \<Rightarrow> string" where
  "setting_text (n, v) = n @ '' = '' @ v"

lemma strip_len_last: "line \<noteq> [] \<Longrightarrow> last line \<noteq> CHR '' '' \<Longrightarrow> strip_len line (length line) = length line"
  by (cases line rule: rev_cases) auto

lemma strip_id: "line \<noteq> [] \<Longrightarrow> hd line \<noteq> CHR '' '' \<Longrightarrow> last line \<noteq> CHR '' '' \<Longrightarrow> strip line = line"
  by (subst strip_def) (auto simp: strip_len_last strip_lead.simps [of line _ 0] hd_conv_nth Let_def Suc_le_eq)

lemma strip_setting: "wf_setting s \<Longrightarrow> strip (setting_text s) = setting_text s"
proof -
  assume w: "wf_setting s"
  obtain n v where s: "s = (n, v)"
    by (cases s)
  have "hd (n @ v') \<in> set n" if "n \<noteq> []" for v'
    using that by simp
  moreover have "last v \<in> set v" if "v \<noteq> []"
    using that by simp
  ultimately show "strip (setting_text s) = setting_text s"
    using w unfolding s by (intro strip_id) (auto simp: list_all_iff)
qed

lemma takeWhile_take_stop:
  "list_all P n \<Longrightarrow> \<not> P c \<Longrightarrow> length n < k \<Longrightarrow> takeWhile P (take k (n @ c # r)) = n"
  by (auto simp: list_all_iff take_Cons' takeWhile_append2)

lemma config_pair_setting:
  assumes "wf_setting (n, v)"
  shows "config_pair (setting_text (n, v)) = Some (n, v)"
proof -
  have nv: "list_all (\<lambda>c. c \<noteq> CHR '' '') n" "list_all (\<lambda>c. c \<noteq> CHR '' '') v" "length n < 256" "length v < 512" "n \<noteq> []" "v \<noteq> []"
    using assms by (auto simp: list_all_iff)
  have line: "setting_text (n, v) = n @ CHR '' '' # ''= '' @ v"
    by simp
  have n: "takeWhile (\<lambda>c. c \<noteq> CHR '' '') (take 256 (n @ CHR '' '' # ''= '' @ v)) = n"
    using nv by (intro takeWhile_take_stop) simp_all
  have v: "takeWhile (\<lambda>c. c \<noteq> CHR '' '') (take 512 v) = v"
    using nv(2,4) by (simp add: list_all_iff takeWhile_eq_all_conv)
  have r: "dropWhile (\<lambda>c. c = CHR '' '') (drop (length n) (n @ CHR '' '' # ''= '' @ v)) = ''= '' @ v"
    "dropWhile (\<lambda>c. c = CHR '' '') (drop 1 (''= '' @ v)) = v"
    using nv(2,6) by (cases v; simp)+
  have len: "\<not> length (n @ CHR '' '' # ''= '' @ v) < 1" "\<not> (length (n @ CHR '' '' # ''= '' @ v) \<le> length n \<or> 256 \<le> length n)"
    "\<not> 512 \<le> length v" "(''= '' @ v) ! 0 = CHR ''=''" "''= '' @ v \<noteq> []"
    using nv(3,4) by simp_all
  show ?thesis
    unfolding config_pair_def line strip_setting [OF assms, unfolded line] Let_def CONFIG_NAME_MAX_LEN_def CONFIG_VALUE_MAX_LEN_def n r v
    using len nv(6) by (simp only: if_False not_False_eq_True simp_thms)
qed

lemma fgets_line:
  assumes "CHR 0x0A \<notin> set l" "length l < 1023"
  shows "fgets CONFIG_LINE_MAX_SIZE (l @ CHR 0x0A # rest) = (l @ [CHR 0x0A], rest)"
proof -
  have w: "takeWhile (\<lambda>c. c \<noteq> CHR 0x0A) (take (1024 - 1) (l @ CHR 0x0A # rest)) = l"
    using assms by (intro takeWhile_take_stop) (auto simp: list_all_iff)
  show ?thesis
    using assms(2) unfolding fgets_def CONFIG_LINE_MAX_SIZE_def Let_def w by simp
qed

lemma config_lines_setting:
  assumes "wf_setting s"
  shows "config_lines deal (setting_text s @ CHR 0x0A # rest) conf = config_lines deal rest (deal (setting_text s) conf)"
proof -
  obtain n v where s: "s = (n, v)"
    by (cases s)
  let ?l = "setting_text s"
  have l: "CHR 0x0A \<notin> set ?l" "length ?l < 1023" "CHR 0x00 \<notin> set ?l" "?l \<noteq> []" "?l ! 0 \<noteq> CHR ''#''"
    using assms unfolding s by (cases n; auto simp: list_all_iff)+
  have c: "cstr (?l @ [CHR 0x0A]) = ?l @ [CHR 0x0A]"
    using l(3) by (auto simp: cstr_def takeWhile_eq_all_conv)
  show ?thesis
    by (subst config_lines.simps [of _ "?l @ CHR 0x0A # rest"]) (use l(4,5) in \<open>simp add: fgets_line [OF l(1,2)] c nth_append\<close>)
qed

lemma config_lines_settings:
  "list_all wf_setting ss \<Longrightarrow>
     config_lines deal (concat (map (\<lambda>s. setting_text s @ [CHR 0x0A]) ss)) conf = fold (deal \<circ> setting_text) ss conf"
proof (induction ss arbitrary: conf)
  case (Cons s ss)
  then show ?case
    using config_lines_setting [of s deal] by (simp del: setting_text.simps)
qed (simp add: config_lines.simps)

lemma fold_deal_server:
  "list_all wf_setting ss \<Longrightarrow> fold ((\<lambda>line. snd \<circ> deal_server_config_line line) \<circ> setting_text) ss c = fold set_server_config ss c"
proof (induction ss arbitrary: c)
  case (Cons s ss)
  then show ?case
    by (cases s) (simp add: deal_server_config_line_def config_pair_setting del: setting_text.simps wf_setting.simps)
qed (simp add: config_lines.simps)

text \<open>
  Reading the server's configuration file runs through its settings in their order: for a file that
  has one setting on each line, the struct ends up as it is after storing each of them in turn.
\<close>

theorem server_config_settings:
  assumes "search_config fs ''sftt_server.conf'' = Some path"
    and "fopen_r fs path = Some (map char_byte (concat (map (\<lambda>s. setting_text s @ [CHR 0x0A]) ss)))"
    and "\<not> dir_at fs (resolve fs path)" "list_all wf_setting ss"
  shows "get_sftt_server_config fs (Some c) = Inr (0, Some (fold set_server_config ss c))"
  using assms
  by (simp add: get_sftt_server_config_def comp_def config_lines_settings fold_deal_server [unfolded comp_def]
      del: setting_text.simps)

definition conf_settings :: "(string \<times> string) list" where
  "conf_settings = [(''store_path'', ''/usr/local/sftt/''), (''block_size'', ''10240''), (''log_dir'', ''/tmp/log/'')]"

definition conf_text :: string where
  "conf_text = ''store_path = /usr/local/sftt/'' @ [CHR 0x0A] @ ''block_size = 10240'' @ [CHR 0x0A]
     @ ''log_dir = /tmp/log/'' @ [CHR 0x0A]"

definition conf_fs :: fsys where
  "conf_fs = small_fs\<lparr>nodes := (nodes small_fs)([''etc'', ''sftt'', ''sftt_server.conf''] \<mapsto>
     \<lparr>st_mode = 0x81A4, st_data = map char_byte conf_text\<rparr>)\<rparr>"

definition zero_conf :: sftt_server_config where
  "zero_conf = \<lparr>store_path = replicate 256 CHR 0x00, log_dir = replicate 1024 CHR 0x00, block_size = 0, update_th = 0\<rparr>"

lemma conf_fs_resolve: "resolve conf_fs ''/etc/sftt/sftt_server.conf'' = [''etc'', ''sftt'', ''sftt_server.conf'']"
  by (simp add: resolve_def is_absolute_path_def)

lemma conf_text_settings: "conf_text = concat (map (\<lambda>s. setting_text s @ [CHR 0x0A]) conf_settings)"
  by (simp add: conf_text_def conf_settings_def)

theorem server_config_settings_witness:
  "get_sftt_server_config conf_fs (Some zero_conf) = Inr (0, Some (fold set_server_config conf_settings zero_conf))"
proof (rule server_config_settings)
  show "search_config conf_fs ''sftt_server.conf'' = Some ''/etc/sftt/sftt_server.conf''"
    using conf_fs_resolve
    by (simp add: search_config_def config_search_pathes_def file_existed_def conf_fs_def small_fs_def)
  show "fopen_r conf_fs ''/etc/sftt/sftt_server.conf'' = Some (map char_byte (concat (map (\<lambda>s. setting_text s @ [CHR 0x0A]) conf_settings)))"
    unfolding conf_text_settings [symmetric] fopen_r_def conf_fs_resolve by (simp add: conf_fs_def small_fs_def)
  show "\<not> dir_at conf_fs (resolve conf_fs ''/etc/sftt/sftt_server.conf'')"
    unfolding conf_fs_resolve by (simp add: dir_at_def conf_fs_def S_ISDIR_def)
  show "list_all wf_setting conf_settings"
    by (simp add: conf_settings_def)
qed

text \<open>
  The arrays keep their sizes, whatever is read.
\<close>

definition conf_ok :: "sftt_server_config \<Rightarrow> bool" where
  "conf_ok c \<longleftrightarrow> length (store_path c) = 256 \<and> length (log_dir c) = 1024"

lemma length_strncpy_at: "off + n \<le> length mem \<Longrightarrow> length (strncpy_at mem off src n) = length mem"
  by (simp add: strncpy_at_def)

lemma set_server_config_ok: "conf_ok c \<Longrightarrow> conf_ok (set_server_config nv c)"
  by (cases nv) (simp add: conf_ok_def set_server_config_def length_strncpy_at DIR_PATH_MAX_LEN_def FILE_NAME_MAX_LEN_def Let_def)

lemma config_lines_inv:
  assumes "\<And>l c. P c \<Longrightarrow> P (deal l c)"
  shows "P c \<Longrightarrow> P (config_lines deal data c)"
  using assms
proof (induction deal data c rule: config_lines.induct)
  case (1 deal data conf)
  show ?case
    by (subst config_lines.simps) (use 1 in \<open>auto simp: Let_def split: prod.split\<close>)
qed

lemma cstr_strncpy:
  "CHR 0x00 \<notin> set v \<Longrightarrow> length v < n \<Longrightarrow> cstr (strncpy_at mem 0 v n) = v"
  by (cases "n - length v") (auto simp: cstr_def strncpy_at_def takeWhile_tail)

text \<open>
  C25: of a store path and a log directory, both survive if the store path is set first; if the log
  directory is set first, storing the path erases it, since \<^verbatim>\<open>strncpy\<close> fills up 1024 bytes from the start of the
  256-byte array.
\<close>

theorem store_path_erases_log_dir:
  assumes "conf_ok c" "wf_setting (''store_path'', p)" "wf_setting (''log_dir'', d)" "length p < 256"
  shows "cstr (store_path (fold set_server_config [(''store_path'', p), (''log_dir'', d)] c)) = p
    \<and> cstr (log_dir (fold set_server_config [(''store_path'', p), (''log_dir'', d)] c)) = d
    \<and> cstr (store_path (fold set_server_config [(''log_dir'', d), (''store_path'', p)] c)) = p
    \<and> cstr (log_dir (fold set_server_config [(''log_dir'', d), (''store_path'', p)] c)) = []"
proof -
  have pd: "CHR 0x00 \<notin> set p" "CHR 0x00 \<notin> set d" "length d < 1024"
    using assms(2,3) by (auto simp: list_all_iff)
  have s: "cstr (take 256 (strncpy_at mem 0 p 1024)) = p" for mem
    using pd(1) assms(4) by (cases "256 - length p") (auto simp: cstr_def strncpy_at_def min_def takeWhile_tail)
  have l: "cstr (drop 256 (strncpy_at mem 0 p 1024)) = []" for mem
    using assms(4) by (cases "768 :: nat") (auto simp: cstr_def strncpy_at_def)
  show ?thesis
    using cstr_strncpy [OF pd(2,3)] s l
    by (simp add: set_server_config_def DIR_PATH_MAX_LEN_def FILE_NAME_MAX_LEN_def Let_def)
qed

theorem store_path_erases_log_dir_witness:
  "cstr (log_dir (fold set_server_config [(''log_dir'', ''/tmp/log''), (''store_path'', ''/srv'')] zero_conf)) = []"
  using store_path_erases_log_dir [of zero_conf "''/srv''" "''/tmp/log''"] by (simp add: conf_ok_def zero_conf_def)

text \<open>Every file leaves the struct well-formed.\<close>

lemma get_sftt_server_config_ok:
  "get_sftt_server_config fs (Some c) = Inr (r, Some c') \<Longrightarrow> conf_ok c \<Longrightarrow> conf_ok c'"
  using config_lines_inv [where P = conf_ok and deal = "\<lambda>line. snd \<circ> deal_server_config_line line"]
  by (auto simp: get_sftt_server_config_def deal_server_config_line_def set_server_config_ok
      split: option.splits if_splits)

section \<open>Versions\<close>

lemma this_version: "get_version_info = Some \<lparr>major = 0, minor = 1, revision = 3\<rparr>"
  by code_simp

text \<open>
  A server accepts a client exactly if the major and the minor number agree and, in the 0.0 series,
  the revision too; a refused client gets a message.
\<close>

lemma check_version_correct:
  "(fst (check_version c s len) = 0 \<longleftrightarrow> major c = major s \<and> minor c = minor s
      \<and> (major s \<noteq> 0 \<or> minor s \<noteq> 0 \<or> revision c = revision s))
   \<and> (fst (check_version c s len) = 0 \<longleftrightarrow> snd (check_version c s len) = None)
   \<and> fst (check_version s s len) = 0"
  by (auto simp: check_version_def Let_def)

end
