(* ===== verification/Sftt_Serialize.thy ===== *)
theory Sftt_Serialize
  imports Sftt_Prelude
begin

text \<open>
  The memory model of the raw serializer (\<^verbatim>\<open>src/src/serialize_raw.c\<close>, selected by
  \<^verbatim>\<open>CONFIG_SERIALIZE_RAW\<close>): a request or response struct is sent as its memory image, after every
  integer in it, nested structs and arrays included, has been converted to network byte order in
  place.

  A C struct type is a layout \<open>cty\<close>, an object of it a value \<open>cval\<close>. Offsets, alignment and padding
  are those of the x86-64 ABI; \<open>mem_image\<close> is the memory image and \<open>parse\<close> reads an object back from
  memory. The codec functions of the C file are sequences of per-field conversions between a fixed
  prologue and epilogue (\<open>encode_body\<close>, \<open>decode_body\<close>); \<open>raw_encode\<close> and \<open>raw_decode\<close> are the
  reference they are compared with, which converts the whole object at once. The functions
  themselves are in \<open>Sftt_Req_Resp\<close>.
\<close>

section \<open>Layouts and values\<close>

datatype cty =
    TShort
  | TInt
  | TChars nat
  | TArray nat cty
  | TStruct flds
and flds =
    FNil
  | FCons string cty flds

datatype cval =
    VShort "16 word"
  | VInt "32 word"
  | VChars bytes
  | VArray "cval list"
  | VStruct "cval list"

fun fields :: "(string \<times> cty) list \<Rightarrow> flds" where
  "fields [] = FNil"
| "fields ((n, t) # fs) = FCons n t (fields fs)"

definition struct_ty :: "(string \<times> cty) list \<Rightarrow> cty" where
  "struct_ty fs = TStruct (fields fs)"

definition round_up :: "nat \<Rightarrow> nat \<Rightarrow> nat" where
  "round_up a n = (n + a - 1) div a * a"

fun cty_align :: "cty \<Rightarrow> nat" and flds_align :: "flds \<Rightarrow> nat" where
  "cty_align TShort = 2"
| "cty_align TInt = 4"
| "cty_align (TChars n) = 1"
| "cty_align (TArray n t) = cty_align t"
| "cty_align (TStruct fs) = flds_align fs"
| "flds_align FNil = 1"
| "flds_align (FCons n t fs) = max (cty_align t) (flds_align fs)"

fun cty_size :: "cty \<Rightarrow> nat" and flds_end :: "flds \<Rightarrow> nat \<Rightarrow> nat" where
  "cty_size TShort = 2"
| "cty_size TInt = 4"
| "cty_size (TChars n) = n"
| "cty_size (TArray n t) = n * cty_size t"
| "cty_size (TStruct fs) = round_up (flds_align fs) (flds_end fs 0)"
| "flds_end FNil off = off"
| "flds_end (FCons n t fs) off = flds_end fs (round_up (cty_align t) off + cty_size t)"

fun well_typed :: "cty \<Rightarrow> cval \<Rightarrow> bool" and well_typed_flds :: "flds \<Rightarrow> cval list \<Rightarrow> bool"
  and well_typed_all :: "cty \<Rightarrow> nat \<Rightarrow> cval list \<Rightarrow> bool" where
  "well_typed TShort v = (case v of VShort w \<Rightarrow> True | _ \<Rightarrow> False)"
| "well_typed TInt v = (case v of VInt w \<Rightarrow> True | _ \<Rightarrow> False)"
| "well_typed (TChars n) v = (case v of VChars bs \<Rightarrow> length bs = n | _ \<Rightarrow> False)"
| "well_typed (TArray n t) v = (case v of VArray vs \<Rightarrow> well_typed_all t n vs | _ \<Rightarrow> False)"
| "well_typed (TStruct fs) v = (case v of VStruct vs \<Rightarrow> well_typed_flds fs vs | _ \<Rightarrow> False)"
| "well_typed_flds FNil vs = (vs = [])"
| "well_typed_flds (FCons n t fs) vs =
     (case vs of [] \<Rightarrow> False | v # vs' \<Rightarrow> well_typed t v \<and> well_typed_flds fs vs')"
| "well_typed_all t 0 vs = (vs = [])"
| "well_typed_all t (Suc n) vs =
     (case vs of [] \<Rightarrow> False | v # vs' \<Rightarrow> well_typed t v \<and> well_typed_all t n vs')"

section \<open>Memory images\<close>

text \<open>Padding is zero: the objects that are sent come zeroed from the pool.\<close>

fun mem_image :: "cty \<Rightarrow> cval \<Rightarrow> bytes" and mem_images :: "flds \<Rightarrow> cval list \<Rightarrow> nat \<Rightarrow> bytes"
  and mem_image_all :: "cty \<Rightarrow> nat \<Rightarrow> cval list \<Rightarrow> bytes" where
  "mem_image TShort v = (case v of VShort w \<Rightarrow> le16 w | _ \<Rightarrow> [])"
| "mem_image TInt v = (case v of VInt w \<Rightarrow> le32 w | _ \<Rightarrow> [])"
| "mem_image (TChars n) v = (case v of VChars bs \<Rightarrow> bs | _ \<Rightarrow> [])"
| "mem_image (TArray n t) v = (case v of VArray vs \<Rightarrow> mem_image_all t n vs | _ \<Rightarrow> [])"
| "mem_image (TStruct fs) v =
     (case v of
        VStruct vs \<Rightarrow>
          mem_images fs vs 0 @ replicate (round_up (flds_align fs) (flds_end fs 0) - flds_end fs 0) 0
      | _ \<Rightarrow> [])"
| "mem_images FNil vs off = []"
| "mem_images (FCons n t fs) vs off =
     (case vs of [] \<Rightarrow> []
      | v # vs' \<Rightarrow> replicate (round_up (cty_align t) off - off) 0 @ mem_image t v
                 @ mem_images fs vs' (round_up (cty_align t) off + cty_size t))"
| "mem_image_all t 0 vs = []"
| "mem_image_all t (Suc n) vs = (case vs of [] \<Rightarrow> [] | v # vs' \<Rightarrow> mem_image t v @ mem_image_all t n vs')"

fun parse :: "cty \<Rightarrow> bytes \<Rightarrow> cval" and parses :: "flds \<Rightarrow> bytes \<Rightarrow> nat \<Rightarrow> cval list"
  and parse_all :: "cty \<Rightarrow> nat \<Rightarrow> bytes \<Rightarrow> cval list" where
  "parse TShort bs = VShort (of_le16 bs)"
| "parse TInt bs = VInt (of_le32 bs)"
| "parse (TChars n) bs = VChars (take n bs)"
| "parse (TArray n t) bs = VArray (parse_all t n bs)"
| "parse (TStruct fs) bs = VStruct (parses fs bs 0)"
| "parses FNil bs off = []"
| "parses (FCons n t fs) bs off =
     parse t (drop (round_up (cty_align t) off - off) bs)
     # parses fs (drop (round_up (cty_align t) off + cty_size t - off) bs)
         (round_up (cty_align t) off + cty_size t)"
| "parse_all t 0 bs = []"
| "parse_all t (Suc n) bs = parse t bs # parse_all t n (drop (cty_size t) bs)"

section \<open>Byte order\<close>

text \<open>\<^verbatim>\<open>htons\<close> and \<^verbatim>\<open>htonl\<close> on a little-endian host, and their inverses, reverse the bytes.\<close>

definition htons :: "16 word \<Rightarrow> 16 word" where
  "htons w = of_le16 (rev (le16 w))"

definition htonl :: "32 word \<Rightarrow> 32 word" where
  "htonl w = of_le32 (rev (le32 w))"

fun swap :: "cval \<Rightarrow> cval" where
  "swap (VShort w) = VShort (htons w)"
| "swap (VInt w) = VInt (htonl w)"
| "swap (VChars bs) = VChars bs"
| "swap (VArray vs) = VArray (map swap vs)"
| "swap (VStruct vs) = VStruct (map swap vs)"

section \<open>The codec\<close>

text \<open>
  The statements of a codec function: \<^verbatim>\<open>_req->n = htons(_req->n)\<close> and \<^verbatim>\<open>_req->n = htonl(_req->n)\<close>
  convert the field \<open>n\<close>, a call on \<^verbatim>\<open>&_req->n\<close> converts a nested struct, and a loop of \<open>k\<close> rounds over
  \<^verbatim>\<open>_req->n[i]\<close> the first \<open>k\<close> elements of an array.
\<close>

fun hton_s :: "cval \<Rightarrow> cval" where
  "hton_s (VShort w) = VShort (htons w)"
| "hton_s v = v"

fun hton_l :: "cval \<Rightarrow> cval" where
  "hton_l (VInt w) = VInt (htonl w)"
| "hton_l v = v"

fun each :: "nat \<Rightarrow> (cval \<Rightarrow> cval) \<Rightarrow> cval \<Rightarrow> cval" where
  "each k f (VArray vs) = VArray (map f (take k vs) @ drop k vs)"
| "each k f v = v"

fun upd_flds :: "flds \<Rightarrow> string \<Rightarrow> (cval \<Rightarrow> cval) \<Rightarrow> cval list \<Rightarrow> cval list" where
  "upd_flds (FCons m t fs) n f (v # vs) = (if m = n then f v # vs else v # upd_flds fs n f vs)"
| "upd_flds _ n f vs = vs"

fun upd :: "cty \<Rightarrow> string \<Rightarrow> (cval \<Rightarrow> cval) \<Rightarrow> cval \<Rightarrow> cval" where
  "upd (TStruct fs) n f (VStruct vs) = VStruct (upd_flds fs n f vs)"
| "upd _ n f v = v"

definition convert :: "cty \<Rightarrow> (string \<times> (cval \<Rightarrow> cval)) list \<Rightarrow> cval \<Rightarrow> cval" where
  "convert t conv v = fold (\<lambda>(n, f). upd t n f) conv v"

text \<open>
  What the codec functions have around the conversions. An encoder returns the caller's object as
  the call leaves it and, when it was given \<^verbatim>\<open>buf\<close> and \<^verbatim>\<open>len\<close> (\<open>out\<close>), the bytes of the buffer. A
  decoder copies \<^verbatim>\<open>len\<close> bytes into a zeroed object of the struct's size without comparing the two;
  copying more is a write past the object. The pool is taken to have memory left: the functions use
  what \<^verbatim>\<open>mp_malloc\<close> returns unchecked.
\<close>

definition encode_body ::
    "cty \<Rightarrow> (string \<times> (cval \<Rightarrow> cval)) list \<Rightarrow> bool \<Rightarrow> cval \<Rightarrow> cval \<times> bytes option" where
  "encode_body t conv out req =
     (let req' = convert t conv req in (req', if out then Some (mem_image t req') else None))"

definition decode_body :: "cty \<Rightarrow> (string \<times> (cval \<Rightarrow> cval)) list \<Rightarrow> bytes \<Rightarrow> c_fault + cval" where
  "decode_body t conv buf =
     (case buf_write (replicate (cty_size t) 0) 0 buf of
        None \<Rightarrow> Inl Out_of_bounds
      | Some req \<Rightarrow> Inr (convert t conv (parse t req)))"

text \<open>The reference: every integer of the object is converted.\<close>

definition raw_encode :: "cty \<Rightarrow> cval \<Rightarrow> cval \<times> bytes" where
  "raw_encode t req = (let req' = swap req in (req', mem_image t req'))"

definition raw_decode :: "cty \<Rightarrow> bytes \<Rightarrow> c_fault + cval" where
  "raw_decode t buf =
     (if cty_size t < length buf then Inl Out_of_bounds
      else Inr (swap (parse t (buf @ replicate (cty_size t - length buf) 0))))"

section \<open>Correctness\<close>

lemma round_up_ge: "0 < a \<Longrightarrow> n \<le> round_up a n"
proof -
  assume a: "0 < a"
  have "n + a - 1 = (n + a - 1) div a * a + (n + a - 1) mod a"
    by simp
  moreover have "(n + a - 1) mod a < a"
    using a by simp
  ultimately show ?thesis
    unfolding round_up_def by linarith
qed

lemma align_pos: "0 < cty_align t" "0 < flds_align fs"
  by (induction t and fs) auto

lemma flds_end_ge:
  "0 \<le> cty_size t"
  "off \<le> flds_end fs off"
proof (induction t and fs arbitrary: and off)
  case (FCons n t fs)
  have "off \<le> round_up (cty_align t) off"
    by (rule round_up_ge [OF align_pos(1)])
  also have "\<dots> \<le> flds_end fs (round_up (cty_align t) off + cty_size t)"
    using FCons(2) [of "round_up (cty_align t) off + cty_size t"] by linarith
  finally show ?case by simp
qed simp_all

lemma mem_image_length:
  "well_typed t v \<Longrightarrow> length (mem_image t v) = cty_size t"
  "well_typed_flds fs vs \<Longrightarrow> length (mem_images fs vs off) = flds_end fs off - off"
  "well_typed_all t n vs \<Longrightarrow> length (mem_image_all t n vs) = n * cty_size t"
proof (induction t v and fs vs and t n vs arbitrary: and off and rule: well_typed_well_typed_flds_well_typed_all.induct)
  case (7 n t fs vs)
  then obtain v vs' where vs: "vs = v # vs'" "well_typed t v" "well_typed_flds fs vs'"
    by (auto split: list.splits)
  let ?r = "round_up (cty_align t) off"
  have "off \<le> ?r"
    by (rule round_up_ge [OF align_pos(1)])
  moreover have "?r + cty_size t \<le> flds_end fs (?r + cty_size t)"
    by (rule flds_end_ge(2))
  ultimately show ?case
    using 7 vs by simp
next
  case (5 fs v)
  then show ?case
    using round_up_ge [OF align_pos(2), of "flds_end fs 0" fs] by (auto split: cval.splits)
qed (auto split: cval.splits list.splits)

lemma parse_mem_image:
  "well_typed t v \<Longrightarrow> parse t (mem_image t v @ r) = v"
  "well_typed_flds fs vs \<Longrightarrow> parses fs (mem_images fs vs off @ r) off = vs"
  "well_typed_all t n vs \<Longrightarrow> parse_all t n (mem_image_all t n vs @ r) = vs"
proof (induction t v and fs vs and t n vs arbitrary: r and off r and r
    rule: well_typed_well_typed_flds_well_typed_all.induct)
  case (7 n t fs vs)
  then obtain v vs' where vs: "vs = v # vs'" "well_typed t v" "well_typed_flds fs vs'"
    by (auto split: list.splits)
  let ?r = "round_up (cty_align t) off"
  have le: "off \<le> ?r"
    by (rule round_up_ge [OF align_pos(1)])
  have d: "drop (?r + cty_size t - off) (replicate (?r - off) 0 @ mem_image t v @ q) = q"
    "drop (?r - off) (replicate (?r - off) 0 @ q) = q" for q
    using le mem_image_length(1) [OF vs(2)] by simp_all
  have ih1: "parse t (mem_image t v @ q) = v" for q
    using 7(1) vs by simp
  have ih2: "parses fs (mem_images fs vs' k @ q) k = vs'" for k q
    using 7(2) vs by simp
  show ?case
    by (simp only: vs(1) mem_images.simps parses.simps list.case append_assoc d ih1 ih2)
next
  case (9 t n vs)
  then show ?case
    using mem_image_length(1) by (auto split: list.splits)
qed (auto split: cval.splits)

lemma le16_of_le16: "le16 (of_le16 [a, b]) = [a, b]"
  by (auto simp: le16_def bit_eq_iff bit_simps not_le not_less dest: bit_imp_le_length)

lemma le32_of_le32: "le32 (of_le32 [a, b, c, d]) = [a, b, c, d]"
  by (auto simp: le32_def bit_eq_iff bit_simps not_le not_less dest: bit_imp_le_length)

lemma rev_le16: "rev (le16 w) = le16 (htons w)"
proof -
  obtain a b where "rev (le16 w) = [a, b]"
    by (simp add: le16_def)
  then show ?thesis
    by (simp only: htons_def le16_of_le16)
qed

lemma rev_le32: "rev (le32 w) = le32 (htonl w)"
proof -
  obtain a b c d where "rev (le32 w) = [a, b, c, d]"
    by (simp add: le32_def)
  then show ?thesis
    by (simp only: htonl_def le32_of_le32)
qed

lemma htons_htons [simp]: "htons (htons w) = w"
  by (simp add: htons_def [of "htons w"] rev_le16 [symmetric])

lemma htonl_htonl [simp]: "htonl (htonl w) = w"
  by (simp add: htonl_def [of "htonl w"] rev_le32 [symmetric])

lemma swap_swap [simp]: "swap (swap v) = v"
  by (induction v) (simp_all add: map_idI)

lemma well_typed_swap:
  "well_typed t v \<Longrightarrow> well_typed t (swap v)"
  "well_typed_flds fs vs \<Longrightarrow> well_typed_flds fs (map swap vs)"
  "well_typed_all t n vs \<Longrightarrow> well_typed_all t n (map swap vs)"
  by (induction t v and fs vs and t n vs rule: well_typed_well_typed_flds_well_typed_all.induct)
    (auto split: cval.splits list.splits)

section \<open>The codec interface\<close>

text \<open>
  What the packet layer relies on: decoding what was encoded gives the object back. Encoding also
  changes the caller's object, and changes it back when it is encoded again.
\<close>

locale wire_codec =
  fixes enc :: "'v \<Rightarrow> 'v \<times> bytes"
    and dec :: "bytes \<Rightarrow> c_fault + 'v"
    and ok :: "'v \<Rightarrow> bool"
  assumes dec_enc: "ok v \<Longrightarrow> dec (snd (enc v)) = Inr v"
    and enc_ok: "ok v \<Longrightarrow> ok (fst (enc v))"
    and enc_enc: "ok v \<Longrightarrow> fst (enc (fst (enc v))) = v"
begin

lemma resend: "ok v \<Longrightarrow> dec (snd (enc (fst (enc v)))) = Inr (fst (enc v))"
  using dec_enc enc_ok by blast

lemma third_send: "ok v \<Longrightarrow> enc (fst (enc (fst (enc v)))) = enc v"
  by (simp add: enc_enc)

lemma enc_inj: "ok v \<Longrightarrow> ok w \<Longrightarrow> snd (enc v) = snd (enc w) \<Longrightarrow> v = w"
  by (metis dec_enc sum.inject(2))

end

interpretation raw: wire_codec "raw_encode t" "raw_decode t" "well_typed t" for t
proof
  fix v
  assume v: "well_typed t v"
  have "length (mem_image t (swap v)) = cty_size t" "parse t (mem_image t (swap v)) = swap v"
    using mem_image_length(1) [OF well_typed_swap(1) [OF v]] parse_mem_image(1) [OF well_typed_swap(1) [OF v], of "[]"]
    by simp_all
  then show "raw_decode t (snd (raw_encode t v)) = Inr v"
    by (simp add: raw_decode_def raw_encode_def Let_def)
  show "well_typed t (fst (raw_encode t v))" "fst (raw_encode t (fst (raw_encode t v))) = v"
    using well_typed_swap(1) [OF v] by (simp_all add: raw_encode_def Let_def)
qed

lemma raw_encode_length: "well_typed t v \<Longrightarrow> length (snd (raw_encode t v)) = cty_size t"
  by (simp add: raw_encode_def Let_def mem_image_length(1) well_typed_swap(1))

section \<open>Field-wise conversion\<close>

text \<open>
  A conversion is right for a type when it converts every integer of every object of the type. The
  conversions of a struct's fields, in any order, are right for the struct when each field has the
  right one, and none where it holds characters only.
\<close>

named_theorems conv_rules \<open>conversions that are right for a type\<close>

definition conv_ok :: "cty \<Rightarrow> (cval \<Rightarrow> cval) \<Rightarrow> bool" where
  "conv_ok t f \<longleftrightarrow> (\<forall>v. well_typed t v \<longrightarrow> f v = swap v)"

lemma conv_okD: "conv_ok t f \<Longrightarrow> well_typed t v \<Longrightarrow> f v = swap v"
  by (simp add: conv_ok_def)

lemma well_typed_all_iff: "well_typed_all t n vs \<longleftrightarrow> length vs = n \<and> (\<forall>v \<in> set vs. well_typed t v)"
  by (induction n arbitrary: vs) (auto split: list.splits simp: length_Suc_conv)

lemma conv_ok_leaf [conv_rules]:
  "conv_ok TShort hton_s" "conv_ok TInt hton_l" "conv_ok (TChars n) (\<lambda>v. v)"
  by (auto simp: conv_ok_def split: cval.splits)

lemma conv_ok_each [conv_rules]: "conv_ok t f \<Longrightarrow> conv_ok (TArray n t) (each n f)"
  by (auto simp: conv_ok_def well_typed_all_iff split: cval.splits)

fun apply_flds :: "(string \<times> cty) list \<Rightarrow> (string \<rightharpoonup> (cval \<Rightarrow> cval)) \<Rightarrow> cval list \<Rightarrow> cval list" where
  "apply_flds ((n, t) # fs) m (v # vs) = (case m n of None \<Rightarrow> v | Some f \<Rightarrow> f v) # apply_flds fs m vs"
| "apply_flds [] m vs = vs"
| "apply_flds (x # fs) m [] = []"

lemma apply_flds_empty: "apply_flds fs Map.empty vs = vs"
  by (induction fs "Map.empty :: string \<rightharpoonup> (cval \<Rightarrow> cval)" vs rule: apply_flds.induct) auto

lemma apply_flds_cong:
  "(\<And>n. n \<in> fst ` set fs \<Longrightarrow> m n = m' n) \<Longrightarrow> apply_flds fs m vs = apply_flds fs m' vs"
  by (induction fs m vs rule: apply_flds.induct) auto

lemma upd_apply_flds:
  "distinct (map fst fs) \<Longrightarrow> m n = None \<Longrightarrow>
     upd_flds (fields fs) n f (apply_flds fs m vs) = apply_flds fs (m(n \<mapsto> f)) vs"
proof (induction fs m vs rule: apply_flds.induct)
  case (1 k t fs m v vs)
  show ?case
  proof (cases "k = n")
    case True
    then have "apply_flds fs (m(n \<mapsto> f)) vs = apply_flds fs m vs"
      using 1(2) by (intro apply_flds_cong) auto
    then show ?thesis
      using 1(3) by (simp only: True apply_flds.simps fields.simps upd_flds.simps fun_upd_same option.case if_True simp_thms)
  next
    case False
    then show ?thesis
      using 1 by simp
  qed
next
  case (3 x fs m)
  then show ?case by (cases x) auto
qed auto

lemma fold_upd_flds:
  "distinct (map fst fs) \<Longrightarrow> distinct (map fst conv) \<Longrightarrow> (\<And>n. n \<in> fst ` set conv \<Longrightarrow> m n = None) \<Longrightarrow>
     fold (\<lambda>(n, f). upd_flds (fields fs) n f) conv (apply_flds fs m vs)
     = apply_flds fs (m ++ map_of conv) vs"
proof (induction conv arbitrary: m)
  case (Cons c conv)
  obtain n f where c: "c = (n, f)" by (cases c)
  have eq: "m(n \<mapsto> f) ++ map_of conv = m ++ map_of (c # conv)"
    using Cons.prems(2) by (auto simp: c map_add_upd_left dom_map_of_conv_image_fst)
  have "m n = None"
    using Cons.prems(3) [of n] by (simp add: c)
  moreover have "(m(n \<mapsto> f)) k = None" if "k \<in> fst ` set conv" for k
    using Cons.prems that by (auto simp: c)
  then have "fold (\<lambda>(n, f). upd_flds (fields fs) n f) conv (apply_flds fs (m(n \<mapsto> f)) vs)
      = apply_flds fs (m(n \<mapsto> f) ++ map_of conv) vs"
    using Cons.prems by (intro Cons.IH) auto
  ultimately show ?case
    by (simp only: c fold.simps prod.case comp_apply upd_apply_flds [OF Cons.prems(1)] eq [unfolded c])
qed simp

lemma fold_upd:
  "fold (\<lambda>(n, f). upd (struct_ty fs) n f) conv (VStruct vs)
     = VStruct (fold (\<lambda>(n, f). upd_flds (fields fs) n f) conv vs)"
  by (induction conv arbitrary: vs) (auto simp: struct_ty_def)

lemma apply_flds_swap:
  "(\<forall>(n, t) \<in> set fs. conv_ok t (case m n of None \<Rightarrow> (\<lambda>v. v) | Some f \<Rightarrow> f)) \<Longrightarrow>
     well_typed_flds (fields fs) vs \<Longrightarrow> apply_flds fs m vs = map swap vs"
  by (induction fs m vs rule: apply_flds.induct) (auto dest: conv_okD split: option.splits)

lemma convert_ok:
  assumes "distinct (map fst fs)" "distinct (map fst conv)"
    "\<forall>(n, t) \<in> set fs. conv_ok t (case map_of conv n of None \<Rightarrow> (\<lambda>v. v) | Some f \<Rightarrow> f)"
  shows "conv_ok (struct_ty fs) (convert (struct_ty fs) conv)"
  unfolding conv_ok_def
proof (intro allI impI)
  fix v
  assume "well_typed (struct_ty fs) v"
  then obtain vs where v: "v = VStruct vs" and vs: "well_typed_flds (fields fs) vs"
    by (auto simp: struct_ty_def split: cval.splits)
  have "fold (\<lambda>(n, f). upd_flds (fields fs) n f) conv vs = apply_flds fs (map_of conv) vs"
    using fold_upd_flds [OF assms(1,2), of Map.empty vs] by (simp add: apply_flds_empty)
  then show "convert (struct_ty fs) conv v = swap v"
    using apply_flds_swap [OF assms(3) vs] by (simp add: v convert_def fold_upd)
qed

lemma well_typed_parse:
  "cty_size t \<le> length bs \<Longrightarrow> well_typed t (parse t bs)"
  "flds_end fs off - off \<le> length bs \<Longrightarrow> well_typed_flds fs (parses fs bs off)"
  "n * cty_size t \<le> length bs \<Longrightarrow> well_typed_all t n (parse_all t n bs)"
proof (induction t bs and fs bs off and t n bs rule: parse_parses_parse_all.induct)
  case (5 fs bs)
  then show ?case
    using round_up_ge [OF align_pos(2), of "flds_end fs 0" fs] by simp
next
  case (7 n t fs bs off)
  let ?r = "round_up (cty_align t) off"
  have "off \<le> ?r"
    by (rule round_up_ge [OF align_pos(1)])
  moreover have "?r + cty_size t \<le> flds_end fs (?r + cty_size t)"
    by (rule flds_end_ge(2))
  ultimately show ?case
    using 7 by simp
qed auto

text \<open>A codec function whose conversions are right is the reference codec.\<close>

lemma encode_body_ref:
  "conv_ok t (convert t conv) \<Longrightarrow> well_typed t v \<Longrightarrow>
     encode_body t conv True v = (fst (raw_encode t v), Some (snd (raw_encode t v)))"
  by (simp add: encode_body_def raw_encode_def Let_def conv_okD)

lemma decode_body_ref:
  assumes "conv_ok t (convert t conv)"
  shows "decode_body t conv = raw_decode t"
proof
  fix buf
  have "convert t conv (parse t (buf @ replicate (cty_size t - length buf) 0)) =
      swap (parse t (buf @ replicate (cty_size t - length buf) 0))"
    by (intro conv_okD [OF assms] well_typed_parse(1)) simp
  then show "decode_body t conv buf = raw_decode t buf"
    using buf_write_zeros [of "[]" 0 buf "cty_size t"]
    by (auto simp: decode_body_def raw_decode_def buf_write_def)
qed

end
