(* ===== verification/Sftt_Req_Resp.thy ===== *)
theory Sftt_Req_Resp
  imports Sftt_Serialize
begin

text \<open>
  The requests and responses of the protocol (\<^verbatim>\<open>src/include/req_resp.h\<close>) and their raw codecs
  (\<^verbatim>\<open>src/src/serialize_raw.c\<close>), with the table that selects a codec by packet type
  (\<^verbatim>\<open>src/src/serialize_handler.c\<close>, \<^verbatim>\<open>src/include/packet.h\<close>).

  For each struct \<open>s\<close>, \<open>s_ty\<close> is its layout, and \<open>s_raw_encode\<close>, \<open>s_raw_ntoh\<close> and \<open>s_raw_decode\<close> model
  \<^verbatim>\<open>s_raw_encode\<close>, \<^verbatim>\<open>__s_raw_decode\<close> and \<^verbatim>\<open>s_raw_decode\<close>: the list of field conversions is the sequence
  of statements of the C function. The results are that all of them convert every integer of the
  object exactly once, so that each codec of the table is the reference codec, a round trip.
\<close>

section \<open>Structs and their codecs\<close>

subsection \<open>struct version_info\<close>

definition version_info_ty :: "cty" where
  "version_info_ty = struct_ty
    [(''major'', TShort), (''minor'', TShort), (''revision'', TShort)]"

definition version_info_raw_encode :: "bool \<Rightarrow> cval \<Rightarrow> cval \<times> bytes option" where
  "version_info_raw_encode = encode_body version_info_ty
      [(''major'', hton_s), (''minor'', hton_s), (''revision'', hton_s)]"

definition version_info_raw_ntoh :: "cval \<Rightarrow> cval" where
  "version_info_raw_ntoh = convert version_info_ty
      [(''major'', hton_s), (''minor'', hton_s), (''revision'', hton_s)]"

definition version_info_raw_decode :: "bytes \<Rightarrow> c_fault + cval" where
  "version_info_raw_decode = decode_body version_info_ty
      [(''major'', hton_s), (''minor'', hton_s), (''revision'', hton_s)]"

subsection \<open>struct channel_info_req\<close>

definition channel_info_req_ty :: "cty" where
  "channel_info_req_ty = struct_ty
    [(''flags'', TInt)]"

definition channel_info_req_raw_encode :: "bool \<Rightarrow> cval \<Rightarrow> cval \<times> bytes option" where
  "channel_info_req_raw_encode = encode_body channel_info_req_ty
      [(''flags'', hton_l)]"

definition channel_info_req_raw_ntoh :: "cval \<Rightarrow> cval" where
  "channel_info_req_raw_ntoh = convert channel_info_req_ty
      [(''flags'', hton_l)]"

definition channel_info_req_raw_decode :: "bytes \<Rightarrow> c_fault + cval" where
  "channel_info_req_raw_decode = decode_body channel_info_req_ty
      [(''flags'', hton_l)]"

subsection \<open>struct channel_info_resp_data\<close>

definition channel_info_resp_data_ty :: "cty" where
  "channel_info_resp_data_ty = struct_ty
    [(''main_port'', TInt), (''second_port'', TInt)]"

definition channel_info_resp_data_raw_encode :: "bool \<Rightarrow> cval \<Rightarrow> cval \<times> bytes option" where
  "channel_info_resp_data_raw_encode = encode_body channel_info_resp_data_ty
      [(''main_port'', hton_l), (''second_port'', hton_l)]"

definition channel_info_resp_data_raw_ntoh :: "cval \<Rightarrow> cval" where
  "channel_info_resp_data_raw_ntoh = convert channel_info_resp_data_ty
      [(''main_port'', hton_l), (''second_port'', hton_l)]"

definition channel_info_resp_data_raw_decode :: "bytes \<Rightarrow> c_fault + cval" where
  "channel_info_resp_data_raw_decode = decode_body channel_info_resp_data_ty
      [(''main_port'', hton_l), (''second_port'', hton_l)]"

subsection \<open>struct channel_info_resp\<close>

definition channel_info_resp_ty :: "cty" where
  "channel_info_resp_ty = struct_ty
    [(''status'', TInt), (''flags'', TInt), (''message'', TChars 80),
     (''data'', channel_info_resp_data_ty)]"

definition channel_info_resp_raw_encode :: "bool \<Rightarrow> cval \<Rightarrow> cval \<times> bytes option" where
  "channel_info_resp_raw_encode = encode_body channel_info_resp_ty
      [(''status'', hton_l), (''flags'', hton_l),
       (''data'', (\<lambda>v. fst (channel_info_resp_data_raw_encode False v)))]"

definition channel_info_resp_raw_ntoh :: "cval \<Rightarrow> cval" where
  "channel_info_resp_raw_ntoh = convert channel_info_resp_ty
      [(''status'', hton_l), (''flags'', hton_l), (''data'', channel_info_resp_data_raw_ntoh)]"

definition channel_info_resp_raw_decode :: "bytes \<Rightarrow> c_fault + cval" where
  "channel_info_resp_raw_decode = decode_body channel_info_resp_ty
      [(''status'', hton_l), (''flags'', hton_l), (''data'', channel_info_resp_data_raw_ntoh)]"

subsection \<open>struct validate_req\<close>

definition validate_req_ty :: "cty" where
  "validate_req_ty = struct_ty
    [(''name_len'', TInt), (''passwd_len'', TInt), (''name'', TChars 32),
     (''passwd_md5'', TChars 33), (''ver'', version_info_ty)]"

definition validate_req_raw_encode :: "bool \<Rightarrow> cval \<Rightarrow> cval \<times> bytes option" where
  "validate_req_raw_encode = encode_body validate_req_ty
      [(''name_len'', hton_l), (''passwd_len'', hton_l),
       (''ver'', (\<lambda>v. fst (version_info_raw_encode False v)))]"

definition validate_req_raw_ntoh :: "cval \<Rightarrow> cval" where
  "validate_req_raw_ntoh = convert validate_req_ty
      [(''name_len'', hton_l), (''passwd_len'', hton_l), (''ver'', version_info_raw_ntoh)]"

definition validate_req_raw_decode :: "bytes \<Rightarrow> c_fault + cval" where
  "validate_req_raw_decode = decode_body validate_req_ty
      [(''name_len'', hton_l), (''passwd_len'', hton_l), (''ver'', version_info_raw_ntoh)]"

subsection \<open>struct validate_resp_data\<close>

definition validate_resp_data_ty :: "cty" where
  "validate_resp_data_ty = struct_ty
    [(''uid'', TInt), (''name'', TChars 32), (''session_id'', TChars 32),
     (''connect_id'', TChars 32), (''pwd'', TChars 1024)]"

definition validate_resp_data_raw_encode :: "bool \<Rightarrow> cval \<Rightarrow> cval \<times> bytes option" where
  "validate_resp_data_raw_encode = encode_body validate_resp_data_ty
      [(''uid'', hton_l)]"

definition validate_resp_data_raw_ntoh :: "cval \<Rightarrow> cval" where
  "validate_resp_data_raw_ntoh = convert validate_resp_data_ty
      [(''uid'', hton_l)]"

definition validate_resp_data_raw_decode :: "bytes \<Rightarrow> c_fault + cval" where
  "validate_resp_data_raw_decode = decode_body validate_resp_data_ty
      [(''uid'', hton_l)]"

subsection \<open>struct validate_resp\<close>

definition validate_resp_ty :: "cty" where
  "validate_resp_ty = struct_ty
    [(''status'', TInt), (''flags'', TInt), (''message'', TChars 80),
     (''data'', validate_resp_data_ty)]"

definition validate_resp_raw_encode :: "bool \<Rightarrow> cval \<Rightarrow> cval \<times> bytes option" where
  "validate_resp_raw_encode = encode_body validate_resp_ty
      [(''status'', hton_l), (''flags'', hton_l),
       (''data'', (\<lambda>v. fst (validate_resp_data_raw_encode False v)))]"

definition validate_resp_raw_ntoh :: "cval \<Rightarrow> cval" where
  "validate_resp_raw_ntoh = convert validate_resp_ty
      [(''status'', hton_l), (''flags'', hton_l), (''data'', validate_resp_data_raw_ntoh)]"

definition validate_resp_raw_decode :: "bytes \<Rightarrow> c_fault + cval" where
  "validate_resp_raw_decode = decode_body validate_resp_ty
      [(''status'', hton_l), (''flags'', hton_l), (''data'', validate_resp_data_raw_ntoh)]"

subsection \<open>struct append_conn_req\<close>

definition append_conn_req_ty :: "cty" where
  "append_conn_req_ty = struct_ty
    [(''session_id'', TChars 32), (''type'', TInt)]"

definition append_conn_req_raw_encode :: "bool \<Rightarrow> cval \<Rightarrow> cval \<times> bytes option" where
  "append_conn_req_raw_encode = encode_body append_conn_req_ty
      [(''type'', hton_l)]"

definition append_conn_req_raw_ntoh :: "cval \<Rightarrow> cval" where
  "append_conn_req_raw_ntoh = convert append_conn_req_ty
      [(''type'', hton_l)]"

definition append_conn_req_raw_decode :: "bytes \<Rightarrow> c_fault + cval" where
  "append_conn_req_raw_decode = decode_body append_conn_req_ty
      [(''type'', hton_l)]"

subsection \<open>struct append_conn_resp_data\<close>

definition append_conn_resp_data_ty :: "cty" where
  "append_conn_resp_data_ty = struct_ty
    [(''connect_id'', TChars 32)]"

definition append_conn_resp_data_raw_encode :: "bool \<Rightarrow> cval \<Rightarrow> cval \<times> bytes option" where
  "append_conn_resp_data_raw_encode = encode_body append_conn_resp_data_ty
      []"

definition append_conn_resp_data_raw_ntoh :: "cval \<Rightarrow> cval" where
  "append_conn_resp_data_raw_ntoh = convert append_conn_resp_data_ty
      []"

definition append_conn_resp_data_raw_decode :: "bytes \<Rightarrow> c_fault + cval" where
  "append_conn_resp_data_raw_decode = decode_body append_conn_resp_data_ty
      []"

subsection \<open>struct append_conn_resp\<close>

definition append_conn_resp_ty :: "cty" where
  "append_conn_resp_ty = struct_ty
    [(''status'', TInt), (''flags'', TInt), (''message'', TChars 80),
     (''data'', append_conn_resp_data_ty)]"

definition append_conn_resp_raw_encode :: "bool \<Rightarrow> cval \<Rightarrow> cval \<times> bytes option" where
  "append_conn_resp_raw_encode = encode_body append_conn_resp_ty
      [(''status'', hton_l), (''flags'', hton_l),
       (''data'', (\<lambda>v. fst (append_conn_resp_data_raw_encode False v)))]"

definition append_conn_resp_raw_ntoh :: "cval \<Rightarrow> cval" where
  "append_conn_resp_raw_ntoh = convert append_conn_resp_ty
      [(''status'', hton_l), (''flags'', hton_l), (''data'', append_conn_resp_data_raw_ntoh)]"

definition append_conn_resp_raw_decode :: "bytes \<Rightarrow> c_fault + cval" where
  "append_conn_resp_raw_decode = decode_body append_conn_resp_ty
      [(''status'', hton_l), (''flags'', hton_l), (''data'', append_conn_resp_data_raw_ntoh)]"

subsection \<open>struct logged_in_user\<close>

definition logged_in_user_ty :: "cty" where
  "logged_in_user_ty = struct_ty
    [(''session_id'', TChars 32), (''name'', TChars 32), (''ip'', TChars 16), (''port'', TInt)]"

definition logged_in_user_raw_encode :: "bool \<Rightarrow> cval \<Rightarrow> cval \<times> bytes option" where
  "logged_in_user_raw_encode = encode_body logged_in_user_ty
      [(''port'', hton_l)]"

definition logged_in_user_raw_ntoh :: "cval \<Rightarrow> cval" where
  "logged_in_user_raw_ntoh = convert logged_in_user_ty
      [(''port'', hton_l)]"

definition logged_in_user_raw_decode :: "bytes \<Rightarrow> c_fault + cval" where
  "logged_in_user_raw_decode = decode_body logged_in_user_ty
      [(''port'', hton_l)]"

subsection \<open>struct pwd_req\<close>

definition pwd_req_ty :: "cty" where
  "pwd_req_ty = struct_ty
    [(''session_id'', TChars 32)]"

definition pwd_req_raw_encode :: "bool \<Rightarrow> cval \<Rightarrow> cval \<times> bytes option" where
  "pwd_req_raw_encode = encode_body pwd_req_ty
      []"

definition pwd_req_raw_ntoh :: "cval \<Rightarrow> cval" where
  "pwd_req_raw_ntoh = convert pwd_req_ty
      []"

definition pwd_req_raw_decode :: "bytes \<Rightarrow> c_fault + cval" where
  "pwd_req_raw_decode = decode_body pwd_req_ty
      []"

subsection \<open>struct pwd_resp_data\<close>

definition pwd_resp_data_ty :: "cty" where
  "pwd_resp_data_ty = struct_ty
    [(''pwd'', TChars 1024)]"

definition pwd_resp_data_raw_encode :: "bool \<Rightarrow> cval \<Rightarrow> cval \<times> bytes option" where
  "pwd_resp_data_raw_encode = encode_body pwd_resp_data_ty
      []"

definition pwd_resp_data_raw_ntoh :: "cval \<Rightarrow> cval" where
  "pwd_resp_data_raw_ntoh = convert pwd_resp_data_ty
      []"

definition pwd_resp_data_raw_decode :: "bytes \<Rightarrow> c_fault + cval" where
  "pwd_resp_data_raw_decode = decode_body pwd_resp_data_ty
      []"

subsection \<open>struct pwd_resp\<close>

definition pwd_resp_ty :: "cty" where
  "pwd_resp_ty = struct_ty
    [(''status'', TInt), (''flags'', TInt), (''message'', TChars 80),
     (''data'', pwd_resp_data_ty)]"

definition pwd_resp_raw_encode :: "bool \<Rightarrow> cval \<Rightarrow> cval \<times> bytes option" where
  "pwd_resp_raw_encode = encode_body pwd_resp_ty
      [(''status'', hton_l), (''flags'', hton_l),
       (''data'', (\<lambda>v. fst (pwd_resp_data_raw_encode False v)))]"

definition pwd_resp_raw_ntoh :: "cval \<Rightarrow> cval" where
  "pwd_resp_raw_ntoh = convert pwd_resp_ty
      [(''status'', hton_l), (''flags'', hton_l), (''data'', pwd_resp_data_raw_ntoh)]"

definition pwd_resp_raw_decode :: "bytes \<Rightarrow> c_fault + cval" where
  "pwd_resp_raw_decode = decode_body pwd_resp_ty
      [(''status'', hton_l), (''flags'', hton_l), (''data'', pwd_resp_data_raw_ntoh)]"

subsection \<open>struct ll_req\<close>

definition ll_req_ty :: "cty" where
  "ll_req_ty = struct_ty
    [(''session_id'', TChars 32), (''path'', TChars 1024), (''to_peer'', TInt),
     (''user'', logged_in_user_ty)]"

definition ll_req_raw_encode :: "bool \<Rightarrow> cval \<Rightarrow> cval \<times> bytes option" where
  "ll_req_raw_encode = encode_body ll_req_ty
      [(''to_peer'', hton_l), (''user'', (\<lambda>v. fst (logged_in_user_raw_encode False v)))]"

definition ll_req_raw_ntoh :: "cval \<Rightarrow> cval" where
  "ll_req_raw_ntoh = convert ll_req_ty
      [(''to_peer'', hton_l), (''user'', logged_in_user_raw_ntoh)]"

definition ll_req_raw_decode :: "bytes \<Rightarrow> c_fault + cval" where
  "ll_req_raw_decode = decode_body ll_req_ty
      [(''to_peer'', hton_l), (''user'', logged_in_user_raw_ntoh)]"

subsection \<open>struct file_entry\<close>

definition file_entry_ty :: "cty" where
  "file_entry_ty = struct_ty
    [(''name'', TChars 256), (''type'', TInt), (''size'', TInt), (''c_time'', TInt),
     (''a_time'', TInt), (''m_time'', TInt), (''mode'', TInt)]"

definition file_entry_raw_encode :: "bool \<Rightarrow> cval \<Rightarrow> cval \<times> bytes option" where
  "file_entry_raw_encode = encode_body file_entry_ty
      [(''type'', hton_l), (''size'', hton_l), (''c_time'', hton_l), (''a_time'', hton_l),
       (''m_time'', hton_l), (''mode'', hton_l)]"

definition file_entry_raw_ntoh :: "cval \<Rightarrow> cval" where
  "file_entry_raw_ntoh = convert file_entry_ty
      [(''type'', hton_l), (''size'', hton_l), (''c_time'', hton_l), (''a_time'', hton_l),
       (''m_time'', hton_l), (''mode'', hton_l)]"

definition file_entry_raw_decode :: "bytes \<Rightarrow> c_fault + cval" where
  "file_entry_raw_decode = decode_body file_entry_ty
      [(''type'', hton_l), (''size'', hton_l), (''c_time'', hton_l), (''a_time'', hton_l),
       (''m_time'', hton_l), (''mode'', hton_l)]"

subsection \<open>struct ll_resp_data\<close>

definition ll_resp_data_ty :: "cty" where
  "ll_resp_data_ty = struct_ty
    [(''total'', TInt), (''this_nr'', TInt), (''entries'', TArray 16 file_entry_ty)]"

definition ll_resp_data_raw_encode :: "bool \<Rightarrow> cval \<Rightarrow> cval \<times> bytes option" where
  "ll_resp_data_raw_encode = encode_body ll_resp_data_ty
      [(''total'', hton_l), (''this_nr'', hton_l),
       (''entries'', each 16 (\<lambda>v. fst (file_entry_raw_encode False v)))]"

definition ll_resp_data_raw_ntoh :: "cval \<Rightarrow> cval" where
  "ll_resp_data_raw_ntoh = convert ll_resp_data_ty
      [(''total'', hton_l), (''this_nr'', hton_l), (''entries'', each 16 file_entry_raw_ntoh)]"

definition ll_resp_data_raw_decode :: "bytes \<Rightarrow> c_fault + cval" where
  "ll_resp_data_raw_decode = decode_body ll_resp_data_ty
      [(''total'', hton_l), (''this_nr'', hton_l), (''entries'', each 16 file_entry_raw_ntoh)]"

subsection \<open>struct ll_resp\<close>

definition ll_resp_ty :: "cty" where
  "ll_resp_ty = struct_ty
    [(''status'', TInt), (''flags'', TInt), (''message'', TChars 80),
     (''data'', ll_resp_data_ty)]"

definition ll_resp_raw_encode :: "bool \<Rightarrow> cval \<Rightarrow> cval \<times> bytes option" where
  "ll_resp_raw_encode = encode_body ll_resp_ty
      [(''status'', hton_l), (''flags'', hton_l),
       (''data'', (\<lambda>v. fst (ll_resp_data_raw_encode False v)))]"

definition ll_resp_raw_ntoh :: "cval \<Rightarrow> cval" where
  "ll_resp_raw_ntoh = convert ll_resp_ty
      [(''status'', hton_l), (''flags'', hton_l), (''data'', ll_resp_data_raw_ntoh)]"

definition ll_resp_raw_decode :: "bytes \<Rightarrow> c_fault + cval" where
  "ll_resp_raw_decode = decode_body ll_resp_ty
      [(''status'', hton_l), (''flags'', hton_l), (''data'', ll_resp_data_raw_ntoh)]"

subsection \<open>struct cd_req\<close>

definition cd_req_ty :: "cty" where
  "cd_req_ty = struct_ty
    [(''session_id'', TChars 32), (''path'', TChars 1024)]"

definition cd_req_raw_encode :: "bool \<Rightarrow> cval \<Rightarrow> cval \<times> bytes option" where
  "cd_req_raw_encode = encode_body cd_req_ty
      []"

definition cd_req_raw_ntoh :: "cval \<Rightarrow> cval" where
  "cd_req_raw_ntoh = convert cd_req_ty
      []"

definition cd_req_raw_decode :: "bytes \<Rightarrow> c_fault + cval" where
  "cd_req_raw_decode = decode_body cd_req_ty
      []"

subsection \<open>struct cd_resp_data\<close>

definition cd_resp_data_ty :: "cty" where
  "cd_resp_data_ty = struct_ty
    [(''pwd'', TChars 1024)]"

definition cd_resp_data_raw_encode :: "bool \<Rightarrow> cval \<Rightarrow> cval \<times> bytes option" where
  "cd_resp_data_raw_encode = encode_body cd_resp_data_ty
      []"

definition cd_resp_data_raw_ntoh :: "cval \<Rightarrow> cval" where
  "cd_resp_data_raw_ntoh = convert cd_resp_data_ty
      []"

definition cd_resp_data_raw_decode :: "bytes \<Rightarrow> c_fault + cval" where
  "cd_resp_data_raw_decode = decode_body cd_resp_data_ty
      []"

subsection \<open>struct cd_resp\<close>

definition cd_resp_ty :: "cty" where
  "cd_resp_ty = struct_ty
    [(''status'', TInt), (''flags'', TInt), (''message'', TChars 80),
     (''data'', cd_resp_data_ty)]"

definition cd_resp_raw_encode :: "bool \<Rightarrow> cval \<Rightarrow> cval \<times> bytes option" where
  "cd_resp_raw_encode = encode_body cd_resp_ty
      [(''status'', hton_l), (''flags'', hton_l),
       (''data'', (\<lambda>v. fst (cd_resp_data_raw_encode False v)))]"

definition cd_resp_raw_ntoh :: "cval \<Rightarrow> cval" where
  "cd_resp_raw_ntoh = convert cd_resp_ty
      [(''status'', hton_l), (''flags'', hton_l), (''data'', cd_resp_data_raw_ntoh)]"

definition cd_resp_raw_decode :: "bytes \<Rightarrow> c_fault + cval" where
  "cd_resp_raw_decode = decode_body cd_resp_ty
      [(''status'', hton_l), (''flags'', hton_l), (''data'', cd_resp_data_raw_ntoh)]"

subsection \<open>struct get_req\<close>

definition get_req_ty :: "cty" where
  "get_req_ty = struct_ty
    [(''session_id'', TChars 32), (''path'', TChars 1024), (''to_peer'', TInt),
     (''user'', logged_in_user_ty)]"

definition get_req_raw_encode :: "bool \<Rightarrow> cval \<Rightarrow> cval \<times> bytes option" where
  "get_req_raw_encode = encode_body get_req_ty
      [(''to_peer'', hton_l), (''user'', (\<lambda>v. fst (logged_in_user_raw_encode False v)))]"

definition get_req_raw_ntoh :: "cval \<Rightarrow> cval" where
  "get_req_raw_ntoh = convert get_req_ty
      [(''to_peer'', hton_l), (''user'', logged_in_user_raw_ntoh)]"

definition get_req_raw_decode :: "bytes \<Rightarrow> c_fault + cval" where
  "get_req_raw_decode = decode_body get_req_ty
      [(''to_peer'', hton_l), (''user'', logged_in_user_raw_ntoh)]"

subsection \<open>struct trans_entry\<close>

definition trans_entry_ty :: "cty" where
  "trans_entry_ty = struct_ty
    [(''type'', TInt), (''this_size'', TInt), (''mode'', TInt), (''total_size'', TInt),
     (''content'', TChars 2048)]"

definition trans_entry_raw_encode :: "bool \<Rightarrow> cval \<Rightarrow> cval \<times> bytes option" where
  "trans_entry_raw_encode = encode_body trans_entry_ty
      [(''type'', hton_l), (''this_size'', hton_l), (''mode'', hton_l), (''total_size'', hton_l)]"

definition trans_entry_raw_ntoh :: "cval \<Rightarrow> cval" where
  "trans_entry_raw_ntoh = convert trans_entry_ty
      [(''type'', hton_l), (''this_size'', hton_l), (''mode'', hton_l), (''total_size'', hton_l)]"

definition trans_entry_raw_decode :: "bytes \<Rightarrow> c_fault + cval" where
  "trans_entry_raw_decode = decode_body trans_entry_ty
      [(''type'', hton_l), (''this_size'', hton_l), (''mode'', hton_l), (''total_size'', hton_l)]"

subsection \<open>struct get_resp_data\<close>

definition get_resp_data_ty :: "cty" where
  "get_resp_data_ty = struct_ty
    [(''total_files'', TInt), (''file_idx'', TInt), (''entry'', trans_entry_ty)]"

definition get_resp_data_raw_encode :: "bool \<Rightarrow> cval \<Rightarrow> cval \<times> bytes option" where
  "get_resp_data_raw_encode = encode_body get_resp_data_ty
      [(''total_files'', hton_l), (''file_idx'', hton_l),
       (''entry'', (\<lambda>v. fst (trans_entry_raw_encode False v)))]"

definition get_resp_data_raw_ntoh :: "cval \<Rightarrow> cval" where
  "get_resp_data_raw_ntoh = convert get_resp_data_ty
      [(''total_files'', hton_l), (''file_idx'', hton_l), (''entry'', trans_entry_raw_ntoh)]"

definition get_resp_data_raw_decode :: "bytes \<Rightarrow> c_fault + cval" where
  "get_resp_data_raw_decode = decode_body get_resp_data_ty
      [(''total_files'', hton_l), (''file_idx'', hton_l), (''entry'', trans_entry_raw_ntoh)]"

subsection \<open>struct get_resp\<close>

definition get_resp_ty :: "cty" where
  "get_resp_ty = struct_ty
    [(''status'', TInt), (''flags'', TInt), (''message'', TChars 80),
     (''data'', get_resp_data_ty), (''need_reply'', TInt)]"

definition get_resp_raw_encode :: "bool \<Rightarrow> cval \<Rightarrow> cval \<times> bytes option" where
  "get_resp_raw_encode = encode_body get_resp_ty
      [(''status'', hton_l), (''flags'', hton_l),
       (''data'', (\<lambda>v. fst (get_resp_data_raw_encode False v))),
       (''need_reply'', hton_l)]"

definition get_resp_raw_ntoh :: "cval \<Rightarrow> cval" where
  "get_resp_raw_ntoh = convert get_resp_ty
      [(''status'', hton_l), (''flags'', hton_l), (''data'', get_resp_data_raw_ntoh),
       (''need_reply'', hton_l)]"

definition get_resp_raw_decode :: "bytes \<Rightarrow> c_fault + cval" where
  "get_resp_raw_decode = decode_body get_resp_ty
      [(''status'', hton_l), (''flags'', hton_l), (''data'', get_resp_data_raw_ntoh),
       (''need_reply'', hton_l)]"

subsection \<open>struct put_req_data\<close>

definition put_req_data_ty :: "cty" where
  "put_req_data_ty = struct_ty
    [(''total_files'', TInt), (''file_idx'', TInt), (''entry'', trans_entry_ty)]"

definition put_req_data_raw_encode :: "bool \<Rightarrow> cval \<Rightarrow> cval \<times> bytes option" where
  "put_req_data_raw_encode = encode_body put_req_data_ty
      [(''total_files'', hton_l), (''file_idx'', hton_l),
       (''entry'', (\<lambda>v. fst (trans_entry_raw_encode False v)))]"

definition put_req_data_raw_ntoh :: "cval \<Rightarrow> cval" where
  "put_req_data_raw_ntoh = convert put_req_data_ty
      [(''total_files'', hton_l), (''file_idx'', hton_l), (''entry'', trans_entry_raw_ntoh)]"

definition put_req_data_raw_decode :: "bytes \<Rightarrow> c_fault + cval" where
  "put_req_data_raw_decode = decode_body put_req_data_ty
      [(''total_files'', hton_l), (''file_idx'', hton_l), (''entry'', trans_entry_raw_ntoh)]"

subsection \<open>struct put_req\<close>

definition put_req_ty :: "cty" where
  "put_req_ty = struct_ty
    [(''session_id'', TChars 32), (''to_peer'', TInt), (''user'', logged_in_user_ty),
     (''data'', put_req_data_ty), (''flags'', TInt), (''need_reply'', TInt)]"

definition put_req_raw_encode :: "bool \<Rightarrow> cval \<Rightarrow> cval \<times> bytes option" where
  "put_req_raw_encode = encode_body put_req_ty
      [(''to_peer'', hton_l), (''user'', (\<lambda>v. fst (logged_in_user_raw_encode False v))),
       (''data'', (\<lambda>v. fst (put_req_data_raw_encode False v))), (''flags'', hton_l),
       (''need_reply'', hton_l)]"

definition put_req_raw_ntoh :: "cval \<Rightarrow> cval" where
  "put_req_raw_ntoh = convert put_req_ty
      [(''to_peer'', hton_l), (''user'', logged_in_user_raw_ntoh),
       (''data'', put_req_data_raw_ntoh), (''flags'', hton_l), (''need_reply'', hton_l)]"

definition put_req_raw_decode :: "bytes \<Rightarrow> c_fault + cval" where
  "put_req_raw_decode = decode_body put_req_ty
      [(''to_peer'', hton_l), (''user'', logged_in_user_raw_ntoh),
       (''data'', put_req_data_raw_ntoh), (''flags'', hton_l), (''need_reply'', hton_l)]"

subsection \<open>struct put_resp\<close>

definition put_resp_ty :: "cty" where
  "put_resp_ty = struct_ty
    [(''status'', TInt), (''flags'', TInt), (''message'', TChars 80)]"

definition put_resp_raw_encode :: "bool \<Rightarrow> cval \<Rightarrow> cval \<times> bytes option" where
  "put_resp_raw_encode = encode_body put_resp_ty
      [(''status'', hton_l), (''flags'', hton_l)]"

definition put_resp_raw_ntoh :: "cval \<Rightarrow> cval" where
  "put_resp_raw_ntoh = convert put_resp_ty
      [(''status'', hton_l), (''flags'', hton_l)]"

definition put_resp_raw_decode :: "bytes \<Rightarrow> c_fault + cval" where
  "put_resp_raw_decode = decode_body put_resp_ty
      [(''status'', hton_l), (''flags'', hton_l)]"

subsection \<open>struct common_resp\<close>

definition common_resp_ty :: "cty" where
  "common_resp_ty = struct_ty
    [(''status'', TInt), (''flags'', TInt), (''message'', TChars 80)]"

definition common_resp_raw_encode :: "bool \<Rightarrow> cval \<Rightarrow> cval \<times> bytes option" where
  "common_resp_raw_encode = encode_body common_resp_ty
      [(''status'', hton_l), (''flags'', hton_l)]"

definition common_resp_raw_ntoh :: "cval \<Rightarrow> cval" where
  "common_resp_raw_ntoh = convert common_resp_ty
      [(''status'', hton_l), (''flags'', hton_l)]"

definition common_resp_raw_decode :: "bytes \<Rightarrow> c_fault + cval" where
  "common_resp_raw_decode = decode_body common_resp_ty
      [(''status'', hton_l), (''flags'', hton_l)]"

subsection \<open>struct write_msg_req\<close>

definition write_msg_req_ty :: "cty" where
  "write_msg_req_ty = struct_ty
    [(''mtype'', TInt), (''name'', TChars 16), (''pid'', TInt), (''length'', TInt),
     (''mtext'', TChars 1024)]"

definition write_msg_req_raw_encode :: "bool \<Rightarrow> cval \<Rightarrow> cval \<times> bytes option" where
  "write_msg_req_raw_encode = encode_body write_msg_req_ty
      [(''mtype'', hton_l), (''pid'', hton_l), (''length'', hton_l)]"

definition write_msg_req_raw_ntoh :: "cval \<Rightarrow> cval" where
  "write_msg_req_raw_ntoh = convert write_msg_req_ty
      [(''mtype'', hton_l), (''pid'', hton_l), (''length'', hton_l)]"

definition write_msg_req_raw_decode :: "bytes \<Rightarrow> c_fault + cval" where
  "write_msg_req_raw_decode = decode_body write_msg_req_ty
      [(''mtype'', hton_l), (''pid'', hton_l), (''length'', hton_l)]"

subsection \<open>struct read_msg_req\<close>

definition read_msg_req_ty :: "cty" where
  "read_msg_req_ty = struct_ty
    [(''mtype'', TInt)]"

definition read_msg_req_raw_encode :: "bool \<Rightarrow> cval \<Rightarrow> cval \<times> bytes option" where
  "read_msg_req_raw_encode = encode_body read_msg_req_ty
      [(''mtype'', hton_l)]"

definition read_msg_req_raw_ntoh :: "cval \<Rightarrow> cval" where
  "read_msg_req_raw_ntoh = convert read_msg_req_ty
      [(''mtype'', hton_l)]"

definition read_msg_req_raw_decode :: "bytes \<Rightarrow> c_fault + cval" where
  "read_msg_req_raw_decode = decode_body read_msg_req_ty
      [(''mtype'', hton_l)]"

subsection \<open>struct read_msg_resp_data\<close>

definition read_msg_resp_data_ty :: "cty" where
  "read_msg_resp_data_ty = struct_ty
    [(''mtype'', TInt), (''name'', TChars 16), (''pid'', TInt), (''length'', TInt),
     (''mtext'', TChars 1024)]"

definition read_msg_resp_data_raw_encode :: "bool \<Rightarrow> cval \<Rightarrow> cval \<times> bytes option" where
  "read_msg_resp_data_raw_encode = encode_body read_msg_resp_data_ty
      [(''mtype'', hton_l), (''pid'', hton_l), (''length'', hton_l)]"

definition read_msg_resp_data_raw_ntoh :: "cval \<Rightarrow> cval" where
  "read_msg_resp_data_raw_ntoh = convert read_msg_resp_data_ty
      [(''mtype'', hton_l), (''pid'', hton_l), (''length'', hton_l)]"

definition read_msg_resp_data_raw_decode :: "bytes \<Rightarrow> c_fault + cval" where
  "read_msg_resp_data_raw_decode = decode_body read_msg_resp_data_ty
      [(''mtype'', hton_l), (''pid'', hton_l), (''length'', hton_l)]"

subsection \<open>struct read_msg_resp\<close>

definition read_msg_resp_ty :: "cty" where
  "read_msg_resp_ty = struct_ty
    [(''status'', TInt), (''flags'', TInt), (''message'', TChars 80),
     (''data'', read_msg_resp_data_ty)]"

definition read_msg_resp_raw_encode :: "bool \<Rightarrow> cval \<Rightarrow> cval \<times> bytes option" where
  "read_msg_resp_raw_encode = encode_body read_msg_resp_ty
      [(''status'', hton_l), (''flags'', hton_l),
       (''data'', (\<lambda>v. fst (read_msg_resp_data_raw_encode False v)))]"

definition read_msg_resp_raw_ntoh :: "cval \<Rightarrow> cval" where
  "read_msg_resp_raw_ntoh = convert read_msg_resp_ty
      [(''status'', hton_l), (''flags'', hton_l), (''data'', read_msg_resp_data_raw_ntoh)]"

definition read_msg_resp_raw_decode :: "bytes \<Rightarrow> c_fault + cval" where
  "read_msg_resp_raw_decode = decode_body read_msg_resp_ty
      [(''status'', hton_l), (''flags'', hton_l), (''data'', read_msg_resp_data_raw_ntoh)]"

subsection \<open>struct mp_stat_req\<close>

definition mp_stat_req_ty :: "cty" where
  "mp_stat_req_ty = struct_ty
    [(''session_id'', TChars 32)]"

definition mp_stat_req_raw_encode :: "bool \<Rightarrow> cval \<Rightarrow> cval \<times> bytes option" where
  "mp_stat_req_raw_encode = encode_body mp_stat_req_ty
      []"

definition mp_stat_req_raw_ntoh :: "cval \<Rightarrow> cval" where
  "mp_stat_req_raw_ntoh = convert mp_stat_req_ty
      []"

definition mp_stat_req_raw_decode :: "bytes \<Rightarrow> c_fault + cval" where
  "mp_stat_req_raw_decode = decode_body mp_stat_req_ty
      []"

subsection \<open>struct mp_stat_resp_data\<close>

definition mp_stat_resp_data_ty :: "cty" where
  "mp_stat_resp_data_ty = struct_ty
    [(''total_size'', TInt), (''total_nodes'', TInt), (''using_nodes'', TInt),
     (''free_nodes'', TInt)]"

definition mp_stat_resp_data_raw_encode :: "bool \<Rightarrow> cval \<Rightarrow> cval \<times> bytes option" where
  "mp_stat_resp_data_raw_encode = encode_body mp_stat_resp_data_ty
      [(''total_size'', hton_l), (''total_nodes'', hton_l), (''using_nodes'', hton_l),
       (''free_nodes'', hton_l)]"

definition mp_stat_resp_data_raw_ntoh :: "cval \<Rightarrow> cval" where
  "mp_stat_resp_data_raw_ntoh = convert mp_stat_resp_data_ty
      [(''total_size'', hton_l), (''total_nodes'', hton_l), (''using_nodes'', hton_l),
       (''free_nodes'', hton_l)]"

definition mp_stat_resp_data_raw_decode :: "bytes \<Rightarrow> c_fault + cval" where
  "mp_stat_resp_data_raw_decode = decode_body mp_stat_resp_data_ty
      [(''total_size'', hton_l), (''total_nodes'', hton_l), (''using_nodes'', hton_l),
       (''free_nodes'', hton_l)]"

subsection \<open>struct mp_stat_resp\<close>

definition mp_stat_resp_ty :: "cty" where
  "mp_stat_resp_ty = struct_ty
    [(''status'', TInt), (''flags'', TInt), (''message'', TChars 80),
     (''data'', mp_stat_resp_data_ty)]"

definition mp_stat_resp_raw_encode :: "bool \<Rightarrow> cval \<Rightarrow> cval \<times> bytes option" where
  "mp_stat_resp_raw_encode = encode_body mp_stat_resp_ty
      [(''status'', hton_l), (''flags'', hton_l),
       (''data'', (\<lambda>v. fst (mp_stat_resp_data_raw_encode False v)))]"

definition mp_stat_resp_raw_ntoh :: "cval \<Rightarrow> cval" where
  "mp_stat_resp_raw_ntoh = convert mp_stat_resp_ty
      [(''status'', hton_l), (''flags'', hton_l), (''data'', mp_stat_resp_data_raw_ntoh)]"

definition mp_stat_resp_raw_decode :: "bytes \<Rightarrow> c_fault + cval" where
  "mp_stat_resp_raw_decode = decode_body mp_stat_resp_ty
      [(''status'', hton_l), (''flags'', hton_l), (''data'', mp_stat_resp_data_raw_ntoh)]"

subsection \<open>struct directcmd_req\<close>

definition directcmd_req_ty :: "cty" where
  "directcmd_req_ty = struct_ty
    [(''session_id'', TChars 32), (''cmd'', TChars 1024)]"

definition directcmd_req_raw_encode :: "bool \<Rightarrow> cval \<Rightarrow> cval \<times> bytes option" where
  "directcmd_req_raw_encode = encode_body directcmd_req_ty
      []"

definition directcmd_req_raw_ntoh :: "cval \<Rightarrow> cval" where
  "directcmd_req_raw_ntoh = convert directcmd_req_ty
      []"

definition directcmd_req_raw_decode :: "bytes \<Rightarrow> c_fault + cval" where
  "directcmd_req_raw_decode = decode_body directcmd_req_ty
      []"

subsection \<open>struct directcmd_resp_data\<close>

definition directcmd_resp_data_ty :: "cty" where
  "directcmd_resp_data_ty = struct_ty
    [(''total_len'', TInt), (''this_len'', TInt), (''content'', TChars 1024)]"

definition directcmd_resp_data_raw_encode :: "bool \<Rightarrow> cval \<Rightarrow> cval \<times> bytes option" where
  "directcmd_resp_data_raw_encode = encode_body directcmd_resp_data_ty
      [(''total_len'', hton_l), (''this_len'', hton_l)]"

definition directcmd_resp_data_raw_ntoh :: "cval \<Rightarrow> cval" where
  "directcmd_resp_data_raw_ntoh = convert directcmd_resp_data_ty
      [(''total_len'', hton_l), (''this_len'', hton_l)]"

definition directcmd_resp_data_raw_decode :: "bytes \<Rightarrow> c_fault + cval" where
  "directcmd_resp_data_raw_decode = decode_body directcmd_resp_data_ty
      [(''total_len'', hton_l), (''this_len'', hton_l)]"

subsection \<open>struct directcmd_resp\<close>

definition directcmd_resp_ty :: "cty" where
  "directcmd_resp_ty = struct_ty
    [(''status'', TInt), (''flags'', TInt), (''message'', TChars 80),
     (''data'', directcmd_resp_data_ty)]"

definition directcmd_resp_raw_encode :: "bool \<Rightarrow> cval \<Rightarrow> cval \<times> bytes option" where
  "directcmd_resp_raw_encode = encode_body directcmd_resp_ty
      [(''status'', hton_l), (''flags'', hton_l),
       (''data'', (\<lambda>v. fst (directcmd_resp_data_raw_encode False v)))]"

definition directcmd_resp_raw_ntoh :: "cval \<Rightarrow> cval" where
  "directcmd_resp_raw_ntoh = convert directcmd_resp_ty
      [(''status'', hton_l), (''flags'', hton_l), (''data'', directcmd_resp_data_raw_ntoh)]"

definition directcmd_resp_raw_decode :: "bytes \<Rightarrow> c_fault + cval" where
  "directcmd_resp_raw_decode = decode_body directcmd_resp_ty
      [(''status'', hton_l), (''flags'', hton_l), (''data'', directcmd_resp_data_raw_ntoh)]"

subsection \<open>struct who_req\<close>

definition who_req_ty :: "cty" where
  "who_req_ty = struct_ty
    [(''session_id'', TChars 32)]"

definition who_req_raw_encode :: "bool \<Rightarrow> cval \<Rightarrow> cval \<times> bytes option" where
  "who_req_raw_encode = encode_body who_req_ty
      []"

definition who_req_raw_ntoh :: "cval \<Rightarrow> cval" where
  "who_req_raw_ntoh = convert who_req_ty
      []"

definition who_req_raw_decode :: "bytes \<Rightarrow> c_fault + cval" where
  "who_req_raw_decode = decode_body who_req_ty
      []"

subsection \<open>struct who_resp_data\<close>

definition who_resp_data_ty :: "cty" where
  "who_resp_data_ty = struct_ty
    [(''total'', TInt), (''this_nr'', TInt), (''users'', TArray 32 logged_in_user_ty)]"

definition who_resp_data_raw_encode :: "bool \<Rightarrow> cval \<Rightarrow> cval \<times> bytes option" where
  "who_resp_data_raw_encode = encode_body who_resp_data_ty
      [(''total'', hton_l), (''this_nr'', hton_l),
       (''users'', each 32 (\<lambda>v. fst (logged_in_user_raw_encode False v)))]"

definition who_resp_data_raw_ntoh :: "cval \<Rightarrow> cval" where
  "who_resp_data_raw_ntoh = convert who_resp_data_ty
      [(''total'', hton_l), (''this_nr'', hton_l), (''users'', each 32 logged_in_user_raw_ntoh)]"

definition who_resp_data_raw_decode :: "bytes \<Rightarrow> c_fault + cval" where
  "who_resp_data_raw_decode = decode_body who_resp_data_ty
      [(''total'', hton_l), (''this_nr'', hton_l), (''users'', each 32 logged_in_user_raw_ntoh)]"

subsection \<open>struct who_resp\<close>

definition who_resp_ty :: "cty" where
  "who_resp_ty = struct_ty
    [(''status'', TInt), (''flags'', TInt), (''message'', TChars 80),
     (''data'', who_resp_data_ty)]"

definition who_resp_raw_encode :: "bool \<Rightarrow> cval \<Rightarrow> cval \<times> bytes option" where
  "who_resp_raw_encode = encode_body who_resp_ty
      [(''status'', hton_l), (''flags'', hton_l),
       (''data'', (\<lambda>v. fst (who_resp_data_raw_encode False v)))]"

definition who_resp_raw_ntoh :: "cval \<Rightarrow> cval" where
  "who_resp_raw_ntoh = convert who_resp_ty
      [(''status'', hton_l), (''flags'', hton_l), (''data'', who_resp_data_raw_ntoh)]"

definition who_resp_raw_decode :: "bytes \<Rightarrow> c_fault + cval" where
  "who_resp_raw_decode = decode_body who_resp_ty
      [(''status'', hton_l), (''flags'', hton_l), (''data'', who_resp_data_raw_ntoh)]"

subsection \<open>struct write_req\<close>

definition write_req_ty :: "cty" where
  "write_req_ty = struct_ty
    [(''user'', logged_in_user_ty), (''len'', TInt), (''message'', TChars 4096)]"

definition write_req_raw_encode :: "bool \<Rightarrow> cval \<Rightarrow> cval \<times> bytes option" where
  "write_req_raw_encode = encode_body write_req_ty
      [(''user'', (\<lambda>v. fst (logged_in_user_raw_encode False v))), (''len'', hton_l)]"

definition write_req_raw_ntoh :: "cval \<Rightarrow> cval" where
  "write_req_raw_ntoh = convert write_req_ty
      [(''user'', logged_in_user_raw_ntoh), (''len'', hton_l)]"

definition write_req_raw_decode :: "bytes \<Rightarrow> c_fault + cval" where
  "write_req_raw_decode = decode_body write_req_ty
      [(''user'', logged_in_user_raw_ntoh), (''len'', hton_l)]"

subsection \<open>struct write_resp_data\<close>

definition write_resp_data_ty :: "cty" where
  "write_resp_data_ty = struct_ty
    [(''message'', TChars 4096)]"

definition write_resp_data_raw_encode :: "bool \<Rightarrow> cval \<Rightarrow> cval \<times> bytes option" where
  "write_resp_data_raw_encode = encode_body write_resp_data_ty
      []"

definition write_resp_data_raw_ntoh :: "cval \<Rightarrow> cval" where
  "write_resp_data_raw_ntoh = convert write_resp_data_ty
      []"

definition write_resp_data_raw_decode :: "bytes \<Rightarrow> c_fault + cval" where
  "write_resp_data_raw_decode = decode_body write_resp_data_ty
      []"

subsection \<open>struct write_resp\<close>

definition write_resp_ty :: "cty" where
  "write_resp_ty = struct_ty
    [(''status'', TInt), (''flags'', TInt), (''message'', TChars 80),
     (''data'', write_resp_data_ty)]"

definition write_resp_raw_encode :: "bool \<Rightarrow> cval \<Rightarrow> cval \<times> bytes option" where
  "write_resp_raw_encode = encode_body write_resp_ty
      [(''status'', hton_l), (''flags'', hton_l),
       (''data'', (\<lambda>v. fst (write_resp_data_raw_encode False v)))]"

definition write_resp_raw_ntoh :: "cval \<Rightarrow> cval" where
  "write_resp_raw_ntoh = convert write_resp_ty
      [(''status'', hton_l), (''flags'', hton_l), (''data'', write_resp_data_raw_ntoh)]"

definition write_resp_raw_decode :: "bytes \<Rightarrow> c_fault + cval" where
  "write_resp_raw_decode = decode_body write_resp_ty
      [(''status'', hton_l), (''flags'', hton_l), (''data'', write_resp_data_raw_ntoh)]"

subsection \<open>struct port_update_req\<close>

definition port_update_req_ty :: "cty" where
  "port_update_req_ty = struct_ty
    [(''second_port'', TInt)]"

definition port_update_req_raw_encode :: "bool \<Rightarrow> cval \<Rightarrow> cval \<times> bytes option" where
  "port_update_req_raw_encode = encode_body port_update_req_ty
      [(''second_port'', hton_l)]"

definition port_update_req_raw_ntoh :: "cval \<Rightarrow> cval" where
  "port_update_req_raw_ntoh = convert port_update_req_ty
      [(''second_port'', hton_l)]"

definition port_update_req_raw_decode :: "bytes \<Rightarrow> c_fault + cval" where
  "port_update_req_raw_decode = decode_body port_update_req_ty
      [(''second_port'', hton_l)]"

subsection \<open>struct port_update_resp\<close>

definition port_update_resp_ty :: "cty" where
  "port_update_resp_ty = struct_ty
    [(''status'', TInt), (''flags'', TInt), (''message'', TChars 80)]"

definition port_update_resp_raw_encode :: "bool \<Rightarrow> cval \<Rightarrow> cval \<times> bytes option" where
  "port_update_resp_raw_encode = encode_body port_update_resp_ty
      [(''status'', hton_l), (''flags'', hton_l)]"

definition port_update_resp_raw_ntoh :: "cval \<Rightarrow> cval" where
  "port_update_resp_raw_ntoh = convert port_update_resp_ty
      [(''status'', hton_l), (''flags'', hton_l)]"

definition port_update_resp_raw_decode :: "bytes \<Rightarrow> c_fault + cval" where
  "port_update_resp_raw_decode = decode_body port_update_resp_ty
      [(''status'', hton_l), (''flags'', hton_l)]"

subsection \<open>struct reconnect_req\<close>

definition reconnect_req_ty :: "cty" where
  "reconnect_req_ty = struct_ty
    [(''session_id'', TChars 32), (''connect_id'', TChars 32)]"

definition reconnect_req_raw_encode :: "bool \<Rightarrow> cval \<Rightarrow> cval \<times> bytes option" where
  "reconnect_req_raw_encode = encode_body reconnect_req_ty
      []"

definition reconnect_req_raw_ntoh :: "cval \<Rightarrow> cval" where
  "reconnect_req_raw_ntoh = convert reconnect_req_ty
      []"

definition reconnect_req_raw_decode :: "bytes \<Rightarrow> c_fault + cval" where
  "reconnect_req_raw_decode = decode_body reconnect_req_ty
      []"

subsection \<open>struct reconnect_resp\<close>

definition reconnect_resp_ty :: "cty" where
  "reconnect_resp_ty = struct_ty
    [(''status'', TInt), (''flags'', TInt), (''message'', TChars 80)]"

definition reconnect_resp_raw_encode :: "bool \<Rightarrow> cval \<Rightarrow> cval \<times> bytes option" where
  "reconnect_resp_raw_encode = encode_body reconnect_resp_ty
      [(''status'', hton_l), (''flags'', hton_l)]"

definition reconnect_resp_raw_ntoh :: "cval \<Rightarrow> cval" where
  "reconnect_resp_raw_ntoh = convert reconnect_resp_ty
      [(''status'', hton_l), (''flags'', hton_l)]"

definition reconnect_resp_raw_decode :: "bytes \<Rightarrow> c_fault + cval" where
  "reconnect_resp_raw_decode = decode_body reconnect_resp_ty
      [(''status'', hton_l), (''flags'', hton_l)]"

section \<open>Packet types and handlers\<close>

datatype packet_type =
    PACKET_TYPE_VALIDATE_REQ
  | PACKET_TYPE_VALIDATE_RESP
  | PACKET_TYPE_FILE_NAME_REQ
  | PACKET_TYPE_FILE_NAME_RESP
  | PACKET_TYPE_DATA_REQ
  | PACKET_TYPE_DATA_RESP
  | PACKET_TYPE_FILE_END_REQ
  | PACKET_TYPE_FILE_END_RESP
  | PACKET_TYPE_SEND_COMPLETE_REQ
  | PACKET_TYPE_SEND_COMPLETE_RESP
  | PACKET_TYPE_PWD_REQ
  | PACKET_TYPE_PWD_RESP
  | PACKET_TYPE_CD_REQ
  | PACKET_TYPE_CD_RESP
  | PACKET_TYPE_LL_REQ
  | PACKET_TYPE_LL_RESP
  | PACKET_TYPE_PUT_REQ
  | PACKET_TYPE_PUT_RESP
  | PACKET_TYPE_GET_REQ
  | PACKET_TYPE_GET_RESP
  | PACKET_TYPE_COMMON_RESP
  | PACKET_TYPE_WRITE_MSG_REQ
  | PACKET_TYPE_READ_MSG_REQ
  | PACKET_TYPE_READ_MSG_RESP
  | PACKET_TYPE_MP_STAT_REQ
  | PACKET_TYPE_MP_STAT_RESP
  | PACKET_TYPE_DIRECTCMD_REQ
  | PACKET_TYPE_DIRECTCMD_RESP
  | PACKET_TYPE_WHO_REQ
  | PACKET_TYPE_WHO_RESP
  | PACKET_TYPE_WRITE_REQ
  | PACKET_TYPE_WRITE_RESP
  | PACKET_TYPE_APPEND_CONN_REQ
  | PACKET_TYPE_APPEND_CONN_RESP
  | PACKET_TYPE_CHANNEL_INFO_REQ
  | PACKET_TYPE_CHANNEL_INFO_RESP
  | PACKET_TYPE_PORT_UPDATE_REQ
  | PACKET_TYPE_PORT_UPDATE_RESP
  | PACKET_TYPE_RECONNECT_REQ
  | PACKET_TYPE_RECONNECT_RESP

fun packet_code :: "packet_type \<Rightarrow> int" where
  "packet_code PACKET_TYPE_VALIDATE_REQ = 0"
| "packet_code PACKET_TYPE_VALIDATE_RESP = 1"
| "packet_code PACKET_TYPE_FILE_NAME_REQ = 2"
| "packet_code PACKET_TYPE_FILE_NAME_RESP = 3"
| "packet_code PACKET_TYPE_DATA_REQ = 4"
| "packet_code PACKET_TYPE_DATA_RESP = 5"
| "packet_code PACKET_TYPE_FILE_END_REQ = 6"
| "packet_code PACKET_TYPE_FILE_END_RESP = 7"
| "packet_code PACKET_TYPE_SEND_COMPLETE_REQ = 8"
| "packet_code PACKET_TYPE_SEND_COMPLETE_RESP = 9"
| "packet_code PACKET_TYPE_PWD_REQ = 10"
| "packet_code PACKET_TYPE_PWD_RESP = 11"
| "packet_code PACKET_TYPE_CD_REQ = 12"
| "packet_code PACKET_TYPE_CD_RESP = 13"
| "packet_code PACKET_TYPE_LL_REQ = 14"
| "packet_code PACKET_TYPE_LL_RESP = 15"
| "packet_code PACKET_TYPE_PUT_REQ = 16"
| "packet_code PACKET_TYPE_PUT_RESP = 17"
| "packet_code PACKET_TYPE_GET_REQ = 18"
| "packet_code PACKET_TYPE_GET_RESP = 19"
| "packet_code PACKET_TYPE_COMMON_RESP = 20"
| "packet_code PACKET_TYPE_WRITE_MSG_REQ = 21"
| "packet_code PACKET_TYPE_READ_MSG_REQ = 22"
| "packet_code PACKET_TYPE_READ_MSG_RESP = 23"
| "packet_code PACKET_TYPE_MP_STAT_REQ = 24"
| "packet_code PACKET_TYPE_MP_STAT_RESP = 25"
| "packet_code PACKET_TYPE_DIRECTCMD_REQ = 26"
| "packet_code PACKET_TYPE_DIRECTCMD_RESP = 27"
| "packet_code PACKET_TYPE_WHO_REQ = 28"
| "packet_code PACKET_TYPE_WHO_RESP = 29"
| "packet_code PACKET_TYPE_WRITE_REQ = 30"
| "packet_code PACKET_TYPE_WRITE_RESP = 31"
| "packet_code PACKET_TYPE_APPEND_CONN_REQ = 32"
| "packet_code PACKET_TYPE_APPEND_CONN_RESP = 33"
| "packet_code PACKET_TYPE_CHANNEL_INFO_REQ = 34"
| "packet_code PACKET_TYPE_CHANNEL_INFO_RESP = 35"
| "packet_code PACKET_TYPE_PORT_UPDATE_REQ = 36"
| "packet_code PACKET_TYPE_PORT_UPDATE_RESP = 37"
| "packet_code PACKET_TYPE_RECONNECT_REQ = 38"
| "packet_code PACKET_TYPE_RECONNECT_RESP = 39"

record serialize_handler =
  handler_type :: int
  serialize :: "bool \<Rightarrow> cval \<Rightarrow> cval \<times> bytes option"
  deserialize :: "bytes \<Rightarrow> c_fault + cval"

text \<open>The entry with type -1 that ends the C array is the end of the list.\<close>

definition serializables_raw :: "serialize_handler list" where
  "serializables_raw =
    [\<lparr>handler_type = packet_code PACKET_TYPE_VALIDATE_REQ,
      serialize = validate_req_raw_encode, deserialize = validate_req_raw_decode\<rparr>,
     \<lparr>handler_type = packet_code PACKET_TYPE_VALIDATE_RESP,
      serialize = validate_resp_raw_encode, deserialize = validate_resp_raw_decode\<rparr>,
     \<lparr>handler_type = packet_code PACKET_TYPE_PWD_REQ,
      serialize = pwd_req_raw_encode, deserialize = pwd_req_raw_decode\<rparr>,
     \<lparr>handler_type = packet_code PACKET_TYPE_PWD_RESP,
      serialize = pwd_resp_raw_encode, deserialize = pwd_resp_raw_decode\<rparr>,
     \<lparr>handler_type = packet_code PACKET_TYPE_CD_REQ,
      serialize = cd_req_raw_encode, deserialize = cd_req_raw_decode\<rparr>,
     \<lparr>handler_type = packet_code PACKET_TYPE_CD_RESP,
      serialize = cd_resp_raw_encode, deserialize = cd_resp_raw_decode\<rparr>,
     \<lparr>handler_type = packet_code PACKET_TYPE_LL_REQ,
      serialize = ll_req_raw_encode, deserialize = ll_req_raw_decode\<rparr>,
     \<lparr>handler_type = packet_code PACKET_TYPE_LL_RESP,
      serialize = ll_resp_raw_encode, deserialize = ll_resp_raw_decode\<rparr>,
     \<lparr>handler_type = packet_code PACKET_TYPE_GET_REQ,
      serialize = get_req_raw_encode, deserialize = get_req_raw_decode\<rparr>,
     \<lparr>handler_type = packet_code PACKET_TYPE_GET_RESP,
      serialize = get_resp_raw_encode, deserialize = get_resp_raw_decode\<rparr>,
     \<lparr>handler_type = packet_code PACKET_TYPE_PUT_REQ,
      serialize = put_req_raw_encode, deserialize = put_req_raw_decode\<rparr>,
     \<lparr>handler_type = packet_code PACKET_TYPE_PUT_RESP,
      serialize = put_resp_raw_encode, deserialize = put_resp_raw_decode\<rparr>,
     \<lparr>handler_type = packet_code PACKET_TYPE_COMMON_RESP,
      serialize = common_resp_raw_encode, deserialize = common_resp_raw_decode\<rparr>,
     \<lparr>handler_type = packet_code PACKET_TYPE_WRITE_MSG_REQ,
      serialize = write_msg_req_raw_encode, deserialize = write_msg_req_raw_decode\<rparr>,
     \<lparr>handler_type = packet_code PACKET_TYPE_READ_MSG_REQ,
      serialize = read_msg_req_raw_encode, deserialize = read_msg_req_raw_decode\<rparr>,
     \<lparr>handler_type = packet_code PACKET_TYPE_READ_MSG_RESP,
      serialize = read_msg_resp_raw_encode, deserialize = read_msg_resp_raw_decode\<rparr>,
     \<lparr>handler_type = packet_code PACKET_TYPE_MP_STAT_REQ,
      serialize = mp_stat_req_raw_encode, deserialize = mp_stat_req_raw_decode\<rparr>,
     \<lparr>handler_type = packet_code PACKET_TYPE_MP_STAT_RESP,
      serialize = mp_stat_resp_raw_encode, deserialize = mp_stat_resp_raw_decode\<rparr>,
     \<lparr>handler_type = packet_code PACKET_TYPE_DIRECTCMD_REQ,
      serialize = directcmd_req_raw_encode, deserialize = directcmd_req_raw_decode\<rparr>,
     \<lparr>handler_type = packet_code PACKET_TYPE_DIRECTCMD_RESP,
      serialize = directcmd_resp_raw_encode, deserialize = directcmd_resp_raw_decode\<rparr>,
     \<lparr>handler_type = packet_code PACKET_TYPE_WHO_REQ,
      serialize = who_req_raw_encode, deserialize = who_req_raw_decode\<rparr>,
     \<lparr>handler_type = packet_code PACKET_TYPE_WHO_RESP,
      serialize = who_resp_raw_encode, deserialize = who_resp_raw_decode\<rparr>,
     \<lparr>handler_type = packet_code PACKET_TYPE_WRITE_REQ,
      serialize = write_req_raw_encode, deserialize = write_req_raw_decode\<rparr>,
     \<lparr>handler_type = packet_code PACKET_TYPE_WRITE_RESP,
      serialize = write_resp_raw_encode, deserialize = write_resp_raw_decode\<rparr>,
     \<lparr>handler_type = packet_code PACKET_TYPE_APPEND_CONN_REQ,
      serialize = append_conn_req_raw_encode, deserialize = append_conn_req_raw_decode\<rparr>,
     \<lparr>handler_type = packet_code PACKET_TYPE_APPEND_CONN_RESP,
      serialize = append_conn_resp_raw_encode, deserialize = append_conn_resp_raw_decode\<rparr>,
     \<lparr>handler_type = packet_code PACKET_TYPE_CHANNEL_INFO_REQ,
      serialize = channel_info_req_raw_encode, deserialize = channel_info_req_raw_decode\<rparr>,
     \<lparr>handler_type = packet_code PACKET_TYPE_CHANNEL_INFO_RESP,
      serialize = channel_info_resp_raw_encode, deserialize = channel_info_resp_raw_decode\<rparr>,
     \<lparr>handler_type = packet_code PACKET_TYPE_PORT_UPDATE_REQ,
      serialize = port_update_req_raw_encode, deserialize = port_update_req_raw_decode\<rparr>,
     \<lparr>handler_type = packet_code PACKET_TYPE_PORT_UPDATE_RESP,
      serialize = port_update_resp_raw_encode, deserialize = port_update_resp_raw_decode\<rparr>,
     \<lparr>handler_type = packet_code PACKET_TYPE_RECONNECT_REQ,
      serialize = reconnect_req_raw_encode, deserialize = reconnect_req_raw_decode\<rparr>,
     \<lparr>handler_type = packet_code PACKET_TYPE_RECONNECT_RESP,
      serialize = reconnect_resp_raw_encode, deserialize = reconnect_resp_raw_decode\<rparr>]"

text \<open>The struct that a packet type carries.\<close>

definition packet_layouts :: "(int \<times> cty) list" where
  "packet_layouts =
    [(packet_code PACKET_TYPE_VALIDATE_REQ, validate_req_ty),
     (packet_code PACKET_TYPE_VALIDATE_RESP, validate_resp_ty),
     (packet_code PACKET_TYPE_PWD_REQ, pwd_req_ty),
     (packet_code PACKET_TYPE_PWD_RESP, pwd_resp_ty),
     (packet_code PACKET_TYPE_CD_REQ, cd_req_ty),
     (packet_code PACKET_TYPE_CD_RESP, cd_resp_ty),
     (packet_code PACKET_TYPE_LL_REQ, ll_req_ty),
     (packet_code PACKET_TYPE_LL_RESP, ll_resp_ty),
     (packet_code PACKET_TYPE_GET_REQ, get_req_ty),
     (packet_code PACKET_TYPE_GET_RESP, get_resp_ty),
     (packet_code PACKET_TYPE_PUT_REQ, put_req_ty),
     (packet_code PACKET_TYPE_PUT_RESP, put_resp_ty),
     (packet_code PACKET_TYPE_COMMON_RESP, common_resp_ty),
     (packet_code PACKET_TYPE_WRITE_MSG_REQ, write_msg_req_ty),
     (packet_code PACKET_TYPE_READ_MSG_REQ, read_msg_req_ty),
     (packet_code PACKET_TYPE_READ_MSG_RESP, read_msg_resp_ty),
     (packet_code PACKET_TYPE_MP_STAT_REQ, mp_stat_req_ty),
     (packet_code PACKET_TYPE_MP_STAT_RESP, mp_stat_resp_ty),
     (packet_code PACKET_TYPE_DIRECTCMD_REQ, directcmd_req_ty),
     (packet_code PACKET_TYPE_DIRECTCMD_RESP, directcmd_resp_ty),
     (packet_code PACKET_TYPE_WHO_REQ, who_req_ty),
     (packet_code PACKET_TYPE_WHO_RESP, who_resp_ty),
     (packet_code PACKET_TYPE_WRITE_REQ, write_req_ty),
     (packet_code PACKET_TYPE_WRITE_RESP, write_resp_ty),
     (packet_code PACKET_TYPE_APPEND_CONN_REQ, append_conn_req_ty),
     (packet_code PACKET_TYPE_APPEND_CONN_RESP, append_conn_resp_ty),
     (packet_code PACKET_TYPE_CHANNEL_INFO_REQ, channel_info_req_ty),
     (packet_code PACKET_TYPE_CHANNEL_INFO_RESP, channel_info_resp_ty),
     (packet_code PACKET_TYPE_PORT_UPDATE_REQ, port_update_req_ty),
     (packet_code PACKET_TYPE_PORT_UPDATE_RESP, port_update_resp_ty),
     (packet_code PACKET_TYPE_RECONNECT_REQ, reconnect_req_ty),
     (packet_code PACKET_TYPE_RECONNECT_RESP, reconnect_resp_ty)]"

text \<open>The search loop of \<^verbatim>\<open>sftt_packet_serialize\<close> and \<^verbatim>\<open>sftt_packet_deserialize\<close>.\<close>

definition find_handler :: "int \<Rightarrow> serialize_handler option" where
  "find_handler pt = find (\<lambda>h. handler_type h = pt) serializables_raw"

definition packet_layout :: "int \<Rightarrow> cty option" where
  "packet_layout = map_of packet_layouts"

lemmas layout_defs =
  struct_ty_def packet_layouts_def round_up_def version_info_ty_def channel_info_req_ty_def
  channel_info_resp_data_ty_def channel_info_resp_ty_def validate_req_ty_def
  validate_resp_data_ty_def validate_resp_ty_def append_conn_req_ty_def
  append_conn_resp_data_ty_def append_conn_resp_ty_def logged_in_user_ty_def pwd_req_ty_def
  pwd_resp_data_ty_def pwd_resp_ty_def ll_req_ty_def file_entry_ty_def ll_resp_data_ty_def
  ll_resp_ty_def cd_req_ty_def cd_resp_data_ty_def cd_resp_ty_def get_req_ty_def
  trans_entry_ty_def get_resp_data_ty_def get_resp_ty_def put_req_data_ty_def put_req_ty_def
  put_resp_ty_def common_resp_ty_def write_msg_req_ty_def read_msg_req_ty_def
  read_msg_resp_data_ty_def read_msg_resp_ty_def mp_stat_req_ty_def mp_stat_resp_data_ty_def
  mp_stat_resp_ty_def directcmd_req_ty_def directcmd_resp_data_ty_def directcmd_resp_ty_def
  who_req_ty_def who_resp_data_ty_def who_resp_ty_def write_req_ty_def write_resp_data_ty_def
  write_resp_ty_def port_update_req_ty_def port_update_resp_ty_def reconnect_req_ty_def
  reconnect_resp_ty_def

section \<open>Every integer is converted once\<close>

lemma version_info_conv [conv_rules]:
  "conv_ok version_info_ty (\<lambda>v. fst (version_info_raw_encode out v))" "conv_ok version_info_ty version_info_raw_ntoh"
  unfolding version_info_ty_def version_info_raw_encode_def version_info_raw_ntoh_def encode_body_def Let_def fst_conv
  by (rule convert_ok; simp add: conv_rules)+

lemma channel_info_req_conv [conv_rules]:
  "conv_ok channel_info_req_ty (\<lambda>v. fst (channel_info_req_raw_encode out v))" "conv_ok channel_info_req_ty channel_info_req_raw_ntoh"
  unfolding channel_info_req_ty_def channel_info_req_raw_encode_def channel_info_req_raw_ntoh_def encode_body_def Let_def fst_conv
  by (rule convert_ok; simp add: conv_rules)+

lemma channel_info_resp_data_conv [conv_rules]:
  "conv_ok channel_info_resp_data_ty (\<lambda>v. fst (channel_info_resp_data_raw_encode out v))" "conv_ok channel_info_resp_data_ty channel_info_resp_data_raw_ntoh"
  unfolding channel_info_resp_data_ty_def channel_info_resp_data_raw_encode_def channel_info_resp_data_raw_ntoh_def encode_body_def Let_def fst_conv
  by (rule convert_ok; simp add: conv_rules)+

lemma channel_info_resp_conv [conv_rules]:
  "conv_ok channel_info_resp_ty (\<lambda>v. fst (channel_info_resp_raw_encode out v))" "conv_ok channel_info_resp_ty channel_info_resp_raw_ntoh"
  unfolding channel_info_resp_ty_def channel_info_resp_raw_encode_def channel_info_resp_raw_ntoh_def encode_body_def Let_def fst_conv
  by (rule convert_ok; simp add: conv_rules)+

lemma validate_req_conv [conv_rules]:
  "conv_ok validate_req_ty (\<lambda>v. fst (validate_req_raw_encode out v))" "conv_ok validate_req_ty validate_req_raw_ntoh"
  unfolding validate_req_ty_def validate_req_raw_encode_def validate_req_raw_ntoh_def encode_body_def Let_def fst_conv
  by (rule convert_ok; simp add: conv_rules)+

lemma validate_resp_data_conv [conv_rules]:
  "conv_ok validate_resp_data_ty (\<lambda>v. fst (validate_resp_data_raw_encode out v))" "conv_ok validate_resp_data_ty validate_resp_data_raw_ntoh"
  unfolding validate_resp_data_ty_def validate_resp_data_raw_encode_def validate_resp_data_raw_ntoh_def encode_body_def Let_def fst_conv
  by (rule convert_ok; simp add: conv_rules)+

lemma validate_resp_conv [conv_rules]:
  "conv_ok validate_resp_ty (\<lambda>v. fst (validate_resp_raw_encode out v))" "conv_ok validate_resp_ty validate_resp_raw_ntoh"
  unfolding validate_resp_ty_def validate_resp_raw_encode_def validate_resp_raw_ntoh_def encode_body_def Let_def fst_conv
  by (rule convert_ok; simp add: conv_rules)+

lemma append_conn_req_conv [conv_rules]:
  "conv_ok append_conn_req_ty (\<lambda>v. fst (append_conn_req_raw_encode out v))" "conv_ok append_conn_req_ty append_conn_req_raw_ntoh"
  unfolding append_conn_req_ty_def append_conn_req_raw_encode_def append_conn_req_raw_ntoh_def encode_body_def Let_def fst_conv
  by (rule convert_ok; simp add: conv_rules)+

lemma append_conn_resp_data_conv [conv_rules]:
  "conv_ok append_conn_resp_data_ty (\<lambda>v. fst (append_conn_resp_data_raw_encode out v))" "conv_ok append_conn_resp_data_ty append_conn_resp_data_raw_ntoh"
  unfolding append_conn_resp_data_ty_def append_conn_resp_data_raw_encode_def append_conn_resp_data_raw_ntoh_def encode_body_def Let_def fst_conv
  by (rule convert_ok; simp add: conv_rules)+

lemma append_conn_resp_conv [conv_rules]:
  "conv_ok append_conn_resp_ty (\<lambda>v. fst (append_conn_resp_raw_encode out v))" "conv_ok append_conn_resp_ty append_conn_resp_raw_ntoh"
  unfolding append_conn_resp_ty_def append_conn_resp_raw_encode_def append_conn_resp_raw_ntoh_def encode_body_def Let_def fst_conv
  by (rule convert_ok; simp add: conv_rules)+

lemma logged_in_user_conv [conv_rules]:
  "conv_ok logged_in_user_ty (\<lambda>v. fst (logged_in_user_raw_encode out v))" "conv_ok logged_in_user_ty logged_in_user_raw_ntoh"
  unfolding logged_in_user_ty_def logged_in_user_raw_encode_def logged_in_user_raw_ntoh_def encode_body_def Let_def fst_conv
  by (rule convert_ok; simp add: conv_rules)+

lemma pwd_req_conv [conv_rules]:
  "conv_ok pwd_req_ty (\<lambda>v. fst (pwd_req_raw_encode out v))" "conv_ok pwd_req_ty pwd_req_raw_ntoh"
  unfolding pwd_req_ty_def pwd_req_raw_encode_def pwd_req_raw_ntoh_def encode_body_def Let_def fst_conv
  by (rule convert_ok; simp add: conv_rules)+

lemma pwd_resp_data_conv [conv_rules]:
  "conv_ok pwd_resp_data_ty (\<lambda>v. fst (pwd_resp_data_raw_encode out v))" "conv_ok pwd_resp_data_ty pwd_resp_data_raw_ntoh"
  unfolding pwd_resp_data_ty_def pwd_resp_data_raw_encode_def pwd_resp_data_raw_ntoh_def encode_body_def Let_def fst_conv
  by (rule convert_ok; simp add: conv_rules)+

lemma pwd_resp_conv [conv_rules]:
  "conv_ok pwd_resp_ty (\<lambda>v. fst (pwd_resp_raw_encode out v))" "conv_ok pwd_resp_ty pwd_resp_raw_ntoh"
  unfolding pwd_resp_ty_def pwd_resp_raw_encode_def pwd_resp_raw_ntoh_def encode_body_def Let_def fst_conv
  by (rule convert_ok; simp add: conv_rules)+

lemma ll_req_conv [conv_rules]:
  "conv_ok ll_req_ty (\<lambda>v. fst (ll_req_raw_encode out v))" "conv_ok ll_req_ty ll_req_raw_ntoh"
  unfolding ll_req_ty_def ll_req_raw_encode_def ll_req_raw_ntoh_def encode_body_def Let_def fst_conv
  by (rule convert_ok; simp add: conv_rules)+

lemma file_entry_conv [conv_rules]:
  "conv_ok file_entry_ty (\<lambda>v. fst (file_entry_raw_encode out v))" "conv_ok file_entry_ty file_entry_raw_ntoh"
  unfolding file_entry_ty_def file_entry_raw_encode_def file_entry_raw_ntoh_def encode_body_def Let_def fst_conv
  by (rule convert_ok; simp add: conv_rules)+

lemma ll_resp_data_conv [conv_rules]:
  "conv_ok ll_resp_data_ty (\<lambda>v. fst (ll_resp_data_raw_encode out v))" "conv_ok ll_resp_data_ty ll_resp_data_raw_ntoh"
  unfolding ll_resp_data_ty_def ll_resp_data_raw_encode_def ll_resp_data_raw_ntoh_def encode_body_def Let_def fst_conv
  by (rule convert_ok; simp add: conv_rules)+

lemma ll_resp_conv [conv_rules]:
  "conv_ok ll_resp_ty (\<lambda>v. fst (ll_resp_raw_encode out v))" "conv_ok ll_resp_ty ll_resp_raw_ntoh"
  unfolding ll_resp_ty_def ll_resp_raw_encode_def ll_resp_raw_ntoh_def encode_body_def Let_def fst_conv
  by (rule convert_ok; simp add: conv_rules)+

lemma cd_req_conv [conv_rules]:
  "conv_ok cd_req_ty (\<lambda>v. fst (cd_req_raw_encode out v))" "conv_ok cd_req_ty cd_req_raw_ntoh"
  unfolding cd_req_ty_def cd_req_raw_encode_def cd_req_raw_ntoh_def encode_body_def Let_def fst_conv
  by (rule convert_ok; simp add: conv_rules)+

lemma cd_resp_data_conv [conv_rules]:
  "conv_ok cd_resp_data_ty (\<lambda>v. fst (cd_resp_data_raw_encode out v))" "conv_ok cd_resp_data_ty cd_resp_data_raw_ntoh"
  unfolding cd_resp_data_ty_def cd_resp_data_raw_encode_def cd_resp_data_raw_ntoh_def encode_body_def Let_def fst_conv
  by (rule convert_ok; simp add: conv_rules)+

lemma cd_resp_conv [conv_rules]:
  "conv_ok cd_resp_ty (\<lambda>v. fst (cd_resp_raw_encode out v))" "conv_ok cd_resp_ty cd_resp_raw_ntoh"
  unfolding cd_resp_ty_def cd_resp_raw_encode_def cd_resp_raw_ntoh_def encode_body_def Let_def fst_conv
  by (rule convert_ok; simp add: conv_rules)+

lemma get_req_conv [conv_rules]:
  "conv_ok get_req_ty (\<lambda>v. fst (get_req_raw_encode out v))" "conv_ok get_req_ty get_req_raw_ntoh"
  unfolding get_req_ty_def get_req_raw_encode_def get_req_raw_ntoh_def encode_body_def Let_def fst_conv
  by (rule convert_ok; simp add: conv_rules)+

lemma trans_entry_conv [conv_rules]:
  "conv_ok trans_entry_ty (\<lambda>v. fst (trans_entry_raw_encode out v))" "conv_ok trans_entry_ty trans_entry_raw_ntoh"
  unfolding trans_entry_ty_def trans_entry_raw_encode_def trans_entry_raw_ntoh_def encode_body_def Let_def fst_conv
  by (rule convert_ok; simp add: conv_rules)+

lemma get_resp_data_conv [conv_rules]:
  "conv_ok get_resp_data_ty (\<lambda>v. fst (get_resp_data_raw_encode out v))" "conv_ok get_resp_data_ty get_resp_data_raw_ntoh"
  unfolding get_resp_data_ty_def get_resp_data_raw_encode_def get_resp_data_raw_ntoh_def encode_body_def Let_def fst_conv
  by (rule convert_ok; simp add: conv_rules)+

lemma get_resp_conv [conv_rules]:
  "conv_ok get_resp_ty (\<lambda>v. fst (get_resp_raw_encode out v))" "conv_ok get_resp_ty get_resp_raw_ntoh"
  unfolding get_resp_ty_def get_resp_raw_encode_def get_resp_raw_ntoh_def encode_body_def Let_def fst_conv
  by (rule convert_ok; simp add: conv_rules)+

lemma put_req_data_conv [conv_rules]:
  "conv_ok put_req_data_ty (\<lambda>v. fst (put_req_data_raw_encode out v))" "conv_ok put_req_data_ty put_req_data_raw_ntoh"
  unfolding put_req_data_ty_def put_req_data_raw_encode_def put_req_data_raw_ntoh_def encode_body_def Let_def fst_conv
  by (rule convert_ok; simp add: conv_rules)+

lemma put_req_conv [conv_rules]:
  "conv_ok put_req_ty (\<lambda>v. fst (put_req_raw_encode out v))" "conv_ok put_req_ty put_req_raw_ntoh"
  unfolding put_req_ty_def put_req_raw_encode_def put_req_raw_ntoh_def encode_body_def Let_def fst_conv
  by (rule convert_ok; simp add: conv_rules)+

lemma put_resp_conv [conv_rules]:
  "conv_ok put_resp_ty (\<lambda>v. fst (put_resp_raw_encode out v))" "conv_ok put_resp_ty put_resp_raw_ntoh"
  unfolding put_resp_ty_def put_resp_raw_encode_def put_resp_raw_ntoh_def encode_body_def Let_def fst_conv
  by (rule convert_ok; simp add: conv_rules)+

lemma common_resp_conv [conv_rules]:
  "conv_ok common_resp_ty (\<lambda>v. fst (common_resp_raw_encode out v))" "conv_ok common_resp_ty common_resp_raw_ntoh"
  unfolding common_resp_ty_def common_resp_raw_encode_def common_resp_raw_ntoh_def encode_body_def Let_def fst_conv
  by (rule convert_ok; simp add: conv_rules)+

lemma write_msg_req_conv [conv_rules]:
  "conv_ok write_msg_req_ty (\<lambda>v. fst (write_msg_req_raw_encode out v))" "conv_ok write_msg_req_ty write_msg_req_raw_ntoh"
  unfolding write_msg_req_ty_def write_msg_req_raw_encode_def write_msg_req_raw_ntoh_def encode_body_def Let_def fst_conv
  by (rule convert_ok; simp add: conv_rules)+

lemma read_msg_req_conv [conv_rules]:
  "conv_ok read_msg_req_ty (\<lambda>v. fst (read_msg_req_raw_encode out v))" "conv_ok read_msg_req_ty read_msg_req_raw_ntoh"
  unfolding read_msg_req_ty_def read_msg_req_raw_encode_def read_msg_req_raw_ntoh_def encode_body_def Let_def fst_conv
  by (rule convert_ok; simp add: conv_rules)+

lemma read_msg_resp_data_conv [conv_rules]:
  "conv_ok read_msg_resp_data_ty (\<lambda>v. fst (read_msg_resp_data_raw_encode out v))" "conv_ok read_msg_resp_data_ty read_msg_resp_data_raw_ntoh"
  unfolding read_msg_resp_data_ty_def read_msg_resp_data_raw_encode_def read_msg_resp_data_raw_ntoh_def encode_body_def Let_def fst_conv
  by (rule convert_ok; simp add: conv_rules)+

lemma read_msg_resp_conv [conv_rules]:
  "conv_ok read_msg_resp_ty (\<lambda>v. fst (read_msg_resp_raw_encode out v))" "conv_ok read_msg_resp_ty read_msg_resp_raw_ntoh"
  unfolding read_msg_resp_ty_def read_msg_resp_raw_encode_def read_msg_resp_raw_ntoh_def encode_body_def Let_def fst_conv
  by (rule convert_ok; simp add: conv_rules)+

lemma mp_stat_req_conv [conv_rules]:
  "conv_ok mp_stat_req_ty (\<lambda>v. fst (mp_stat_req_raw_encode out v))" "conv_ok mp_stat_req_ty mp_stat_req_raw_ntoh"
  unfolding mp_stat_req_ty_def mp_stat_req_raw_encode_def mp_stat_req_raw_ntoh_def encode_body_def Let_def fst_conv
  by (rule convert_ok; simp add: conv_rules)+

lemma mp_stat_resp_data_conv [conv_rules]:
  "conv_ok mp_stat_resp_data_ty (\<lambda>v. fst (mp_stat_resp_data_raw_encode out v))" "conv_ok mp_stat_resp_data_ty mp_stat_resp_data_raw_ntoh"
  unfolding mp_stat_resp_data_ty_def mp_stat_resp_data_raw_encode_def mp_stat_resp_data_raw_ntoh_def encode_body_def Let_def fst_conv
  by (rule convert_ok; simp add: conv_rules)+

lemma mp_stat_resp_conv [conv_rules]:
  "conv_ok mp_stat_resp_ty (\<lambda>v. fst (mp_stat_resp_raw_encode out v))" "conv_ok mp_stat_resp_ty mp_stat_resp_raw_ntoh"
  unfolding mp_stat_resp_ty_def mp_stat_resp_raw_encode_def mp_stat_resp_raw_ntoh_def encode_body_def Let_def fst_conv
  by (rule convert_ok; simp add: conv_rules)+

lemma directcmd_req_conv [conv_rules]:
  "conv_ok directcmd_req_ty (\<lambda>v. fst (directcmd_req_raw_encode out v))" "conv_ok directcmd_req_ty directcmd_req_raw_ntoh"
  unfolding directcmd_req_ty_def directcmd_req_raw_encode_def directcmd_req_raw_ntoh_def encode_body_def Let_def fst_conv
  by (rule convert_ok; simp add: conv_rules)+

lemma directcmd_resp_data_conv [conv_rules]:
  "conv_ok directcmd_resp_data_ty (\<lambda>v. fst (directcmd_resp_data_raw_encode out v))" "conv_ok directcmd_resp_data_ty directcmd_resp_data_raw_ntoh"
  unfolding directcmd_resp_data_ty_def directcmd_resp_data_raw_encode_def directcmd_resp_data_raw_ntoh_def encode_body_def Let_def fst_conv
  by (rule convert_ok; simp add: conv_rules)+

lemma directcmd_resp_conv [conv_rules]:
  "conv_ok directcmd_resp_ty (\<lambda>v. fst (directcmd_resp_raw_encode out v))" "conv_ok directcmd_resp_ty directcmd_resp_raw_ntoh"
  unfolding directcmd_resp_ty_def directcmd_resp_raw_encode_def directcmd_resp_raw_ntoh_def encode_body_def Let_def fst_conv
  by (rule convert_ok; simp add: conv_rules)+

lemma who_req_conv [conv_rules]:
  "conv_ok who_req_ty (\<lambda>v. fst (who_req_raw_encode out v))" "conv_ok who_req_ty who_req_raw_ntoh"
  unfolding who_req_ty_def who_req_raw_encode_def who_req_raw_ntoh_def encode_body_def Let_def fst_conv
  by (rule convert_ok; simp add: conv_rules)+

lemma who_resp_data_conv [conv_rules]:
  "conv_ok who_resp_data_ty (\<lambda>v. fst (who_resp_data_raw_encode out v))" "conv_ok who_resp_data_ty who_resp_data_raw_ntoh"
  unfolding who_resp_data_ty_def who_resp_data_raw_encode_def who_resp_data_raw_ntoh_def encode_body_def Let_def fst_conv
  by (rule convert_ok; simp add: conv_rules)+

lemma who_resp_conv [conv_rules]:
  "conv_ok who_resp_ty (\<lambda>v. fst (who_resp_raw_encode out v))" "conv_ok who_resp_ty who_resp_raw_ntoh"
  unfolding who_resp_ty_def who_resp_raw_encode_def who_resp_raw_ntoh_def encode_body_def Let_def fst_conv
  by (rule convert_ok; simp add: conv_rules)+

lemma write_req_conv [conv_rules]:
  "conv_ok write_req_ty (\<lambda>v. fst (write_req_raw_encode out v))" "conv_ok write_req_ty write_req_raw_ntoh"
  unfolding write_req_ty_def write_req_raw_encode_def write_req_raw_ntoh_def encode_body_def Let_def fst_conv
  by (rule convert_ok; simp add: conv_rules)+

lemma write_resp_data_conv [conv_rules]:
  "conv_ok write_resp_data_ty (\<lambda>v. fst (write_resp_data_raw_encode out v))" "conv_ok write_resp_data_ty write_resp_data_raw_ntoh"
  unfolding write_resp_data_ty_def write_resp_data_raw_encode_def write_resp_data_raw_ntoh_def encode_body_def Let_def fst_conv
  by (rule convert_ok; simp add: conv_rules)+

lemma write_resp_conv [conv_rules]:
  "conv_ok write_resp_ty (\<lambda>v. fst (write_resp_raw_encode out v))" "conv_ok write_resp_ty write_resp_raw_ntoh"
  unfolding write_resp_ty_def write_resp_raw_encode_def write_resp_raw_ntoh_def encode_body_def Let_def fst_conv
  by (rule convert_ok; simp add: conv_rules)+

lemma port_update_req_conv [conv_rules]:
  "conv_ok port_update_req_ty (\<lambda>v. fst (port_update_req_raw_encode out v))" "conv_ok port_update_req_ty port_update_req_raw_ntoh"
  unfolding port_update_req_ty_def port_update_req_raw_encode_def port_update_req_raw_ntoh_def encode_body_def Let_def fst_conv
  by (rule convert_ok; simp add: conv_rules)+

lemma port_update_resp_conv [conv_rules]:
  "conv_ok port_update_resp_ty (\<lambda>v. fst (port_update_resp_raw_encode out v))" "conv_ok port_update_resp_ty port_update_resp_raw_ntoh"
  unfolding port_update_resp_ty_def port_update_resp_raw_encode_def port_update_resp_raw_ntoh_def encode_body_def Let_def fst_conv
  by (rule convert_ok; simp add: conv_rules)+

lemma reconnect_req_conv [conv_rules]:
  "conv_ok reconnect_req_ty (\<lambda>v. fst (reconnect_req_raw_encode out v))" "conv_ok reconnect_req_ty reconnect_req_raw_ntoh"
  unfolding reconnect_req_ty_def reconnect_req_raw_encode_def reconnect_req_raw_ntoh_def encode_body_def Let_def fst_conv
  by (rule convert_ok; simp add: conv_rules)+

lemma reconnect_resp_conv [conv_rules]:
  "conv_ok reconnect_resp_ty (\<lambda>v. fst (reconnect_resp_raw_encode out v))" "conv_ok reconnect_resp_ty reconnect_resp_raw_ntoh"
  unfolding reconnect_resp_ty_def reconnect_resp_raw_encode_def reconnect_resp_raw_ntoh_def encode_body_def Let_def fst_conv
  by (rule convert_ok; simp add: conv_rules)+

section \<open>The handlers\<close>

named_theorems codec_refs \<open>codecs that are the reference codec of a layout\<close>

definition codec_ref ::
    "cty \<Rightarrow> (bool \<Rightarrow> cval \<Rightarrow> cval \<times> bytes option) \<Rightarrow> (bytes \<Rightarrow> c_fault + cval) \<Rightarrow> bool" where
  "codec_ref t enc dec \<longleftrightarrow>
     (\<forall>v. well_typed t v \<longrightarrow> enc True v = (fst (raw_encode t v), Some (snd (raw_encode t v))))
   \<and> dec = raw_decode t"

lemma codec_refI:
  "conv_ok t (convert t c1) \<Longrightarrow> conv_ok t (convert t c2) \<Longrightarrow>
     codec_ref t (encode_body t c1) (decode_body t c2)"
  by (simp add: codec_ref_def encode_body_ref decode_body_ref)

lemma validate_req_codec [codec_refs]: "codec_ref validate_req_ty validate_req_raw_encode validate_req_raw_decode"
  unfolding validate_req_raw_encode_def validate_req_raw_decode_def
  by (rule codec_refI; unfold validate_req_ty_def; rule convert_ok; simp add: conv_rules)

lemma validate_resp_codec [codec_refs]: "codec_ref validate_resp_ty validate_resp_raw_encode validate_resp_raw_decode"
  unfolding validate_resp_raw_encode_def validate_resp_raw_decode_def
  by (rule codec_refI; unfold validate_resp_ty_def; rule convert_ok; simp add: conv_rules)

lemma pwd_req_codec [codec_refs]: "codec_ref pwd_req_ty pwd_req_raw_encode pwd_req_raw_decode"
  unfolding pwd_req_raw_encode_def pwd_req_raw_decode_def
  by (rule codec_refI; unfold pwd_req_ty_def; rule convert_ok; simp add: conv_rules)

lemma pwd_resp_codec [codec_refs]: "codec_ref pwd_resp_ty pwd_resp_raw_encode pwd_resp_raw_decode"
  unfolding pwd_resp_raw_encode_def pwd_resp_raw_decode_def
  by (rule codec_refI; unfold pwd_resp_ty_def; rule convert_ok; simp add: conv_rules)

lemma cd_req_codec [codec_refs]: "codec_ref cd_req_ty cd_req_raw_encode cd_req_raw_decode"
  unfolding cd_req_raw_encode_def cd_req_raw_decode_def
  by (rule codec_refI; unfold cd_req_ty_def; rule convert_ok; simp add: conv_rules)

lemma cd_resp_codec [codec_refs]: "codec_ref cd_resp_ty cd_resp_raw_encode cd_resp_raw_decode"
  unfolding cd_resp_raw_encode_def cd_resp_raw_decode_def
  by (rule codec_refI; unfold cd_resp_ty_def; rule convert_ok; simp add: conv_rules)

lemma ll_req_codec [codec_refs]: "codec_ref ll_req_ty ll_req_raw_encode ll_req_raw_decode"
  unfolding ll_req_raw_encode_def ll_req_raw_decode_def
  by (rule codec_refI; unfold ll_req_ty_def; rule convert_ok; simp add: conv_rules)

lemma ll_resp_codec [codec_refs]: "codec_ref ll_resp_ty ll_resp_raw_encode ll_resp_raw_decode"
  unfolding ll_resp_raw_encode_def ll_resp_raw_decode_def
  by (rule codec_refI; unfold ll_resp_ty_def; rule convert_ok; simp add: conv_rules)

lemma get_req_codec [codec_refs]: "codec_ref get_req_ty get_req_raw_encode get_req_raw_decode"
  unfolding get_req_raw_encode_def get_req_raw_decode_def
  by (rule codec_refI; unfold get_req_ty_def; rule convert_ok; simp add: conv_rules)

lemma get_resp_codec [codec_refs]: "codec_ref get_resp_ty get_resp_raw_encode get_resp_raw_decode"
  unfolding get_resp_raw_encode_def get_resp_raw_decode_def
  by (rule codec_refI; unfold get_resp_ty_def; rule convert_ok; simp add: conv_rules)

lemma put_req_codec [codec_refs]: "codec_ref put_req_ty put_req_raw_encode put_req_raw_decode"
  unfolding put_req_raw_encode_def put_req_raw_decode_def
  by (rule codec_refI; unfold put_req_ty_def; rule convert_ok; simp add: conv_rules)

lemma put_resp_codec [codec_refs]: "codec_ref put_resp_ty put_resp_raw_encode put_resp_raw_decode"
  unfolding put_resp_raw_encode_def put_resp_raw_decode_def
  by (rule codec_refI; unfold put_resp_ty_def; rule convert_ok; simp add: conv_rules)

lemma common_resp_codec [codec_refs]: "codec_ref common_resp_ty common_resp_raw_encode common_resp_raw_decode"
  unfolding common_resp_raw_encode_def common_resp_raw_decode_def
  by (rule codec_refI; unfold common_resp_ty_def; rule convert_ok; simp add: conv_rules)

lemma write_msg_req_codec [codec_refs]: "codec_ref write_msg_req_ty write_msg_req_raw_encode write_msg_req_raw_decode"
  unfolding write_msg_req_raw_encode_def write_msg_req_raw_decode_def
  by (rule codec_refI; unfold write_msg_req_ty_def; rule convert_ok; simp add: conv_rules)

lemma read_msg_req_codec [codec_refs]: "codec_ref read_msg_req_ty read_msg_req_raw_encode read_msg_req_raw_decode"
  unfolding read_msg_req_raw_encode_def read_msg_req_raw_decode_def
  by (rule codec_refI; unfold read_msg_req_ty_def; rule convert_ok; simp add: conv_rules)

lemma read_msg_resp_codec [codec_refs]: "codec_ref read_msg_resp_ty read_msg_resp_raw_encode read_msg_resp_raw_decode"
  unfolding read_msg_resp_raw_encode_def read_msg_resp_raw_decode_def
  by (rule codec_refI; unfold read_msg_resp_ty_def; rule convert_ok; simp add: conv_rules)

lemma mp_stat_req_codec [codec_refs]: "codec_ref mp_stat_req_ty mp_stat_req_raw_encode mp_stat_req_raw_decode"
  unfolding mp_stat_req_raw_encode_def mp_stat_req_raw_decode_def
  by (rule codec_refI; unfold mp_stat_req_ty_def; rule convert_ok; simp add: conv_rules)

lemma mp_stat_resp_codec [codec_refs]: "codec_ref mp_stat_resp_ty mp_stat_resp_raw_encode mp_stat_resp_raw_decode"
  unfolding mp_stat_resp_raw_encode_def mp_stat_resp_raw_decode_def
  by (rule codec_refI; unfold mp_stat_resp_ty_def; rule convert_ok; simp add: conv_rules)

lemma directcmd_req_codec [codec_refs]: "codec_ref directcmd_req_ty directcmd_req_raw_encode directcmd_req_raw_decode"
  unfolding directcmd_req_raw_encode_def directcmd_req_raw_decode_def
  by (rule codec_refI; unfold directcmd_req_ty_def; rule convert_ok; simp add: conv_rules)

lemma directcmd_resp_codec [codec_refs]: "codec_ref directcmd_resp_ty directcmd_resp_raw_encode directcmd_resp_raw_decode"
  unfolding directcmd_resp_raw_encode_def directcmd_resp_raw_decode_def
  by (rule codec_refI; unfold directcmd_resp_ty_def; rule convert_ok; simp add: conv_rules)

lemma who_req_codec [codec_refs]: "codec_ref who_req_ty who_req_raw_encode who_req_raw_decode"
  unfolding who_req_raw_encode_def who_req_raw_decode_def
  by (rule codec_refI; unfold who_req_ty_def; rule convert_ok; simp add: conv_rules)

lemma who_resp_codec [codec_refs]: "codec_ref who_resp_ty who_resp_raw_encode who_resp_raw_decode"
  unfolding who_resp_raw_encode_def who_resp_raw_decode_def
  by (rule codec_refI; unfold who_resp_ty_def; rule convert_ok; simp add: conv_rules)

lemma write_req_codec [codec_refs]: "codec_ref write_req_ty write_req_raw_encode write_req_raw_decode"
  unfolding write_req_raw_encode_def write_req_raw_decode_def
  by (rule codec_refI; unfold write_req_ty_def; rule convert_ok; simp add: conv_rules)

lemma write_resp_codec [codec_refs]: "codec_ref write_resp_ty write_resp_raw_encode write_resp_raw_decode"
  unfolding write_resp_raw_encode_def write_resp_raw_decode_def
  by (rule codec_refI; unfold write_resp_ty_def; rule convert_ok; simp add: conv_rules)

lemma append_conn_req_codec [codec_refs]: "codec_ref append_conn_req_ty append_conn_req_raw_encode append_conn_req_raw_decode"
  unfolding append_conn_req_raw_encode_def append_conn_req_raw_decode_def
  by (rule codec_refI; unfold append_conn_req_ty_def; rule convert_ok; simp add: conv_rules)

lemma append_conn_resp_codec [codec_refs]: "codec_ref append_conn_resp_ty append_conn_resp_raw_encode append_conn_resp_raw_decode"
  unfolding append_conn_resp_raw_encode_def append_conn_resp_raw_decode_def
  by (rule codec_refI; unfold append_conn_resp_ty_def; rule convert_ok; simp add: conv_rules)

lemma channel_info_req_codec [codec_refs]: "codec_ref channel_info_req_ty channel_info_req_raw_encode channel_info_req_raw_decode"
  unfolding channel_info_req_raw_encode_def channel_info_req_raw_decode_def
  by (rule codec_refI; unfold channel_info_req_ty_def; rule convert_ok; simp add: conv_rules)

lemma channel_info_resp_codec [codec_refs]: "codec_ref channel_info_resp_ty channel_info_resp_raw_encode channel_info_resp_raw_decode"
  unfolding channel_info_resp_raw_encode_def channel_info_resp_raw_decode_def
  by (rule codec_refI; unfold channel_info_resp_ty_def; rule convert_ok; simp add: conv_rules)

lemma port_update_req_codec [codec_refs]: "codec_ref port_update_req_ty port_update_req_raw_encode port_update_req_raw_decode"
  unfolding port_update_req_raw_encode_def port_update_req_raw_decode_def
  by (rule codec_refI; unfold port_update_req_ty_def; rule convert_ok; simp add: conv_rules)

lemma port_update_resp_codec [codec_refs]: "codec_ref port_update_resp_ty port_update_resp_raw_encode port_update_resp_raw_decode"
  unfolding port_update_resp_raw_encode_def port_update_resp_raw_decode_def
  by (rule codec_refI; unfold port_update_resp_ty_def; rule convert_ok; simp add: conv_rules)

lemma reconnect_req_codec [codec_refs]: "codec_ref reconnect_req_ty reconnect_req_raw_encode reconnect_req_raw_decode"
  unfolding reconnect_req_raw_encode_def reconnect_req_raw_decode_def
  by (rule codec_refI; unfold reconnect_req_ty_def; rule convert_ok; simp add: conv_rules)

lemma reconnect_resp_codec [codec_refs]: "codec_ref reconnect_resp_ty reconnect_resp_raw_encode reconnect_resp_raw_decode"
  unfolding reconnect_resp_raw_encode_def reconnect_resp_raw_decode_def
  by (rule codec_refI; unfold reconnect_resp_ty_def; rule convert_ok; simp add: conv_rules)

lemma handlers_ref:
  "list_all2 (\<lambda>h (pt, t). handler_type h = pt \<and> codec_ref t (serialize h) (deserialize h))
     serializables_raw packet_layouts"
  by (simp add: serializables_raw_def packet_layouts_def codec_refs)

lemma packet_layouts_distinct: "distinct (map fst packet_layouts)"
  by (simp add: packet_layouts_def)

lemma find_list_all2:
  "list_all2 (\<lambda>h (pt, t). handler_type h = pt \<and> P t h) hs ls \<Longrightarrow>
     rel_option (\<lambda>h t. handler_type h = pt \<and> P t h) (find (\<lambda>h. handler_type h = pt) hs) (map_of ls pt)"
  by (induction hs ls rule: list_all2_induct) auto

lemma find_handler_ref:
  "rel_option (\<lambda>h t. handler_type h = pt \<and> codec_ref t (serialize h) (deserialize h))
     (find_handler pt) (packet_layout pt)"
  unfolding find_handler_def packet_layout_def by (rule find_list_all2) (rule handlers_ref)

lemma handler_of_layout:
  assumes "packet_layout pt = Some t"
  obtains h where "find_handler pt = Some h" "codec_ref t (serialize h) (deserialize h)"
  using find_handler_ref [of pt] assms by (auto elim: option.rel_cases)

lemma no_handler: "find_handler pt = None \<longleftrightarrow> packet_layout pt = None"
  using find_handler_ref [of pt] by (auto elim: option.rel_cases)

section \<open>Results\<close>

text \<open>
  C37: every codec of the handler table is the reference codec of the struct its packet type
  carries: on an object of that struct the encoder converts every integer, nested ones included, to
  network order and outputs the memory image, and the decoder reads an image back and converts every
  integer again. No field is left out and none is converted twice.
\<close>

theorem handlers_convert_all:
  "map handler_type serializables_raw = map fst packet_layouts \<and>
   list_all (\<lambda>(h, pt, t). codec_ref t (serialize h) (deserialize h)) (zip serializables_raw packet_layouts)"
  using handlers_ref by (auto simp: list_all2_conv_all_nth list_all_length split_def intro!: nth_equalityI)

text \<open>
  C38: the codec selected for a packet type is a round trip: an object of the struct the type carries
  is encoded into exactly the size of the struct, and decoded to itself.
\<close>

theorem raw_codec_roundtrip:
  assumes "packet_layout pt = Some t" "well_typed t req"
  shows "\<exists>h req' buf. find_handler pt = Some h \<and> serialize h True req = (req', Some buf)
    \<and> length buf = cty_size t \<and> deserialize h buf = Inr req"
proof -
  obtain h where "find_handler pt = Some h" "codec_ref t (serialize h) (deserialize h)"
    using assms(1) by (rule handler_of_layout)
  then show ?thesis
    using raw.dec_enc [OF assms(2)] raw_encode_length [OF assms(2)] assms(2) by (auto simp: codec_ref_def)
qed

theorem raw_codec_roundtrip_witness:
  "\<exists>h req' buf. find_handler 36 = Some h \<and> serialize h True (VStruct [VInt 4097]) = (req', Some buf)
    \<and> length buf = 4 \<and> deserialize h buf = Inr (VStruct [VInt 4097])"
proof -
  have t: "packet_layout 36 = Some port_update_req_ty"
    by (simp add: packet_layout_def packet_layouts_def)
  have "cty_size port_update_req_ty = 4" "well_typed port_update_req_ty (VStruct [VInt 4097])"
    by (simp_all add: port_update_req_ty_def struct_ty_def round_up_def)
  then show ?thesis
    using raw_codec_roundtrip [OF t, of "VStruct [VInt 4097]"] by simp
qed

text \<open>
  An encoder converts the caller's own object, so sending the same object again without
  refilling it puts host-order integers on the wire: the peer decodes the second message to the
  object with the bytes of every integer reversed.
\<close>

theorem raw_encode_resend:
  assumes "packet_layout pt = Some t" "well_typed t req"
  shows "\<exists>h req' buf req'' buf'. find_handler pt = Some h \<and> serialize h True req = (req', Some buf)
    \<and> serialize h True req' = (req'', Some buf') \<and> deserialize h buf' = Inr (swap req) \<and> req'' = req"
proof -
  obtain h where h: "find_handler pt = Some h" "codec_ref t (serialize h) (deserialize h)"
    using assms(1) by (rule handler_of_layout)
  have "well_typed t (swap req)"
    using assms(2) by (rule well_typed_swap)
  then show ?thesis
    using h raw.resend [OF assms(2)] assms(2) by (auto simp: codec_ref_def raw_encode_def Let_def)
qed

theorem raw_encode_resend_witness:
  "\<exists>h req' buf req'' buf'. find_handler 36 = Some h \<and> serialize h True (VStruct [VInt 1]) = (req', Some buf)
    \<and> serialize h True req' = (req'', Some buf') \<and> deserialize h buf' = Inr (VStruct [VInt 0x01000000])"
proof -
  have t: "packet_layout 36 = Some port_update_req_ty"
    by (simp add: packet_layout_def packet_layouts_def)
  have "well_typed port_update_req_ty (VStruct [VInt 1])"
    by (simp add: port_update_req_ty_def struct_ty_def)
  moreover have "htonl 1 = 0x01000000"
    by (simp add: htonl_def le32_def)
  ultimately show ?thesis
    using raw_encode_resend [OF t, of "VStruct [VInt 1]"] by auto
qed

text \<open>
  No decoder compares the received length with the size of its struct: content that is longer
  makes it write past the object it allocated, and content that is shorter is completed
  with the zero bytes of the fresh object.
\<close>

lemma deserialize_any_length:
  assumes "packet_layout pt = Some t"
  obtains h where "find_handler pt = Some h"
    "\<forall>buf. deserialize h buf =
       (if cty_size t < length buf then Inl Out_of_bounds
        else Inr (swap (parse t (buf @ replicate (cty_size t - length buf) 0))))"
proof -
  obtain h where "find_handler pt = Some h" "codec_ref t (serialize h) (deserialize h)"
    using assms(1) by (rule handler_of_layout)
  then show ?thesis
    using that by (simp add: codec_ref_def raw_decode_def)
qed

end
