(* ===== verification/Sftt_Net.thy ===== *)
theory Sftt_Net
  imports Sftt_Encode Sftt_Req_Resp Sftt_Mem_Pool
begin

text \<open>
  The packet layer (\<^verbatim>\<open>src/src/net_trans.c\<close>): \<open>send_sftt_packet\<close> serializes the object of a packet,
  compresses and encrypts the bytes and sends them behind a header of type and length;
  \<open>recv_sftt_packet\<close> undoes this. It composes the raw codecs (\<open>Sftt_Req_Resp\<close>) with the buffer codec
  (\<open>Sftt_Encode\<close>).

  The socket is the operating system's: its \<^verbatim>\<open>send\<close> and \<^verbatim>\<open>recv\<close> are the parameters \<open>snd_fn\<close> and
  \<open>rcv_fn\<close>, and \<open>stream_socket\<close> states what a connected stream socket does when the whole buffer is
  accepted and the requested bytes have arrived. Of the pool the functions of the file see whether an
  allocation succeeds: \<open>mem\<close> is the number of allocations it can still serve and \<open>held\<close> the number of
  blocks taken and not given back. The number \<open>n\<close> is the first address of Huffman tree nodes.
  The results are the round trip of one packet and of a sequence of packets in order, the return
  values on the error paths, and what a send leaves behind in the pool.
\<close>

section \<open>State\<close>

record sftt_packet =
  sp_type :: int
  sp_obj :: "cval option"
  sp_content :: "bytes option"
  sp_data_len :: int

type_synonym 's send_fn = "'s \<Rightarrow> bytes \<Rightarrow> int \<times> 's"
type_synonym 's recv_fn = "'s \<Rightarrow> nat \<Rightarrow> bool \<Rightarrow> int \<times> bytes \<times> 's"

record 's net =
  sock :: 's
  mem :: nat
  held :: nat

definition pool_get :: "'s net \<Rightarrow> bool \<times> 's net" where
  "pool_get st =
     (if mem st = 0 then (False, st) else (True, st\<lparr>mem := mem st - 1, held := held st + 1\<rparr>))"

definition pool_put :: "'s net \<Rightarrow> 's net" where
  "pool_put st = st\<lparr>held := held st - 1\<rparr>"

text \<open>The bytes a call that is given \<^verbatim>\<open>content\<close> and \<^verbatim>\<open>data_len\<close> works on.\<close>

definition packet_bytes :: "sftt_packet \<Rightarrow> bytes" where
  "packet_bytes sp = (case sp_content sp of None \<Rightarrow> [] | Some b \<Rightarrow> take (nat (sp_data_len sp)) b)"

section \<open>Sending\<close>

definition empty_packet :: sftt_packet where
  "empty_packet = \<lparr>sp_type = 0, sp_obj = None, sp_content = None, sp_data_len = 0\<rparr>"

definition malloc_sftt_packet :: "'s net \<Rightarrow> sftt_packet option \<times> 's net" where
  "malloc_sftt_packet st =
     (let (ok, st1) = pool_get st in (if ok then Some empty_packet else None, st1))"

text \<open>
  The output block of the buffer codec comes from the pool. When the codec returns 0 for an empty
  input it leaves \<^verbatim>\<open>dst->content\<close> alone.
\<close>

definition set_content :: "int \<times> bytes option \<Rightarrow> sftt_packet \<Rightarrow> 's net \<Rightarrow> int \<times> sftt_packet \<times> 's net" where
  "set_content r dst st =
     (case r of
        (len, None) \<Rightarrow> (len, dst\<lparr>sp_data_len := len\<rparr>, st)
      | (len, Some out) \<Rightarrow>
          (len, dst\<lparr>sp_data_len := len, sp_content := Some out\<rparr>, st\<lparr>held := held st + 1\<rparr>))"

definition sftt_packet_encode_content ::
    "ptr \<Rightarrow> sftt_packet \<Rightarrow> sftt_packet \<Rightarrow> 's net \<Rightarrow> c_fault + int \<times> sftt_packet \<times> 's net" where
  "sftt_packet_encode_content n src dst st =
     sbind (sftt_buffer_encode n (packet_bytes src) True True) (\<lambda>r. Inr (set_content r dst st))"

definition sftt_packet_send_header ::
    "'s send_fn \<Rightarrow> sftt_packet \<Rightarrow> 's net \<Rightarrow> c_fault + 's net" where
  "sftt_packet_send_header snd_fn sp st =
     (let header = le32 (word_of_int (sp_type sp)) @ le32 (word_of_int (sp_data_len sp)) in
      sbind (sftt_buffer_encode 0 header False False) (\<lambda>(encoded_len, buffer).
        if encoded_len \<noteq> int (length header) then Inl Assertion_failed
        else case buffer of
            None \<Rightarrow> Inl Null_dereference
          | Some b \<Rightarrow>
              let (ret, s) = snd_fn (sock st) b in
              if ret \<noteq> encoded_len then Inl Assertion_failed else Inr (st\<lparr>sock := s\<rparr>)))"

definition sftt_packet_send_content ::
    "'s send_fn \<Rightarrow> sftt_packet \<Rightarrow> 's net \<Rightarrow> c_fault + 's net" where
  "sftt_packet_send_content snd_fn sp st =
     (if sp_content sp = None then Inl Assertion_failed
      else
        let (ret, s) = snd_fn (sock st) (packet_bytes sp) in
        if ret \<noteq> sp_data_len sp then Inl Assertion_failed else Inr (st\<lparr>sock := s\<rparr>))"

text \<open>
  The encoder's buffer and the copy of it are both taken from the pool. The buffer is then given to
  \<^verbatim>\<open>free\<close>, whatever \<^verbatim>\<open>mode\<close> says, and stays allocated in the pool's books.
\<close>

definition sftt_packet_serialize ::
    "sftt_packet \<Rightarrow> 's net \<Rightarrow> c_fault + bool \<times> sftt_packet \<times> 's net" where
  "sftt_packet_serialize sp st =
     (case find_handler (sp_type sp) of
        None \<Rightarrow> Inr (False, sp, st)
      | Some h \<Rightarrow>
          (case sp_obj sp of
             None \<Rightarrow> Inl Null_dereference
           | Some obj \<Rightarrow>
               (case serialize h True obj of
                  (obj', None) \<Rightarrow> Inl Assertion_failed
                | (obj', Some buf) \<Rightarrow>
                    let (ok, st1) = pool_get st in
                    if \<not> ok then Inl Null_dereference
                    else
                      let (ok, st2) = pool_get st1 in
                      if \<not> ok then Inl Null_dereference
                      else Inr (True, sp\<lparr>sp_obj := Some obj', sp_content := Some buf,
                                        sp_data_len := int (length buf)\<rparr>, st2))))"

definition sftt_packet_free_content :: "sftt_packet \<Rightarrow> 's net \<Rightarrow> sftt_packet \<times> 's net" where
  "sftt_packet_free_content sp st =
     (sp\<lparr>sp_content := None, sp_data_len := 0\<rparr>, if sp_content sp = None then st else pool_put st)"

definition send_sftt_packet ::
    "'s send_fn \<Rightarrow> ptr \<Rightarrow> sftt_packet \<Rightarrow> 's net \<Rightarrow> c_fault + int \<times> sftt_packet \<times> 's net" where
  "send_sftt_packet snd_fn n sp st =
     sbind (sftt_packet_serialize sp st) (\<lambda>(ok, sp1, st1).
       if \<not> ok then Inr (-1, sp1, st1)
       else case malloc_sftt_packet st1 of
           (None, st2) \<Rightarrow> Inr (-1, sp1, st2)
         | (Some p, st2) \<Rightarrow>
             sbind (sftt_packet_encode_content n sp1 (p\<lparr>sp_type := sp_type sp1\<rparr>) st2) (\<lambda>(ret, p1, st3).
               if \<not> 0 < ret then Inr (-1, sp1, st3)
               else
                 let (sp2, st4) = sftt_packet_free_content sp1 st3 in
                 sbind (sftt_packet_send_header snd_fn p1 st4) (\<lambda>st5.
                   sbind (sftt_packet_send_content snd_fn p1 st5) (\<lambda>st6. Inr (0, sp2, st6)))))"

section \<open>Receiving\<close>

definition sftt_packet_decode_content ::
    "ptr \<Rightarrow> sftt_packet \<Rightarrow> sftt_packet \<Rightarrow> 's net \<Rightarrow> c_fault + int \<times> sftt_packet \<times> 's net" where
  "sftt_packet_decode_content n src dst st =
     sbind (sftt_buffer_decode n (packet_bytes src) True True) (\<lambda>r. Inr (set_content r dst st))"

definition sftt_packet_recv_header ::
    "'s recv_fn \<Rightarrow> sftt_packet \<Rightarrow> 's net \<Rightarrow> c_fault + int \<times> sftt_packet \<times> 's net" where
  "sftt_packet_recv_header rcv_fn sp st =
     (let (ret, header, s) = rcv_fn (sock st) 8 False; st1 = st\<lparr>sock := s\<rparr> in
      if \<not> 0 < ret then Inr (ret, sp, st1)
      else if ret \<noteq> 8 then Inr (-1, sp, st1)
      else sbind (sftt_buffer_decode 0 header False False) (\<lambda>(decoded_len, buffer).
        if decoded_len \<noteq> 8 then Inl Assertion_failed
        else case buffer of
            None \<Rightarrow> Inl Null_dereference
          | Some b \<Rightarrow>
              Inr (8, sp\<lparr>sp_type := sint (of_le32 b), sp_data_len := sint (of_le32 (drop 4 b))\<rparr>, st1)))"

text \<open>
  A length that is not positive, converted to \<^verbatim>\<open>size_t\<close>, is 0 or more than any memory: \<^verbatim>\<open>mp_malloc\<close>
  returns NULL, as it does when it has no memory left. \<^verbatim>\<open>recv\<close> into NULL fails with -1 unless the
  length is 0.
\<close>

definition sftt_packet_recv_content ::
    "'s recv_fn \<Rightarrow> sftt_packet \<Rightarrow> 's net \<Rightarrow> c_fault + int \<times> sftt_packet \<times> 's net" where
  "sftt_packet_recv_content rcv_fn sp st =
     (let (ok, st1) = (if sp_data_len sp \<le> 0 then (False, st) else pool_get st);
          (ret, bs, s) =
            (if ok \<or> sp_data_len sp = 0 then rcv_fn (sock st1) (nat (sp_data_len sp)) True
             else (-1, [], sock st1));
          st2 = st1\<lparr>sock := s\<rparr>;
          sp1 = sp\<lparr>sp_content := if ok then Some bs else None\<rparr>
      in if ret \<noteq> sp_data_len sp then Inr (if ret = 0 then 0 else -1, sp1, st2)
         else Inr (sp_data_len sp, sp1, st2))"

definition sftt_packet_deserialize ::
    "sftt_packet \<Rightarrow> 's net \<Rightarrow> c_fault + bool \<times> sftt_packet \<times> 's net" where
  "sftt_packet_deserialize sp st =
     (case find_handler (sp_type sp) of
        None \<Rightarrow> Inr (False, sp, st)
      | Some h \<Rightarrow>
          let (ok, st1) = pool_get st in
          if \<not> ok then Inl Null_dereference
          else sbind (deserialize h (packet_bytes sp)) (\<lambda>obj. Inr (True, sp\<lparr>sp_obj := Some obj\<rparr>, st1)))"

definition free_sftt_packet :: "sftt_packet \<Rightarrow> 's net \<Rightarrow> 's net" where
  "free_sftt_packet sp st = pool_put (snd (sftt_packet_free_content sp st))"

definition recv_sftt_packet ::
    "'s recv_fn \<Rightarrow> ptr \<Rightarrow> sftt_packet \<Rightarrow> 's net \<Rightarrow> c_fault + int \<times> sftt_packet \<times> 's net" where
  "recv_sftt_packet rcv_fn n sp st =
     (case malloc_sftt_packet st of
        (None, st1) \<Rightarrow> Inl Assertion_failed
      | (Some p, st1) \<Rightarrow>
          sbind (sftt_packet_recv_header rcv_fn p st1) (\<lambda>(ret, p1, st2).
            if \<not> 0 < ret then Inr (ret, sp, st2)
            else sbind (sftt_packet_recv_content rcv_fn p1 st2) (\<lambda>(len, p2, st3).
              if \<not> 0 < len then Inr (-1, sp, st3)
              else sbind (sftt_packet_decode_content n p2 (sp\<lparr>sp_type := sp_type p2\<rparr>) st3)
                (\<lambda>(dlen, sp1, st4).
                  if \<not> 0 < dlen then Inr (-1, sp1, st4)
                  else sbind (sftt_packet_deserialize sp1 st4) (\<lambda>(ok, sp2, st5).
                    if \<not> ok then Inr (-1, sp2, st5)
                    else
                      let (sp3, st6) = sftt_packet_free_content sp2 st5 in
                      Inr (ret + len, sp3, free_sftt_packet p2 st6))))))"

section \<open>The socket interface\<close>

text \<open>
  A connected stream socket: \<open>sent\<close> is what was written to it, \<open>pending\<close> what has arrived and was not
  read. \<^verbatim>\<open>send\<close> accepts the whole buffer, and \<^verbatim>\<open>recv\<close> of no more bytes than have arrived returns
  exactly those, with or without \<^verbatim>\<open>MSG_WAITALL\<close>.
\<close>

locale stream_socket =
  fixes snd_fn :: "'s send_fn" and rcv_fn :: "'s recv_fn"
    and sent :: "'s \<Rightarrow> bytes" and pending :: "'s \<Rightarrow> bytes"
  assumes send_all: "\<exists>s'. snd_fn s b = (int (length b), s') \<and> sent s' = sent s @ b"
    and recv_all: "k \<le> length (pending s) \<Longrightarrow>
      \<exists>s'. rcv_fn s k w = (int k, take k (pending s), s') \<and> pending s' = drop k (pending s)"

lemma layouts_small: "list_all (\<lambda>(pt, t). 0 \<le> pt \<and> pt < 40 \<and> 0 < cty_size t \<and> cty_size t \<le> 8192) packet_layouts"
  by (simp add: layout_defs numeral_2_eq_2 [symmetric])

lemma packet_layout_small:
  "packet_layout pt = Some t \<Longrightarrow> 0 \<le> pt \<and> pt < 40 \<and> 0 < cty_size t \<and> cty_size t \<le> 8192"
  using layouts_small by (auto simp: packet_layout_def list_all_iff dest: map_of_SomeD)

text \<open>What travels for an object: the encoded memory image behind the header.\<close>

definition frame :: "int \<Rightarrow> bytes \<Rightarrow> bytes" where
  "frame pt out = le32 (word_of_int pt) @ le32 (word_of_int (int (length out))) @ out"

definition carries :: "int \<Rightarrow> cval \<Rightarrow> bytes \<Rightarrow> bool" where
  "carries pt v out \<longleftrightarrow> out \<noteq> [] \<and> length out < 2 ^ 31 \<and>
     (\<exists>buf h. find_handler pt = Some h \<and> buf \<noteq> [] \<and> deserialize h buf = Inr v \<and>
        (\<forall>m. sftt_buffer_decode m out True True = Inr (int (length buf), Some buf)))"

lemma encoded_object:
  assumes "packet_layout pt = Some t" "well_typed t v"
  shows "\<exists>h buf out. find_handler pt = Some h \<and> serialize h True v = (swap v, Some buf) \<and>
    buf \<noteq> [] \<and> sftt_buffer_encode n buf True True = Inr (int (length out), Some out) \<and> carries pt v out"
proof -
  obtain h where h: "find_handler pt = Some h" "codec_ref t (serialize h) (deserialize h)"
    using assms(1) by (rule handler_of_layout)
  define buf where "buf = snd (raw_encode t v)"
  have ser: "serialize h True v = (swap v, Some buf)" "deserialize h buf = Inr v"
    using h(2) assms(2) raw.dec_enc [OF assms(2)]
    by (simp_all add: codec_ref_def buf_def) (simp add: raw_encode_def Let_def)
  have len: "length buf = cty_size t" "0 < length buf" "length buf \<le> 8192"
    using raw_encode_length [OF assms(2)] packet_layout_small [OF assms(1)] by (simp_all add: buf_def)
  then have ok: "codec_ok buf"
    by (auto simp: codec_ok_def)
  obtain out where out: "sftt_buffer_encode n buf True True = Inr (int (length out), Some out)" "out \<noteq> []"
    using packed.encode_ok [OF ok, of n] by blast
  have "sftt_buffer_decode m out True True = Inr (int (length buf), Some buf)" for m
    using packed.decode_encode [OF ok out(1)] .
  moreover have "length out < 2 ^ 31"
    using encode_zip_bound [OF ok out(1)] len(3) by simp
  ultimately have "carries pt v out"
    using h(1) ser(2) out(2) len(2) by (auto simp: carries_def)
  then show ?thesis
    using h(1) ser(1) out(1) len(2) by blast
qed


context stream_socket
begin

lemma send_object:
  assumes "packet_layout (sp_type sp) = Some t" "sp_obj sp = Some v" "well_typed t v" "3 \<le> mem st"
  shows "\<exists>out s'. carries (sp_type sp) v out \<and> sent s' = sent (sock st) @ frame (sp_type sp) out \<and>
    send_sftt_packet snd_fn n sp st =
      Inr (0, sp\<lparr>sp_obj := Some (swap v), sp_content := None, sp_data_len := 0\<rparr>,
           \<lparr>sock = s', mem = mem st - 3, held = held st + 3\<rparr>)"
proof -
  obtain h buf out where enc: "find_handler (sp_type sp) = Some h" "serialize h True v = (swap v, Some buf)"
    "buf \<noteq> []" "sftt_buffer_encode n buf True True = Inr (int (length out), Some out)"
    and carry: "carries (sp_type sp) v out"
    using encoded_object [OF assms(1,3), of n] by blast
  let ?hd = "le32 (word_of_int (sp_type sp)) @ le32 (word_of_int (int (length out)))"
  obtain s1 where s1: "snd_fn (sock st) ?hd = (8, s1)" "sent s1 = sent (sock st) @ ?hd"
    using send_all [of "sock st" ?hd] by auto
  obtain s2 where s2: "snd_fn s1 out = (int (length out), s2)" "sent s2 = sent s1 @ out"
    using send_all [of s1 out] by auto
  have hd: "sftt_buffer_encode 0 ?hd False False = Inr (8, Some ?hd)"
    by (simp add: sftt_buffer_encode_def)
  have ser: "sftt_packet_serialize sp st =
      Inr (True, sp\<lparr>sp_obj := Some (swap v), sp_content := Some buf, sp_data_len := int (length buf)\<rparr>,
           st\<lparr>mem := mem st - 2, held := held st + 2\<rparr>)"
    using assms(2,4) enc(1,2) by (simp add: sftt_packet_serialize_def pool_get_def Let_def)
  have "0 < length out"
    using carry by (auto simp: carries_def)
  then have "send_sftt_packet snd_fn n sp st =
      Inr (0, sp\<lparr>sp_obj := Some (swap v), sp_content := None, sp_data_len := 0\<rparr>,
           \<lparr>sock = s2, mem = mem st - 3, held = held st + 3\<rparr>)"
    using assms(4) enc(4) hd s1(1) s2(1)
    by (simp add: send_sftt_packet_def ser malloc_sftt_packet_def pool_get_def empty_packet_def
        sftt_packet_encode_content_def packet_bytes_def set_content_def sftt_packet_free_content_def
        pool_put_def sftt_packet_send_header_def sftt_packet_send_content_def Let_def)
  then show ?thesis
    using carry s1(2) s2(2) by (auto simp: frame_def)
qed

lemma recv_frame:
  assumes out: "out \<noteq> []" "length out < 2 ^ 31" "find_handler pt = Some h" "buf \<noteq> []"
    "\<And>m. sftt_buffer_decode m out True True = Inr (int (length buf), Some buf)"
    and pt: "0 \<le> pt" "pt < 2 ^ 31" and st: "pending (sock st) = frame pt out @ rest" "3 \<le> mem st"
  shows "\<exists>s'. pending s' = rest \<and> recv_sftt_packet rcv_fn n sp st =
      sbind (deserialize h buf) (\<lambda>v. Inr (int (length (frame pt out)),
           sp\<lparr>sp_type := pt, sp_obj := Some v, sp_content := None, sp_data_len := 0\<rparr>,
           \<lparr>sock = s', mem = mem st - 3, held = held st + 1\<rparr>))"
proof -
  let ?hd = "le32 (word_of_int pt) @ le32 (word_of_int (int (length out)))"
  obtain s1 where s1: "rcv_fn (sock st) 8 False = (8, ?hd, s1)" "pending s1 = out @ rest"
    using recv_all [of 8 "sock st" False] st(1) by (auto simp: frame_def)
  obtain s2 where s2: "rcv_fn s1 (length out) True = (int (length out), out, s2)" "pending s2 = rest"
    using recv_all [of "length out" s1 True] s1(2) by auto
  have hd: "sftt_buffer_decode 0 ?hd False False = Inr (8, Some ?hd)"
    by (simp add: sftt_buffer_decode_def)
  have w: "sint (word_of_int pt :: 32 word) = pt" "sint (word_of_int (int (length out)) :: 32 word) = int (length out)"
    using pt out(2) sint_word_of_int32 [of pt] sint_word_of_int32 [of "int (length out)"] by simp_all
  have rh: "sftt_packet_recv_header rcv_fn p st' = Inr (8, p\<lparr>sp_type := pt, sp_data_len := int (length out)\<rparr>, st'\<lparr>sock := s1\<rparr>)"
    if "sock st' = sock st" for p and st' :: "'s net"
    using hd s1(1) that w by (simp add: sftt_packet_recv_header_def)
  have "recv_sftt_packet rcv_fn n sp st =
      sbind (deserialize h buf) (\<lambda>v. Inr (int (length (frame pt out)),
           sp\<lparr>sp_type := pt, sp_obj := Some v, sp_content := None, sp_data_len := 0\<rparr>,
           \<lparr>sock = s2, mem = mem st - 3, held = held st + 1\<rparr>))"
    using st(2) out s2(1)
    by (cases "deserialize h buf")
      (simp_all add: recv_sftt_packet_def malloc_sftt_packet_def pool_get_def empty_packet_def rh
        sftt_packet_recv_content_def sftt_packet_decode_content_def packet_bytes_def set_content_def
        sftt_packet_deserialize_def sftt_packet_free_content_def free_sftt_packet_def pool_put_def Let_def frame_def)
  then show ?thesis
    using s2(2) by blast
qed

lemma recv_object:
  assumes "carries pt v out" "0 \<le> pt" "pt < 2 ^ 31" "pending (sock st) = frame pt out @ rest" "3 \<le> mem st"
  shows "\<exists>s'. pending s' = rest \<and> recv_sftt_packet rcv_fn n sp st =
      Inr (int (length (frame pt out)),
           sp\<lparr>sp_type := pt, sp_obj := Some v, sp_content := None, sp_data_len := 0\<rparr>,
           \<lparr>sock = s', mem = mem st - 3, held = held st + 1\<rparr>)"
proof -
  obtain buf h where c: "out \<noteq> []" "length out < 2 ^ 31" "find_handler pt = Some h" "buf \<noteq> []"
    "\<And>m. sftt_buffer_decode m out True True = Inr (int (length buf), Some buf)" and v: "deserialize h buf = Inr v"
    using assms(1) by (auto simp: carries_def)
  show ?thesis
    using recv_frame [OF c assms(2-5), of n sp] v by simp
qed

end

section \<open>Sequences of packets\<close>

text \<open>
  A peer that sends one packet after the other, and one that receives as many, each with the packet
  struct it has just prepared.
\<close>

definition packet :: "int \<times> cval \<Rightarrow> sftt_packet" where
  "packet m = empty_packet\<lparr>sp_type := fst m, sp_obj := Some (snd m)\<rparr>"

fun send_packets :: "'s send_fn \<Rightarrow> ptr \<Rightarrow> (int \<times> cval) list \<Rightarrow> 's net \<Rightarrow> c_fault + int \<times> 's net" where
  "send_packets snd_fn n [] st = Inr (0, st)"
| "send_packets snd_fn n (m # ms) st =
     sbind (send_sftt_packet snd_fn n (packet m) st) (\<lambda>(ret, sp, st1).
       if ret = -1 then Inr (-1, st1) else send_packets snd_fn n ms st1)"

fun recv_packets ::
    "'s recv_fn \<Rightarrow> ptr \<Rightarrow> nat \<Rightarrow> 's net \<Rightarrow> c_fault + (int \<times> cval option) list \<times> 's net" where
  "recv_packets rcv_fn n 0 st = Inr ([], st)"
| "recv_packets rcv_fn n (Suc k) st =
     sbind (recv_sftt_packet rcv_fn n empty_packet st) (\<lambda>(ret, sp, st1).
       if \<not> 0 < ret then Inr ([], st1)
       else sbind (recv_packets rcv_fn n k st1) (\<lambda>(ms, st2). Inr ((sp_type sp, sp_obj sp) # ms, st2)))"

fun sendable :: "int \<times> cval \<Rightarrow> bool" where
  "sendable (pt, v) = (case packet_layout pt of None \<Rightarrow> False | Some t \<Rightarrow> well_typed t v)"

definition delivers :: "'s recv_fn \<Rightarrow> ('s \<Rightarrow> bytes) \<Rightarrow> (int \<times> cval) list \<Rightarrow> bytes \<Rightarrow> bool" where
  "delivers rcv_fn pending ms w \<longleftrightarrow>
     (\<forall>n st rest. pending (sock st) = w @ rest \<longrightarrow> 3 * length ms \<le> mem st \<longrightarrow>
        (\<exists>st'. recv_packets rcv_fn n (length ms) st = Inr (map (\<lambda>(pt, v). (pt, Some v)) ms, st') \<and>
               pending (sock st') = rest))"

context stream_socket
begin

lemma delivers_Cons:
  assumes "carries pt v out" "0 \<le> pt" "pt < 2 ^ 31" "delivers rcv_fn pending ms w"
  shows "delivers rcv_fn pending ((pt, v) # ms) (frame pt out @ w)"
  unfolding delivers_def
proof (intro allI impI)
  fix n rest and st :: "'s net"
  assume p: "pending (sock st) = (frame pt out @ w) @ rest" and m: "3 * length ((pt, v) # ms) \<le> mem st"
  then have "pending (sock st) = frame pt out @ (w @ rest)" "3 \<le> mem st" and m': "3 * length ms \<le> mem st - 3"
    by auto
  then obtain s1 where s1: "pending s1 = w @ rest"
    "recv_sftt_packet rcv_fn n empty_packet st = Inr (int (length (frame pt out)),
       empty_packet\<lparr>sp_type := pt, sp_obj := Some v, sp_content := None, sp_data_len := 0\<rparr>,
       \<lparr>sock = s1, mem = mem st - 3, held = held st + 1\<rparr>)"
    using recv_object [OF assms(1-3), of st "w @ rest" n empty_packet] by blast
  moreover obtain st' where "recv_packets rcv_fn n (length ms) \<lparr>sock = s1, mem = mem st - 3, held = held st + 1\<rparr> =
      Inr (map (\<lambda>(pt, v). (pt, Some v)) ms, st')" "pending (sock st') = rest"
    using assms(4) [unfolded delivers_def, rule_format, of "\<lparr>sock = s1, mem = mem st - 3, held = held st + 1\<rparr>" rest n]
      s1(1) m' by auto
  ultimately show "\<exists>st'. recv_packets rcv_fn n (length ((pt, v) # ms)) st =
      Inr (map (\<lambda>(pt, v). (pt, Some v)) ((pt, v) # ms), st') \<and> pending (sock st') = rest"
    by (simp add: frame_def)
qed

lemma send_then_receive:
  "list_all sendable ms \<Longrightarrow> 3 * length ms \<le> mem st \<Longrightarrow>
     \<exists>st' w. send_packets snd_fn n ms st = Inr (0, st') \<and> sent (sock st') = sent (sock st) @ w \<and>
       held st' = held st + 3 * length ms \<and> delivers rcv_fn pending ms w"
proof (induction ms arbitrary: st)
  case Nil
  show ?case by (auto simp: delivers_def)
next
  case (Cons m ms)
  obtain pt v t where m: "m = (pt, v)" "packet_layout pt = Some t" "well_typed t v"
    using Cons.prems(1) by (cases m) (auto split: option.splits)
  have pt: "0 \<le> pt" "pt < 2 ^ 31"
    using packet_layout_small [OF m(2)] by auto
  have le: "3 * length ms \<le> mem st - 3"
    using Cons.prems(2) by auto
  obtain out s1 sp where s: "carries pt v out" "sent s1 = sent (sock st) @ frame pt out"
    "send_sftt_packet snd_fn n (packet m) st = Inr (0, sp, \<lparr>sock = s1, mem = mem st - 3, held = held st + 3\<rparr>)"
    using send_object [of "packet m" t v st n] m Cons.prems(2) by (auto simp: packet_def)
  obtain st' w where "send_packets snd_fn n ms \<lparr>sock = s1, mem = mem st - 3, held = held st + 3\<rparr> = Inr (0, st')"
    "sent (sock st') = sent s1 @ w" "held st' = held st + 3 + 3 * length ms" "delivers rcv_fn pending ms w"
    using Cons.IH [of "\<lparr>sock = s1, mem = mem st - 3, held = held st + 3\<rparr>"] Cons.prems(1) le by auto
  then show ?case
    using s delivers_Cons [OF s(1) pt] m(1) by auto
qed

end

text \<open>A connection within one process: bytes written can be read back.\<close>

definition pipe_send :: "bytes send_fn" where
  "pipe_send s b = (int (length b), s @ b)"

definition pipe_recv :: "bytes recv_fn" where
  "pipe_recv s k w = (int (min k (length s)), take k s, drop k s)"

interpretation pipe: stream_socket pipe_send pipe_recv "\<lambda>s. s" "\<lambda>s. s"
  by unfold_locales (auto simp: pipe_send_def pipe_recv_def)

section \<open>Results\<close>

text \<open>
  C30: one packet from end to end. Sending a packet whose object has the struct of its type returns 0
  and puts a frame on the wire; receiving that frame, whatever follows it, returns the number of bytes
  of the frame and yields the same type and object. The receiver ends with one block more than
  before, the object. The sender ends with three: every successful send leaves the encoder's buffer,
  the second packet struct and the encoded content allocated.
\<close>

theorem send_recv_roundtrip:
  assumes "stream_socket snd_fn rcv_fn sent pending" "packet_layout (sp_type sp) = Some t"
    "sp_obj sp = Some v" "well_typed t v" "3 \<le> mem st"
  shows "\<exists>w sp' st'. send_sftt_packet snd_fn n sp st = Inr (0, sp', st')
    \<and> sent (sock st') = sent (sock st) @ w \<and> held st' = held st + 3
    \<and> (\<forall>rsp rst rest. pending (sock rst) = w @ rest \<longrightarrow> 3 \<le> mem rst \<longrightarrow>
         (\<exists>rst'. recv_sftt_packet rcv_fn m rsp rst =
             Inr (int (length w), rsp\<lparr>sp_type := sp_type sp, sp_obj := Some v, sp_content := None,
                                      sp_data_len := 0\<rparr>, rst')
           \<and> pending (sock rst') = rest \<and> held rst' = held rst + 1))"
proof -
  have pt: "0 \<le> sp_type sp" "sp_type sp < 2 ^ 31"
    using packet_layout_small [OF assms(2)] by auto
  obtain out s' where s: "carries (sp_type sp) v out" "sent s' = sent (sock st) @ frame (sp_type sp) out"
    "send_sftt_packet snd_fn n sp st =
      Inr (0, sp\<lparr>sp_obj := Some (swap v), sp_content := None, sp_data_len := 0\<rparr>,
           \<lparr>sock = s', mem = mem st - 3, held = held st + 3\<rparr>)"
    using stream_socket.send_object [OF assms(1-5)] by blast
  have "\<exists>rst'. recv_sftt_packet rcv_fn m rsp rst =
             Inr (int (length (frame (sp_type sp) out)), rsp\<lparr>sp_type := sp_type sp, sp_obj := Some v, sp_content := None,
                                      sp_data_len := 0\<rparr>, rst')
           \<and> pending (sock rst') = rest \<and> held rst' = held rst + 1"
    if "pending (sock rst) = frame (sp_type sp) out @ rest" "3 \<le> mem rst" for rsp rst rest
    using stream_socket.recv_object [OF assms(1) s(1) pt that, of m rsp] by auto
  then show ?thesis
    using s(2,3) by auto
qed

text \<open>
  C39: the receiver never compares the length of the decoded content with the size of the struct of the
  packet's type. Let a peer compress and encrypt any bytes and send them in a frame of a type that the
  receiver knows. Content longer than the struct makes \<^const>\<open>recv_sftt_packet\<close> write past the
  object that the decoder has allocated. Any shorter non-empty content is received as an object of the
  type, completed with zero bytes, and the call returns the length of the frame like for a well-formed packet.
\<close>

theorem recv_unchecked_length:
  assumes "stream_socket snd_fn rcv_fn sent pending" "packet_layout pt = Some t"
    "content \<noteq> []" "length content < 2 ^ 23" "sftt_buffer_encode m content True True = Inr (r, Some out)"
    "pending (sock st) = frame pt out @ rest" "3 \<le> mem st"
  shows "if cty_size t < length content then recv_sftt_packet rcv_fn n sp st = Inl Out_of_bounds
    else \<exists>v st'. v = swap (parse t (content @ replicate (cty_size t - length content) 0)) \<and> well_typed t v
      \<and> recv_sftt_packet rcv_fn n sp st = Inr (int (length (frame pt out)),
            sp\<lparr>sp_type := pt, sp_obj := Some v, sp_content := None, sp_data_len := 0\<rparr>, st')
      \<and> pending (sock st') = rest \<and> held st' = held st + 1"
proof -
  have ok: "codec_ok content" using assms(3,4) by (simp add: codec_ok_def)
  have dec: "sftt_buffer_decode k out True True = Inr (int (length content), Some content)" for k
    by (rule packed.decode_encode [OF ok assms(5)])
  have len: "out \<noteq> []" "length out < 2 ^ 31"
    using packed.encode_len [OF ok assms(5)] encode_zip_bound [OF ok assms(5)] assms(4) by auto
  have pt: "0 \<le> pt" "pt < 2 ^ 31"
    using packet_layout_small [OF assms(2)] by auto
  obtain h where h: "find_handler pt = Some h"
    "\<forall>buf. deserialize h buf =
       (if cty_size t < length buf then Inl Out_of_bounds
        else Inr (swap (parse t (buf @ replicate (cty_size t - length buf) 0))))"
    by (rule deserialize_any_length [OF assms(2)])
  have "well_typed t (swap (parse t (content @ replicate (cty_size t - length content) 0)))"
    by (intro well_typed_swap(1) well_typed_parse(1)) simp
  then show ?thesis
    using stream_socket.recv_frame [OF assms(1) len h(1) assms(3) dec pt assms(6,7), of n sp] h(2) by auto
qed

text \<open>
  Packets arrive in order. Any sequence of packets sent on a stream socket is received as the same
  sequence of types and objects, by a peer that only receives, and the stream is then at the byte
  after the last packet.
\<close>

theorem packets_in_order:
  assumes "stream_socket snd_fn rcv_fn sent pending" "list_all sendable ms"
    "3 * length ms \<le> mem st" "3 * length ms \<le> mem rst"
  shows "\<exists>st' w. send_packets snd_fn n ms st = Inr (0, st') \<and> sent (sock st') = sent (sock st) @ w
    \<and> (pending (sock rst) = w @ rest \<longrightarrow>
        (\<exists>rst'. recv_packets rcv_fn m (length ms) rst = Inr (map (\<lambda>(pt, v). (pt, Some v)) ms, rst')
          \<and> pending (sock rst') = rest))"
proof -
  obtain st' w where "send_packets snd_fn n ms st = Inr (0, st')" "sent (sock st') = sent (sock st) @ w"
    "delivers rcv_fn pending ms w"
    using stream_socket.send_then_receive [OF assms(1-3), of n] by blast
  then show ?thesis
    using assms(4) by (fastforce simp: delivers_def)
qed


definition pipe_net :: "bytes \<Rightarrow> bytes net" where
  "pipe_net s = \<lparr>sock = s, mem = 6, held = 0\<rparr>"

lemma sendable_examples: "sendable (36, VStruct [VInt 7])" "packet_layout 36 = Some port_update_req_ty"
    "well_typed port_update_req_ty (VStruct [VInt 7])"
  by (simp_all add: packet_layout_def packet_layouts_def port_update_req_ty_def struct_ty_def)

theorem send_recv_roundtrip_witness:
  "\<exists>w sp' st' rst'. send_sftt_packet pipe_send 1 (packet (36, VStruct [VInt 7])) (pipe_net []) = Inr (0, sp', st')
    \<and> sock st' = w \<and> recv_sftt_packet pipe_recv 1 empty_packet (pipe_net w) =
        Inr (int (length w), packet (36, VStruct [VInt 7]), rst') \<and> sock rst' = []"
proof -
  obtain sp' st' where s: "send_sftt_packet pipe_send 1 (packet (36, VStruct [VInt 7])) (pipe_net []) = Inr (0, sp', st')"
    and r: "\<forall>rsp rst rest. sock rst = sock st' @ rest \<longrightarrow> 3 \<le> mem rst \<longrightarrow>
      (\<exists>rst'. recv_sftt_packet pipe_recv 1 rsp rst = Inr (int (length (sock st')),
          rsp\<lparr>sp_type := 36, sp_obj := Some (VStruct [VInt 7]), sp_content := None, sp_data_len := 0\<rparr>, rst')
        \<and> sock rst' = rest \<and> held rst' = held rst + 1)"
    using send_recv_roundtrip [OF pipe.stream_socket_axioms, of "packet (36, VStruct [VInt 7])" port_update_req_ty
        "VStruct [VInt 7]" "pipe_net []" 1 1] sendable_examples by (auto simp: packet_def pipe_net_def)
  have "\<exists>rst'. recv_sftt_packet pipe_recv 1 empty_packet (pipe_net (sock st')) =
      Inr (int (length (sock st')), packet (36, VStruct [VInt 7]), rst') \<and> sock rst' = []"
    using r [rule_format, of "pipe_net (sock st')" "[]" empty_packet]
    by (auto simp: pipe_net_def packet_def empty_packet_def)
  then show ?thesis
    using s by blast
qed

theorem recv_unchecked_length_witness:
  "(\<exists>w. recv_sftt_packet pipe_recv 1 empty_packet (pipe_net w) = Inl Out_of_bounds)
   \<and> (\<exists>w st'. recv_sftt_packet pipe_recv 1 empty_packet (pipe_net w) =
        Inr (int (length w), packet (36, VStruct [VInt 0x01020000]), st'))"
proof -
  have t: "packet_layout 36 = Some port_update_req_ty" "cty_size port_update_req_ty = 4"
    by (simp_all add: sendable_examples port_update_req_ty_def struct_ty_def round_up_def)
  obtain out where "sftt_buffer_encode 1 [0, 0, 0, 1, 0] True True = Inr (int (length out), Some out)"
    using packed.encode_ok [of "[0, 0, 0, 1, 0]" 1] by (auto simp: codec_ok_def)
  from recv_unchecked_length [OF pipe.stream_socket_axioms t(1) _ _ this, of "pipe_net (frame 36 out)" "[]" 1 empty_packet]
  have "recv_sftt_packet pipe_recv 1 empty_packet (pipe_net (frame 36 out)) = Inl Out_of_bounds"
    by (simp add: t(2) pipe_net_def)
  moreover obtain out2 where "sftt_buffer_encode 1 [1, 2] True True = Inr (int (length out2), Some out2)"
    using packed.encode_ok [of "[1, 2]" 1] by (auto simp: codec_ok_def)
  from recv_unchecked_length [OF pipe.stream_socket_axioms t(1) _ _ this, of "pipe_net (frame 36 out2)" "[]" 1 empty_packet]
  obtain st' where "recv_sftt_packet pipe_recv 1 empty_packet (pipe_net (frame 36 out2)) =
      Inr (int (length (frame 36 out2)),
           packet (36, swap (parse port_update_req_ty ([1, 2] @ replicate (4 - 2) 0))), st')"
    by (auto simp: t(2) pipe_net_def packet_def empty_packet_def)
  moreover have "replicate (4 - 2) 0 = [0, 0 :: byte]"
    by (simp add: numeral_2_eq_2)
  then have "swap (parse port_update_req_ty ([1, 2] @ replicate (4 - 2) 0)) = VStruct [VInt 0x01020000]"
    by (simp add: port_update_req_ty_def struct_ty_def round_up_def htonl_def le32_def)
  ultimately show ?thesis
    by auto
qed

theorem packets_in_order_witness:
  "\<exists>st' rst'. send_packets pipe_send 1 [(36, VStruct [VInt 7]), (36, VStruct [VInt 8])] (pipe_net []) = Inr (0, st')
    \<and> recv_packets pipe_recv 1 2 (pipe_net (sock st')) =
        Inr ([(36, Some (VStruct [VInt 7])), (36, Some (VStruct [VInt 8]))], rst')"
proof -
  let ?ms = "[(36, VStruct [VInt 7]), (36, VStruct [VInt 8])]"
  have ok: "list_all sendable ?ms"
    by (simp add: packet_layout_def packet_layouts_def port_update_req_ty_def struct_ty_def)
  have mem: "3 * length ?ms \<le> mem (pipe_net s)" for s
    by (simp add: pipe_net_def)
  have two: "length ?ms = 2" "map (\<lambda>(pt, v). (pt, Some v)) ?ms = [(36, Some (VStruct [VInt 7])), (36, Some (VStruct [VInt 8]))]"
    by simp_all
  note io = packets_in_order [OF pipe.stream_socket_axioms ok mem mem, where n = 1 and m = 1, unfolded two]
  obtain st' where s: "send_packets pipe_send 1 ?ms (pipe_net []) = Inr (0, st')"
    using io by blast
  then have "\<exists>rst'. recv_packets pipe_recv 1 2 (pipe_net (sock st')) =
      Inr ([(36, Some (VStruct [VInt 7])), (36, Some (VStruct [VInt 8]))], rst')"
    using io [of "[]" "sock st'" "[]"] by (auto simp: pipe_net_def simp del: send_packets.simps recv_packets.simps)
  then show ?thesis
    using s by blast
qed

text \<open>
  The return values of \<open>recv_sftt_packet\<close> before any content is read. A closed or failing
  connection gives the value of \<^verbatim>\<open>recv\<close>; a header that arrives in pieces gives -1 although its first
  bytes have been taken off the stream, so the connection cannot be read any further; in both cases
  the packet is not touched and the packet struct allocated for the call is left behind.
\<close>

theorem recv_header_errors:
  assumes "rcv_fn (sock st) 8 False = (ret, bs, s)" "ret < 8" "0 < mem st"
  shows "\<exists>st'. recv_sftt_packet rcv_fn n sp st = Inr (if 0 < ret then -1 else ret, sp, st')
    \<and> sock st' = s \<and> held st' = held st + 1"
  using assms
  by (auto simp: recv_sftt_packet_def malloc_sftt_packet_def pool_get_def sftt_packet_recv_header_def)

theorem recv_header_errors_witness:
  "\<exists>st'. recv_sftt_packet pipe_recv 1 empty_packet (pipe_net [36, 0, 0]) = Inr (-1, empty_packet, st')
    \<and> sock st' = [] \<and> held st' = 1"
  using recv_header_errors [of pipe_recv "pipe_net [36, 0, 0]" 3 "[36, 0, 0]" "[]" 1 empty_packet]
  by (simp add: pipe_recv_def pipe_net_def)

text \<open>
  The length in a header is not limited by the content that is accepted. A header that announces
  a length that is not positive, or more than the pool can give, makes the call return -1; the
  announced bytes stay on the stream and are read as the next header.
\<close>

theorem recv_bad_length:
  assumes "rcv_fn (sock st) 8 False = (8, header, s)" "length header = 8"
    "sint (of_le32 (drop 4 header)) < 0 \<or> (0 < sint (of_le32 (drop 4 header)) \<and> mem st = 1)" "0 < mem st"
  shows "\<exists>st'. recv_sftt_packet rcv_fn n sp st = Inr (-1, sp, st') \<and> sock st' = s"
proof -
  have "sftt_buffer_decode 0 header False False = Inr (8, Some header)"
    using assms(2) by (auto simp: sftt_buffer_decode_def)
  then show ?thesis
    using assms
    by (auto simp: recv_sftt_packet_def malloc_sftt_packet_def pool_get_def sftt_packet_recv_header_def
        sftt_packet_recv_content_def Let_def simp del: sbind_eq_Inr)
qed

theorem recv_bad_length_witness:
  "\<exists>st'. recv_sftt_packet pipe_recv 1 empty_packet (pipe_net [36, 0, 0, 0, 255, 255, 255, 255, 9]) =
      Inr (-1, empty_packet, st') \<and> sock st' = [9]"
  using recv_bad_length [of pipe_recv "pipe_net [36, 0, 0, 0, 255, 255, 255, 255, 9]"
      "[36, 0, 0, 0, 255, 255, 255, 255]" "[9]" 1 empty_packet]
  by (simp add: pipe_recv_def pipe_net_def)

text \<open>
  A send that the socket accepts only in part is not continued: the assertions on the value of
  \<^verbatim>\<open>send\<close> end the process, for the header as for the content.
\<close>

theorem short_send_aborts:
  assumes "packet_layout (sp_type sp) = Some t" "sp_obj sp = Some v" "well_typed t v" "3 \<le> mem st"
    "\<forall>s b. fst (snd_fn s b) < int (length b)"
  shows "send_sftt_packet snd_fn n sp st = Inl Assertion_failed"
proof -
  obtain h buf out where enc: "find_handler (sp_type sp) = Some h" "serialize h True v = (swap v, Some buf)"
    "buf \<noteq> []" "sftt_buffer_encode n buf True True = Inr (int (length out), Some out)" "carries (sp_type sp) v out"
    using encoded_object [OF assms(1,3), of n] by blast
  let ?hd = "le32 (word_of_int (sp_type sp)) @ le32 (word_of_int (int (length out)))"
  have hd: "sftt_buffer_encode 0 ?hd False False = Inr (8, Some ?hd)"
    by (simp add: sftt_buffer_encode_def)
  have "fst (snd_fn (sock st) ?hd) \<noteq> 8"
    using assms(5) [rule_format, of "sock st" ?hd] by simp
  moreover have "0 < length out"
    using enc(5) by (auto simp: carries_def)
  ultimately show ?thesis
    using assms(2,4) enc(1,2,4) hd
    by (simp add: send_sftt_packet_def sftt_packet_serialize_def malloc_sftt_packet_def pool_get_def empty_packet_def
        sftt_packet_encode_content_def packet_bytes_def set_content_def sftt_packet_free_content_def
        pool_put_def sftt_packet_send_header_def Let_def split_def)
qed

theorem short_send_aborts_witness:
  "send_sftt_packet (\<lambda>s b. (int (length b) - 1, s)) 1 (packet (36, VStruct [VInt 7])) (pipe_net []) = Inl Assertion_failed"
  using short_send_aborts [of "packet (36, VStruct [VInt 7])" port_update_req_ty "VStruct [VInt 7]" "pipe_net []"
      "\<lambda>s b. (int (length b) - 1, s)" 1] sendable_examples by (simp add: packet_def pipe_net_def)

section \<open>The buffers of a send in the pool\<close>

text \<open>
  The allocations of \<^verbatim>\<open>sftt_packet_serialize\<close> on the pool itself, for an encoder \<open>func\<close> and an image of
  \<open>len\<close> bytes: the encoder's buffer, the copy, and the call of \<^verbatim>\<open>free\<close> on the buffer. The result is the
  buffer and the copy.
\<close>

definition serialize_buffers :: "string \<Rightarrow> nat \<Rightarrow> pool \<Rightarrow> c_fault + ptr \<times> ptr \<times> pool" where
  "serialize_buffers func len s =
     sbind (mp_malloc func len s) (\<lambda>(buf, s1).
       if buf = NULL then Inl Null_dereference
       else sbind (mp_malloc ''sftt_packet_serialize'' len s1) (\<lambda>(content, s2).
         if content = NULL then Inl Null_dereference
         else sbind (memcpy content buf len (libc s2)) (\<lambda>h.
           Inr (buf, content, s2\<lparr>libc := c_free buf h\<rparr>))))"

lemma live_block:
  assumes "pool_ok s" "live s a = Some (q, z)"
  shows "length (block (libc s) a) = z \<and> 0 < z"
  using assms by (auto simp: pool_ok_def blocks_ok_def live_def dest!: map_of_SomeD)

text \<open>
  C40: \<^verbatim>\<open>sftt_packet_serialize\<close> breaks the pool. It gives the encoder's buffer, a block of the pool, to
  \<^verbatim>\<open>free\<close>, although the encoder reports \<^verbatim>\<open>FREE_MODE_MP_FREE\<close>. The pool still counts the block as in use
  under the encoder's name while its memory is gone, and no longer satisfies its invariant.
\<close>

theorem serialize_frees_pool_block:
  assumes "pool_ok s" "0 < len" "serialize_buffers func len s = Inr (buf, content, s')"
  shows "(\<exists>z. live s' buf = Some (func, z) \<and> len \<le> z) \<and> block (libc s') buf = [] \<and> \<not> pool_ok s'
    \<and> live s' content \<noteq> None \<and> buf \<noteq> content"
proof -
  obtain s1 s2 h where m: "mp_malloc func len s = Inr (buf, s1)" "buf \<noteq> NULL"
    "mp_malloc ''sftt_packet_serialize'' len s1 = Inr (content, s2)" "content \<noteq> NULL"
    and s': "s' = s2\<lparr>libc := c_free buf h\<rparr>"
    using assms(3) by (auto simp: serialize_buffers_def split: if_splits)
  have ok: "pool_ok s1" "pool_ok s2"
    using mp.alloc_inv [OF assms(1) m(1)] mp.alloc_inv [OF _ m(3)] by auto
  obtain z where z: "len \<le> z" "live s1 buf = Some (func, z)"
    using mp.alloc_live [OF assms(1) m(1,2)] by auto
  have l2: "live s2 buf = Some (func, z)" "live s2 content \<noteq> None"
    using mp.alloc_keeps(2) [OF ok(1) m(3)] z(2) mp.alloc_live [OF ok(1) m(3,4)] by auto
  have live': "live s' = live s2"
    by (simp add: s' live_def)
  have gone: "block (libc s') buf = []"
    using m(2) by (simp add: s' c_free_def)
  moreover have "\<not> pool_ok s'"
    using live_block [of s' buf func z] l2(1) live' gone by auto
  ultimately show ?thesis
    using l2 live' z(1) mp.allocs_distinct [OF assms(1) m(1,2,3)] by auto
qed

theorem serialize_frees_pool_block_witness:
  "\<exists>buf content s'. serialize_buffers ''f'' 4 (one_node_pool False) = Inr (buf, content, s')
    \<and> \<not> pool_ok s' \<and> live s' buf \<noteq> None"
proof -
  have "\<exists>buf content s'. serialize_buffers ''f'' 4 (one_node_pool False) = Inr (buf, content, s')"
    by (simp add: serialize_buffers_def mp_malloc_def one_node_pool_def mp_lock_def mp_use_node_def upd_node_def
        upd_stat_def add_purpose_def find_purpose_def purpose_node_create_def malloc_def pool_sizes bzero_def
        mem_node_create_def mp_add_node_def memcpy_def Let_def upd_purpose_def)
  then obtain buf content s' where s: "serialize_buffers ''f'' 4 (one_node_pool False) = Inr (buf, content, s')"
    by blast
  show ?thesis
    using serialize_frees_pool_block [OF one_node_pool_ok(1) _ s] s by auto
qed

end
