(* ===== verification/Sftt_Messages.thy ===== *)
theory Sftt_Messages
  imports Sftt_Config Sftt_Net
begin

text \<open>
  The messages of the session protocol as records with the members of the structs of
  \<^verbatim>\<open>src/include/req_resp.h\<close>: requests, and responses, which all begin with a status, flags and a text
  (\<open>status_resp\<close>; \<^verbatim>\<open>src/include/response.h\<close>, \<^verbatim>\<open>src/src/response.c\<close>). Character arrays are byte lists of the
  declared length. \<open>ctl_packet\<close> is the packet object a message is for the packet layer, and \<open>hton_ctl\<close> is what
  a send leaves in the struct of the sender: every integer in it is converted in place.
\<close>

section \<open>Constants\<close>

datatype resp_code =
    RESP_OK | RESP_SERVER_EXCEPTION | RESP_CANNOT_CD | RESP_CONTINUE | RESP_UVS_NTFD | RESP_UVS_INVALID
  | RESP_UVS_MISSHOME | RESP_UVS_BLOCK | RESP_UVS_BAD_VER | RESP_UVS_PASS | RESP_CNT_CHECK_USER
  | RESP_CNT_GET_PEER | RESP_SEND_PEER_ERR | RESP_SESSION_INVALID | RESP_FILE_NTFD | RESP_INTERNAL_ERR
  | RESP_PATH_NOT_ABS | RESP_UNKNOWN_FILE_TYPE | RESP_UNKNOWN_CONN_TYPE | RESP_CNT_GET_TASK_CONN
  | RESP_PEER_BUSYING

fun resp_num :: "resp_code \<Rightarrow> 32 word" where
  "resp_num RESP_OK = 0"
| "resp_num RESP_SERVER_EXCEPTION = 1"
| "resp_num RESP_CANNOT_CD = 2"
| "resp_num RESP_CONTINUE = 3"
| "resp_num RESP_UVS_NTFD = 4"
| "resp_num RESP_UVS_INVALID = 5"
| "resp_num RESP_UVS_MISSHOME = 6"
| "resp_num RESP_UVS_BLOCK = 7"
| "resp_num RESP_UVS_BAD_VER = 8"
| "resp_num RESP_UVS_PASS = 9"
| "resp_num RESP_CNT_CHECK_USER = 10"
| "resp_num RESP_CNT_GET_PEER = 11"
| "resp_num RESP_SEND_PEER_ERR = 12"
| "resp_num RESP_SESSION_INVALID = 13"
| "resp_num RESP_FILE_NTFD = 14"
| "resp_num RESP_INTERNAL_ERR = 15"
| "resp_num RESP_PATH_NOT_ABS = 16"
| "resp_num RESP_UNKNOWN_FILE_TYPE = 17"
| "resp_num RESP_UNKNOWN_CONN_TYPE = 18"
| "resp_num RESP_CNT_GET_TASK_CONN = 19"
| "resp_num RESP_PEER_BUSYING = 20"

fun resp_messages :: "resp_code \<Rightarrow> string" where
  "resp_messages RESP_OK = ''ok!''"
| "resp_messages RESP_SERVER_EXCEPTION = ''server exception!''"
| "resp_messages RESP_CANNOT_CD = ''cannot change directory!''"
| "resp_messages RESP_CONTINUE = ''continue!''"
| "resp_messages RESP_UVS_NTFD = ''user not found!''"
| "resp_messages RESP_UVS_INVALID = ''cannot validate user!''"
| "resp_messages RESP_UVS_MISSHOME = ''cannot find user's home!''"
| "resp_messages RESP_UVS_BLOCK = ''user blocked!''"
| "resp_messages RESP_UVS_BAD_VER = ''version mismatch!''"
| "resp_messages RESP_UVS_PASS = ''pass validate!''"
| "resp_messages RESP_CNT_CHECK_USER = ''cannot check user!''"
| "resp_messages RESP_CNT_GET_PEER = ''cannot get peer info!''"
| "resp_messages RESP_SEND_PEER_ERR = ''send to peer failed!''"
| "resp_messages RESP_SESSION_INVALID = ''session invalid!''"
| "resp_messages RESP_FILE_NTFD = ''file not found!''"
| "resp_messages RESP_INTERNAL_ERR = ''internal error!''"
| "resp_messages RESP_PATH_NOT_ABS = ''path not absolute!''"
| "resp_messages RESP_UNKNOWN_FILE_TYPE = ''unknown file type!''"
| "resp_messages RESP_UNKNOWN_CONN_TYPE = ''unknown connect type!''"
| "resp_messages RESP_CNT_GET_TASK_CONN = ''cannot get task connect, please try again!''"
| "resp_messages RESP_PEER_BUSYING = ''peer is busing, cannot serve!''"

definition FILE_TYPE_FILE :: "32 word" where "FILE_TYPE_FILE = 1"
definition FILE_TYPE_DIR :: "32 word" where "FILE_TYPE_DIR = 2"
definition REQ_RESP_FLAG_NONE :: "32 word" where "REQ_RESP_FLAG_NONE = 0"
definition REQ_RESP_FLAG_STOP :: "32 word" where "REQ_RESP_FLAG_STOP = 2"
definition CONTENT_BLOCK_SIZE :: nat where "CONTENT_BLOCK_SIZE = 2048"
definition RESP_MESSAGE_MAX_LEN :: nat where "RESP_MESSAGE_MAX_LEN = 80"
definition MD5_STR_LEN :: nat where "MD5_STR_LEN = 33"

lemmas trans_consts = FILE_TYPE_FILE_def FILE_TYPE_DIR_def REQ_RESP_FLAG_NONE_def REQ_RESP_FLAG_STOP_def
  CONTENT_BLOCK_SIZE_def RESP_MESSAGE_MAX_LEN_def MD5_STR_LEN_def

text \<open>Strings in byte buffers: \<^verbatim>\<open>strncpy\<close>, \<^verbatim>\<open>strcpy\<close> and reading a string.\<close>

definition str_bytes :: "string \<Rightarrow> bytes" where
  "str_bytes s = map char_byte s"

definition buf_strncpy :: "bytes \<Rightarrow> string \<Rightarrow> nat \<Rightarrow> bytes" where
  "buf_strncpy buf s n = take n (str_bytes s @ replicate n 0) @ drop n buf"

definition buf_strcpy :: "bytes \<Rightarrow> string \<Rightarrow> bytes" where
  "buf_strcpy buf s = str_bytes s @ [0] @ drop (length s + 1) buf"

definition buf_string :: "bytes \<Rightarrow> string" where
  "buf_string buf = map byte_char (takeWhile (\<lambda>b. b \<noteq> 0) buf)"

section \<open>Responses\<close>

record status_resp =
  sr_status :: "32 word"
  sr_flags :: "32 word"
  sr_message :: bytes

definition hton_status :: "'a status_resp_scheme \<Rightarrow> 'a status_resp_scheme" where
  "hton_status r = r\<lparr>sr_status := htonl (sr_status r), sr_flags := htonl (sr_flags r)\<rparr>"

text \<open>What every response sender of \<^verbatim>\<open>src/src/trans.c\<close> stores before it sends.\<close>

definition set_status :: "'a status_resp_scheme \<Rightarrow> resp_code \<Rightarrow> 32 word \<Rightarrow> 'a status_resp_scheme" where
  "set_status resp code flags =
     resp\<lparr>sr_status := resp_num code,
          sr_message := buf_strncpy (sr_message resp) (resp_messages code) (RESP_MESSAGE_MAX_LEN - 1),
          sr_flags := flags\<rparr>"

definition head_vals :: "'a status_resp_scheme \<Rightarrow> cval list" where
  "head_vals r = [VInt (sr_status r), VInt (sr_flags r), VChars (sr_message r)]"

record logged_in_user =
  lu_session_id :: bytes
  lu_name :: bytes
  lu_ip :: bytes
  lu_port :: "32 word"

record file_entry =
  fe_name :: bytes
  fe_type :: "32 word"
  fe_size :: "32 word"
  fe_c_time :: "32 word"
  fe_a_time :: "32 word"
  fe_m_time :: "32 word"
  fe_mode :: "32 word"

record channel_info_resp = status_resp +
  cr_main_port :: "32 word"
  cr_second_port :: "32 word"

record validate_resp = status_resp +
  va_uid :: "32 word"
  va_name :: bytes
  va_session_id :: bytes
  va_connect_id :: bytes
  va_pwd :: bytes

record append_conn_resp = status_resp +
  ac_connect_id :: bytes

record pwd_resp = status_resp +
  pw_pwd :: bytes

record cd_resp = status_resp +
  cp_pwd :: bytes

record ll_resp = status_resp +
  ll_total :: "32 word"
  ll_this_nr :: "32 word"
  ll_entries :: "file_entry list"

record mp_stat_resp = status_resp +
  ms_total_size :: "32 word"
  ms_total_nodes :: "32 word"
  ms_using_nodes :: "32 word"
  ms_free_nodes :: "32 word"

record directcmd_resp = status_resp +
  dc_total_len :: "32 word"
  dc_this_len :: "32 word"
  dc_content :: bytes

record write_resp = status_resp +
  wr_message :: bytes

record who_resp = status_resp +
  wh_total :: "32 word"
  wh_this_nr :: "32 word"
  wh_users :: "logged_in_user list"

section \<open>Requests\<close>

record validate_req =
  vq_name_len :: "32 word"
  vq_passwd_len :: "32 word"
  vq_name :: bytes
  vq_passwd_md5 :: bytes
  vq_ver :: version_info

record append_conn_req =
  aq_session_id :: bytes
  aq_type :: "32 word"

text \<open>The requests to list a directory and to get files have the same members.\<close>

record path_req =
  pq_session_id :: bytes
  pq_path :: bytes
  pq_to_peer :: "32 word"
  pq_user :: logged_in_user

record write_req =
  wq_user :: logged_in_user
  wq_len :: "32 word"
  wq_message :: bytes

datatype ctl =
    Validate_req validate_req
  | Validate_resp validate_resp
  | Append_conn_req append_conn_req
  | Append_conn_resp append_conn_resp
  | Pwd_req bytes
  | Pwd_resp pwd_resp
  | Cd_req bytes bytes
  | Cd_resp cd_resp
  | Ll_req path_req
  | Ll_resp ll_resp
  | Get_req path_req
  | Mp_stat_req bytes
  | Mp_stat_resp mp_stat_resp
  | Directcmd_req bytes bytes
  | Directcmd_resp directcmd_resp
  | Who_req bytes
  | Who_resp who_resp
  | Write_req write_req
  | Write_resp write_resp
  | Channel_info_resp channel_info_resp
  | Port_update_req "32 word"
  | Reconnect_req bytes bytes

section \<open>Packet objects\<close>

definition user_obj :: "logged_in_user \<Rightarrow> cval" where
  "user_obj u = VStruct [VChars (lu_session_id u), VChars (lu_name u), VChars (lu_ip u), VInt (lu_port u)]"

definition file_entry_obj :: "file_entry \<Rightarrow> cval" where
  "file_entry_obj e = VStruct [VChars (fe_name e), VInt (fe_type e), VInt (fe_size e), VInt (fe_c_time e),
     VInt (fe_a_time e), VInt (fe_m_time e), VInt (fe_mode e)]"

definition version_obj :: "version_info \<Rightarrow> cval" where
  "version_obj v = VStruct [VShort (major v), VShort (minor v), VShort (revision v)]"

definition path_req_obj :: "path_req \<Rightarrow> cval" where
  "path_req_obj r = VStruct [VChars (pq_session_id r), VChars (pq_path r), VInt (pq_to_peer r), user_obj (pq_user r)]"

fun ctl_packet :: "ctl \<Rightarrow> int \<times> cval" where
  "ctl_packet (Validate_req r) = (packet_code PACKET_TYPE_VALIDATE_REQ,
     VStruct [VInt (vq_name_len r), VInt (vq_passwd_len r), VChars (vq_name r), VChars (vq_passwd_md5 r),
       version_obj (vq_ver r)])"
| "ctl_packet (Validate_resp r) = (packet_code PACKET_TYPE_VALIDATE_RESP,
     VStruct (head_vals r @ [VStruct [VInt (va_uid r), VChars (va_name r), VChars (va_session_id r),
       VChars (va_connect_id r), VChars (va_pwd r)]]))"
| "ctl_packet (Append_conn_req r) = (packet_code PACKET_TYPE_APPEND_CONN_REQ,
     VStruct [VChars (aq_session_id r), VInt (aq_type r)])"
| "ctl_packet (Append_conn_resp r) = (packet_code PACKET_TYPE_APPEND_CONN_RESP,
     VStruct (head_vals r @ [VStruct [VChars (ac_connect_id r)]]))"
| "ctl_packet (Pwd_req sid) = (packet_code PACKET_TYPE_PWD_REQ, VStruct [VChars sid])"
| "ctl_packet (Pwd_resp r) = (packet_code PACKET_TYPE_PWD_RESP, VStruct (head_vals r @ [VStruct [VChars (pw_pwd r)]]))"
| "ctl_packet (Cd_req sid path) = (packet_code PACKET_TYPE_CD_REQ, VStruct [VChars sid, VChars path])"
| "ctl_packet (Cd_resp r) = (packet_code PACKET_TYPE_CD_RESP, VStruct (head_vals r @ [VStruct [VChars (cp_pwd r)]]))"
| "ctl_packet (Ll_req r) = (packet_code PACKET_TYPE_LL_REQ, path_req_obj r)"
| "ctl_packet (Ll_resp r) = (packet_code PACKET_TYPE_LL_RESP,
     VStruct (head_vals r @ [VStruct [VInt (ll_total r), VInt (ll_this_nr r), VArray (map file_entry_obj (ll_entries r))]]))"
| "ctl_packet (Get_req r) = (packet_code PACKET_TYPE_GET_REQ, path_req_obj r)"
| "ctl_packet (Mp_stat_req sid) = (packet_code PACKET_TYPE_MP_STAT_REQ, VStruct [VChars sid])"
| "ctl_packet (Mp_stat_resp r) = (packet_code PACKET_TYPE_MP_STAT_RESP,
     VStruct (head_vals r @ [VStruct [VInt (ms_total_size r), VInt (ms_total_nodes r), VInt (ms_using_nodes r),
       VInt (ms_free_nodes r)]]))"
| "ctl_packet (Directcmd_req sid cmd) = (packet_code PACKET_TYPE_DIRECTCMD_REQ, VStruct [VChars sid, VChars cmd])"
| "ctl_packet (Directcmd_resp r) = (packet_code PACKET_TYPE_DIRECTCMD_RESP,
     VStruct (head_vals r @ [VStruct [VInt (dc_total_len r), VInt (dc_this_len r), VChars (dc_content r)]]))"
| "ctl_packet (Who_req sid) = (packet_code PACKET_TYPE_WHO_REQ, VStruct [VChars sid])"
| "ctl_packet (Who_resp r) = (packet_code PACKET_TYPE_WHO_RESP,
     VStruct (head_vals r @ [VStruct [VInt (wh_total r), VInt (wh_this_nr r), VArray (map user_obj (wh_users r))]]))"
| "ctl_packet (Write_req r) = (packet_code PACKET_TYPE_WRITE_REQ,
     VStruct [user_obj (wq_user r), VInt (wq_len r), VChars (wq_message r)])"
| "ctl_packet (Write_resp r) = (packet_code PACKET_TYPE_WRITE_RESP,
     VStruct (head_vals r @ [VStruct [VChars (wr_message r)]]))"
| "ctl_packet (Channel_info_resp r) = (packet_code PACKET_TYPE_CHANNEL_INFO_RESP,
     VStruct (head_vals r @ [VStruct [VInt (cr_main_port r), VInt (cr_second_port r)]]))"
| "ctl_packet (Port_update_req p) = (packet_code PACKET_TYPE_PORT_UPDATE_REQ, VStruct [VInt p])"
| "ctl_packet (Reconnect_req sid cid) = (packet_code PACKET_TYPE_RECONNECT_REQ, VStruct [VChars sid, VChars cid])"

section \<open>Conversion in place\<close>

definition hton_user :: "logged_in_user \<Rightarrow> logged_in_user" where
  "hton_user u = u\<lparr>lu_port := htonl (lu_port u)\<rparr>"

definition hton_file_entry :: "file_entry \<Rightarrow> file_entry" where
  "hton_file_entry e = e\<lparr>fe_type := htonl (fe_type e), fe_size := htonl (fe_size e), fe_c_time := htonl (fe_c_time e),
     fe_a_time := htonl (fe_a_time e), fe_m_time := htonl (fe_m_time e), fe_mode := htonl (fe_mode e)\<rparr>"

definition hton_version :: "version_info \<Rightarrow> version_info" where
  "hton_version v = v\<lparr>major := htons (major v), minor := htons (minor v), revision := htons (revision v)\<rparr>"

definition hton_path_req :: "path_req \<Rightarrow> path_req" where
  "hton_path_req r = r\<lparr>pq_to_peer := htonl (pq_to_peer r), pq_user := hton_user (pq_user r)\<rparr>"

definition hton_write_req :: "write_req \<Rightarrow> write_req" where
  "hton_write_req r = r\<lparr>wq_user := hton_user (wq_user r), wq_len := htonl (wq_len r)\<rparr>"

definition hton_ll_resp :: "ll_resp \<Rightarrow> ll_resp" where
  "hton_ll_resp r = (hton_status r)\<lparr>ll_total := htonl (ll_total r), ll_this_nr := htonl (ll_this_nr r),
     ll_entries := map hton_file_entry (ll_entries r)\<rparr>"

definition hton_directcmd_resp :: "directcmd_resp \<Rightarrow> directcmd_resp" where
  "hton_directcmd_resp r = (hton_status r)\<lparr>dc_total_len := htonl (dc_total_len r), dc_this_len := htonl (dc_this_len r)\<rparr>"

definition hton_who_resp :: "who_resp \<Rightarrow> who_resp" where
  "hton_who_resp r = (hton_status r)\<lparr>wh_total := htonl (wh_total r), wh_this_nr := htonl (wh_this_nr r),
     wh_users := map hton_user (wh_users r)\<rparr>"

definition hton_mp_stat_resp :: "mp_stat_resp \<Rightarrow> mp_stat_resp" where
  "hton_mp_stat_resp r = (hton_status r)\<lparr>ms_total_size := htonl (ms_total_size r),
     ms_total_nodes := htonl (ms_total_nodes r), ms_using_nodes := htonl (ms_using_nodes r),
     ms_free_nodes := htonl (ms_free_nodes r)\<rparr>"

definition hton_channel_info_resp :: "channel_info_resp \<Rightarrow> channel_info_resp" where
  "hton_channel_info_resp r = (hton_status r)\<lparr>cr_main_port := htonl (cr_main_port r),
     cr_second_port := htonl (cr_second_port r)\<rparr>"

definition hton_validate_resp :: "validate_resp \<Rightarrow> validate_resp" where
  "hton_validate_resp r = (hton_status r)\<lparr>va_uid := htonl (va_uid r)\<rparr>"

definition hton_validate_req :: "validate_req \<Rightarrow> validate_req" where
  "hton_validate_req r = r\<lparr>vq_name_len := htonl (vq_name_len r), vq_passwd_len := htonl (vq_passwd_len r),
     vq_ver := hton_version (vq_ver r)\<rparr>"

lemmas hton_defs = hton_user_def hton_file_entry_def hton_version_def hton_path_req_def hton_write_req_def
  hton_ll_resp_def hton_directcmd_resp_def hton_who_resp_def hton_mp_stat_resp_def hton_channel_info_resp_def
  hton_validate_resp_def hton_validate_req_def hton_status_def

fun hton_ctl :: "ctl \<Rightarrow> ctl" where
  "hton_ctl (Validate_req r) = Validate_req (hton_validate_req r)"
| "hton_ctl (Validate_resp r) = Validate_resp (hton_validate_resp r)"
| "hton_ctl (Append_conn_req r) = Append_conn_req (r\<lparr>aq_type := htonl (aq_type r)\<rparr>)"
| "hton_ctl (Append_conn_resp r) = Append_conn_resp (hton_status r)"
| "hton_ctl (Pwd_resp r) = Pwd_resp (hton_status r)"
| "hton_ctl (Cd_resp r) = Cd_resp (hton_status r)"
| "hton_ctl (Ll_req r) = Ll_req (hton_path_req r)"
| "hton_ctl (Ll_resp r) = Ll_resp (hton_ll_resp r)"
| "hton_ctl (Get_req r) = Get_req (hton_path_req r)"
| "hton_ctl (Mp_stat_resp r) = Mp_stat_resp (hton_mp_stat_resp r)"
| "hton_ctl (Directcmd_resp r) = Directcmd_resp (hton_directcmd_resp r)"
| "hton_ctl (Who_resp r) = Who_resp (hton_who_resp r)"
| "hton_ctl (Write_req r) = Write_req (hton_write_req r)"
| "hton_ctl (Write_resp r) = Write_resp (hton_status r)"
| "hton_ctl (Channel_info_resp r) = Channel_info_resp (hton_channel_info_resp r)"
| "hton_ctl (Port_update_req p) = Port_update_req (htonl p)"
| "hton_ctl m = m"

lemma user_obj_hton: "user_obj (hton_user u) = swap (user_obj u)"
  by (simp add: user_obj_def hton_user_def)

lemma objs_hton:
  "map user_obj (map hton_user us) = map swap (map user_obj us)"
  "map file_entry_obj (map hton_file_entry es) = map swap (map file_entry_obj es)"
  "version_obj (hton_version v) = swap (version_obj v)"
  "path_req_obj (hton_path_req r) = swap (path_req_obj r)"
  by (simp_all add: user_obj_hton file_entry_obj_def hton_file_entry_def version_obj_def hton_version_def
      path_req_obj_def hton_path_req_def)

lemma head_vals_hton: "head_vals (hton_status r) = map swap (head_vals r)"
  by (simp add: head_vals_def hton_status_def)

lemma ctl_packet_hton: "ctl_packet (hton_ctl m) = (fst (ctl_packet m), swap (snd (ctl_packet m)))"
  by (cases m) (simp_all only: hton_ctl.simps ctl_packet.simps fst_conv snd_conv objs_hton swap.simps,
      simp_all add: hton_defs head_vals_def user_obj_def file_entry_obj_def version_obj_def)

text \<open>Messages whose arrays have the declared lengths are objects of the layout of their packet.\<close>

definition user_ok :: "logged_in_user \<Rightarrow> bool" where
  "user_ok u \<longleftrightarrow> length (lu_session_id u) = 32 \<and> length (lu_name u) = 32 \<and> length (lu_ip u) = 16"

definition head_ok :: "'a status_resp_scheme \<Rightarrow> bool" where
  "head_ok r \<longleftrightarrow> length (sr_message r) = RESP_MESSAGE_MAX_LEN"

definition path_req_ok :: "path_req \<Rightarrow> bool" where
  "path_req_ok r \<longleftrightarrow> length (pq_session_id r) = 32 \<and> length (pq_path r) = 1024 \<and> user_ok (pq_user r)"

fun ctl_ok :: "ctl \<Rightarrow> bool" where
  "ctl_ok (Validate_req r) \<longleftrightarrow> length (vq_name r) = 32 \<and> length (vq_passwd_md5 r) = 33"
| "ctl_ok (Validate_resp r) \<longleftrightarrow> head_ok r \<and> length (va_name r) = 32 \<and> length (va_session_id r) = 32
     \<and> length (va_connect_id r) = 32 \<and> length (va_pwd r) = 1024"
| "ctl_ok (Append_conn_req r) \<longleftrightarrow> length (aq_session_id r) = 32"
| "ctl_ok (Append_conn_resp r) \<longleftrightarrow> head_ok r \<and> length (ac_connect_id r) = 32"
| "ctl_ok (Pwd_req sid) \<longleftrightarrow> length sid = 32"
| "ctl_ok (Pwd_resp r) \<longleftrightarrow> head_ok r \<and> length (pw_pwd r) = 1024"
| "ctl_ok (Cd_req sid path) \<longleftrightarrow> length sid = 32 \<and> length path = 1024"
| "ctl_ok (Cd_resp r) \<longleftrightarrow> head_ok r \<and> length (cp_pwd r) = 1024"
| "ctl_ok (Ll_req r) \<longleftrightarrow> path_req_ok r"
| "ctl_ok (Ll_resp r) \<longleftrightarrow> head_ok r \<and> length (ll_entries r) = 16 \<and> list_all (\<lambda>e. length (fe_name e) = 256) (ll_entries r)"
| "ctl_ok (Get_req r) \<longleftrightarrow> path_req_ok r"
| "ctl_ok (Mp_stat_req sid) \<longleftrightarrow> length sid = 32"
| "ctl_ok (Mp_stat_resp r) \<longleftrightarrow> head_ok r"
| "ctl_ok (Directcmd_req sid cmd) \<longleftrightarrow> length sid = 32 \<and> length cmd = 1024"
| "ctl_ok (Directcmd_resp r) \<longleftrightarrow> head_ok r \<and> length (dc_content r) = 1024"
| "ctl_ok (Who_req sid) \<longleftrightarrow> length sid = 32"
| "ctl_ok (Who_resp r) \<longleftrightarrow> head_ok r \<and> length (wh_users r) = 32 \<and> list_all user_ok (wh_users r)"
| "ctl_ok (Write_req r) \<longleftrightarrow> user_ok (wq_user r) \<and> length (wq_message r) = 4096"
| "ctl_ok (Write_resp r) \<longleftrightarrow> head_ok r \<and> length (wr_message r) = 4096"
| "ctl_ok (Channel_info_resp r) \<longleftrightarrow> head_ok r"
| "ctl_ok (Port_update_req p) \<longleftrightarrow> True"
| "ctl_ok (Reconnect_req sid cid) \<longleftrightarrow> length sid = 32 \<and> length cid = 32"

lemma ctl_layouts:
  "packet_layout (packet_code PACKET_TYPE_VALIDATE_REQ) = Some validate_req_ty"
  "packet_layout (packet_code PACKET_TYPE_VALIDATE_RESP) = Some validate_resp_ty"
  "packet_layout (packet_code PACKET_TYPE_APPEND_CONN_REQ) = Some append_conn_req_ty"
  "packet_layout (packet_code PACKET_TYPE_APPEND_CONN_RESP) = Some append_conn_resp_ty"
  "packet_layout (packet_code PACKET_TYPE_PWD_REQ) = Some pwd_req_ty"
  "packet_layout (packet_code PACKET_TYPE_PWD_RESP) = Some pwd_resp_ty"
  "packet_layout (packet_code PACKET_TYPE_CD_REQ) = Some cd_req_ty"
  "packet_layout (packet_code PACKET_TYPE_CD_RESP) = Some cd_resp_ty"
  "packet_layout (packet_code PACKET_TYPE_LL_REQ) = Some ll_req_ty"
  "packet_layout (packet_code PACKET_TYPE_LL_RESP) = Some ll_resp_ty"
  "packet_layout (packet_code PACKET_TYPE_GET_REQ) = Some get_req_ty"
  "packet_layout (packet_code PACKET_TYPE_MP_STAT_REQ) = Some mp_stat_req_ty"
  "packet_layout (packet_code PACKET_TYPE_MP_STAT_RESP) = Some mp_stat_resp_ty"
  "packet_layout (packet_code PACKET_TYPE_DIRECTCMD_REQ) = Some directcmd_req_ty"
  "packet_layout (packet_code PACKET_TYPE_DIRECTCMD_RESP) = Some directcmd_resp_ty"
  "packet_layout (packet_code PACKET_TYPE_WHO_REQ) = Some who_req_ty"
  "packet_layout (packet_code PACKET_TYPE_WHO_RESP) = Some who_resp_ty"
  "packet_layout (packet_code PACKET_TYPE_WRITE_REQ) = Some write_req_ty"
  "packet_layout (packet_code PACKET_TYPE_WRITE_RESP) = Some write_resp_ty"
  "packet_layout (packet_code PACKET_TYPE_CHANNEL_INFO_RESP) = Some channel_info_resp_ty"
  "packet_layout (packet_code PACKET_TYPE_PORT_UPDATE_REQ) = Some port_update_req_ty"
  "packet_layout (packet_code PACKET_TYPE_RECONNECT_REQ) = Some reconnect_req_ty"
  by (simp_all add: packet_layout_def packet_layouts_def)

lemma well_typed_all_list: "well_typed_all t n vs \<longleftrightarrow> length vs = n \<and> list_all (well_typed t) vs"
proof (induction n arbitrary: vs)
  case (Suc n)
  then show ?case
    by (cases vs) auto
qed auto

lemma user_typed: "user_ok u \<Longrightarrow> well_typed logged_in_user_ty (user_obj u)"
  by (simp add: user_ok_def user_obj_def logged_in_user_ty_def struct_ty_def)

lemma entry_typed: "length (fe_name e) = 256 \<Longrightarrow> well_typed file_entry_ty (file_entry_obj e)"
  by (simp add: file_entry_obj_def file_entry_ty_def struct_ty_def)

lemmas ctl_layout_defs = struct_ty_def validate_req_ty_def version_info_ty_def validate_resp_ty_def
  validate_resp_data_ty_def append_conn_req_ty_def append_conn_resp_ty_def append_conn_resp_data_ty_def pwd_req_ty_def
  pwd_resp_ty_def pwd_resp_data_ty_def cd_req_ty_def cd_resp_ty_def cd_resp_data_ty_def ll_req_ty_def ll_resp_ty_def
  ll_resp_data_ty_def get_req_ty_def mp_stat_req_ty_def mp_stat_resp_ty_def mp_stat_resp_data_ty_def
  directcmd_req_ty_def directcmd_resp_ty_def directcmd_resp_data_ty_def who_req_ty_def who_resp_ty_def
  who_resp_data_ty_def write_req_ty_def write_resp_ty_def write_resp_data_ty_def channel_info_resp_ty_def channel_info_resp_data_ty_def port_update_req_ty_def
  reconnect_req_ty_def

lemma ctl_ok_sendable: "ctl_ok m \<Longrightarrow> sendable (ctl_packet m)"
  by (cases m) (simp_all del: packet_code.simps well_typed_all.simps add: ctl_layouts head_ok_def head_vals_def
      well_typed_all_list user_typed entry_typed list.pred_map list.pred_mono_strong path_req_ok_def path_req_obj_def
      version_obj_def ctl_layout_defs trans_consts comp_def list_all_iff)

end
