(* ===== verification/Sftt_Trans.thy ===== *)
theory Sftt_Trans
  imports Sftt_File Sftt_Messages
begin

text \<open>
  The file transfer protocol (\<^verbatim>\<open>src/src/file_send.c\<close>, \<^verbatim>\<open>src/src/file_recv.c\<close>, the response senders of
  \<^verbatim>\<open>src/src/trans.c\<close> it uses, \<^verbatim>\<open>src/src/response.c\<close>): a file is announced by a message with its name, then
  one with its digest, then blocks of its content; the peer answers the first two. \<open>put\<close> sends requests
  to the server, \<open>get\<close> receives responses from it.

  Messages are the structs themselves. What a send does to the struct of the caller is what the packet
  layer does to it: its integers are converted in place (\<open>hton_get_resp\<close>, \<open>hton_put_req\<close>), and the peer
  receives the values the struct had before (\<open>Sftt_Net\<close>). A connection is the list of what will be
  received and the list of what was sent. A closed connection makes \<^verbatim>\<open>recv_sftt_packet\<close> return 0 and leave
  the packet's object as it was, an object that was freed; code that goes on to read it has the fault
  \<open>Use_after_free\<close>. Progress output is left out.
\<close>

section \<open>Messages\<close>

record trans_entry =
  te_type :: "32 word"
  te_this_size :: "32 word"
  te_mode :: "32 word"
  te_total_size :: "32 word"
  te_content :: bytes

record trans_data =
  fd_total_files :: "32 word"
  fd_file_idx :: "32 word"
  fd_entry :: trans_entry

record get_resp =
  gr_status :: "32 word"
  gr_flags :: "32 word"
  gr_message :: bytes
  gr_data :: trans_data
  gr_need_reply :: "32 word"

record put_req =
  pr_session_id :: bytes
  pr_to_peer :: "32 word"
  pr_user :: logged_in_user
  pr_data :: trans_data
  pr_flags :: "32 word"
  pr_need_reply :: "32 word"

datatype msg =
    Get_resp get_resp
  | Put_req put_req
  | Common_resp status_resp
  | Put_resp status_resp
  | Ctl ctl

text \<open>The objects the messages are for the packet layer, and what sending makes of them.\<close>

definition entry_obj :: "trans_entry \<Rightarrow> cval" where
  "entry_obj e = VStruct [VInt (te_type e), VInt (te_this_size e), VInt (te_mode e),
     VInt (te_total_size e), VChars (te_content e)]"

definition data_obj :: "trans_data \<Rightarrow> cval" where
  "data_obj d = VStruct [VInt (fd_total_files d), VInt (fd_file_idx d), entry_obj (fd_entry d)]"

fun msg_packet :: "msg \<Rightarrow> int \<times> cval" where
  "msg_packet (Get_resp r) = (packet_code PACKET_TYPE_GET_RESP,
     VStruct [VInt (gr_status r), VInt (gr_flags r), VChars (gr_message r), data_obj (gr_data r),
       VInt (gr_need_reply r)])"
| "msg_packet (Put_req r) = (packet_code PACKET_TYPE_PUT_REQ,
     VStruct [VChars (pr_session_id r), VInt (pr_to_peer r), user_obj (pr_user r), data_obj (pr_data r),
       VInt (pr_flags r), VInt (pr_need_reply r)])"
| "msg_packet (Common_resp r) = (packet_code PACKET_TYPE_COMMON_RESP,
     VStruct [VInt (sr_status r), VInt (sr_flags r), VChars (sr_message r)])"
| "msg_packet (Put_resp r) = (packet_code PACKET_TYPE_PUT_RESP,
     VStruct [VInt (sr_status r), VInt (sr_flags r), VChars (sr_message r)])"
| "msg_packet (Ctl c) = ctl_packet c"

definition hton_entry :: "trans_entry \<Rightarrow> trans_entry" where
  "hton_entry e = e\<lparr>te_type := htonl (te_type e), te_this_size := htonl (te_this_size e),
     te_mode := htonl (te_mode e), te_total_size := htonl (te_total_size e)\<rparr>"

definition hton_data :: "trans_data \<Rightarrow> trans_data" where
  "hton_data d = d\<lparr>fd_total_files := htonl (fd_total_files d), fd_file_idx := htonl (fd_file_idx d),
     fd_entry := hton_entry (fd_entry d)\<rparr>"

definition hton_get_resp :: "get_resp \<Rightarrow> get_resp" where
  "hton_get_resp r = r\<lparr>gr_status := htonl (gr_status r), gr_flags := htonl (gr_flags r),
     gr_data := hton_data (gr_data r), gr_need_reply := htonl (gr_need_reply r)\<rparr>"

definition hton_put_req :: "put_req \<Rightarrow> put_req" where
  "hton_put_req r = r\<lparr>pr_to_peer := htonl (pr_to_peer r), pr_user := hton_user (pr_user r),
     pr_data := hton_data (pr_data r), pr_flags := htonl (pr_flags r),
     pr_need_reply := htonl (pr_need_reply r)\<rparr>"

section \<open>Connections\<close>

datatype event = Msg msg | Closed | Broken

record chan =
  ch_in :: "event list"
  ch_out :: "msg list"
  ch_send_ok :: bool

definition ch_recv :: "chan \<Rightarrow> int \<times> msg option \<times> chan" where
  "ch_recv cn =
     (case ch_in cn of
        [] \<Rightarrow> (0, None, cn)
      | Msg m # es \<Rightarrow> (1, Some m, cn\<lparr>ch_in := es\<rparr>)
      | Closed # es \<Rightarrow> (0, None, cn\<lparr>ch_in := es\<rparr>)
      | Broken # es \<Rightarrow> (-1, None, cn\<lparr>ch_in := es\<rparr>))"

definition ch_send :: "msg \<Rightarrow> chan \<Rightarrow> int \<times> chan" where
  "ch_send m cn = (if ch_send_ok cn then (0, cn\<lparr>ch_out := ch_out cn @ [m]\<rparr>) else (-1, cn))"

text \<open>
  The object of a received packet, used as the struct the code expects. The first member of every
  response is its status.
\<close>

fun first_word :: "cval \<Rightarrow> 32 word" where
  "first_word (VInt w) = w"
| "first_word (VChars bs) = of_le32 bs"
| "first_word (VStruct (v # vs)) = first_word v"
| "first_word v = 0"

definition as_status :: "msg option \<Rightarrow> c_fault + 32 word" where
  "as_status m =
     (case m of
        None \<Rightarrow> Inl Use_after_free
      | Some (Get_resp r) \<Rightarrow> Inr (gr_status r)
      | Some (Put_req r) \<Rightarrow> Inr (of_le32 (pr_session_id r))
      | Some (Common_resp r) \<Rightarrow> Inr (sr_status r)
      | Some (Put_resp r) \<Rightarrow> Inr (sr_status r)
      | Some (Ctl c) \<Rightarrow> Inr (first_word (snd (ctl_packet c))))"

definition as_get_resp :: "msg option \<Rightarrow> c_fault + get_resp" where
  "as_get_resp m =
     (case m of None \<Rightarrow> Inl Use_after_free | Some (Get_resp r) \<Rightarrow> Inr r | Some _ \<Rightarrow> Inl Out_of_bounds)"

definition as_put_req :: "msg option \<Rightarrow> c_fault + put_req" where
  "as_put_req m =
     (case m of None \<Rightarrow> Inl Use_after_free | Some (Put_req r) \<Rightarrow> Inr r | Some _ \<Rightarrow> Inl Out_of_bounds)"

text \<open>The response senders; the result has the struct as the call leaves it.\<close>

definition send_get_resp :: "get_resp \<Rightarrow> resp_code \<Rightarrow> 32 word \<Rightarrow> chan \<Rightarrow> int \<times> get_resp \<times> chan" where
  "send_get_resp resp code flags cn =
     (let resp1 = resp\<lparr>gr_status := resp_num code,
                       gr_message := buf_strncpy (gr_message resp) (resp_messages code) (RESP_MESSAGE_MAX_LEN - 1),
                       gr_flags := flags\<rparr>;
          (ret, cn1) = ch_send (Get_resp resp1) cn
      in (ret, hton_get_resp resp1, cn1))"

definition send_common_resp :: "status_resp \<Rightarrow> resp_code \<Rightarrow> 32 word \<Rightarrow> chan \<Rightarrow> int \<times> status_resp \<times> chan" where
  "send_common_resp resp code flags cn =
     (let resp1 = set_status resp code flags; (ret, cn1) = ch_send (Common_resp resp1) cn
      in (ret, hton_status resp1, cn1))"

definition send_put_resp :: "status_resp \<Rightarrow> resp_code \<Rightarrow> 32 word \<Rightarrow> chan \<Rightarrow> int \<times> status_resp \<times> chan" where
  "send_put_resp resp code flags cn =
     (let resp1 = set_status resp code flags; (ret, cn1) = ch_send (Put_resp resp1) cn
      in (ret, hton_status resp1, cn1))"

section \<open>Sending by put requests\<close>

definition upd_put_entry :: "(trans_entry \<Rightarrow> trans_entry) \<Rightarrow> put_req \<Rightarrow> put_req" where
  "upd_put_entry f req = req\<lparr>pr_data := (pr_data req)\<lparr>fd_entry := f (fd_entry (pr_data req))\<rparr>\<rparr>"

definition send_trans_entry_by_put_req :: "put_req \<Rightarrow> chan \<Rightarrow> int \<times> put_req \<times> chan" where
  "send_trans_entry_by_put_req req cn =
     (let (ret, cn1) = ch_send (Put_req req) cn in (if ret = -1 then -1 else 0, hton_put_req req, cn1))"

definition name_entry :: "fsys \<Rightarrow> string \<Rightarrow> string \<Rightarrow> trans_entry \<Rightarrow> trans_entry" where
  "name_entry fs file target e =
     e\<lparr>te_type := if is_dir fs file then FILE_TYPE_DIR else FILE_TYPE_FILE, te_mode := file_mode fs file,
       te_content := buf_strncpy (te_content e) target FILE_NAME_MAX_LEN,
       te_this_size := of_nat (length target)\<rparr>"

definition send_file_name_by_put_req ::
    "fsys \<Rightarrow> string \<Rightarrow> string \<Rightarrow> put_req \<Rightarrow> chan \<Rightarrow> int \<times> put_req \<times> chan" where
  "send_file_name_by_put_req fs file target req cn =
     send_trans_entry_by_put_req ((upd_put_entry (name_entry fs file target) req)\<lparr>pr_need_reply := 1\<rparr>) cn"

definition send_file_md5_by_put_req ::
    "bytes \<Rightarrow> fsys \<Rightarrow> string \<Rightarrow> put_req \<Rightarrow> chan \<Rightarrow> c_fault + int \<times> put_req \<times> chan" where
  "send_file_md5_by_put_req junk fs file req cn =
     (if is_dir fs file then Inr (0, req, cn)
      else sbind (md5_file junk (fopen_r fs file)) (\<lambda>(ret, digest).
        case digest of
          None \<Rightarrow> Inr (-1, req, cn)
        | Some d \<Rightarrow>
            Inr (send_trans_entry_by_put_req
              ((upd_put_entry (\<lambda>e. e\<lparr>te_content := buf_strcpy (te_content e) d,
                                    te_this_size := of_nat (length d)\<rparr>) req)\<lparr>pr_need_reply := 1\<rparr>) cn)))"

definition send_file_content_by_put_req :: "put_req \<Rightarrow> chan \<Rightarrow> int \<times> put_req \<times> chan" where
  "send_file_content_by_put_req req cn = send_trans_entry_by_put_req req cn"

text \<open>
  The block loop of \<^verbatim>\<open>send_file_by_put_req\<close> on the rest of the open file: \<^verbatim>\<open>feof\<close> is true once a read came
  back short. The first result is the variable \<^verbatim>\<open>ret\<close> with \<^verbatim>\<open>-1\<close> when the loop was left before the end
  of the file.
\<close>

definition block_entry :: "bytes \<Rightarrow> trans_entry \<Rightarrow> trans_entry" where
  "block_entry bs e = e\<lparr>te_content := bs @ drop (length bs) (te_content e), te_this_size := of_nat (length bs)\<rparr>"

function put_blocks :: "bool \<Rightarrow> bytes \<Rightarrow> put_req \<Rightarrow> chan \<Rightarrow> c_fault + int \<times> put_req \<times> chan" where
  "put_blocks is_last rest req cn =
     (let bs = take CONTENT_BLOCK_SIZE rest;
          eof = length bs < CONTENT_BLOCK_SIZE;
          need_stop = (is_last \<and> eof);
          need_reply = (if need_stop then 1 else 0);
          req1 = (upd_put_entry (block_entry bs) req)\<lparr>
                   pr_flags := if need_stop then REQ_RESP_FLAG_STOP else REQ_RESP_FLAG_NONE,
                   pr_need_reply := need_reply\<rparr>;
          (ret, req2, cn1) = send_file_content_by_put_req req1 cn
      in if ret = -1 then Inr (-1, req2, cn1)
         else if pr_need_reply req2 \<noteq> 0
         then
           let (ret, m, cn2) = ch_recv cn1 in
           if ret = -1 then Inr (-1, req2, cn2)
           else sbind (as_status m) (\<lambda>st.
             if st \<noteq> resp_num RESP_OK then Inr (if eof then ret else -1, req2, cn2)
             else if eof then Inr (ret, req2, cn2)
             else put_blocks is_last (drop CONTENT_BLOCK_SIZE rest) req2 cn2)
         else if eof then Inr (ret, req2, cn1)
         else put_blocks is_last (drop CONTENT_BLOCK_SIZE rest) req2 cn1)"
  by pat_completeness auto
termination
  by (relation "measure (\<lambda>(l, rest, r, c). length rest)") (auto simp: CONTENT_BLOCK_SIZE_def)

definition send_file_by_put_req ::
    "bytes \<Rightarrow> fsys \<Rightarrow> string \<Rightarrow> string \<Rightarrow> put_req \<Rightarrow> chan \<Rightarrow> c_fault + int \<times> put_req \<times> chan" where
  "send_file_by_put_req junk fs file target req cn =
     (let is_last = (fd_file_idx (pr_data req) = fd_total_files (pr_data req) - 1);
          need_stop = (is_last \<and> is_dir fs file);
          total_size = file_size fs file;
          req1 = (upd_put_entry (\<lambda>e. e\<lparr>te_total_size := of_nat total_size\<rparr>) req)\<lparr>
                   pr_flags := if need_stop then REQ_RESP_FLAG_STOP else REQ_RESP_FLAG_NONE\<rparr>;
          (ret, req2, cn1) = send_file_name_by_put_req fs file target req1 cn
      in if ret = -1 then Inr (-1, req2, cn1)
         else
           let (ret, m, cn2) = ch_recv cn1 in
           if ret = -1 then Inr (-1, req2, cn2)
           else sbind (as_status m) (\<lambda>st.
             if st \<noteq> resp_num RESP_OK then Inr (-1, req2, cn2)
             else if is_dir fs file then Inr (0, req2, cn2)
             else sbind (send_file_md5_by_put_req junk fs file req2 cn2) (\<lambda>(ret, req3, cn3).
               if ret = -1 then Inr (-1, req3, cn3)
               else
                 let (ret, m, cn4) = ch_recv cn3 in
                 if ret = -1 then Inr (-1, req3, cn4)
                 else sbind (as_status m) (\<lambda>st.
                   if st = resp_num RESP_OK then Inr (0, req3, cn4)
                   else case fopen_r fs file of
                       None \<Rightarrow> Inr (-1, req3, cn4)
                     | Some data \<Rightarrow>
                         put_blocks is_last data
                           (upd_put_entry (\<lambda>e. e\<lparr>te_total_size := of_nat total_size\<rparr>) req3) cn4))))"

text \<open>The loop of \<^verbatim>\<open>send_dir_by_put_req\<close> stops at the first file that fails.\<close>

definition next_file :: "put_req \<Rightarrow> put_req" where
  "next_file req = req\<lparr>pr_data := (pr_data req)\<lparr>fd_file_idx := fd_file_idx (pr_data req) + 1\<rparr>\<rparr>"

fun put_entries ::
    "bytes \<Rightarrow> fsys \<Rightarrow> string \<Rightarrow> path_entry list \<Rightarrow> int \<Rightarrow> put_req \<Rightarrow> chan \<Rightarrow> c_fault + int \<times> put_req \<times> chan" where
  "put_entries junk fs target [] ret req cn = Inr (ret, req, cn)"
| "put_entries junk fs target (e # es) ret req cn =
     sbind (send_file_by_put_req junk fs (abs_path e)
              (take (FILE_NAME_MAX_LEN + 1) (target @ ''/'' @ rel_path e)) req cn) (\<lambda>(ret, req1, cn1).
       if ret = -1 then Inr (-1, req1, cn1)
       else put_entries junk fs target es ret (next_file req1) cn1)"

definition start_files :: "nat \<Rightarrow> put_req \<Rightarrow> put_req" where
  "start_files k req = req\<lparr>pr_data := (pr_data req)\<lparr>fd_total_files := of_nat k, fd_file_idx := 0\<rparr>\<rparr>"

definition send_dir_by_put_req ::
    "bytes \<Rightarrow> fsys \<Rightarrow> string \<Rightarrow> string \<Rightarrow> put_req \<Rightarrow> chan \<Rightarrow> c_fault + int \<times> put_req \<times> chan" where
  "send_dir_by_put_req junk fs path target req cn =
     (case get_path_entry_list fs path None of
        None \<Rightarrow> Inr (-1, req, cn)
      | Some es \<Rightarrow> put_entries junk fs target es 0 (start_files (length es) req) cn)"

definition send_files_by_put_req ::
    "bytes \<Rightarrow> fsys \<Rightarrow> string \<Rightarrow> string \<Rightarrow> put_req \<Rightarrow> chan \<Rightarrow> c_fault + int \<times> put_req \<times> chan" where
  "send_files_by_put_req junk fs path target req cn =
     (if is_file fs path then send_file_by_put_req junk fs path target (start_files 1 req) cn
      else send_dir_by_put_req junk fs path target req cn)"

section \<open>Receiving put requests\<close>

text \<open>
  The block loop of \<^verbatim>\<open>recv_file_from_put_req\<close>: the file at \<open>rp\<close> is open for writing. One round of it
  tells whether the loop goes on, then \<^verbatim>\<open>recv_size\<close> and \<^verbatim>\<open>ret\<close>.
\<close>

definition recv_put_block ::
    "string \<Rightarrow> 32 word \<Rightarrow> 32 word \<Rightarrow> status_resp \<Rightarrow> fsys \<Rightarrow> chan
     \<Rightarrow> c_fault + bool \<times> 32 word \<times> int \<times> status_resp \<times> fsys \<times> chan" where
  "recv_put_block rp tsize recv_size resp fs cn =
     (let (ret, m, cn1) = ch_recv cn in
      if \<not> 0 < ret then Inr (False, recv_size, ret, resp, fs, cn1)
      else sbind (as_put_req m) (\<lambda>req.
        let e = fd_entry (pr_data req) in
        if CONTENT_BLOCK_SIZE < unat (te_this_size e) then Inl Out_of_bounds
        else
          let fs1 = fappend fs rp (take (unat (te_this_size e)) (te_content e));
              (ret1, resp1, cn2) =
                (if pr_need_reply req \<noteq> 0 then send_put_resp resp RESP_OK REQ_RESP_FLAG_NONE cn1
                 else (ret, resp, cn1));
              recv_size1 = recv_size + te_this_size e
          in if pr_need_reply req \<noteq> 0 \<and> ret1 = -1 then Inr (False, recv_size, ret1, resp1, fs1, cn2)
             else Inr (recv_size1 <s tsize, recv_size1, ret1, resp1, fs1, cn2)))"

lemma ch_recv_le: "ch_recv cn = (ret, m, cn1) \<Longrightarrow> length (ch_in cn1) \<le> length (ch_in cn)"
  by (auto simp: ch_recv_def split: list.splits event.splits)

lemma ch_recv_shrinks: "ch_recv cn = (ret, m, cn1) \<Longrightarrow> 0 < ret \<Longrightarrow> length (ch_in cn1) < length (ch_in cn)"
  by (auto simp: ch_recv_def split: list.splits event.splits)

lemma send_put_resp_in [simp]: "send_put_resp resp code flags cn = (ret, resp1, cn1) \<Longrightarrow> ch_in cn1 = ch_in cn"
  by (auto simp: send_put_resp_def ch_send_def Let_def split: if_splits)

lemma recv_put_block_shrinks:
  assumes "recv_put_block rp tsize recv_size resp fs cn = Inr (go, r, ret, resp1, fs1, cn1)"
  shows "length (ch_in cn1) \<le> length (ch_in cn)" "go \<Longrightarrow> length (ch_in cn1) < length (ch_in cn)"
  using assms ch_recv_le [of cn] ch_recv_shrinks [of cn]
  by (fastforce simp: recv_put_block_def Let_def split: prod.splits if_splits)+

function recv_put_blocks ::
    "string \<Rightarrow> 32 word \<Rightarrow> 32 word \<Rightarrow> status_resp \<Rightarrow> fsys \<Rightarrow> chan
     \<Rightarrow> c_fault + 32 word \<times> int \<times> status_resp \<times> fsys \<times> chan" where
  "recv_put_blocks rp tsize recv_size resp fs cn =
     (case recv_put_block rp tsize recv_size resp fs cn of
        Inl f \<Rightarrow> Inl f
      | Inr (go, recv_size1, ret, resp1, fs1, cn1) \<Rightarrow>
          if go then recv_put_blocks rp tsize recv_size1 resp1 fs1 cn1
          else Inr (recv_size1, ret, resp1, fs1, cn1))"
  by pat_completeness auto
termination
  by (relation "measure (\<lambda>(rp, t, r, s, fs, cn). length (ch_in cn))") (auto dest: recv_put_block_shrinks)

declare recv_put_blocks.simps [simp del]

lemma recv_put_blocks_le:
  "recv_put_blocks rp tsize recv_size resp fs cn = Inr (r, ret, resp1, fs1, cn1) \<Longrightarrow>
     length (ch_in cn1) \<le> length (ch_in cn)"
proof (induction rp tsize recv_size resp fs cn rule: recv_put_blocks.induct)
  case (1 rp tsize recv_size resp fs cn)
  note unfold = recv_put_blocks.simps [of rp tsize recv_size resp fs cn]
  from 1(2) show ?case
    using 1(1) recv_put_block_shrinks [of rp tsize recv_size resp fs cn]
    by (fastforce simp: unfold split: sum.splits if_splits prod.splits)
qed

text \<open>Opening the file, with a second try after its parent was made.\<close>

definition open_received :: "fsys \<Rightarrow> string \<Rightarrow> 32 word \<Rightarrow> bool \<times> fsys" where
  "open_received fs rp mode =
     (case fopen_w fs rp of
        Some fs1 \<Rightarrow> (True, fs1)
      | None \<Rightarrow>
          let parent = dir_name rp;
              fs1 = (if \<not> file_existed fs (Some parent) then snd (mkdirp fs parent mode) else fs)
          in case fopen_w fs1 rp of Some fs2 \<Rightarrow> (True, fs2) | None \<Rightarrow> (False, fs1))"

text \<open>Creating the file that a name message announces: -1 when it cannot be had.\<close>

definition create_received :: "fsys \<Rightarrow> string \<Rightarrow> 32 word \<Rightarrow> int \<times> fsys" where
  "create_received fs rp mode =
     (if file_existed fs (Some rp) then (0, fs)
      else
        let parent = dir_name rp;
            (ret, fs1) = (if \<not> file_existed fs (Some parent) then mkdirp fs parent mode else (0, fs))
        in if ret = -1 then (-1, fs1) else create_new_file_with_parent fs1 rp mode)"

definition recv_put_content ::
    "bytes \<Rightarrow> string \<Rightarrow> status_resp \<Rightarrow> fsys \<Rightarrow> chan \<Rightarrow> c_fault + int \<times> status_resp \<times> fsys \<times> chan" where
  "recv_put_content junk rp resp fs cn =
     (case ch_recv cn of (ret, m, cn1) \<Rightarrow>
        if ret = -1 then Inr (-1, resp, fs, cn1)
        else sbind (as_put_req m) (\<lambda>req.
          let e = fd_entry (pr_data req); md5 = buf_string (take MD5_STR_LEN (te_content e)) in
          sbind (same_file junk fs rp md5) (\<lambda>same.
            let (ret, resp1, cn2) =
                  send_put_resp resp (if same then RESP_OK else RESP_CONTINUE) REQ_RESP_FLAG_NONE cn1
            in if ret = -1 then Inr (-1, resp1, fs, cn2)
               else if same then Inr (ret, resp1, fs, cn2)
               else case open_received fs rp (te_mode e) of (opened, fs1) \<Rightarrow>
                     if \<not> opened then Inr (-1, resp1, fs1, cn2) else
                     sbind (recv_put_blocks rp (te_total_size e) 0 resp1 fs1 cn2)
                       (\<lambda>(recv_size, ret, resp2, fs2, cn3).
                         if recv_size \<noteq> te_total_size e then Inr (-1, resp2, fs2, cn3)
                         else sbind (same_file junk fs2 rp md5) (\<lambda>same.
                           Inr (if same then ret else -1, resp2, fs2, cn3))))))"

text \<open>The result has the value of \<^verbatim>\<open>*has_more\<close> behind the return value.\<close>

definition recv_file_from_put_req ::
    "bytes \<Rightarrow> put_req \<Rightarrow> status_resp \<Rightarrow> fsys \<Rightarrow> chan
     \<Rightarrow> c_fault + int \<times> bool \<times> status_resp \<times> fsys \<times> chan" where
  "recv_file_from_put_req junk req resp fs cn =
     (let d = pr_data req; e = fd_entry d;
          more = (fd_file_idx d \<noteq> fd_total_files d - 1);
          rp = take (FILE_NAME_MAX_LEN - 1) (buf_string (te_content e))
      in if te_type e = FILE_TYPE_DIR
         then
           let fs1 = (if \<not> file_existed fs (Some rp) then snd (mkdirp fs rp (te_mode e)) else fs);
               (ret, resp1, cn1) = send_put_resp resp RESP_OK REQ_RESP_FLAG_NONE cn
           in if ret = -1 then Inr (-1, True, resp1, fs1, cn1) else Inr (ret, more, resp1, fs1, cn1)
         else
           let (ret, fs1) = create_received fs rp (te_mode e) in
           if ret = -1
           then
             let (ret, resp1, cn1) = send_put_resp resp RESP_INTERNAL_ERR REQ_RESP_FLAG_NONE cn
             in Inr (-1, True, resp1, fs1, cn1)
           else
             let (ret, resp1, cn1) = send_put_resp resp RESP_OK REQ_RESP_FLAG_NONE cn in
             if ret = -1 then Inr (-1, True, resp1, fs1, cn1)
             else sbind (recv_put_content junk rp resp1 fs1 cn1) (\<lambda>(ret, resp2, fs2, cn2).
               Inr (ret, if ret = -1 then True else more, resp2, fs2, cn2)))"

lemma recv_put_content_le:
  "yields (recv_put_content junk rp resp fs cn) (\<lambda>(ret, resp1, fs1, cn1). length (ch_in cn1) \<le> length (ch_in cn))"
  by (auto simp: recv_put_content_def Let_def intro!: yields_sbindI split: prod.split
      dest!: ch_recv_le recv_put_blocks_le dest: send_put_resp_in)

lemma recv_file_from_put_req_le:
  "yields (recv_file_from_put_req junk req resp fs cn)
     (\<lambda>(ret, hm, resp1, fs1, cn1). length (ch_in cn1) \<le> length (ch_in cn))"
  by (auto simp: recv_file_from_put_req_def Let_def intro!: yields_sbindI split: prod.split
      dest!: yieldsD [OF recv_put_content_le] dest: send_put_resp_in)

lemma as_put_req_shrinks:
  "ch_recv cn = (ret, m, cn1) \<Longrightarrow> as_put_req m = Inr req \<Longrightarrow> length (ch_in cn1) < length (ch_in cn)"
  by (auto simp: ch_recv_def as_put_req_def split: list.splits event.splits)

function recv_files_from_put_req ::
    "bytes \<Rightarrow> put_req \<Rightarrow> status_resp \<Rightarrow> fsys \<Rightarrow> chan \<Rightarrow> c_fault + int \<times> fsys \<times> chan" where
  "recv_files_from_put_req junk req resp fs cn =
     (case recv_file_from_put_req junk req resp fs cn of
        Inl f \<Rightarrow> Inl f
      | Inr (ret, has_more, resp1, fs1, cn1) \<Rightarrow>
          if ret = -1 \<or> \<not> has_more then Inr (ret, fs1, cn1)
          else case ch_recv cn1 of (ret, m, cn2) \<Rightarrow>
            if ret = -1 then Inr (-1, fs1, cn2)
            else case as_put_req m of
                Inl f \<Rightarrow> Inl f
              | Inr req1 \<Rightarrow> recv_files_from_put_req junk req1 resp1 fs1 cn2)"
  by pat_completeness auto
termination
  by (relation "measure (\<lambda>(j, req, resp, fs, cn). length (ch_in cn))")
    (auto dest!: yieldsD [OF recv_file_from_put_req_le] dest: as_put_req_shrinks [OF sym])

declare recv_files_from_put_req.simps [simp del] put_blocks.simps [simp del]

section \<open>Sending by get responses\<close>

definition upd_get_entry :: "(trans_entry \<Rightarrow> trans_entry) \<Rightarrow> get_resp \<Rightarrow> get_resp" where
  "upd_get_entry f r = r\<lparr>gr_data := (gr_data r)\<lparr>fd_entry := f (fd_entry (gr_data r))\<rparr>\<rparr>"

definition send_file_content_by_get_resp :: "get_resp \<Rightarrow> 32 word \<Rightarrow> chan \<Rightarrow> int \<times> get_resp \<times> chan" where
  "send_file_content_by_get_resp resp flags cn = send_get_resp resp RESP_OK flags cn"

definition send_file_name_by_get_resp ::
    "fsys \<Rightarrow> string \<Rightarrow> string \<Rightarrow> get_resp \<Rightarrow> 32 word \<Rightarrow> chan \<Rightarrow> c_fault + int \<times> get_resp \<times> chan" where
  "send_file_name_by_get_resp fs path fname resp flags cn =
     (let (_, resp1, cn1) =
            send_get_resp ((upd_get_entry (name_entry fs path fname) resp)\<lparr>gr_need_reply := 1\<rparr>) RESP_OK flags cn;
          (ret, m, cn2) = ch_recv cn1
      in if ret = -1 then Inr (-1, resp1, cn2)
         else sbind (as_status m) (\<lambda>st. Inr (if st \<noteq> resp_num RESP_OK then -1 else ret, resp1, cn2)))"

definition send_file_md5_by_get_resp ::
    "bytes \<Rightarrow> fsys \<Rightarrow> string \<Rightarrow> get_resp \<Rightarrow> chan \<Rightarrow> c_fault + int \<times> get_resp \<times> chan" where
  "send_file_md5_by_get_resp junk fs path resp cn =
     (if is_dir fs path then Inl Assertion_failed
      else
        let resp1 = upd_get_entry (\<lambda>e. e\<lparr>te_total_size := of_nat (file_size fs path)\<rparr>) resp in
        sbind (md5_file junk (fopen_r fs path)) (\<lambda>(ret, digest).
          case digest of
            None \<Rightarrow> Inr (-1, resp1, cn)
          | Some d \<Rightarrow>
              Inr (send_get_resp
                ((upd_get_entry (\<lambda>e. e\<lparr>te_content := buf_strcpy (te_content e) d,
                                       te_this_size := of_nat (length d)\<rparr>) resp1)\<lparr>gr_need_reply := 1\<rparr>)
                RESP_OK REQ_RESP_FLAG_NONE cn)))"

text \<open>
  The block loop of \<^verbatim>\<open>send_file_by_get_resp\<close>: \<open>eof\<close> is \<^verbatim>\<open>feof(fp)\<close>, \<open>rest\<close> what is left of the file. The loop
  compares the bytes read so far with \<^verbatim>\<open>total_size\<close> of the response, which every send converts. \<open>fuel\<close>
  bounds the rounds.
\<close>

fun get_blocks ::
    "nat \<Rightarrow> bool \<Rightarrow> bytes \<Rightarrow> bool \<Rightarrow> nat \<Rightarrow> get_resp \<Rightarrow> chan \<Rightarrow> c_fault + int \<times> get_resp \<times> chan" where
  "get_blocks 0 is_last rest eof read_size resp cn = Inl No_return"
| "get_blocks (Suc fuel) is_last rest eof read_size resp cn =
     (let bs = take CONTENT_BLOCK_SIZE rest;
          eof1 = (eof \<or> length bs < CONTENT_BLOCK_SIZE);
          resp1 = upd_get_entry (block_entry bs) resp;
          read_size1 = read_size + length bs;
          flags = (if is_last \<and> read_size1 = unat (te_total_size (fd_entry (gr_data resp1)))
                   then REQ_RESP_FLAG_STOP else REQ_RESP_FLAG_NONE);
          (ret, resp2, cn1) = send_file_content_by_get_resp (resp1\<lparr>gr_need_reply := 0\<rparr>) flags cn;
          more = (\<lambda>ret cn. if read_size1 < unat (te_total_size (fd_entry (gr_data resp2)))
                           then get_blocks fuel is_last (drop CONTENT_BLOCK_SIZE rest) eof1 read_size1 resp2 cn
                           else Inr (if eof1 then ret else -1, resp2, cn))
      in if ret = -1 then Inr (-1, resp2, cn1)
         else if gr_need_reply resp2 \<noteq> 0
         then
           let (ret, m, cn2) = ch_recv cn1 in
           if ret = -1 then Inr (-1, resp2, cn2)
           else sbind (as_status m) (\<lambda>st.
             if st \<noteq> resp_num RESP_OK then Inr (if eof1 then ret else -1, resp2, cn2) else more ret cn2)
         else more ret cn1)"

definition send_file_by_get_resp ::
    "nat \<Rightarrow> bytes \<Rightarrow> fsys \<Rightarrow> string \<Rightarrow> string \<Rightarrow> get_resp \<Rightarrow> chan \<Rightarrow> c_fault + int \<times> get_resp \<times> chan" where
  "send_file_by_get_resp fuel junk fs path fname resp cn =
     (let is_last = (fd_file_idx (gr_data resp) = fd_total_files (gr_data resp) - 1);
          flags = (if is_last \<and> is_dir fs path then REQ_RESP_FLAG_STOP else REQ_RESP_FLAG_NONE)
      in if is_dir fs path then send_file_name_by_get_resp fs path fname resp flags cn
         else sbind (send_file_name_by_get_resp fs path fname resp REQ_RESP_FLAG_NONE cn) (\<lambda>(ret, resp1, cn1).
           if ret = -1 then Inr (-1, resp1, cn1)
           else sbind (send_file_md5_by_get_resp junk fs path resp1 cn1) (\<lambda>(ret, resp2, cn2).
             if ret = -1 then Inr (-1, resp2, cn2)
             else
               let (ret, m, cn3) = ch_recv cn2 in
               if ret = -1 then Inr (-1, resp2, cn3)
               else sbind (as_status m) (\<lambda>st.
                 if st = resp_num RESP_OK then Inr (0, resp2, cn3)
                 else case fopen_r fs path of
                     None \<Rightarrow> Inr (-1, resp2, cn3)
                   | Some data \<Rightarrow>
                       get_blocks fuel is_last data False 0
                         (upd_get_entry (\<lambda>e. e\<lparr>te_total_size := of_nat (file_size fs path)\<rparr>) resp2) cn3))))"

text \<open>The loop of \<^verbatim>\<open>send_dir_by_get_resp\<close> goes on after a file that failed.\<close>

definition next_get_file :: "get_resp \<Rightarrow> get_resp" where
  "next_get_file r = r\<lparr>gr_data := (gr_data r)\<lparr>fd_file_idx := fd_file_idx (gr_data r) + 1\<rparr>\<rparr>"

fun get_entries ::
    "nat \<Rightarrow> bytes \<Rightarrow> fsys \<Rightarrow> path_entry list \<Rightarrow> get_resp \<Rightarrow> chan \<Rightarrow> c_fault + int \<times> get_resp \<times> chan" where
  "get_entries fuel junk fs [] resp cn = Inr (0, resp, cn)"
| "get_entries fuel junk fs (e # es) resp cn =
     sbind (send_file_by_get_resp fuel junk fs (abs_path e) (rel_path e) resp cn) (\<lambda>(ret, resp1, cn1).
       get_entries fuel junk fs es (next_get_file resp1) cn1)"

definition start_get_files :: "nat \<Rightarrow> get_resp \<Rightarrow> get_resp" where
  "start_get_files k r = r\<lparr>gr_data := (gr_data r)\<lparr>fd_total_files := of_nat k, fd_file_idx := 0\<rparr>\<rparr>"

definition send_dir_by_get_resp ::
    "nat \<Rightarrow> bytes \<Rightarrow> fsys \<Rightarrow> string \<Rightarrow> get_resp \<Rightarrow> chan \<Rightarrow> c_fault + int \<times> get_resp \<times> chan" where
  "send_dir_by_get_resp fuel junk fs path resp cn =
     (case get_path_entry_list fs path None of
        None \<Rightarrow> Inr (-1, resp, cn)
      | Some es \<Rightarrow> get_entries fuel junk fs es (start_get_files (length es) resp) cn)"

definition send_files_by_get_resp ::
    "nat \<Rightarrow> bytes \<Rightarrow> fsys \<Rightarrow> string \<Rightarrow> get_resp \<Rightarrow> chan \<Rightarrow> c_fault + int \<times> get_resp \<times> chan" where
  "send_files_by_get_resp fuel junk fs path resp cn =
     (if is_file fs path
      then send_file_by_get_resp fuel junk fs path (get_basename path) (start_get_files 1 resp) cn
      else send_dir_by_get_resp fuel junk fs path resp cn)"

section \<open>Receiving get responses\<close>

text \<open>One round of the block loop of \<^verbatim>\<open>recv_file_from_get_resp\<close>, and the loop.\<close>

definition recv_get_block ::
    "string \<Rightarrow> nat \<Rightarrow> nat \<Rightarrow> status_resp \<Rightarrow> fsys \<Rightarrow> chan
     \<Rightarrow> c_fault + bool \<times> nat \<times> int \<times> status_resp \<times> fsys \<times> chan" where
  "recv_get_block rp tsize recv_size com fs cn =
     (let (ret, m, cn1) = ch_recv cn in
      if ret = -1 then Inr (False, recv_size, ret, com, fs, cn1)
      else sbind (as_get_resp m) (\<lambda>resp.
        let e = fd_entry (gr_data resp) in
        if CONTENT_BLOCK_SIZE < unat (te_this_size e) then Inl Out_of_bounds
        else
          let fs1 = fappend fs rp (take (unat (te_this_size e)) (te_content e));
              (ret1, com1, cn2) =
                (if gr_need_reply resp \<noteq> 0 then send_common_resp com RESP_OK 0 cn1 else (ret, com, cn1));
              recv_size1 = recv_size + unat (te_this_size e)
          in if gr_need_reply resp \<noteq> 0 \<and> ret1 = -1 then Inr (False, recv_size, ret1, com1, fs1, cn2)
             else Inr (recv_size1 < tsize, recv_size1, ret1, com1, fs1, cn2)))"

lemma send_common_resp_in [simp]:
  "send_common_resp resp code flags cn = (ret, resp1, cn1) \<Longrightarrow> ch_in cn1 = ch_in cn"
  by (auto simp: send_common_resp_def ch_send_def Let_def split: if_splits)

lemma as_get_resp_shrinks:
  "ch_recv cn = (ret, m, cn1) \<Longrightarrow> as_get_resp m = Inr resp \<Longrightarrow> length (ch_in cn1) < length (ch_in cn)"
  by (auto simp: ch_recv_def as_get_resp_def split: list.splits event.splits)

lemma recv_get_block_shrinks:
  "yields (recv_get_block rp tsize recv_size com fs cn)
     (\<lambda>(go, r, ret, com1, fs1, cn1). length (ch_in cn1) \<le> length (ch_in cn)
        \<and> (go \<longrightarrow> length (ch_in cn1) < length (ch_in cn)))"
  by (auto simp: recv_get_block_def Let_def intro!: yields_sbindI split: prod.split
      dest: send_common_resp_in ch_recv_le as_get_resp_shrinks less_imp_le)

function recv_get_blocks ::
    "string \<Rightarrow> nat \<Rightarrow> nat \<Rightarrow> status_resp \<Rightarrow> fsys \<Rightarrow> chan
     \<Rightarrow> c_fault + nat \<times> int \<times> status_resp \<times> fsys \<times> chan" where
  "recv_get_blocks rp tsize recv_size com fs cn =
     (case recv_get_block rp tsize recv_size com fs cn of
        Inl f \<Rightarrow> Inl f
      | Inr (go, recv_size1, ret, com1, fs1, cn1) \<Rightarrow>
          if go then recv_get_blocks rp tsize recv_size1 com1 fs1 cn1
          else Inr (recv_size1, ret, com1, fs1, cn1))"
  by pat_completeness auto
termination
  by (relation "measure (\<lambda>(rp, t, r, s, fs, cn). length (ch_in cn))")
    (auto dest: yieldsD [OF recv_get_block_shrinks])

declare recv_get_blocks.simps [simp del]

text \<open>The part behind the file name, on a file that exists.\<close>

definition recv_get_content ::
    "bytes \<Rightarrow> string \<Rightarrow> 32 word \<Rightarrow> status_resp \<Rightarrow> fsys \<Rightarrow> chan \<Rightarrow> c_fault + int \<times> fsys \<times> chan" where
  "recv_get_content junk rp mode com fs cn =
     (let (ret, m, cn1) = ch_recv cn in
      if ret = -1 then Inr (-1, fs, cn1)
      else sbind (as_get_resp m) (\<lambda>resp.
        let e = fd_entry (gr_data resp); tsize = unat (te_total_size e);
            md5 = buf_string (take MD5_STR_LEN (te_content e))
        in sbind (same_file junk fs rp md5) (\<lambda>same.
          if same
          then (case send_common_resp com RESP_OK 0 cn1 of (_, com1, cn2) \<Rightarrow> Inr (ret, fs, cn2))
          else
            let (_, com1, cn2) = send_common_resp com RESP_CONTINUE 0 cn1 in
            case fopen_w fs rp of
              None \<Rightarrow> (case send_common_resp com1 RESP_INTERNAL_ERR 0 cn2 of (_, com2, cn3) \<Rightarrow> Inr (-1, fs, cn3))
            | Some fs1 \<Rightarrow>
                sbind (recv_get_blocks rp tsize 0 com1 fs1 cn2) (\<lambda>(recv_size, ret, com2, fs2, cn3).
                  if recv_size < tsize then Inr (-1, fs2, cn3)
                  else sbind (same_file junk fs2 rp md5) (\<lambda>same.
                    if \<not> same then Inr (-1, fs2, cn3)
                    else Inr (ret, snd (set_file_mode fs2 rp mode), cn3))))))"

definition recv_file_from_get_resp ::
    "bytes \<Rightarrow> status_resp \<Rightarrow> string \<Rightarrow> 32 word \<Rightarrow> 32 word \<Rightarrow> fsys \<Rightarrow> chan
     \<Rightarrow> c_fault + int \<times> fsys \<times> chan" where
  "recv_file_from_get_resp junk com rp type mode fs cn =
     (if type = FILE_TYPE_DIR
      then
        let (ret, fs1) = (if \<not> file_existed fs (Some rp) then mkdirp fs rp mode else (0, fs));
            (_, com1, cn1) = send_common_resp com (if ret = -1 then RESP_INTERNAL_ERR else RESP_OK) 0 cn
        in Inr (ret, fs1, cn1)
      else if type = FILE_TYPE_FILE
      then
        let (ret, fs1) = (if \<not> file_existed fs (Some rp) then create_new_file_with_parent fs rp mode else (0, fs));
            (_, com1, cn1) = send_common_resp com (if ret = -1 then RESP_INTERNAL_ERR else RESP_OK) 0 cn
        in if ret = -1 then Inr (-1, fs1, cn1)
           else if \<not> (file_existed fs1 (Some rp) \<and> is_file fs1 rp) then Inl Assertion_failed
           else recv_get_content junk rp mode com1 fs1 cn1
      else (case send_common_resp com RESP_UNKNOWN_FILE_TYPE 0 cn of (_, com1, cn1) \<Rightarrow> Inr (-1, fs, cn1)))"

text \<open>
  The loop of \<^verbatim>\<open>recv_files_from_get_resp\<close> over the files still to come. \<open>com\<close> is what the pool's memory holds
  when \<^verbatim>\<open>recv_file_from_get_resp\<close> allocates its response.
\<close>

definition entry_name :: "get_resp \<Rightarrow> string" where
  "entry_name resp = buf_string (te_content (fd_entry (gr_data resp)))"

fun recv_get_files ::
    "bytes \<Rightarrow> status_resp \<Rightarrow> string \<Rightarrow> nat \<Rightarrow> get_resp \<Rightarrow> fsys \<Rightarrow> chan \<Rightarrow> c_fault + int \<times> fsys \<times> chan" where
  "recv_get_files junk com path 0 resp fs cn = Inr (0, fs, cn)"
| "recv_get_files junk com path (Suc n) resp fs cn =
     (let e = fd_entry (gr_data resp); rp = the (path_join (Some path) (Some (entry_name resp))) in
      sbind (recv_file_from_get_resp junk com rp (te_type e) (te_mode e) fs cn) (\<lambda>(ret, fs1, cn1).
        if ret = -1 then Inr (-1, fs1, cn1)
        else if n = 0 then Inr (0, fs1, cn1)
        else
          let (ret, m, cn2) = ch_recv cn1 in
          if ret = -1 then Inr (-1, fs1, cn2)
          else sbind (as_get_resp m) (\<lambda>resp1. recv_get_files junk com path n resp1 fs1 cn2)))"

definition recv_files_from_get_resp ::
    "bytes \<Rightarrow> status_resp \<Rightarrow> string \<Rightarrow> fsys \<Rightarrow> chan \<Rightarrow> c_fault + int \<times> fsys \<times> chan" where
  "recv_files_from_get_resp junk com path fs cn =
     (let (ret, m, cn1) = ch_recv cn in
      if ret = -1 then Inr (-1, fs, cn1)
      else sbind (as_get_resp m) (\<lambda>resp.
        let total_files = sint (fd_total_files (gr_data resp)); e = fd_entry (gr_data resp) in
        if \<not> 0 < total_files then Inr (-1, fs, cn1)
        else if total_files = 1 \<and> te_type e = FILE_TYPE_FILE
        then
          let rp = (if is_dir fs path then the (path_join (Some path) (Some (entry_name resp))) else path)
          in recv_file_from_get_resp junk com rp (te_type e) (te_mode e) fs cn1
        else if \<not> is_dir fs path then Inr (-1, fs, cn1)
        else recv_get_files junk com path (nat total_files) resp fs cn1))"

section \<open>Messages are packets\<close>

fun hton_msg :: "msg \<Rightarrow> msg" where
  "hton_msg (Get_resp r) = Get_resp (hton_get_resp r)"
| "hton_msg (Put_req r) = Put_req (hton_put_req r)"
| "hton_msg (Common_resp r) = Common_resp (hton_status r)"
| "hton_msg (Put_resp r) = Put_resp (hton_status r)"
| "hton_msg (Ctl c) = Ctl (hton_ctl c)"

fun msg_ok :: "msg \<Rightarrow> bool" where
  "msg_ok (Get_resp r) \<longleftrightarrow>
     length (gr_message r) = RESP_MESSAGE_MAX_LEN \<and> length (te_content (fd_entry (gr_data r))) = CONTENT_BLOCK_SIZE"
| "msg_ok (Put_req r) \<longleftrightarrow> length (pr_session_id r) = 32 \<and> user_ok (pr_user r)
     \<and> length (te_content (fd_entry (pr_data r))) = CONTENT_BLOCK_SIZE"
| "msg_ok (Common_resp r) \<longleftrightarrow> length (sr_message r) = RESP_MESSAGE_MAX_LEN"
| "msg_ok (Put_resp r) \<longleftrightarrow> length (sr_message r) = RESP_MESSAGE_MAX_LEN"
| "msg_ok (Ctl c) \<longleftrightarrow> ctl_ok c"

lemma msg_layouts:
  "packet_layout (packet_code PACKET_TYPE_GET_RESP) = Some get_resp_ty"
  "packet_layout (packet_code PACKET_TYPE_PUT_REQ) = Some put_req_ty"
  "packet_layout (packet_code PACKET_TYPE_COMMON_RESP) = Some common_resp_ty"
  "packet_layout (packet_code PACKET_TYPE_PUT_RESP) = Some put_resp_ty"
  by (simp_all add: packet_layout_def packet_layouts_def)

lemma msg_ok_sendable: "msg_ok m \<Longrightarrow> sendable (msg_packet m)"
  by (cases m) (simp_all del: packet_code.simps sendable.simps(1)
      add: sendable.simps [of "packet_code t" for t] ctl_ok_sendable user_typed msg_layouts trans_consts data_obj_def entry_obj_def
      get_resp_ty_def get_resp_data_ty_def put_req_ty_def put_req_data_ty_def common_resp_ty_def put_resp_ty_def
      trans_entry_ty_def struct_ty_def)

lemma entry_obj_hton: "entry_obj (hton_entry e) = swap (entry_obj e)"
  by (simp add: entry_obj_def hton_entry_def)

lemma data_obj_hton: "data_obj (hton_data d) = swap (data_obj d)"
  by (simp add: data_obj_def hton_data_def entry_obj_hton)

lemma msg_packet_hton: "msg_packet (hton_msg m) = (fst (msg_packet m), swap (snd (msg_packet m)))"
  by (cases m) (simp_all add: hton_get_resp_def hton_put_req_def hton_status_def data_obj_hton user_obj_hton ctl_packet_hton)

text \<open>
  C2: the messages of the transfer protocol are packets. A sequence of messages whose buffers have the
  sizes of the structs is sent over a stream socket as packets that the peer receives in order and
  unchanged, and sending a message leaves in the sender's struct what \<open>hton_msg\<close> says.
\<close>

theorem messages_refine_packets:
  assumes "stream_socket snd_fn rcv_fn sent pending" "list_all msg_ok ms" "3 * length ms \<le> mem st"
  shows "(\<exists>st' w. send_packets snd_fn n (map msg_packet ms) st = Inr (0, st')
      \<and> sent (sock st') = sent (sock st) @ w \<and> delivers rcv_fn pending (map msg_packet ms) w)
    \<and> (\<forall>m \<in> set ms. \<forall>k st1. 3 \<le> mem st1 \<longrightarrow> (\<exists>sp st2.
        send_sftt_packet snd_fn k (packet (msg_packet m)) st1 = Inr (0, sp, st2)
        \<and> sp_obj sp = Some (snd (msg_packet (hton_msg m)))))"
proof (intro conjI ballI allI impI)
  have s: "list_all sendable (map msg_packet ms)"
    using assms(2) msg_ok_sendable by (auto simp: list_all_iff)
  show "\<exists>st' w. send_packets snd_fn n (map msg_packet ms) st = Inr (0, st')
      \<and> sent (sock st') = sent (sock st) @ w \<and> delivers rcv_fn pending (map msg_packet ms) w"
    using stream_socket.send_then_receive [OF assms(1) s, of st n] assms(3) by auto
  fix m k and st1 :: "'a net"
  assume m: "m \<in> set ms" "3 \<le> mem st1"
  obtain t where t: "packet_layout (fst (msg_packet m)) = Some t" "well_typed t (snd (msg_packet m))"
    using s m(1) by (cases "msg_packet m") (fastforce simp: list_all_iff split: option.splits)
  show "\<exists>sp st2. send_sftt_packet snd_fn k (packet (msg_packet m)) st1 = Inr (0, sp, st2)
        \<and> sp_obj sp = Some (snd (msg_packet (hton_msg m)))"
    using stream_socket.send_object [OF assms(1), of "packet (msg_packet m)" t "snd (msg_packet m)" st1 k] t m(2)
    by (auto simp: packet_def msg_packet_hton)
qed

definition sample_status :: status_resp where
  "sample_status = \<lparr>sr_status = 3, sr_flags = 0, sr_message = replicate 80 0\<rparr>"

theorem messages_refine_packets_witness:
  "(\<exists>st' w. send_packets pipe_send 1 (map msg_packet [Common_resp sample_status]) (pipe_net []) = Inr (0, st')
      \<and> sock st' = w \<and> delivers pipe_recv (\<lambda>s. s) [msg_packet (Common_resp sample_status)] w)
    \<and> (\<exists>sp st2. send_sftt_packet pipe_send 1 (packet (msg_packet (Common_resp sample_status))) (pipe_net []) =
         Inr (0, sp, st2) \<and> sp_obj sp = Some (snd (msg_packet (Common_resp (sample_status\<lparr>sr_status := 0x3000000\<rparr>)))))"
proof -
  have "htonl 3 = 0x3000000" "htonl 0 = 0"
    by (simp_all add: htonl_def le32_def)
  then have h: "hton_msg (Common_resp sample_status) = Common_resp (sample_status\<lparr>sr_status := 0x3000000\<rparr>)"
    by (simp add: hton_status_def sample_status_def)
  have ok: "list_all msg_ok [Common_resp sample_status]" "3 * length [Common_resp sample_status] \<le> mem (pipe_net [])"
    "3 \<le> mem (pipe_net [])"
    by (simp_all add: sample_status_def trans_consts pipe_net_def)
  note r = messages_refine_packets [OF pipe.stream_socket_axioms ok(1,2), of 1]
  show ?thesis
    using conjunct1 [OF r] conjunct2 [OF r, rule_format, of "Common_resp sample_status" "pipe_net []" 1, OF _ ok(3)]
    unfolding h by (auto simp: pipe_net_def)
qed

section \<open>Received files have the announced digest\<close>

lemma md5_file_digest:
  "length junk = 64 \<Longrightarrow> md5_file junk (Some data) = Inr (0, Some (hex_of (md5_reference data)))"
  by (simp add: md5_file_def md5_digest md5_printable)

lemma same_file_digest:
  assumes "length junk = 64" "fopen_r fs p = Some data"
  shows "same_file junk fs p md5 = Inr (p \<noteq> [] \<and> hex_of (md5_reference data) = md5)"
  using assms by (auto simp: same_file_def md5_file_digest file_existed_def fopen_r_def split: if_splits)

lemma set_file_mode_opens: "fopen_r (snd (set_file_mode fs p mode)) p = fopen_r fs p"
  by (auto simp: set_file_mode_def fopen_r_def resolve_def split: option.splits)

lemma as_get_resp_head: "ch_in cn = Msg (Get_resp r) # es \<Longrightarrow> ch_recv cn = (1, Some (Get_resp r), cn\<lparr>ch_in := es\<rparr>)"
  by (simp add: ch_recv_def)

lemma recv_get_content_digest:
  assumes "length junk = 64" "ch_in cn = Msg (Get_resp r) # es"
  shows "yields (recv_get_content junk rp mode com fs cn) (\<lambda>(ret, fs', cn').
    ret \<noteq> -1 \<longrightarrow> (\<forall>data. fopen_r fs' rp = Some data \<longrightarrow>
      hex_of (md5_reference data) = buf_string (take MD5_STR_LEN (te_content (fd_entry (gr_data r))))))"
  using assms
  by (auto simp: recv_get_content_def as_get_resp_head as_get_resp_def Let_def set_file_mode_opens same_file_digest
      intro!: yields_sbindI split: prod.split option.split)

lemma recv_put_content_digest:
  assumes "length junk = 64" "ch_in cn = Msg (Put_req r) # es"
  shows "yields (recv_put_content junk rp resp fs cn) (\<lambda>(ret, resp', fs', cn').
    ret \<noteq> -1 \<longrightarrow> (\<forall>data. fopen_r fs' rp = Some data \<longrightarrow>
      hex_of (md5_reference data) = buf_string (take MD5_STR_LEN (te_content (fd_entry (pr_data r))))))"
  using assms
  by (auto simp: recv_put_content_def ch_recv_def as_put_req_def Let_def same_file_digest
      intro!: yields_sbindI split: prod.split)

text \<open>
  C3: a file that get received has the announced digest. When \<open>recv_file_from_get_resp\<close> reports success
  for a regular file and the file can be read, the MD5 digest of its content is the string that the
  digest message carried, whatever blocks the peer sent in between.
\<close>

theorem get_received_digest:
  assumes "length junk = 64" "ch_in cn = Msg (Get_resp r) # es"
    "recv_file_from_get_resp junk com rp FILE_TYPE_FILE mode fs cn = Inr (ret, fs', cn')" "ret \<noteq> -1"
    "fopen_r fs' rp = Some data"
  shows "hex_of (md5_reference data) = buf_string (take MD5_STR_LEN (te_content (fd_entry (gr_data r))))"
proof -
  have "yields (recv_file_from_get_resp junk com rp FILE_TYPE_FILE mode fs cn) (\<lambda>(ret, fs', cn').
    ret \<noteq> -1 \<longrightarrow> (\<forall>data. fopen_r fs' rp = Some data \<longrightarrow>
      hex_of (md5_reference data) = buf_string (take MD5_STR_LEN (te_content (fd_entry (gr_data r))))))"
    using assms(1,2) recv_get_content_digest
    by (auto simp: recv_file_from_get_resp_def trans_consts(1,2) Let_def dest!: send_common_resp_in
        intro!: recv_get_content_digest split: prod.split)
  then show ?thesis
    using assms by (auto dest: yieldsD)
qed

text \<open>
  C4: the same for put: when \<open>recv_file_from_put_req\<close> reports success for anything but a directory and
  the file at the path of the name message can be read, its content has the digest of the digest
  message.
\<close>

theorem put_received_digest:
  assumes "length junk = 64" "ch_in cn = Msg (Put_req r) # es" "te_type (fd_entry (pr_data req)) \<noteq> FILE_TYPE_DIR"
    "recv_file_from_put_req junk req resp fs cn = Inr (ret, has_more, resp', fs', cn')" "ret \<noteq> -1"
    "fopen_r fs' (take (FILE_NAME_MAX_LEN - 1) (buf_string (te_content (fd_entry (pr_data req))))) = Some data"
  shows "hex_of (md5_reference data) = buf_string (take MD5_STR_LEN (te_content (fd_entry (pr_data r))))"
proof -
  let ?rp = "take (FILE_NAME_MAX_LEN - 1) (buf_string (te_content (fd_entry (pr_data req))))"
  have "yields (recv_file_from_put_req junk req resp fs cn) (\<lambda>(ret, more, resp', fs', cn').
    ret \<noteq> -1 \<longrightarrow> (\<forall>data. fopen_r fs' ?rp = Some data \<longrightarrow>
      hex_of (md5_reference data) = buf_string (take MD5_STR_LEN (te_content (fd_entry (pr_data r))))))"
    using assms(1-3)
    by (auto simp: recv_file_from_put_req_def Let_def dest!: send_put_resp_in
        intro!: yields_sbindI dest: yieldsD [OF recv_put_content_digest] split: prod.split)
  then show ?thesis
    using assms by (auto dest: yieldsD)
qed

section \<open>The block loop of the get sender\<close>

lemma htonl_0 [simp]: "htonl 0 = 0"
  by (simp add: htonl_def le32_def)

lemma total_of_block [simp]:
  "te_total_size (fd_entry (gr_data (upd_get_entry (block_entry bs) resp))) = te_total_size (fd_entry (gr_data resp))"
  by (simp add: upd_get_entry_def block_entry_def)

lemma sent_resp:
  assumes "send_get_resp resp code flags cn = (ret, resp2, cn1)"
  shows "gr_need_reply resp2 = htonl (gr_need_reply resp)"
    "te_total_size (fd_entry (gr_data resp2)) = htonl (te_total_size (fd_entry (gr_data resp)))"
  using assms by (auto simp: send_get_resp_def Let_def hton_get_resp_def hton_data_def hton_entry_def split: prod.splits)

lemma get_blocks_Suc:
  "get_blocks (Suc fuel) is_last rest eof read_size resp cn =
     (let bs = take CONTENT_BLOCK_SIZE rest;
          eof1 = (eof \<or> length bs < CONTENT_BLOCK_SIZE);
          tsize = te_total_size (fd_entry (gr_data resp));
          read_size1 = read_size + length bs;
          flags = (if is_last \<and> read_size1 = unat tsize then REQ_RESP_FLAG_STOP else REQ_RESP_FLAG_NONE);
          (ret, resp2, cn1) = send_get_resp ((upd_get_entry (block_entry bs) resp)\<lparr>gr_need_reply := 0\<rparr>) RESP_OK flags cn
      in if ret = -1 then Inr (-1, resp2, cn1)
         else if read_size1 < unat (htonl tsize)
         then get_blocks fuel is_last (drop CONTENT_BLOCK_SIZE rest) eof1 read_size1 resp2 cn1
         else Inr (if eof1 then ret else -1, resp2, cn1))"
proof -
  let ?bs = "take CONTENT_BLOCK_SIZE rest" and ?t = "te_total_size (fd_entry (gr_data resp))"
  let ?flags = "if is_last \<and> read_size + length ?bs = unat ?t then REQ_RESP_FLAG_STOP else REQ_RESP_FLAG_NONE"
  obtain ret resp2 cn1 where s:
    "send_get_resp ((upd_get_entry (block_entry ?bs) resp)\<lparr>gr_need_reply := 0\<rparr>) RESP_OK ?flags cn = (ret, resp2, cn1)"
    by (rule prod_cases3)
  have "gr_need_reply resp2 = 0" "te_total_size (fd_entry (gr_data resp2)) = htonl ?t"
    using sent_resp [OF s] by simp_all
  then show ?thesis
    by (simp only: get_blocks.simps(2) send_file_content_by_get_resp_def Let_def total_of_block s prod.case refl
        not_True_eq_False if_False if_True simp_thms)
qed

declare get_blocks.simps(2) [simp del]

lemma get_blocks_round:
  obtains ret resp2 cn1 where
    "te_total_size (fd_entry (gr_data resp2)) = htonl (te_total_size (fd_entry (gr_data resp)))"
    "get_blocks (Suc fuel) is_last rest eof read_size resp cn =
      (if ret = -1 then Inr (-1, resp2, cn1)
       else if read_size + min 2048 (length rest) < unat (htonl (te_total_size (fd_entry (gr_data resp))))
       then get_blocks fuel is_last (drop 2048 rest) (eof \<or> length rest < 2048) (read_size + min 2048 (length rest)) resp2 cn1
       else Inr (if eof \<or> length rest < 2048 then ret else -1, resp2, cn1))"
proof -
  let ?bs = "take 2048 rest" and ?t = "te_total_size (fd_entry (gr_data resp))"
  let ?flags = "if is_last \<and> read_size + length ?bs = unat ?t then REQ_RESP_FLAG_STOP else REQ_RESP_FLAG_NONE"
  obtain ret resp2 cn1 where s:
    "send_get_resp ((upd_get_entry (block_entry ?bs) resp)\<lparr>gr_need_reply := 0\<rparr>) RESP_OK ?flags cn = (ret, resp2, cn1)"
    by (rule prod_cases3)
  show thesis
    by (rule that [of resp2 ret cn1])
      (use sent_resp(2) [OF s] in \<open>simp_all add: get_blocks_Suc Let_def CONTENT_BLOCK_SIZE_def s [simplified] min.commute\<close>)
qed

lemma get_blocks_last_round:
  assumes "unat (htonl (te_total_size (fd_entry (gr_data resp)))) \<le> read_size"
  shows "get_blocks (Suc fuel) is_last [] eof read_size resp cn \<noteq> Inl No_return"
  by (rule get_blocks_round [of resp fuel is_last "[]" eof read_size cn]) (use assms in auto)

lemma get_blocks_returns:
  assumes "n < 2 ^ 32" "read_size + length rest = n"
    "te_total_size (fd_entry (gr_data resp)) \<in> {of_nat n, htonl (of_nat n)}"
    "(length rest + 2047) div 2048 + 2 \<le> fuel"
  shows "get_blocks fuel is_last rest eof read_size resp cn \<noteq> Inl No_return"
  using assms
proof (induction fuel arbitrary: rest eof read_size resp cn)
  case (Suc fuel)
  obtain ret resp2 cn1 where r: "te_total_size (fd_entry (gr_data resp2)) = htonl (te_total_size (fd_entry (gr_data resp)))"
    "get_blocks (Suc fuel) is_last rest eof read_size resp cn =
      (if ret = -1 then Inr (-1, resp2, cn1)
       else if read_size + min 2048 (length rest) < unat (htonl (te_total_size (fd_entry (gr_data resp))))
       then get_blocks fuel is_last (drop 2048 rest) (eof \<or> length rest < 2048) (read_size + min 2048 (length rest)) resp2 cn1
       else Inr (if eof \<or> length rest < 2048 then ret else -1, resp2, cn1))"
    by (rule get_blocks_round)
  show ?case
  proof (cases "rest = []")
    case True
    then obtain f where f: "fuel = Suc f"
      using Suc.prems(4) by (cases fuel) auto
    have n: "unat (of_nat n :: 32 word) = n" "read_size = n"
      using assms(1) True Suc.prems(2) by (simp_all add: unat_of_nat)
    show ?thesis
    proof (cases "te_total_size (fd_entry (gr_data resp)) = of_nat n")
      case True
      then have "get_blocks fuel is_last [] True n resp2 cn1 \<noteq> Inl No_return"
        using r(1) n(1) by (simp add: f get_blocks_last_round)
      then show ?thesis
        using \<open>rest = []\<close> n(2) r(2) by simp
    next
      case False
      then show ?thesis
        using \<open>rest = []\<close> n Suc.prems(3) r(2) by auto
    qed
  next
    case False
    have "2048 \<le> length rest + 2047"
      using False by (cases rest) auto
    then have "1 \<le> (length rest + 2047) div 2048"
      by (simp add: Suc_le_eq div_greater_zero_iff)
    then have l: "(length (drop 2048 rest) + 2047) div 2048 + 2 \<le> fuel"
      using Suc.prems(4) by (cases "length rest \<le> 2048") auto
    have "get_blocks fuel is_last (drop 2048 rest) (eof \<or> length rest < 2048) (read_size + min 2048 (length rest)) resp2 cn1
        \<noteq> Inl No_return"
      by (rule Suc.IH) (use Suc.prems l r(1) in auto)
    then show ?thesis
      by (simp add: r(2))
  qed
qed simp

section \<open>Blocks on the wire\<close>

text \<open>The blocks of a file, and messages that carry given blocks without asking for a reply.\<close>

function chunks :: "bytes \<Rightarrow> bytes list" where
  "chunks bs = (if bs = [] then [] else take 2048 bs # chunks (drop 2048 bs))"
  by pat_completeness auto
termination
  by (relation "measure length") auto

declare chunks.simps [simp del]

lemma chunks_Nil [simp]: "chunks [] = []"
  by (simp add: chunks.simps)

definition block_msg :: "msg \<Rightarrow> bytes \<Rightarrow> bool" where
  "block_msg m bs \<longleftrightarrow> (\<exists>r. m = Get_resp r \<and> gr_need_reply r = 0 \<and> length bs \<le> 2048
     \<and> te_this_size (fd_entry (gr_data r)) = of_nat (length bs)
     \<and> take (length bs) (te_content (fd_entry (gr_data r))) = bs)"

lemma send_block:
  assumes "length bs \<le> 2048" "ch_send_ok cn"
  obtains m resp2 where "block_msg m bs"
    "te_total_size (fd_entry (gr_data resp2)) = htonl (te_total_size (fd_entry (gr_data resp)))"
    "send_get_resp ((upd_get_entry (block_entry bs) resp)\<lparr>gr_need_reply := 0\<rparr>) code flags cn =
      (0, resp2, cn\<lparr>ch_out := ch_out cn @ [m]\<rparr>)"
proof -
  let ?r = "((upd_get_entry (block_entry bs) resp)\<lparr>gr_need_reply := 0\<rparr>)
    \<lparr>gr_status := resp_num code,
     gr_message := buf_strncpy (gr_message resp) (resp_messages code) (RESP_MESSAGE_MAX_LEN - 1), gr_flags := flags\<rparr>"
  have "block_msg (Get_resp ?r) bs"
    using assms(1) by (simp add: block_msg_def upd_get_entry_def block_entry_def)
  moreover have s: "send_get_resp ((upd_get_entry (block_entry bs) resp)\<lparr>gr_need_reply := 0\<rparr>) code flags cn =
      (0, hton_get_resp ?r, cn\<lparr>ch_out := ch_out cn @ [Get_resp ?r]\<rparr>)"
    using assms(2) by (simp add: send_get_resp_def ch_send_def Let_def upd_get_entry_def)
  ultimately show thesis
    using that sent_resp(2) [OF s] by simp
qed

text \<open>
  Below 64 KiB the converted size is larger than the size, so the loop does not end before the whole
  file has been sent; it ends after an even number of rounds.
\<close>

lemma htonl_eq_0 [simp]: "htonl w = 0 \<longleftrightarrow> w = 0"
  using htonl_htonl [of w] by (auto simp del: htonl_htonl)

lemma htonl_low_bits: "take_bit 16 w = w \<Longrightarrow> take_bit 16 (htonl w) = 0"
proof (rule bit_word_eqI)
  fix k
  assume w: "take_bit 16 w = w" and "k < LENGTH(32)"
  have hi: "\<not> bit w i" if "16 \<le> i" for i
    using that arg_cong [OF w, of "\<lambda>w. bit w i"] by (simp add: bit_simps)
  consider "k < 8" | "8 \<le> k \<and> k < 16" | "16 \<le> k"
    by linarith
  then show "bit (take_bit 16 (htonl w)) k = bit (0 :: 32 word) k"
    by cases (auto simp: htonl_def le32_def bit_simps hi)
qed

lemma htonl_small:
  assumes "0 < n" "n < 2 ^ 16"
  shows "n < unat (htonl (of_nat n :: 32 word))" "2 ^ 16 dvd unat (htonl (of_nat n :: 32 word))"
proof -
  have n: "unat (of_nat n :: 32 word) = n"
    using assms by (simp add: unat_of_nat)
  have "take_bit 16 (of_nat n :: 32 word) = of_nat n"
    using assms by (simp add: n word_unat_eq_iff unsigned_take_bit_eq take_bit_nat_eq_self)
  then have "unat (take_bit 16 (htonl (of_nat n))) = 0"
    by (simp add: htonl_low_bits)
  then have "take_bit 16 (unat (htonl (of_nat n :: 32 word))) = 0"
    by (simp only: unsigned_take_bit_eq)
  then show d: "2 ^ 16 dvd unat (htonl (of_nat n :: 32 word))"
    by (simp only: take_bit_eq_mod dvd_eq_mod_eq_0)
  have "unat (htonl (of_nat n :: 32 word)) \<noteq> 0"
    using n assms(1) by (auto simp: unat_eq_0)
  then show "n < unat (htonl (of_nat n :: 32 word))"
    using dvd_imp_le [OF d] assms(2) by simp
qed


lemma get_blocks_sends:
  assumes "0 < n" "n < 2 ^ 16"
  shows "ch_send_ok cn \<Longrightarrow> read_size + length rest = n \<Longrightarrow> rest \<noteq> [] \<or> \<not> q \<Longrightarrow>
    te_total_size (fd_entry (gr_data resp)) = (if q then of_nat n else htonl (of_nat n)) \<Longrightarrow>
    length (chunks rest) < fuel \<Longrightarrow>
    \<exists>ms resp'. get_blocks fuel is_last rest eof read_size resp cn =
        Inr (if eof \<or> q \<noteq> even (length (chunks rest)) \<or> \<not> 2048 dvd length rest then 0 else -1, resp',
             cn\<lparr>ch_out := ch_out cn @ ms\<rparr>)
      \<and> list_all2 block_msg ms (chunks rest @ (if q \<noteq> even (length (chunks rest)) then [[]] else []))"
proof (induction fuel arbitrary: rest eof read_size resp cn q)
  case (Suc fuel)
  have n: "unat (of_nat n :: 32 word) = n"
    using assms by (simp add: unat_of_nat)
  let ?bs = "take 2048 rest" and ?t = "te_total_size (fd_entry (gr_data resp))"
  let ?flags = "if is_last \<and> read_size + length ?bs = unat ?t then REQ_RESP_FLAG_STOP else REQ_RESP_FLAG_NONE"
  obtain m resp2 where s: "block_msg m ?bs" "te_total_size (fd_entry (gr_data resp2)) = htonl ?t"
    "send_get_resp ((upd_get_entry (block_entry ?bs) resp)\<lparr>gr_need_reply := 0\<rparr>) RESP_OK ?flags cn =
      (0, resp2, cn\<lparr>ch_out := ch_out cn @ [m]\<rparr>)"
    by (rule send_block [of ?bs cn]) (use Suc.prems(1) in auto)
  define k where "k = length (chunks (drop 2048 rest))"
  have step: "get_blocks (Suc fuel) is_last rest eof read_size resp cn =
    (if read_size + min 2048 (length rest) < unat (htonl ?t)
     then get_blocks fuel is_last (drop 2048 rest) (eof \<or> length rest < 2048) (read_size + min 2048 (length rest)) resp2
            (cn\<lparr>ch_out := ch_out cn @ [m]\<rparr>)
     else Inr (if eof \<or> length rest < 2048 then 0 else -1, resp2, cn\<lparr>ch_out := ch_out cn @ [m]\<rparr>))"
    using s(3) by (simp add: get_blocks_Suc Let_def CONTENT_BLOCK_SIZE_def min.commute)
  have ht: "unat (htonl ?t) = (if q then unat (htonl (of_nat n)) else n)"
    using Suc.prems(4) n by simp
  show ?case
  proof (cases "read_size + min 2048 (length rest) < unat (htonl ?t)")
    case True
    have ne: "rest \<noteq> []"
      using True Suc.prems(2,3) ht by auto
    have ch: "chunks rest = ?bs # chunks (drop 2048 rest)"
      using ne by (subst chunks.simps) simp
    have q: "drop 2048 rest \<noteq> [] \<or> \<not> \<not> q"
      using True ht Suc.prems(2) by (auto simp: min_def split: if_splits)
    have t: "te_total_size (fd_entry (gr_data resp2)) = (if \<not> q then of_nat n else htonl (of_nat n))"
      using s(2) Suc.prems(4) by simp
    have mn: "min 2048 (length rest) + (length rest - 2048) = length rest"
      by simp
    obtain ms resp' where i: "get_blocks fuel is_last (drop 2048 rest) (eof \<or> length rest < 2048)
          (read_size + min 2048 (length rest)) resp2 (cn\<lparr>ch_out := ch_out cn @ [m]\<rparr>) =
        Inr (if (eof \<or> length rest < 2048) \<or> (\<not> q) \<noteq> even k \<or> \<not> 2048 dvd length (drop 2048 rest) then 0 else -1,
             resp', cn\<lparr>ch_out := ch_out cn @ m # ms\<rparr>)"
      "list_all2 block_msg ms (chunks (drop 2048 rest) @ (if (\<not> q) \<noteq> even k then [[]] else []))"
      using Suc.IH [OF _ _ q t, of "cn\<lparr>ch_out := ch_out cn @ [m]\<rparr>" "read_size + min 2048 (length rest)"
          "eof \<or> length rest < 2048"] Suc.prems(1,2,5) ch mn by (auto simp: k_def)
    have d: "(length rest < 2048 \<or> \<not> 2048 dvd length (drop 2048 rest)) \<longleftrightarrow> \<not> 2048 dvd length rest"
      using ne by (cases "length rest < 2048") (auto simp: dvd_imp_le nat_dvd_not_less dvd_minus_self)
    have e: "(((\<not> q) \<noteq> even k) = (q \<noteq> even (Suc k)))"
      by simp
    show ?thesis
      using i s(1) True d
      by (intro exI [of _ "m # ms"] exI [of _ resp']) (auto simp: step ch k_def [symmetric] e)
  next
    case False
    have q: "\<not> q" "length rest \<le> 2048"
      using False ht htonl_small(1) [OF assms] Suc.prems(2) by (auto simp: min_def split: if_splits)
    show ?thesis
    proof (cases "rest = []")
      case True
      then show ?thesis
        using s(1) q(1) False step by (intro exI [of _ "[m]"] exI [of _ resp2]) auto
    next
      case ne: False
      then have ch: "chunks rest = [rest]"
        using q(2) by (subst chunks.simps) simp
      have "length rest < 2048 \<longleftrightarrow> \<not> 2048 dvd length rest"
        using ne q(2) by (cases "length rest = 2048") (auto simp: nat_dvd_not_less)
      then show ?thesis
        using s(1) q False ch by (auto simp: step)
    qed
  qed
qed simp

section \<open>A file transferred by get\<close>

lemma fappend_append: "fappend (fappend fs p a) p b = fappend fs p (a @ b)"
  by (auto simp: fappend_def resolve_def split: option.splits)

lemma fappend_Nil [simp]: "fappend fs p [] = fs"
  by (auto simp: fappend_def map_upd_triv split: option.splits)

lemma recv_get_block_msg:
  assumes "block_msg m bs" "ch_in cn = Msg m # es"
  shows "recv_get_block rp tsize recv_size com fs cn =
    Inr (recv_size + length bs < tsize, recv_size + length bs, 1, com, fappend fs rp bs, cn\<lparr>ch_in := es\<rparr>)"
proof -
  obtain r where r: "m = Get_resp r" "gr_need_reply r = 0" "length bs \<le> 2048"
    "te_this_size (fd_entry (gr_data r)) = of_nat (length bs)"
    "take (length bs) (te_content (fd_entry (gr_data r))) = bs"
    using assms(1) by (auto simp: block_msg_def)
  have "unat (of_nat (length bs) :: 32 word) = length bs"
    using r(3) by (simp add: unat_of_nat)
  then show ?thesis
    using r assms(2) by (simp add: recv_get_block_def as_get_resp_head as_get_resp_def CONTENT_BLOCK_SIZE_def Let_def)
qed

lemma recv_get_blocks_msgs:
  "list_all2 block_msg ms bss \<Longrightarrow> bss \<noteq> [] \<Longrightarrow> [] \<notin> set bss \<Longrightarrow> ch_in cn = map Msg ms @ es \<Longrightarrow>
   recv_size + length (concat bss) = tsize \<Longrightarrow>
   recv_get_blocks rp tsize recv_size com fs cn =
     Inr (tsize, 1, com, fappend fs rp (concat bss), cn\<lparr>ch_in := es\<rparr>)"
proof (induction bss arbitrary: ms recv_size fs cn)
  case (Cons bs bss)
  obtain m ms' where m: "ms = m # ms'" "block_msg m bs" "list_all2 block_msg ms' bss"
    using Cons.prems(1) by (cases ms) auto
  note b = recv_get_block_msg [OF m(2), of cn "map Msg ms' @ es"]
  show ?case
  proof (cases bss)
    case Nil
    then show ?thesis
      using Cons.prems m by (subst recv_get_blocks.simps) (simp add: b)
  next
    case (Cons b' bss')
    have "recv_get_blocks rp tsize (recv_size + length bs) com (fappend fs rp bs) (cn\<lparr>ch_in := map Msg ms' @ es\<rparr>) =
      Inr (tsize, 1, com, fappend (fappend fs rp bs) rp (concat bss), cn\<lparr>ch_in := es\<rparr>)"
      using Cons.IH [OF m(3), of "cn\<lparr>ch_in := map Msg ms' @ es\<rparr>" "recv_size + length bs" "fappend fs rp bs"]
        Cons.prems Cons by simp
    moreover have "recv_size + length bs < tsize"
      using Cons.prems(3,5) Cons by auto
    ultimately show ?thesis
      using Cons.prems(4) m(1) by (subst recv_get_blocks.simps) (simp add: b fappend_append)
  qed
qed simp

lemma chunks_props: "concat (chunks bs) = bs \<and> [] \<notin> set (chunks bs) \<and> (chunks bs = [] \<longleftrightarrow> bs = [])"
proof (induction bs rule: chunks.induct)
  case (1 bs)
  then show ?case
    by (cases "bs = []") (auto simp: chunks.simps [of bs])
qed

lemma hex_of_nonzero: "CHR 0x00 \<notin> set (hex_of bs)"
proof (induction bs)
  case (Cons b bs)
  have "CHR 0x00 \<noteq> ''0123456789abcdef'' ! i" if "i < 16" for i
  proof -
    have "''0123456789abcdef'' ! i \<in> set ''0123456789abcdef''"
      using that by (intro nth_mem) simp
    then show ?thesis by auto
  qed
  then show ?case
    using Cons byte_nibbles [of b] by simp
qed simp

lemma digest_field: "buf_string (take MD5_STR_LEN (buf_strcpy buf (hex_of (md5_reference d)))) = hex_of (md5_reference d)"
proof -
  let ?h = "hex_of (md5_reference d)"
  have "takeWhile (\<lambda>b. b \<noteq> 0) (str_bytes ?h @ [0]) = str_bytes ?h"
    using hex_of_nonzero [of "md5_reference d"]
    by (subst takeWhile_append2) (auto simp: str_bytes_def)
  then show ?thesis
    by (simp add: buf_strcpy_def buf_string_def MD5_STR_LEN_def str_bytes_def comp_def)
qed

lemma fopen_w_append:
  assumes "fopen_w fs p = Some fs1"
  shows "fopen_r (fappend fs1 p d) p = Some d"
  using assms by (auto simp: fopen_w_def fappend_def fopen_r_def resolve_def Let_def split: if_splits option.splits)

lemma is_file_not_dir: "is_file fs p \<Longrightarrow> \<not> is_dir fs p"
  by (auto simp: is_file_def is_dir_def S_ISREG_def S_ISDIR_def)

lemma file_size_file: "is_file fs p \<Longrightarrow> fopen_r fs p = Some data \<Longrightarrow> file_size fs p = length data"
  by (auto simp: file_size_def is_file_def dir_at_def lstat_mode_def fopen_r_def S_ISREG_def S_ISDIR_def
      split: if_splits option.splits)

lemma ch_recv_Msg [simp]: "ch_recv \<lparr>ch_in = Msg m # es, ch_out = out, ch_send_ok = ok\<rparr> =
    (1, Some m, \<lparr>ch_in = es, ch_out = out, ch_send_ok = ok\<rparr>)"
  by (simp add: ch_recv_def)

definition accept_reply :: "status_resp \<Rightarrow> msg" where
  "accept_reply com = Common_resp (set_status com RESP_OK 0)"

definition continue_reply :: "status_resp \<Rightarrow> msg" where
  "continue_reply com = Common_resp (set_status (hton_status (set_status com RESP_OK 0)) RESP_CONTINUE 0)"

text \<open>What a peer that sends a regular file says before the blocks.\<close>

lemma send_file_prologue:
  assumes "length junk = 64" "is_file sfs p" "fopen_r sfs p = Some data"
  obtains name r resp' where
    "te_type (fd_entry (gr_data name)) = FILE_TYPE_FILE"
    "fd_total_files (gr_data name) = fd_total_files (gr_data resp)"
    "unat (te_total_size (fd_entry (gr_data r))) = length data mod 2 ^ 32"
    "buf_string (take MD5_STR_LEN (te_content (fd_entry (gr_data r)))) = hex_of (md5_reference data)"
    "te_total_size (fd_entry (gr_data resp')) = of_nat (length data)"
    "\<And>fuel. send_file_by_get_resp fuel junk sfs p fname resp
        \<lparr>ch_in = [Msg (accept_reply com), Msg (continue_reply com)], ch_out = [], ch_send_ok = True\<rparr> =
      get_blocks fuel (fd_file_idx (gr_data resp) = fd_total_files (gr_data resp) - 1) data False 0 resp'
        \<lparr>ch_in = [], ch_out = [Get_resp name, Get_resp r], ch_send_ok = True\<rparr>"
proof -
  let ?ok = "\<lambda>r. r\<lparr>gr_status := 0,
    gr_message := buf_strncpy (gr_message r) (resp_messages RESP_OK) (RESP_MESSAGE_MAX_LEN - 1), gr_flags := REQ_RESP_FLAG_NONE\<rparr>"
  define name where "name = ?ok ((upd_get_entry (name_entry sfs p fname) resp)\<lparr>gr_need_reply := 1\<rparr>)"
  define r1 where "r1 = upd_get_entry (\<lambda>e. e\<lparr>te_total_size := of_nat (length data)\<rparr>) (hton_get_resp name)"
  define r where "r = ?ok ((upd_get_entry (\<lambda>e. e\<lparr>te_content := buf_strcpy (te_content e) (hex_of (md5_reference data)),
      te_this_size := of_nat (length (hex_of (md5_reference data)))\<rparr>) r1)\<lparr>gr_need_reply := 1\<rparr>)"
  define resp' where "resp' = upd_get_entry (\<lambda>e. e\<lparr>te_total_size := of_nat (length data)\<rparr>) (hton_get_resp r)"
  note d = is_file_not_dir [OF assms(2)] file_size_file [OF assms(2,3)]
  show thesis
  proof (rule that [of name r resp'])
    show "te_type (fd_entry (gr_data name)) = FILE_TYPE_FILE"
      "fd_total_files (gr_data name) = fd_total_files (gr_data resp)"
      using d(1) by (simp_all add: name_def upd_get_entry_def name_entry_def)
    show "unat (te_total_size (fd_entry (gr_data r))) = length data mod 2 ^ 32"
      by (simp add: r_def r1_def upd_get_entry_def unat_of_nat)
    show "buf_string (take MD5_STR_LEN (te_content (fd_entry (gr_data r)))) = hex_of (md5_reference data)"
      by (simp add: r_def upd_get_entry_def digest_field)
    show "te_total_size (fd_entry (gr_data resp')) = of_nat (length data)"
      by (simp add: resp'_def upd_get_entry_def)
    fix fuel
    have "send_file_name_by_get_resp sfs p fname resp REQ_RESP_FLAG_NONE
        \<lparr>ch_in = [Msg (accept_reply com), Msg (continue_reply com)], ch_out = [], ch_send_ok = True\<rparr> =
      Inr (1, hton_get_resp name, \<lparr>ch_in = [Msg (continue_reply com)], ch_out = [Get_resp name], ch_send_ok = True\<rparr>)"
      by (simp add: send_file_name_by_get_resp_def send_get_resp_def ch_send_def Let_def as_status_def
          accept_reply_def set_status_def name_def)
    moreover have "send_file_md5_by_get_resp junk sfs p (hton_get_resp name)
        \<lparr>ch_in = [Msg (continue_reply com)], ch_out = [Get_resp name], ch_send_ok = True\<rparr> =
      Inr (0, hton_get_resp r,
           \<lparr>ch_in = [Msg (continue_reply com)], ch_out = [Get_resp name, Get_resp r], ch_send_ok = True\<rparr>)"
      using d assms
      by (simp add: send_file_md5_by_get_resp_def md5_file_digest send_get_resp_def ch_send_def Let_def r_def r1_def)
    ultimately show "send_file_by_get_resp fuel junk sfs p fname resp
        \<lparr>ch_in = [Msg (accept_reply com), Msg (continue_reply com)], ch_out = [], ch_send_ok = True\<rparr> =
      get_blocks fuel (fd_file_idx (gr_data resp) = fd_total_files (gr_data resp) - 1) data False 0 resp'
        \<lparr>ch_in = [], ch_out = [Get_resp name, Get_resp r], ch_send_ok = True\<rparr>"
      using d assms(3)
      by (simp add: send_file_by_get_resp_def Let_def as_status_def continue_reply_def set_status_def resp'_def)
  qed
qed

lemma recv_file_of_blocks:
  assumes "length junk = 64" "is_file rfs p" "p \<noteq> []" "fopen_r rfs p = Some old" "fopen_w rfs p = Some rfs1"
    "md5_reference old \<noteq> md5_reference data" "data \<noteq> []" "unat (te_total_size (fd_entry (gr_data r))) = length data"
    "buf_string (take MD5_STR_LEN (te_content (fd_entry (gr_data r)))) = hex_of (md5_reference data)"
    "list_all2 block_msg ms (chunks data)"
  obtains rfs' where "fopen_r rfs' p = Some data"
    "recv_file_from_get_resp junk com p FILE_TYPE_FILE mode rfs
        \<lparr>ch_in = Msg (Get_resp r) # map Msg ms @ es, ch_out = [], ch_send_ok = True\<rparr> =
      Inr (1, rfs', \<lparr>ch_in = es, ch_out = [accept_reply com, continue_reply com], ch_send_ok = True\<rparr>)"
proof -
  have ex: "file_existed rfs (Some p)"
    using assms(3,4) by (auto simp: file_existed_def fopen_r_def split: if_splits)
  have new: "\<not> hex_of (md5_reference old) = hex_of (md5_reference data)"
    using assms(6) hex_of_inj by blast
  have b: "recv_get_blocks p (length data) 0 com' rfs1 \<lparr>ch_in = map Msg ms @ es, ch_out = out, ch_send_ok = True\<rparr> =
      Inr (length data, 1, com', fappend rfs1 p data, \<lparr>ch_in = es, ch_out = out, ch_send_ok = True\<rparr>)" for com' out
    using recv_get_blocks_msgs [OF assms(10)] chunks_props [of data] assms(7) by simp
  let ?fs = "snd (set_file_mode (fappend rfs1 p data) p mode)"
  show thesis
  proof (rule that [of ?fs])
    show "fopen_r ?fs p = Some data"
      using fopen_w_append [OF assms(5)] by (simp add: set_file_mode_opens)
    show "recv_file_from_get_resp junk com p FILE_TYPE_FILE mode rfs
        \<lparr>ch_in = Msg (Get_resp r) # map Msg ms @ es, ch_out = [], ch_send_ok = True\<rparr> =
      Inr (1, ?fs, \<lparr>ch_in = es, ch_out = [accept_reply com, continue_reply com], ch_send_ok = True\<rparr>)"
      using assms(1-5,8,9) new
      by (simp add: recv_file_from_get_resp_def trans_consts(1,2) ex send_common_resp_def ch_send_def
          recv_get_content_def as_get_resp_def Let_def same_file_digest b fopen_w_append [OF assms(5)]
          accept_reply_def continue_reply_def)
  qed
qed

text \<open>
  C1: get of one file, from end to end. The sender of a regular file of less than 64 KiB and the
  receiver that replaces an existing file with another digest agree on one conversation: each sends
  what the other expects, the receiver reports success and the file has the sender's content. When
  the number of blocks is odd, an empty block is left in the stream, because the sender compares the
  bytes it has read with a size that every send converts in place; the next message the receiver
  expects is then not the next one it gets. When the number is even and the size is a multiple of the block
  size, the sender reports failure although the file was transferred.
\<close>

theorem get_file_end_to_end:
  assumes "length junk = 64"
    "is_file sfs spath" "fopen_r sfs spath = Some data" "0 < length data" "length data < 2 ^ 16"
    "is_file rfs path" "path \<noteq> []" "fopen_r rfs path = Some old" "fopen_w rfs path = Some rfs1"
    "md5_reference old \<noteq> md5_reference data" "length (chunks data) < fuel"
  shows "\<exists>ms resp' rfs' left.
    send_files_by_get_resp fuel junk sfs spath resp
      \<lparr>ch_in = [Msg (accept_reply com), Msg (continue_reply com)], ch_out = [], ch_send_ok = True\<rparr> =
    Inr (if odd (length (chunks data)) \<or> \<not> 2048 dvd length data then 0 else -1, resp',
         \<lparr>ch_in = [], ch_out = ms, ch_send_ok = True\<rparr>)
    \<and> recv_files_from_get_resp junk com path rfs
        \<lparr>ch_in = map Msg ms, ch_out = [], ch_send_ok = True\<rparr> =
      Inr (1, rfs', \<lparr>ch_in = map Msg left, ch_out = [accept_reply com, continue_reply com], ch_send_ok = True\<rparr>)
    \<and> fopen_r rfs' path = Some data
    \<and> list_all2 block_msg left (if odd (length (chunks data)) then [[]] else [])"
proof -
  let ?cn = "\<lparr>ch_in = [Msg (accept_reply com), Msg (continue_reply com)], ch_out = [], ch_send_ok = True\<rparr>"
  obtain name r resp1 where s: "te_type (fd_entry (gr_data name)) = FILE_TYPE_FILE"
    "fd_total_files (gr_data name) = fd_total_files (gr_data (start_get_files 1 resp))"
    "unat (te_total_size (fd_entry (gr_data r))) = length data mod 2 ^ 32"
    "buf_string (take MD5_STR_LEN (te_content (fd_entry (gr_data r)))) = hex_of (md5_reference data)"
    "te_total_size (fd_entry (gr_data resp1)) = of_nat (length data)"
    "\<And>fuel. send_file_by_get_resp fuel junk sfs spath (get_basename spath) (start_get_files 1 resp) ?cn =
      get_blocks fuel (fd_file_idx (gr_data (start_get_files 1 resp)) = fd_total_files (gr_data (start_get_files 1 resp)) - 1)
        data False 0 resp1 \<lparr>ch_in = [], ch_out = [Get_resp name, Get_resp r], ch_send_ok = True\<rparr>"
    using send_file_prologue [OF assms(1-3)] by blast
  let ?last = "fd_file_idx (gr_data (start_get_files 1 resp)) = fd_total_files (gr_data (start_get_files 1 resp)) - 1"
  obtain bms resp' where g: "get_blocks fuel ?last data False 0 resp1
        \<lparr>ch_in = [], ch_out = [Get_resp name, Get_resp r], ch_send_ok = True\<rparr> =
      Inr (if odd (length (chunks data)) \<or> \<not> 2048 dvd length data then 0 else -1, resp',
        \<lparr>ch_in = [], ch_out = Get_resp name # Get_resp r # bms, ch_send_ok = True\<rparr>)"
    "list_all2 block_msg bms (chunks data @ (if odd (length (chunks data)) then [[]] else []))"
    using get_blocks_sends [OF assms(4,5), of "\<lparr>ch_in = [], ch_out = [Get_resp name, Get_resp r], ch_send_ok = True\<rparr>"
        0 data True resp1 fuel ?last False] assms(4,11) s(5) by auto
  obtain ms left where bms: "bms = ms @ left" "list_all2 block_msg ms (chunks data)"
    "list_all2 block_msg left (if odd (length (chunks data)) then [[]] else [])"
    using g(2) by (auto simp: list_all2_append2)
  have tsize: "unat (te_total_size (fd_entry (gr_data r))) = length data" and ne: "data \<noteq> []"
    using s(3) assms(4,5) by auto
  obtain rfs' where rfs': "fopen_r rfs' path = Some data"
    "recv_file_from_get_resp junk com path FILE_TYPE_FILE (te_mode (fd_entry (gr_data name))) rfs
        \<lparr>ch_in = Msg (Get_resp r) # map Msg ms @ map Msg left, ch_out = [], ch_send_ok = True\<rparr> =
      Inr (1, rfs', \<lparr>ch_in = map Msg left, ch_out = [accept_reply com, continue_reply com], ch_send_ok = True\<rparr>)"
    by (rule recv_file_of_blocks [OF assms(1,6,7,8,9,10) ne tsize s(4) bms(2)])
  have "recv_files_from_get_resp junk com path rfs
      \<lparr>ch_in = map Msg (Get_resp name # Get_resp r # bms), ch_out = [], ch_send_ok = True\<rparr> =
    Inr (1, rfs', \<lparr>ch_in = map Msg left, ch_out = [accept_reply com, continue_reply com], ch_send_ok = True\<rparr>)"
    using rfs'(2) s(1,2) is_file_not_dir [OF assms(6)]
    by (simp add: recv_files_from_get_resp_def as_get_resp_def Let_def start_get_files_def bms(1))
  moreover have "send_files_by_get_resp fuel junk sfs spath resp ?cn =
    Inr (if odd (length (chunks data)) \<or> \<not> 2048 dvd length data then 0 else -1, resp',
        \<lparr>ch_in = [], ch_out = Get_resp name # Get_resp r # bms, ch_send_ok = True\<rparr>)"
    using assms(2) s(6) g(1) by (simp add: send_files_by_get_resp_def)
  ultimately show ?thesis
    using rfs'(1) bms(3) by blast
qed

definition file_fs :: "bytes \<Rightarrow> fsys" where
  "file_fs d = \<lparr>nodes = [[] \<mapsto> \<lparr>st_mode = 0x41ED, st_data = []\<rparr>, [''f''] \<mapsto> \<lparr>st_mode = 0x81A4, st_data = d\<rparr>],
     cwd = [], listing = (\<lambda>_. [''f'']), denied = (\<lambda>_. False), umask = 0, stat_junk = 0, dir_end = 0, free_fds = 1024\<rparr>"

definition sample_resp :: get_resp where
  "sample_resp = \<lparr>gr_status = 0, gr_flags = 0, gr_message = replicate 80 0,
     gr_data = \<lparr>fd_total_files = 0, fd_file_idx = 0,
       fd_entry = \<lparr>te_type = 0, te_this_size = 0, te_mode = 0, te_total_size = 0, te_content = replicate 2048 0\<rparr>\<rparr>,
     gr_need_reply = 0\<rparr>"

lemma file_fs_path:
  "resolve (file_fs d) ''/f'' = [''f'']" "is_file (file_fs d) ''/f''" "fopen_r (file_fs d) ''/f'' = Some d"
  "fopen_w (file_fs d) ''/f'' = Some (file_fs [])" "file_existed (file_fs d) (Some ''/f'')"
proof -
  show r: "resolve (file_fs d) ''/f'' = [''f'']" for d
    by (simp add: resolve_def is_absolute_path_def)
  show "is_file (file_fs d) ''/f''" "fopen_r (file_fs d) ''/f'' = Some d"
    "fopen_w (file_fs d) ''/f'' = Some (file_fs [])" "file_existed (file_fs d) (Some ''/f'')"
    by (simp_all add: is_file_def lstat_mode_def fopen_r_def fopen_w_def file_existed_def r Let_def)
      (simp_all add: file_fs_def S_ISREG_def S_ISDIR_def fun_upd_twist)
qed

lemma digests_differ: "md5_reference [] \<noteq> md5_reference [97]"
  using md5_vectors by force

theorem get_file_end_to_end_witness:
  "\<exists>ms resp' rfs' left.
    send_files_by_get_resp 2 (replicate 64 0) (file_fs [97]) ''/f'' sample_resp
      \<lparr>ch_in = [Msg (accept_reply sample_status), Msg (continue_reply sample_status)], ch_out = [], ch_send_ok = True\<rparr> =
    Inr (0, resp', \<lparr>ch_in = [], ch_out = ms, ch_send_ok = True\<rparr>)
    \<and> recv_files_from_get_resp (replicate 64 0) sample_status ''/f'' (file_fs [])
        \<lparr>ch_in = map Msg ms, ch_out = [], ch_send_ok = True\<rparr> =
      Inr (1, rfs', \<lparr>ch_in = [Msg left], ch_out = [accept_reply sample_status, continue_reply sample_status],
                   ch_send_ok = True\<rparr>)
    \<and> fopen_r rfs' ''/f'' = Some [97] \<and> block_msg left []"
proof -
  have c: "chunks [97] = [[97]]"
    by (subst chunks.simps) simp
  show ?thesis
    using get_file_end_to_end [OF _ file_fs_path(2,3) _ _ file_fs_path(2) _ file_fs_path(3,4) digests_differ,
        of "replicate 64 0" 2 sample_resp sample_status]
    by (auto simp: c list_all2_Cons2)
qed

definition digest_resp :: get_resp where
  "digest_resp = upd_get_entry (\<lambda>e. e\<lparr>te_content := buf_strcpy [] (hex_of (md5_reference []))\<rparr>) sample_resp"

theorem get_received_digest_witness:
  "\<exists>cn'. recv_file_from_get_resp (replicate 64 0) sample_status ''/f'' FILE_TYPE_FILE 0x1A4 (file_fs [])
      \<lparr>ch_in = [Msg (Get_resp digest_resp)], ch_out = [], ch_send_ok = True\<rparr> = Inr (1, file_fs [], cn')
    \<and> hex_of (md5_reference []) = buf_string (take MD5_STR_LEN (te_content (fd_entry (gr_data digest_resp))))"
proof -
  let ?cn = "\<lparr>ch_in = [Msg (Get_resp digest_resp)], ch_out = [], ch_send_ok = True\<rparr>"
  have c: "te_content (fd_entry (gr_data digest_resp)) = buf_strcpy [] (hex_of (md5_reference []))"
    by (simp add: digest_resp_def upd_get_entry_def)
  have r: "recv_file_from_get_resp (replicate 64 0) sample_status ''/f'' FILE_TYPE_FILE 0x1A4 (file_fs []) ?cn =
      Inr (1, file_fs [], \<lparr>ch_in = [], ch_out = [accept_reply sample_status,
        Common_resp (set_status (hton_status (set_status sample_status RESP_OK 0)) RESP_OK 0)], ch_send_ok = True\<rparr>)"
    by (simp add: recv_file_from_get_resp_def trans_consts(1,2) file_fs_path recv_get_content_def as_get_resp_def
        same_file_digest file_fs_path c digest_field send_common_resp_def ch_send_def accept_reply_def Let_def)
  then show ?thesis
    using get_received_digest [OF _ _ r, of digest_resp "[]"] file_fs_path(3) by simp
qed

text \<open>
  C5: sending a file by get responses ends. The block loop has no bound of its own and its condition
  reads a size that alternates between the size of the file and its byte-swapped value, yet for every
  file of less than 4 GiB it leaves the loop, after at most three rounds more than the file has
  full blocks, whatever the peer answers.
\<close>

theorem get_send_returns:
  assumes "is_file fs path" "fopen_r fs path = Some data" "length data < 2 ^ 32" "length data div 2048 + 3 \<le> fuel"
  shows "send_file_by_get_resp fuel junk fs path fname resp cn \<noteq> Inl No_return"
proof -
  have "(length data + 2047) div 2048 + 2 \<le> fuel"
    using assms(4) by simp
  then have b: "te_total_size (fd_entry (gr_data r)) = of_nat (length data) \<Longrightarrow>
      get_blocks fuel l data False 0 r c \<noteq> Inl No_return" for r c l
    using get_blocks_returns [OF assms(3)] by auto
  have st: "as_status m \<noteq> Inl No_return" for m
    by (auto simp: as_status_def split: option.splits msg.splits)
  show ?thesis
    using assms(1,2) is_file_not_dir [OF assms(1)] file_size_file [OF assms(1,2)] b st
    by (auto simp: send_file_by_get_resp_def send_file_name_by_get_resp_def send_file_md5_by_get_resp_def md5_file_def
        md5_printable upd_get_entry_def Let_def split: prod.split sum.split simp: sbind_def)
qed

theorem get_send_returns_witness:
  "send_file_by_get_resp 3 [] (file_fs [97]) ''/f'' ''f'' sample_resp
     \<lparr>ch_in = [], ch_out = [], ch_send_ok = True\<rparr> \<noteq> Inl No_return"
  using get_send_returns [OF file_fs_path(2,3), of "[97]" 3] by simp

section \<open>A file transferred by put\<close>

definition put_reply :: "status_resp \<Rightarrow> resp_code \<Rightarrow> msg" where
  "put_reply resp code = Put_resp (set_status resp code REQ_RESP_FLAG_NONE)"

text \<open>The three answers of a receiver: to the name, to the digest, to the block.\<close>

definition put_replies :: "status_resp \<Rightarrow> msg list" where
  "put_replies resp =
     (let r1 = hton_status (set_status resp RESP_OK REQ_RESP_FLAG_NONE);
          r2 = hton_status (set_status r1 RESP_CONTINUE REQ_RESP_FLAG_NONE)
      in [put_reply resp RESP_OK, put_reply r1 RESP_CONTINUE, put_reply r2 RESP_OK])"

lemma name_field:
  assumes "length s < FILE_NAME_MAX_LEN" "CHR 0x00 \<notin> set s"
  shows "take (FILE_NAME_MAX_LEN - 1) (buf_string (buf_strncpy buf s FILE_NAME_MAX_LEN)) = s"
proof -
  obtain k where k: "FILE_NAME_MAX_LEN = length s + Suc k"
    using assms(1) less_natE by (metis add_Suc_right)
  have e: "buf_strncpy buf s FILE_NAME_MAX_LEN = str_bytes s @ 0 # replicate k 0 @ drop FILE_NAME_MAX_LEN buf"
    by (simp add: buf_strncpy_def k str_bytes_def)
  have "takeWhile (\<lambda>b. b \<noteq> 0) (buf_strncpy buf s FILE_NAME_MAX_LEN) = str_bytes s"
    unfolding e using assms(2) by (subst takeWhile_append2) (auto simp: str_bytes_def)
  then show ?thesis
    using assms(1) by (simp add: buf_string_def str_bytes_def comp_def)
qed

lemma put_reply_status [simp]: "as_status (Some (put_reply resp code)) = Inr (resp_num code)"
  by (simp add: put_reply_def as_status_def set_status_def)

lemma send_put_small:
  assumes "length junk = 64" "is_file sfs p" "fopen_r sfs p = Some data" "length data < 2048"
  obtains name r blk req' where
    "te_type (fd_entry (pr_data name)) = FILE_TYPE_FILE"
    "te_content (fd_entry (pr_data name)) = buf_strncpy (te_content (fd_entry (pr_data req))) target FILE_NAME_MAX_LEN"
    "te_total_size (fd_entry (pr_data r)) = htonl (of_nat (length data))"
    "buf_string (take MD5_STR_LEN (te_content (fd_entry (pr_data r)))) = hex_of (md5_reference data)"
    "pr_need_reply blk = 1" "te_this_size (fd_entry (pr_data blk)) = of_nat (length data)"
    "take (length data) (te_content (fd_entry (pr_data blk))) = data"
    "send_files_by_put_req junk sfs p target req
        \<lparr>ch_in = map Msg (put_replies resp), ch_out = [], ch_send_ok = True\<rparr> =
      Inr (1, req', \<lparr>ch_in = [], ch_out = [Put_req name, Put_req r, Put_req blk], ch_send_ok = True\<rparr>)"
proof -
  define req1 where "req1 = (upd_put_entry (\<lambda>e. e\<lparr>te_total_size := of_nat (length data)\<rparr>) (start_files 1 req))
    \<lparr>pr_flags := REQ_RESP_FLAG_NONE\<rparr>"
  define name where "name = (upd_put_entry (name_entry sfs p target) req1)\<lparr>pr_need_reply := 1\<rparr>"
  define r where "r = (upd_put_entry (\<lambda>e. e\<lparr>te_content := buf_strcpy (te_content e) (hex_of (md5_reference data)),
      te_this_size := of_nat (length (hex_of (md5_reference data)))\<rparr>) (hton_put_req name))\<lparr>pr_need_reply := 1\<rparr>"
  define blk where "blk = (upd_put_entry (block_entry data) (upd_put_entry (\<lambda>e. e\<lparr>te_total_size := of_nat (length data)\<rparr>)
      (hton_put_req r)))\<lparr>pr_flags := REQ_RESP_FLAG_STOP, pr_need_reply := 1\<rparr>"
  note d = is_file_not_dir [OF assms(2)] file_size_file [OF assms(2,3)]
  have h1: "htonl 1 \<noteq> 0"
    by simp
  have b: "put_blocks True data (upd_put_entry (\<lambda>e. e\<lparr>te_total_size := of_nat (length data)\<rparr>) (hton_put_req r))
      \<lparr>ch_in = [Msg (put_reply s RESP_OK)], ch_out = out, ch_send_ok = True\<rparr> =
    Inr (1, hton_put_req blk, \<lparr>ch_in = [], ch_out = out @ [Put_req blk], ch_send_ok = True\<rparr>)"
    for s out
    using assms(4) h1
    by (subst put_blocks.simps)
      (simp add: CONTENT_BLOCK_SIZE_def send_file_content_by_put_req_def send_trans_entry_by_put_req_def ch_send_def
        blk_def hton_put_req_def Let_def)
  show thesis
  proof (rule that [of name r blk "hton_put_req blk"])
    show "te_type (fd_entry (pr_data name)) = FILE_TYPE_FILE"
      "te_content (fd_entry (pr_data name)) = buf_strncpy (te_content (fd_entry (pr_data req))) target FILE_NAME_MAX_LEN"
      using d(1) by (simp_all add: name_def req1_def start_files_def upd_put_entry_def name_entry_def)
    show "te_total_size (fd_entry (pr_data r)) = htonl (of_nat (length data))"
      by (simp add: r_def name_def req1_def upd_put_entry_def name_entry_def hton_put_req_def hton_data_def hton_entry_def)
    show "buf_string (take MD5_STR_LEN (te_content (fd_entry (pr_data r)))) = hex_of (md5_reference data)"
      by (simp add: r_def upd_put_entry_def digest_field)
    show "pr_need_reply blk = 1" "te_this_size (fd_entry (pr_data blk)) = of_nat (length data)"
      "take (length data) (te_content (fd_entry (pr_data blk))) = data"
      by (simp_all add: blk_def upd_put_entry_def block_entry_def)
    have l: "fd_file_idx (pr_data (start_files 1 req)) = fd_total_files (pr_data (start_files 1 req)) - 1"
      by (simp add: start_files_def)
    have n: "send_file_name_by_put_req sfs p target req1 \<lparr>ch_in = i, ch_out = [], ch_send_ok = True\<rparr> =
        (0, hton_put_req name, \<lparr>ch_in = i, ch_out = [Put_req name], ch_send_ok = True\<rparr>)" for i
      by (simp add: send_file_name_by_put_req_def send_trans_entry_by_put_req_def ch_send_def name_def)
    have m: "send_file_md5_by_put_req junk sfs p (hton_put_req name) \<lparr>ch_in = i, ch_out = [Put_req name], ch_send_ok = True\<rparr> =
        Inr (0, hton_put_req r, \<lparr>ch_in = i, ch_out = [Put_req name, Put_req r], ch_send_ok = True\<rparr>)" for i
      using d(1) assms
      by (simp add: send_file_md5_by_put_req_def md5_file_digest send_trans_entry_by_put_req_def ch_send_def r_def)
    show "send_files_by_put_req junk sfs p target req
        \<lparr>ch_in = map Msg (put_replies resp), ch_out = [], ch_send_ok = True\<rparr> =
      Inr (1, hton_put_req blk, \<lparr>ch_in = [], ch_out = [Put_req name, Put_req r, Put_req blk], ch_send_ok = True\<rparr>)"
      using d assms(2,3) n [unfolded req1_def] m b l
      by (simp add: send_files_by_put_req_def send_file_by_put_req_def put_replies_def Let_def)
  qed
qed

lemma htonl_ne_small: "0 < n \<Longrightarrow> n < 2 ^ 16 \<Longrightarrow> htonl (of_nat n) \<noteq> (of_nat n :: 32 word)"
  using htonl_small(1) [of n] by (auto simp: unat_of_nat)

lemma recv_put_small:
  assumes "htonl (of_nat (length data)) \<noteq> (of_nat (length data) :: 32 word)" "length data < 2048"
    "pr_need_reply blk = 1" "te_this_size (fd_entry (pr_data blk)) = of_nat (length data)"
    "take (length data) (te_content (fd_entry (pr_data blk))) = data"
  shows "recv_put_blocks rp (htonl (of_nat (length data))) 0 resp fs
      \<lparr>ch_in = [Msg (Put_req blk)], ch_out = out, ch_send_ok = True\<rparr> =
    Inr (of_nat (length data), 0, hton_status (set_status resp RESP_OK REQ_RESP_FLAG_NONE), fappend fs rp data,
         \<lparr>ch_in = [], ch_out = out @ [put_reply resp RESP_OK], ch_send_ok = True\<rparr>)"
proof -
  have u: "unat (of_nat (length data) :: 32 word) = length data"
    using assms(2) by (simp add: unat_of_nat)
  let ?go = "of_nat (length data) <s htonl (of_nat (length data) :: 32 word)"
  have "recv_put_block rp (htonl (of_nat (length data))) 0 resp fs
      \<lparr>ch_in = [Msg (Put_req blk)], ch_out = out, ch_send_ok = True\<rparr> =
    Inr (?go, of_nat (length data), 0, hton_status (set_status resp RESP_OK REQ_RESP_FLAG_NONE),
         fappend fs rp data, \<lparr>ch_in = [], ch_out = out @ [put_reply resp RESP_OK], ch_send_ok = True\<rparr>)"
    using assms u by (simp add: recv_put_block_def as_put_req_def CONTENT_BLOCK_SIZE_def send_put_resp_def ch_send_def
        put_reply_def Let_def)
  moreover have "recv_put_block rp t rs r f \<lparr>ch_in = [], ch_out = o', ch_send_ok = True\<rparr> =
    Inr (False, rs, 0, r, f, \<lparr>ch_in = [], ch_out = o', ch_send_ok = True\<rparr>)" for t rs r f o'
    by (simp add: recv_put_block_def ch_recv_def)
  ultimately show ?thesis
    by (simp add: recv_put_blocks.simps)
qed

text \<open>
  C6: put of one small file is reported as a success by the sender and as a failure by the receiver.
  For every non-empty file shorter than one block the digest message carries the byte-swapped size,
  because the name message was sent from the same struct and sending converts it in place; the
  receiver waits for that many bytes and gives up when the sender, who has had all its answers, closes the
  connection. The content has arrived nevertheless.
\<close>

theorem put_small_file_rejected:
  assumes "length junk = 64" "is_file sfs spath" "fopen_r sfs spath = Some data" "0 < length data" "length data < 2048"
    "length target < FILE_NAME_MAX_LEN" "CHR 0x00 \<notin> set target" "target \<noteq> []"
    "fopen_r rfs target = Some old" "fopen_w rfs target = Some rfs1" "md5_reference old \<noteq> md5_reference data"
  shows "\<exists>name ms req' rfs' cn'.
    send_files_by_put_req junk sfs spath target req
      \<lparr>ch_in = map Msg (put_replies resp), ch_out = [], ch_send_ok = True\<rparr> =
    Inr (1, req', \<lparr>ch_in = [], ch_out = Put_req name # ms, ch_send_ok = True\<rparr>)
    \<and> recv_files_from_put_req junk name resp rfs \<lparr>ch_in = map Msg ms, ch_out = [], ch_send_ok = True\<rparr> =
      Inr (-1, rfs', cn')
    \<and> ch_out cn' = put_replies resp \<and> fopen_r rfs' target = Some data"
proof -
  obtain name r blk req' where s: "te_type (fd_entry (pr_data name)) = FILE_TYPE_FILE"
    "te_content (fd_entry (pr_data name)) = buf_strncpy (te_content (fd_entry (pr_data req))) target FILE_NAME_MAX_LEN"
    "te_total_size (fd_entry (pr_data r)) = htonl (of_nat (length data))"
    "buf_string (take MD5_STR_LEN (te_content (fd_entry (pr_data r)))) = hex_of (md5_reference data)"
    "pr_need_reply blk = 1" "te_this_size (fd_entry (pr_data blk)) = of_nat (length data)"
    "take (length data) (te_content (fd_entry (pr_data blk))) = data"
    "send_files_by_put_req junk sfs spath target req
        \<lparr>ch_in = map Msg (put_replies resp), ch_out = [], ch_send_ok = True\<rparr> =
      Inr (1, req', \<lparr>ch_in = [], ch_out = [Put_req name, Put_req r, Put_req blk], ch_send_ok = True\<rparr>)"
    by (rule send_put_small [OF assms(1-3,5)])
  have ne: "htonl (of_nat (length data)) \<noteq> (of_nat (length data) :: 32 word)"
    using htonl_ne_small assms(4,5) by simp
  have b: "recv_put_blocks target (htonl (of_nat (length data))) 0 resp2 rfs1
      \<lparr>ch_in = [Msg (Put_req blk)], ch_out = out, ch_send_ok = True\<rparr> =
    Inr (of_nat (length data), 0, hton_status (set_status resp2 RESP_OK REQ_RESP_FLAG_NONE), fappend rfs1 target data,
         \<lparr>ch_in = [], ch_out = out @ [put_reply resp2 RESP_OK], ch_send_ok = True\<rparr>)" for resp2 out
    by (rule recv_put_small [OF ne assms(5) s(5-7)])
  have ex: "file_existed rfs (Some target)"
    using assms(8,9) by (auto simp: file_existed_def fopen_r_def split: if_splits)
  have new: "\<not> hex_of (md5_reference old) = hex_of (md5_reference data)"
    using assms(11) hex_of_inj by blast
  have "recv_files_from_put_req junk name resp rfs
      \<lparr>ch_in = [Msg (Put_req r), Msg (Put_req blk)], ch_out = [], ch_send_ok = True\<rparr> =
    Inr (-1, fappend rfs1 target data, \<lparr>ch_in = [], ch_out = put_replies resp, ch_send_ok = True\<rparr>)"
    using assms(1,10) ne new s(1-4)
    by (subst recv_files_from_put_req.simps)
      (simp add: recv_file_from_put_req_def name_field [OF assms(6,7), simplified] trans_consts(1,2) ex create_received_def
        send_put_resp_def ch_send_def recv_put_content_def as_put_req_def same_file_digest [OF _ assms(9)]
        open_received_def b put_replies_def put_reply_def [symmetric] Let_def)
  then show ?thesis
    using s(8) fopen_w_append [OF assms(10)] by force
qed

definition sample_req :: put_req where
  "sample_req = \<lparr>pr_session_id = replicate 32 0, pr_to_peer = 0, pr_user = \<lparr>lu_session_id = [], lu_name = [], lu_ip = [], lu_port = 0\<rparr>,
     pr_data = gr_data sample_resp, pr_flags = 0, pr_need_reply = 0\<rparr>"

theorem put_small_file_rejected_witness:
  "\<exists>name ms req' rfs' cn'.
    send_files_by_put_req (replicate 64 0) (file_fs [97]) ''/f'' ''/f'' sample_req
      \<lparr>ch_in = map Msg (put_replies sample_status), ch_out = [], ch_send_ok = True\<rparr> =
    Inr (1, req', \<lparr>ch_in = [], ch_out = Put_req name # ms, ch_send_ok = True\<rparr>)
    \<and> recv_files_from_put_req (replicate 64 0) name sample_status (file_fs [])
        \<lparr>ch_in = map Msg ms, ch_out = [], ch_send_ok = True\<rparr> = Inr (-1, rfs', cn')
    \<and> ch_out cn' = put_replies sample_status \<and> fopen_r rfs' ''/f'' = Some [97]"
  using put_small_file_rejected [OF _ file_fs_path(2,3) _ _ _ _ _ file_fs_path(3,4) digests_differ,
      of "replicate 64 0" sample_req sample_status] by (simp add: FILE_NAME_MAX_LEN_def)

definition digest_req :: put_req where
  "digest_req = upd_put_entry (\<lambda>e. e\<lparr>te_content := buf_strcpy [] (hex_of (md5_reference []))\<rparr>) sample_req"

definition named_req :: put_req where
  "named_req = upd_put_entry (\<lambda>e. e\<lparr>te_type := FILE_TYPE_FILE, te_content := buf_strcpy [] ''/f''\<rparr>) sample_req"

theorem put_received_digest_witness:
  "\<exists>more resp' cn'. recv_file_from_put_req (replicate 64 0) named_req sample_status (file_fs [])
      \<lparr>ch_in = [Msg (Put_req digest_req)], ch_out = [], ch_send_ok = True\<rparr> = Inr (0, more, resp', file_fs [], cn')
    \<and> hex_of (md5_reference []) = buf_string (take MD5_STR_LEN (te_content (fd_entry (pr_data digest_req))))"
proof -
  let ?cn = "\<lparr>ch_in = [Msg (Put_req digest_req)], ch_out = [], ch_send_ok = True\<rparr>"
  have c: "te_content (fd_entry (pr_data digest_req)) = buf_strcpy [] (hex_of (md5_reference []))"
    "te_type (fd_entry (pr_data named_req)) = FILE_TYPE_FILE"
    by (simp_all add: digest_req_def named_req_def upd_put_entry_def)
  have n: "take (FILE_NAME_MAX_LEN - 1) (buf_string (te_content (fd_entry (pr_data named_req)))) = ''/f''"
    by (simp add: named_req_def upd_put_entry_def buf_strcpy_def buf_string_def str_bytes_def FILE_NAME_MAX_LEN_def)
  have m: "recv_put_content (replicate 64 0) ''/f'' resp (file_fs [])
      \<lparr>ch_in = [Msg (Put_req digest_req)], ch_out = out, ch_send_ok = True\<rparr> =
    Inr (0, hton_status (set_status resp RESP_OK REQ_RESP_FLAG_NONE), file_fs [],
         \<lparr>ch_in = [], ch_out = out @ [put_reply resp RESP_OK], ch_send_ok = True\<rparr>)" for resp out
    by (simp add: recv_put_content_def as_put_req_def same_file_digest [OF _ file_fs_path(3)] c digest_field
        send_put_resp_def ch_send_def put_reply_def Let_def)
  let ?r1 = "hton_status (set_status sample_status RESP_OK REQ_RESP_FLAG_NONE)"
  have r: "recv_file_from_put_req (replicate 64 0) named_req sample_status (file_fs []) ?cn =
      Inr (0, fd_file_idx (pr_data named_req) \<noteq> fd_total_files (pr_data named_req) - 1,
        hton_status (set_status ?r1 RESP_OK REQ_RESP_FLAG_NONE), file_fs [],
        \<lparr>ch_in = [], ch_out = [put_reply sample_status RESP_OK, put_reply ?r1 RESP_OK], ch_send_ok = True\<rparr>)"
    by (simp add: recv_file_from_put_req_def n [simplified] c(2) trans_consts(1,2) create_received_def file_fs_path(5)
        send_put_resp_def ch_send_def m put_reply_def Let_def)
  have "hex_of (md5_reference []) = buf_string (take MD5_STR_LEN (te_content (fd_entry (pr_data digest_req))))"
    by (rule put_received_digest [OF _ _ _ r]) (use file_fs_path(3) n c(2) in \<open>simp_all add: trans_consts(1,2)\<close>)
  then show ?thesis
    using r by blast
qed

end
