(* ===== verification/Sftt_Typed.thy ===== *)
theory Sftt_Typed
  imports Sftt_Trans
begin

text \<open>
  Types of what is sent: a message is well typed (\<open>msg_ok\<close>) when its arrays have the lengths that the structs of
  \<^verbatim>\<open>src/include/req_resp.h\<close> declare, and then the packet layer can encode it (\<open>msg_ok_sendable\<close>). The senders and receivers of
  files keep a connection on which everything sent and everything still to come is well typed.
\<close>

section \<open>Connections\<close>

fun event_ok :: "event \<Rightarrow> bool" where
  "event_ok (Msg m) = msg_ok m"
| "event_ok ev = True"

definition chan_ok :: "chan \<Rightarrow> bool" where
  "chan_ok cn \<longleftrightarrow> list_all msg_ok (ch_out cn) \<and> list_all event_ok (ch_in cn)"

named_theorems typed "what operations on connections keep"

lemma ch_send_typed [typed]: "chan_ok cn \<Longrightarrow> msg_ok m \<Longrightarrow> chan_ok (snd (ch_send m cn))"
  by (simp add: ch_send_def chan_ok_def)

lemma ch_recv_typed [typed]: "chan_ok cn \<Longrightarrow> chan_ok (snd (snd (ch_recv cn)))"
  by (auto simp: ch_recv_def chan_ok_def split: list.split event.split)

lemma ch_recv_msg: "chan_ok cn \<Longrightarrow> fst (snd (ch_recv cn)) = Some m \<Longrightarrow> msg_ok m"
  by (auto simp: ch_recv_def chan_ok_def split: list.splits event.splits)

lemma length_buf_strncpy [simp]: "n \<le> length buf \<Longrightarrow> length (buf_strncpy buf s n) = length buf"
  by (simp add: buf_strncpy_def str_bytes_def)

lemma length_buf_strcpy [simp]: "length s < length buf \<Longrightarrow> length (buf_strcpy buf s) = length buf"
  by (simp add: buf_strcpy_def str_bytes_def)

section \<open>Transfers\<close>

definition get_ok :: "get_resp \<Rightarrow> bool" where
  "get_ok r \<longleftrightarrow> length (gr_message r) = 80 \<and> length (te_content (fd_entry (gr_data r))) = 2048"

definition put_ok :: "put_req \<Rightarrow> bool" where
  "put_ok r \<longleftrightarrow> length (pr_session_id r) = 32 \<and> user_ok (pr_user r) \<and> length (te_content (fd_entry (pr_data r))) = 2048"

lemma msg_ok_typed:
  "msg_ok (Get_resp r) = get_ok r" "msg_ok (Put_req q) = put_ok q" "msg_ok (Common_resp s) = head_ok s" "msg_ok (Put_resp s) = head_ok s"
  by (simp_all add: get_ok_def put_ok_def head_ok_def trans_consts)

declare msg_ok.simps(1-4) [simp del] msg_ok_typed [simp]

lemma head_ok_set_status [simp]: "head_ok r \<Longrightarrow> head_ok (set_status r code flags)" "head_ok (hton_status r) = head_ok r"
  by (simp_all add: head_ok_def set_status_def hton_status_def RESP_MESSAGE_MAX_LEN_def)

lemma send_status_typed [typed]:
  "chan_ok cn \<Longrightarrow> head_ok resp \<Longrightarrow> chan_ok (snd (snd (send_common_resp resp code flags cn)))"
  "head_ok resp \<Longrightarrow> head_ok (fst (snd (send_common_resp resp code flags cn)))"
  "chan_ok cn \<Longrightarrow> head_ok resp \<Longrightarrow> chan_ok (snd (snd (send_put_resp resp code flags cn)))"
  "head_ok resp \<Longrightarrow> head_ok (fst (snd (send_put_resp resp code flags cn)))"
  by (simp_all add: send_common_resp_def send_put_resp_def Let_def split_beta typed)

lemma user_ok_hton [simp]: "user_ok (hton_user u) = user_ok u"
  by (simp add: user_ok_def hton_user_def)

lemma put_ok_simps [simp]:
  "put_ok (hton_put_req r) = put_ok r" "put_ok (r\<lparr>pr_need_reply := x\<rparr>) = put_ok r" "put_ok (r\<lparr>pr_flags := x\<rparr>) = put_ok r"
  "put_ok (next_file r) = put_ok r" "put_ok (start_files k r) = put_ok r"
  "put_ok r \<Longrightarrow> put_ok (upd_put_entry (name_entry f file target) r)"
  "put_ok r \<Longrightarrow> put_ok (upd_put_entry (\<lambda>e. e\<lparr>te_total_size := x\<rparr>) r)"
  "put_ok r \<Longrightarrow> length d < 2048 \<Longrightarrow> put_ok (upd_put_entry (\<lambda>e. e\<lparr>te_content := buf_strcpy (te_content e) d, te_this_size := x\<rparr>) r)"
  "put_ok r \<Longrightarrow> length bs \<le> 2048 \<Longrightarrow> put_ok (upd_put_entry (block_entry bs) r)"
  by (simp_all add: put_ok_def hton_put_req_def hton_data_def hton_entry_def next_file_def start_files_def upd_put_entry_def name_entry_def
      block_entry_def FILE_NAME_MAX_LEN_def CONTENT_BLOCK_SIZE_def)

lemma get_ok_simps [simp]:
  "get_ok (hton_get_resp r) = get_ok r" "get_ok (r\<lparr>gr_need_reply := x\<rparr>) = get_ok r" "get_ok (r\<lparr>gr_flags := x\<rparr>) = get_ok r"
  "get_ok (next_get_file r) = get_ok r" "get_ok (start_get_files k r) = get_ok r"
  "get_ok r \<Longrightarrow> get_ok (upd_get_entry (name_entry f file target) r)"
  "get_ok r \<Longrightarrow> get_ok (upd_get_entry (\<lambda>e. e\<lparr>te_total_size := x\<rparr>) r)"
  "get_ok r \<Longrightarrow> length d < 2048 \<Longrightarrow> get_ok (upd_get_entry (\<lambda>e. e\<lparr>te_content := buf_strcpy (te_content e) d, te_this_size := x\<rparr>) r)"
  "get_ok r \<Longrightarrow> length bs \<le> 2048 \<Longrightarrow> get_ok (upd_get_entry (block_entry bs) r)"
  by (simp_all add: get_ok_def hton_get_resp_def hton_data_def hton_entry_def next_get_file_def start_get_files_def upd_get_entry_def name_entry_def
      block_entry_def FILE_NAME_MAX_LEN_def CONTENT_BLOCK_SIZE_def)

lemma send_get_resp_typed [typed]:
  assumes "get_ok resp"
  shows "chan_ok cn \<Longrightarrow> chan_ok (snd (snd (send_get_resp resp code flags cn)))" "get_ok (fst (snd (send_get_resp resp code flags cn)))"
proof -
  have "get_ok (resp\<lparr>gr_status := resp_num code,
      gr_message := buf_strncpy (gr_message resp) (resp_messages code) (RESP_MESSAGE_MAX_LEN - 1), gr_flags := flags\<rparr>)"
    using assms by (simp add: get_ok_def RESP_MESSAGE_MAX_LEN_def)
  then show "chan_ok cn \<Longrightarrow> chan_ok (snd (snd (send_get_resp resp code flags cn)))" "get_ok (fst (snd (send_get_resp resp code flags cn)))"
    by (simp_all only: send_get_resp_def Let_def split_beta fst_conv snd_conv ch_send_typed msg_ok_typed get_ok_simps)
qed

lemma send_trans_entry_typed [typed]:
  "put_ok req \<Longrightarrow> chan_ok cn \<Longrightarrow> chan_ok (snd (snd (send_trans_entry_by_put_req req cn)))"
  "put_ok req \<Longrightarrow> put_ok (fst (snd (send_trans_entry_by_put_req req cn)))"
  by (simp_all add: send_trans_entry_by_put_req_def Let_def split_beta typed)

lemma md5_file_length:
  assumes "md5_file junk file = Inr (ret, Some d)"
  shows "length d < 2048"
proof -
  have "length (MD5Final c) = 16" for c
    by (simp add: MD5Final_def Let_def MD5Encode_le32 split: prod.split)
  then show ?thesis
    using assms by (auto simp: md5_file_def md5_printable split: option.splits)
qed

text \<open>Results of the senders and of the receivers.\<close>

definition put_typed :: "int \<times> put_req \<times> chan \<Rightarrow> bool" where
  [simp]: "put_typed x \<longleftrightarrow> chan_ok (snd (snd x)) \<and> put_ok (fst (snd x))"

definition get_typed :: "int \<times> get_resp \<times> chan \<Rightarrow> bool" where
  [simp]: "get_typed x \<longleftrightarrow> chan_ok (snd (snd x)) \<and> get_ok (fst (snd x))"

definition recv_typed :: "int \<times> fsys \<times> chan \<Rightarrow> bool" where
  [simp]: "recv_typed x \<longleftrightarrow> chan_ok (snd (snd x))"

lemma yields_then: "yields m Q \<Longrightarrow> (\<And>x. Q x \<Longrightarrow> yields (f x) P) \<Longrightarrow> yields (sbind m f) P"
  by (auto simp: yields_def)

text \<open>Parts whose value does not matter for types.\<close>

lemma status_bind:
  "(\<And>st. yields (f st) P) \<Longrightarrow> yields (sbind (as_status m) f) P"
  "(\<And>r. yields (g r) P) \<Longrightarrow> yields (sbind (as_put_req m) g) P"
  "(\<And>r. yields (h r) P) \<Longrightarrow> yields (sbind (as_get_resp m) h) P"
  "(\<And>b. yields (k b) P) \<Longrightarrow> yields (sbind (same_file junk fl rp md5) k) P"
  by (rule yields_sbindI, blast)+


lemma put_blocks_typed [typed]:
  "chan_ok cn \<Longrightarrow> put_ok req \<Longrightarrow> yields (put_blocks is_last rest req cn) put_typed"
proof (induction "length rest" arbitrary: rest req cn rule: less_induct)
  case less
  have IH: "yields (put_blocks is_last (drop 2048 rest) req' cn') put_typed"
    if "\<not> length rest < 2048" "chan_ok cn'" "put_ok req'" for req' cn'
    using that by (intro less.hyps) auto
  show ?case
    using less.prems IH
    by (subst put_blocks.simps) (simp add: send_file_content_by_put_req_def CONTENT_BLOCK_SIZE_def typed Let_def split_beta
        status_bind min_less_iff_disj)
qed

lemma send_md5_typed:
  "chan_ok cn \<Longrightarrow> put_ok req \<Longrightarrow> yields (send_file_md5_by_put_req junk f file req cn) put_typed"
  by (auto simp: send_file_md5_by_put_req_def typed Let_def split_beta md5_file_length split: option.split intro!: yields_sbindI)

lemma send_file_put_typed:
  "chan_ok cn \<Longrightarrow> put_ok req \<Longrightarrow> yields (send_file_by_put_req junk f file target req cn) put_typed"
  by (auto simp: send_file_by_put_req_def send_file_name_by_put_req_def typed Let_def split_beta split: option.split
      intro!: status_bind yields_then [OF send_md5_typed])

lemma put_entries_typed:
  "chan_ok cn \<Longrightarrow> put_ok req \<Longrightarrow> yields (put_entries junk f target es ret req cn) put_typed"
proof (induction es arbitrary: ret req cn)
  case (Cons e es)
  show ?case
    by (simp del: put_typed_def) (rule yields_then [OF send_file_put_typed [OF Cons.prems]], use Cons.IH in \<open>simp add: split_beta\<close>)
qed simp

lemma send_files_put_typed [typed]:
  "chan_ok cn \<Longrightarrow> put_ok req \<Longrightarrow> yields (send_files_by_put_req junk f path target req cn) put_typed"
  by (simp add: send_files_by_put_req_def send_dir_by_put_req_def send_file_put_typed put_entries_typed del: put_typed_def
      split: option.split) simp

subsection \<open>Responses of get\<close>

lemma send_name_get_typed:
  "chan_ok cn \<Longrightarrow> get_ok resp \<Longrightarrow> yields (send_file_name_by_get_resp f path fname resp flags cn) get_typed"
  by (auto simp: send_file_name_by_get_resp_def typed Let_def split_beta intro!: status_bind)

lemma send_md5_get_typed:
  "chan_ok cn \<Longrightarrow> get_ok resp \<Longrightarrow> yields (send_file_md5_by_get_resp junk f path resp cn) get_typed"
  by (auto simp: send_file_md5_by_get_resp_def typed Let_def split_beta md5_file_length split: option.split intro!: yields_sbindI)

lemma get_blocks_typed [typed]:
  "chan_ok cn \<Longrightarrow> get_ok resp \<Longrightarrow> yields (get_blocks n is_last rest eof read_size resp cn) get_typed"
proof (induction n arbitrary: rest eof read_size resp cn)
  case (Suc n)
  then show ?case
    by (auto simp: get_blocks.simps(2) send_file_content_by_get_resp_def CONTENT_BLOCK_SIZE_def typed Let_def split_beta intro!: status_bind)
qed (simp add: get_blocks.simps)

lemma send_file_get_typed:
  "chan_ok cn \<Longrightarrow> get_ok resp \<Longrightarrow> yields (send_file_by_get_resp n junk f path fname resp cn) get_typed"
  by (auto simp: send_file_by_get_resp_def send_name_get_typed typed Let_def split_beta simp del: get_typed_def split: option.split
      intro!: status_bind yields_then [OF send_name_get_typed] yields_then [OF send_md5_get_typed]) (auto simp: typed)

lemma get_entries_typed:
  "chan_ok cn \<Longrightarrow> get_ok resp \<Longrightarrow> yields (get_entries n junk f es resp cn) get_typed"
proof (induction es arbitrary: resp cn)
  case (Cons e es)
  show ?case
    by (simp del: get_typed_def) (rule yields_then [OF send_file_get_typed [OF Cons.prems]], use Cons.IH in \<open>simp add: split_beta\<close>)
qed simp

lemma send_files_get_typed:
  "chan_ok cn \<Longrightarrow> get_ok resp \<Longrightarrow> yields (send_files_by_get_resp n junk f path resp cn) get_typed"
  by (simp add: send_files_by_get_resp_def send_dir_by_get_resp_def send_file_get_typed get_entries_typed del: get_typed_def
      split: option.split) simp

subsection \<open>Receivers\<close>

lemma recv_put_block_typed:
  "chan_ok cn \<Longrightarrow> head_ok resp \<Longrightarrow> yields (recv_put_block rp tsize recv_size resp f cn)
     (\<lambda>(go, r, ret, resp1, f1, cn1). chan_ok cn1 \<and> head_ok resp1)"
  by (auto simp: recv_put_block_def typed Let_def split_beta intro!: yields_sbindI)

lemma recv_put_blocks_typed:
  "chan_ok cn \<Longrightarrow> head_ok resp \<Longrightarrow> yields (recv_put_blocks rp tsize recv_size resp f cn)
     (\<lambda>(r, ret, resp1, f1, cn1). chan_ok cn1 \<and> head_ok resp1)"
proof (induction rp tsize recv_size resp f cn rule: recv_put_blocks.induct)
  case (1 rp tsize recv_size resp f cn)
  show ?case
  proof (cases "recv_put_block rp tsize recv_size resp f cn")
    case (Inr x)
    obtain go r ret resp1 f1 cn1 where x: "x = (go, r, ret, resp1, f1, cn1)"
      by (cases x) auto
    then have "chan_ok cn1 \<and> head_ok resp1"
      using yieldsD [OF recv_put_block_typed [OF 1(2,3)] Inr] by simp
    then show ?thesis
      using 1(1) [OF Inr x [symmetric] refl refl refl refl] by (simp add: recv_put_blocks.simps [of rp tsize recv_size] Inr x)
  qed (simp add: recv_put_blocks.simps)
qed

lemma recv_put_content_typed:
  "chan_ok cn \<Longrightarrow> head_ok resp \<Longrightarrow> yields (recv_put_content junk rp resp f cn)
     (\<lambda>(ret, resp1, f1, cn1). chan_ok cn1 \<and> head_ok resp1)"
  by (auto simp: recv_put_content_def typed Let_def split_beta
      intro!: status_bind yields_then [OF recv_put_blocks_typed])

lemma recv_file_put_typed:
  "chan_ok cn \<Longrightarrow> head_ok resp \<Longrightarrow> yields (recv_file_from_put_req junk req resp f cn)
     (\<lambda>(ret, more, resp1, f1, cn1). chan_ok cn1 \<and> head_ok resp1)"
  by (auto simp: recv_file_from_put_req_def typed Let_def split_beta intro!: yields_then [OF recv_put_content_typed])

lemma recv_files_put_typed:
  "chan_ok cn \<Longrightarrow> head_ok resp \<Longrightarrow> yields (recv_files_from_put_req junk req resp f cn) recv_typed"
proof (induction junk req resp f cn rule: recv_files_from_put_req.induct)
  case (1 junk req resp f cn)
  show ?case
  proof (cases "recv_file_from_put_req junk req resp f cn")
    case (Inr x)
    obtain ret more resp1 f1 cn1 where x: "x = (ret, more, resp1, f1, cn1)"
      by (cases x) auto
    then have ok: "chan_ok cn1" "head_ok resp1"
      using yieldsD [OF recv_file_put_typed [OF 1(2,3)] Inr] by simp_all
    obtain ret2 m cn2 where r: "ch_recv cn1 = (ret2, m, cn2)"
      by (cases "ch_recv cn1") auto
    have "chan_ok cn2"
      using ch_recv_typed [OF ok(1)] r by simp
    then show ?thesis
      using 1(1) [OF Inr x [symmetric] refl refl refl _ r [symmetric] refl] ok r
      by (auto simp: recv_files_from_put_req.simps [of junk req] Inr x split: sum.split)
  qed (simp add: recv_files_from_put_req.simps)
qed

lemma recv_get_block_typed:
  "chan_ok cn \<Longrightarrow> head_ok com \<Longrightarrow> yields (recv_get_block rp tsize recv_size com f cn)
     (\<lambda>(go, r, ret, com1, f1, cn1). chan_ok cn1 \<and> head_ok com1)"
  by (auto simp: recv_get_block_def typed Let_def split_beta intro!: status_bind)

lemma recv_get_blocks_typed:
  "chan_ok cn \<Longrightarrow> head_ok com \<Longrightarrow> yields (recv_get_blocks rp tsize recv_size com f cn)
     (\<lambda>(r, ret, com1, f1, cn1). chan_ok cn1 \<and> head_ok com1)"
proof (induction rp tsize recv_size com f cn rule: recv_get_blocks.induct)
  case (1 rp tsize recv_size com f cn)
  show ?case
  proof (cases "recv_get_block rp tsize recv_size com f cn")
    case (Inr x)
    obtain go r ret com1 f1 cn1 where x: "x = (go, r, ret, com1, f1, cn1)"
      by (cases x) auto
    then have "chan_ok cn1 \<and> head_ok com1"
      using yieldsD [OF recv_get_block_typed [OF 1(2,3)] Inr] by simp
    then show ?thesis
      using 1(1) [OF Inr x [symmetric] refl refl refl refl] by (simp add: recv_get_blocks.simps [of rp tsize recv_size] Inr x)
  qed (simp add: recv_get_blocks.simps)
qed

lemma recv_get_content_typed [typed]:
  "chan_ok cn \<Longrightarrow> head_ok com \<Longrightarrow> yields (recv_get_content junk rp mode com f cn) recv_typed"
  by (auto simp: recv_get_content_def typed Let_def split_beta split: option.split
      intro!: status_bind yields_then [OF recv_get_blocks_typed])

lemma recv_file_get_typed [typed]:
  "chan_ok cn \<Longrightarrow> head_ok com \<Longrightarrow> yields (recv_file_from_get_resp junk com rp type mode f cn) recv_typed"
  by (simp add: recv_file_from_get_resp_def typed Let_def split_beta del: recv_typed_def) (simp add: typed)

lemma recv_get_files_typed [typed]:
  "chan_ok cn \<Longrightarrow> head_ok com \<Longrightarrow> yields (recv_get_files junk com path n resp f cn) recv_typed"
proof (induction n arbitrary: resp f cn)
  case (Suc n)
  show ?case
    by (simp add: Let_def del: recv_typed_def)
      (rule yields_then [OF recv_file_get_typed [OF Suc.prems]], use Suc in \<open>auto simp: typed split_beta intro!: status_bind\<close>)
qed simp

lemma recv_files_get_typed:
  "chan_ok cn \<Longrightarrow> head_ok com \<Longrightarrow> yields (recv_files_from_get_resp junk com path f cn) recv_typed"
  by (auto simp: recv_files_from_get_resp_def typed Let_def split_beta simp del: recv_typed_def intro!: status_bind) (simp_all add: typed)
end
