(* ===== verification/Sftt_Session.thy ===== *)
theory Sftt_Session
  imports Sftt_Trans
begin

text \<open>
  Identifiers (the generators of \<^verbatim>\<open>src/src/utils.c\<close>), connections (\<^verbatim>\<open>src/include/connect.h\<close>) and the table of
  sessions of the server (\<^verbatim>\<open>src/include/session.h\<close> and the functions of \<^verbatim>\<open>src/src/server.c\<close> that search and
  change it).
\<close>

section \<open>Identifiers\<close>

text \<open>The static variables of a generator, and the number it uses at a time \<open>ts\<close>.\<close>

record id_state =
  last_ts :: int
  last_id :: int

definition next_id :: "int \<Rightarrow> id_state \<Rightarrow> int \<times> id_state" where
  "next_id ts st =
     (let n = (if ts \<noteq> last_ts st then -1 else last_id st) + 1 in (n, \<lparr>last_ts = ts, last_id = n\<rparr>))"

definition zero_pad :: "nat \<Rightarrow> int \<Rightarrow> string" where
  "zero_pad k i = replicate (k - length (show_int i)) CHR ''0'' @ show_int i"

definition letter :: "nat \<Rightarrow> char" where
  "letter r = char_of (97 + r mod 25)"

text \<open>\<open>rnd\<close> has the five numbers that \<^verbatim>\<open>rand\<close> returns.\<close>

definition gen_session_id :: "nat list \<Rightarrow> int \<Rightarrow> nat \<Rightarrow> id_state \<Rightarrow> string \<times> id_state" where
  "gen_session_id rnd ts len st =
     (let (n, st1) = next_id ts st
      in (take (len - 1) (CHR ''s'' # map letter (take 2 rnd) @ show_int ts @ map letter (take 3 (drop 2 rnd)) @ zero_pad 4 n),
          st1))"

definition gen_connect_id :: "int \<Rightarrow> nat \<Rightarrow> id_state \<Rightarrow> string \<times> id_state" where
  "gen_connect_id ts len st =
     (let (n, st1) = next_id ts st in (take (len - 1) (show_int ts @ zero_pad 6 n), st1))"

section \<open>Identifiers do not repeat\<close>

declare digits_text.simps [simp del]

lemma digit_char: "d < 10 \<Longrightarrow> is_digit (char_of (48 + d)) \<and> digit_val (char_of (48 + d)) = d"
proof -
  have "\<forall>d \<in> set [0..<10]. is_digit (char_of (48 + d)) \<and> digit_val (char_of (48 + d)) = d"
    by code_simp
  then show "d < 10 \<Longrightarrow> ?thesis"
    by simp
qed

lemma digits_text_append: "digits_text n acc = digits_text n [] @ acc"
proof (induction n arbitrary: acc rule: less_induct)
  case (less n)
  show ?case
  proof (cases "n < 10")
    case True
    then show ?thesis
      by (simp add: digits_text.simps [of n] Let_def)
  next
    case False
    let ?c = "char_of (48 + n mod 10) :: char"
    have r: "digits_text n a = digits_text (n div 10) (?c # a)" for a
      using False by (subst digits_text.simps) (simp add: Let_def)
    have "n div 10 < n"
      using False by simp
    then have "digits_text (n div 10) a = digits_text (n div 10) [] @ a" for a
      by (rule less)
    from this [of "[?c]"] this [of "?c # acc"] show ?thesis
      unfolding r by simp
  qed
qed

lemma digits_text_rec:
  "digits_text n [] = (if n < 10 then [] else digits_text (n div 10) []) @ [char_of (48 + n mod 10)]"
  using digits_text_append [of "n div 10" "[char_of (48 + n mod 10)]"] by (simp add: digits_text.simps [of n] Let_def)

lemma digits_val_append: "digits_val b acc (xs @ ys) = digits_val b (digits_val b acc xs) ys"
  by (simp add: digits_val_def)

lemma digits_text_props:
  "list_all is_digit (digits_text n []) \<and> digits_val 10 0 (map digit_val (digits_text n [])) = n \<and> digits_text n [] \<noteq> []"
proof (induction n rule: less_induct)
  case (less n)
  have d: "is_digit (char_of (48 + n mod 10)) \<and> digit_val (char_of (48 + n mod 10)) = n mod 10"
    by (rule digit_char) simp
  show ?case
  proof (cases "n < 10")
    case True
    then show ?thesis
      using d by (subst (1 2 3) digits_text_rec) (simp add: digits_val_def)
  next
    case False
    then have "digits_text n [] = digits_text (n div 10) [] @ [char_of (48 + n mod 10)]"
      by (subst digits_text_rec) simp
    moreover have "n div 10 < n"
      using False by simp
    ultimately show ?thesis
      using d less [of "n div 10"] by (simp add: digits_val_append digits_val_def [of 10 "n div 10"])
  qed
qed

lemma length_digits_text: "n < 10 ^ k \<Longrightarrow> 0 < k \<Longrightarrow> length (digits_text n []) \<le> k"
proof (induction k arbitrary: n)
  case (Suc k)
  show ?case
  proof (cases "n < 10")
    case True
    then show ?thesis
      by (subst digits_text_rec) simp
  next
    case False
    then have "0 < k" "n div 10 < 10 ^ k"
      using Suc.prems(1) by (cases k; simp)+
    then show ?thesis
      using False Suc.IH [of "n div 10"] by (subst digits_text_rec) simp
  qed
qed simp

lemma digits_text_inj: "digits_text m [] = digits_text n [] \<Longrightarrow> m = n"
  using digits_text_props [of m] digits_text_props [of n] by metis

lemma digits_val_zeros: "digits_val 10 0 (map digit_val (replicate k CHR ''0'' @ s)) = digits_val 10 0 (map digit_val s)"
  by (induction k) (simp_all add: digits_val_def digit_val_def)

lemma is_digit_0: "is_digit CHR ''0''"
  by (simp add: is_digit_def)

lemma zero_pad_props:
  assumes "0 \<le> i"
  shows "digits_val 10 0 (map digit_val (zero_pad k i)) = nat i" "list_all is_digit (zero_pad k i)"
    "i < 10 ^ k \<Longrightarrow> 0 < k \<Longrightarrow> length (zero_pad k i) = k"
proof -
  have s: "show_int i = digits_text (nat i) []"
    using assms by (simp add: show_int_def)
  show "digits_val 10 0 (map digit_val (zero_pad k i)) = nat i"
    unfolding zero_pad_def digits_val_zeros s using digits_text_props by blast
  show "list_all is_digit (zero_pad k i)"
    using digits_text_props [of "nat i"] is_digit_0 by (simp add: zero_pad_def s) (simp add: list_all_iff)
  show "length (zero_pad k i) = k" if "i < 10 ^ k" "0 < k"
  proof -
    have "int (nat i) < int (10 ^ k)"
      using assms that(1) by simp
    then have "nat i < 10 ^ k"
      using of_nat_less_iff by blast
    then show ?thesis
      using length_digits_text [OF _ that(2)] by (simp add: zero_pad_def s)
  qed
qed

text \<open>The numbers drawn at times that do not decrease.\<close>

fun id_pairs :: "id_state \<Rightarrow> int list \<Rightarrow> (int \<times> int) list" where
  "id_pairs st [] = []"
| "id_pairs st (ts # tss) = (let (n, st1) = next_id ts st in (ts, n) # id_pairs st1 tss)"

lemma id_pairs_above:
  assumes "sorted tss" "\<forall>t \<in> set tss. last_ts st \<le> t" "-1 \<le> last_id st"
  shows "(\<forall>(t, n) \<in> set (id_pairs st tss). (last_ts st < t \<or> last_ts st = t \<and> last_id st < n)
      \<and> 0 \<le> n \<and> n \<le> max (last_id st) (-1) + int (length tss)) \<and> distinct (id_pairs st tss)"
  using assms
proof (induction tss arbitrary: st)
  case (Cons ts tss)
  define n where "n = (if ts \<noteq> last_ts st then -1 else last_id st) + 1"
  define st1 where "st1 = \<lparr>last_ts = ts, last_id = n\<rparr>"
  have nx: "next_id ts st = (n, st1)"
    by (simp add: next_id_def n_def st1_def Let_def)
  have n: "0 \<le> n" "last_ts st < ts \<or> last_ts st = ts \<and> last_id st < n" "n \<le> last_id st + 1"
    using Cons.prems by (auto simp: n_def)
  have IH: "(\<forall>(t, m) \<in> set (id_pairs st1 tss). (ts < t \<or> ts = t \<and> n < m)
      \<and> 0 \<le> m \<and> m \<le> max n (-1) + int (length tss)) \<and> distinct (id_pairs st1 tss)"
    using Cons.IH [of st1] Cons.prems(1) n(1) by (simp add: st1_def)
  show ?case
    using IH n unfolding id_pairs.simps nx Let_def by fastforce
qed simp

text \<open>
  Texts determine the numbers they are made of: six digits at the end of a connection identifier, and
  letters between the two numbers of a session identifier.
\<close>

lemma show_int_nat: "0 \<le> i \<Longrightarrow> show_int i = digits_text (nat i) []"
  by (simp add: show_int_def)

lemma connect_text_inj:
  assumes "show_int ts @ zero_pad 6 n = show_int ts' @ zero_pad 6 n'"
    "0 \<le> ts" "0 \<le> ts'" "0 \<le> n" "n < 1000000" "0 \<le> n'" "n' < 1000000"
  shows "ts = ts' \<and> n = n'"
proof -
  have "length (zero_pad 6 n) = length (zero_pad 6 n')"
    using zero_pad_props(3) [of n 6] zero_pad_props(3) [of n' 6] assms(4-7) by simp
  then have "show_int ts = show_int ts'" "zero_pad 6 n = zero_pad 6 n'"
    using assms(1) by simp_all
  then have "digits_text (nat ts) [] = digits_text (nat ts') []" "nat n = nat n'"
    using zero_pad_props(1) [OF assms(4), of 6] zero_pad_props(1) [OF assms(6), of 6] assms(2,3) by (simp_all add: show_int_nat)
  then show ?thesis
    using digits_text_inj assms(2-4,6) by (metis eq_nat_nat_iff)
qed

fun connect_ids :: "id_state \<Rightarrow> int list \<Rightarrow> string list" where
  "connect_ids st [] = []"
| "connect_ids st (ts # tss) = (let (s, st1) = gen_connect_id ts 32 st in s # connect_ids st1 tss)"

lemma length_connect_text: "0 \<le> ts \<Longrightarrow> ts < 10 ^ 25 \<Longrightarrow> 0 \<le> n \<Longrightarrow> n < 1000000 \<Longrightarrow> length (show_int ts @ zero_pad 6 n) \<le> 31"
  using length_digits_text [of "nat ts" 25] zero_pad_props(3) [of n 6] by (simp add: show_int_nat nat_less_iff)

lemma connect_ids_pairs:
  assumes "\<forall>(t, n) \<in> set (id_pairs st tss). 0 \<le> t \<and> t < 10 ^ 25 \<and> 0 \<le> n \<and> n < 1000000"
  shows "connect_ids st tss = map (\<lambda>(t, n). show_int t @ zero_pad 6 n) (id_pairs st tss)"
  using assms
proof (induction tss arbitrary: st)
  case (Cons ts tss)
  obtain n st1 where n: "next_id ts st = (n, st1)"
    by fastforce
  have "take 31 (show_int ts @ zero_pad 6 n) = show_int ts @ zero_pad 6 n"
    using Cons.prems length_connect_text [of ts n] by (intro take_all) (simp add: n)
  then show ?case
    using Cons by (simp add: gen_connect_id_def n Let_def)
qed simp

text \<open>
  C23: connection identifiers do not repeat: the texts generated at times that do not decrease are
  pairwise different, as long as fewer than a million are needed.
\<close>

theorem connect_ids_distinct:
  assumes "sorted tss" "\<forall>t \<in> set tss. 0 < t \<and> t < 10 ^ 25" "length tss < 1000000"
  shows "distinct (connect_ids \<lparr>last_ts = 0, last_id = 0\<rparr> tss)"
proof -
  let ?st = "\<lparr>last_ts = 0, last_id = 0\<rparr> :: id_state"
  have ts: "fst p \<in> set tss" if "p \<in> set (id_pairs st tss)" for p st
    using that by (induction tss arbitrary: st) (auto simp: next_id_def Let_def)
  have a: "(\<forall>(t, n) \<in> set (id_pairs ?st tss). (last_ts ?st < t \<or> last_ts ?st = t \<and> last_id ?st < n)
      \<and> 0 \<le> n \<and> n \<le> max (last_id ?st) (-1) + int (length tss)) \<and> distinct (id_pairs ?st tss)"
    using assms(1,2) by (intro id_pairs_above) auto
  then have b: "\<forall>(t, n) \<in> set (id_pairs ?st tss). 0 \<le> t \<and> t < 10 ^ 25 \<and> 0 \<le> n \<and> n < 1000000"
  proof (clarify)
    fix t n
    assume p: "(t, n) \<in> set (id_pairs ?st tss)"
    then have "0 \<le> n" "n \<le> int (length tss)"
      using a by auto
    then show "0 \<le> t \<and> t < 10 ^ 25 \<and> 0 \<le> n \<and> n < 1000000"
      using ts [OF p] assms(2,3) by auto
  qed
  have "inj_on (\<lambda>(t, n). show_int t @ zero_pad 6 n) (set (id_pairs ?st tss))"
  proof (intro inj_onI, clarify)
    fix t n t' n'
    assume "(t, n) \<in> set (id_pairs ?st tss)" "(t', n') \<in> set (id_pairs ?st tss)"
      and "show_int t @ zero_pad 6 n = show_int t' @ zero_pad 6 n'"
    then show "t = t' \<and> n = n'"
      using b by (intro connect_text_inj) auto
  qed
  then show ?thesis
    using a connect_ids_pairs [OF b] by (simp add: distinct_map)
qed

theorem connect_ids_distinct_witness:
  "distinct (connect_ids \<lparr>last_ts = 0, last_id = 0\<rparr> [1700000000, 1700000000, 1700000001])"
  by (rule connect_ids_distinct) simp_all

section \<open>Connections and sessions\<close>

definition MAX_CLIENT_NUM :: nat where "MAX_CLIENT_NUM = 32"

datatype connect_type = CONN_TYPE_CTRL | CONN_TYPE_DATA | CONN_TYPE_TASK

fun conn_code :: "connect_type \<Rightarrow> 32 word" where
  "conn_code CONN_TYPE_CTRL = 0"
| "conn_code CONN_TYPE_DATA = 1"
| "conn_code CONN_TYPE_TASK = 2"

record client_sock_conn =
  conn_sock :: int
  conn_port :: int
  conn_last_port :: int
  conn_type :: connect_type
  connect_id :: string
  is_using :: bool
  is_updating :: bool

datatype client_status = ACTIVE | INACTIVE | DISCONNECTED

record user_base_info =
  ub_uid :: "64 word"
  ub_name :: string
  ub_home_dir :: string
  ub_create_time :: int
  ub_update_time :: int

record user_auth_info =
  ua_name :: string
  ua_passwd_md5 :: string

text \<open>
  The list of task connections and the lock of a session are \<open>None\<close> and absent while the struct is filled
  with zeros.
\<close>

record client_session =
  cs_ip :: string
  cs_main_conn :: client_sock_conn
  cs_task_conns :: "client_sock_conn list option"
  cs_lock :: bool
  cs_status :: client_status
  cs_pwd :: string
  cs_session_id :: string
  cs_user :: user_base_info

definition zero_conn :: client_sock_conn where
  "zero_conn = \<lparr>conn_sock = 0, conn_port = 0, conn_last_port = 0, conn_type = CONN_TYPE_CTRL, connect_id = [],
     is_using = False, is_updating = False\<rparr>"

definition put_session :: client_session where
  "put_session = \<lparr>cs_ip = [], cs_main_conn = zero_conn, cs_task_conns = None, cs_lock = False,
     cs_status = DISCONNECTED, cs_pwd = [], cs_session_id = [],
     cs_user = \<lparr>ub_uid = 0, ub_name = [], ub_home_dir = [], ub_create_time = 0, ub_update_time = 0\<rparr>\<rparr>"

definition init_client_session :: client_session where
  "init_client_session = put_session\<lparr>cs_task_conns := Some [], cs_lock := True\<rparr>"

definition init_sessions :: "client_session list" where
  "init_sessions = replicate MAX_CLIENT_NUM init_client_session"

definition client_is_active :: "client_session \<Rightarrow> bool" where
  "client_is_active s \<longleftrightarrow> cs_status s = ACTIVE"

definition client_is_inactive :: "client_session \<Rightarrow> bool" where
  "client_is_inactive s \<longleftrightarrow> cs_status s = ACTIVE"

definition client_connected :: "client_session \<Rightarrow> bool" where
  "client_connected s \<longleftrightarrow> client_is_active s \<or> client_is_inactive s"

text \<open>The loops over the table stop at the first entry that satisfies their condition.\<close>

fun first_index :: "('a \<Rightarrow> bool) \<Rightarrow> 'a list \<Rightarrow> nat option" where
  "first_index P [] = None"
| "first_index P (x # xs) = (if P x then Some 0 else map_option Suc (first_index P xs))"

definition get_new_session :: "client_session list \<Rightarrow> (nat \<times> client_session list) option" where
  "get_new_session ss =
     map_option (\<lambda>i. (i, ss[i := init_client_session\<lparr>cs_status := ACTIVE\<rparr>])) (first_index (\<lambda>s. \<not> client_connected s) ss)"

definition find_client_session_by_id :: "bytes \<Rightarrow> client_session list \<Rightarrow> nat option" where
  "find_client_session_by_id sid ss =
     first_index (\<lambda>s. client_connected s \<and> cs_session_id s = buf_string sid) ss"

definition check_user :: "logged_in_user \<Rightarrow> client_session list \<Rightarrow> int \<times> logged_in_user" where
  "check_user u ss =
     (case first_index (\<lambda>s. client_connected s \<and> cs_session_id s = buf_string (lu_session_id u)) ss of
        None \<Rightarrow> (-1, u)
      | Some i \<Rightarrow> (0, u\<lparr>lu_ip := buf_strncpy (lu_ip u) (cs_ip (ss ! i)) 16\<rparr>))"

definition session_user :: "client_session \<Rightarrow> logged_in_user" where
  "session_user s = \<lparr>lu_session_id = buf_strncpy (replicate 32 0) (cs_session_id s) 31,
     lu_name = buf_strncpy (replicate 32 0) (ub_name (cs_user s)) 31, lu_ip = buf_strncpy (replicate 16 0) (cs_ip s) 15,
     lu_port = word_of_int (conn_port (cs_main_conn s))\<rparr>"

definition get_logged_in_users :: "client_session list \<Rightarrow> logged_in_user list" where
  "get_logged_in_users ss = map session_user (filter client_connected ss)"

text \<open>A connection of a session: the one it was opened on, or one of its list.\<close>

datatype conn_ref = Main_conn | Task_conn nat

definition find_connect_by_id :: "client_session \<Rightarrow> bytes \<Rightarrow> c_fault + conn_ref option" where
  "find_connect_by_id s cid =
     (if connect_id (cs_main_conn s) = buf_string cid then Inr (Some Main_conn)
      else case cs_task_conns s of
          None \<Rightarrow> Inl Null_dereference
        | Some cs \<Rightarrow> Inr (map_option Task_conn (first_index (\<lambda>c. connect_id c = buf_string cid) cs)))"

definition upd_task_conns :: "(client_sock_conn list \<Rightarrow> client_sock_conn list) \<Rightarrow> client_session \<Rightarrow> client_session" where
  "upd_task_conns f s = s\<lparr>cs_task_conns := map_option f (cs_task_conns s)\<rparr>"

fun upd_conn :: "conn_ref \<Rightarrow> (client_sock_conn \<Rightarrow> client_sock_conn) \<Rightarrow> client_session \<Rightarrow> client_session" where
  "upd_conn Main_conn f s = s\<lparr>cs_main_conn := f (cs_main_conn s)\<rparr>"
| "upd_conn (Task_conn k) f s = upd_task_conns (\<lambda>cs. cs[k := f (cs ! k)]) s"

definition client_task_conns_num :: "client_session \<Rightarrow> c_fault + nat" where
  "client_task_conns_num s = (case cs_task_conns s of None \<Rightarrow> Inl Null_dereference | Some cs \<Rightarrow> Inr (length cs))"

definition get_peer_task_conn_by_session :: "client_session \<Rightarrow> c_fault + nat option \<times> client_session" where
  "get_peer_task_conn_by_session s =
     (case cs_task_conns s of
        None \<Rightarrow> Inl Null_dereference
      | Some cs \<Rightarrow>
          if \<not> cs_lock s then Inl Null_dereference
          else
            (case first_index (\<lambda>c. \<not> is_using c) cs of
               None \<Rightarrow> Inr (None, s)
             | Some k \<Rightarrow> Inr (Some k, upd_conn (Task_conn k) (\<lambda>c. c\<lparr>is_using := True\<rparr>) s)))"

definition get_peer_task_conn_by_user ::
    "logged_in_user \<Rightarrow> client_session list \<Rightarrow> c_fault + (nat \<times> nat) option \<times> client_session list" where
  "get_peer_task_conn_by_user u ss =
     (case find_client_session_by_id (lu_session_id u) ss of
        None \<Rightarrow> Inr (None, ss)
      | Some i \<Rightarrow>
          sbind (get_peer_task_conn_by_session (ss ! i)) (\<lambda>(k, s).
            Inr (map_option (\<lambda>k. (i, k)) k, ss[i := s])))"

definition put_peer_task_conn :: "nat \<times> nat \<Rightarrow> client_session list \<Rightarrow> client_session list" where
  "put_peer_task_conn r ss =
     (let (i, k) = r in ss[i := upd_conn (Task_conn k) (\<lambda>c. c\<lparr>is_using := False\<rparr>) (ss ! i)])"

section \<open>Updating the port\<close>

definition PORT_UPDATE_INTERVAL :: int where "PORT_UPDATE_INTERVAL = 15"

definition need_update_port :: "int \<Rightarrow> int \<Rightarrow> bool" where
  "need_update_port ts last_update_ts \<longleftrightarrow> ts - last_update_ts > PORT_UPDATE_INTERVAL"

fun can_update_port :: "client_session list \<Rightarrow> c_fault + bool" where
  "can_update_port [] = Inr True"
| "can_update_port (s # ss) =
     (if \<not> client_connected s then can_update_port ss
      else sbind (client_task_conns_num s) (\<lambda>conns_num. if conns_num < 1 then Inr False else can_update_port ss))"

definition set_all_conns_updating :: "client_session list \<Rightarrow> client_session list" where
  "set_all_conns_updating ss =
     map (\<lambda>s. if client_connected s then upd_task_conns (map (\<lambda>c. c\<lparr>is_updating := True\<rparr>)) s else s) ss"

section \<open>The table\<close>

lemma first_index_Some:
  "first_index P xs = Some i \<longleftrightarrow> i < length xs \<and> P (xs ! i) \<and> (\<forall>j < i. \<not> P (xs ! j))"
proof (induction xs arbitrary: i)
  case (Cons x xs)
  show ?case
    by (cases i) (auto simp: Cons All_less_Suc2)
qed simp

lemma first_index_None: "first_index P xs = None \<longleftrightarrow> list_all (\<lambda>x. \<not> P x) xs"
  by (induction xs) auto

lemma client_connected_iff [simp]: "client_connected s \<longleftrightarrow> cs_status s = ACTIVE"
  by (simp add: client_connected_def client_is_active_def client_is_inactive_def)

lemma new_session_None: "get_new_session ss = None \<longleftrightarrow> list_all client_connected ss"
  by (simp add: get_new_session_def first_index_None list_all_iff)

lemma new_session_Some:
  "get_new_session ss = Some (i, ss') \<Longrightarrow>
     i < length ss \<and> \<not> client_connected (ss ! i) \<and> (\<forall>j < i. client_connected (ss ! j))
     \<and> ss' = ss[i := init_client_session\<lparr>cs_status := ACTIVE\<rparr>]"
  by (auto simp: get_new_session_def first_index_Some)

end
