(* ===== verification/Sftt_User.thy ===== *)
theory Sftt_User
  imports Sftt_Session
begin

text \<open>
  The table of users (\<^verbatim>\<open>src/src/user.c\<close>, \<^verbatim>\<open>src/src/db.c\<close>) and the shell that edits it (\<^verbatim>\<open>src/src/server.c\<close>).
  SQLite is a parameter: the answer to a query on a database file, and the effect of a statement. What is relied on of
  it is the interface \<open>user_table\<close>: an insert whose number of values is not that of the columns is refused.
\<close>

section \<open>db.c\<close>

text \<open>
  A table as \<^verbatim>\<open>sqlite3_get_table\<close> returns it: the names of the columns and the rows, with \<open>None\<close> for NULL. There
  is none if the statement fails. A database without a file is a new one in memory.
\<close>

type_synonym table = "string list \<times> string option list list"

record 'd sqlite =
  get_table :: "'d \<Rightarrow> string option \<Rightarrow> string \<Rightarrow> table option"
  exec_sql :: "'d \<Rightarrow> string option \<Rightarrow> string \<Rightarrow> 'd"

datatype col_type = INTEGER | REAL | TEXT | UNKNOWN_COL_TYPE

definition get_col_type :: "(string \<times> col_type) list \<Rightarrow> string \<Rightarrow> col_type" where
  "get_col_type cols col_name =
     (case find (\<lambda>c. fst c = col_name) cols of None \<Rightarrow> UNKNOWN_COL_TYPE | Some c \<Rightarrow> snd c)"

text \<open>One map for each row; the names of columns are distinct pointers, so every pair is appended.\<close>

definition db_select :: "(string \<Rightarrow> table option) \<Rightarrow> string \<Rightarrow> (string \<times> string option) list list option" where
  "db_select q sql =
     (case q sql of
        None \<Rightarrow> None
      | Some (names, rows) \<Rightarrow>
          if rows = [] \<or> names = [] then None else Some (map (\<lambda>row. zip names row) rows))"

text \<open>The callback that reads a count; it stops the statement when there is no value.\<close>

fun fetch_select_count_from_result :: "int \<Rightarrow> string option list list \<Rightarrow> int" where
  "fetch_select_count_from_result n [] = n"
| "fetch_select_count_from_result n (row # rows) =
     (case row of
        Some v # _ \<Rightarrow> fetch_select_count_from_result (atoi v) rows
      | _ \<Rightarrow> -1)"

definition db_select_count :: "(string \<Rightarrow> table option) \<Rightarrow> string \<Rightarrow> int" where
  "db_select_count q sql = (case q sql of None \<Rightarrow> -1 | Some (names, rows) \<Rightarrow> fetch_select_count_from_result (-1) rows)"

section \<open>user.c\<close>

definition user_cols :: "(string \<times> col_type) list" where
  "user_cols = [(''uid'', INTEGER), (''name'', TEXT), (''passwd_md5'', TEXT), (''home_dir'', TEXT), (''create_time'', INTEGER),
     (''update_time'', INTEGER)]"

definition db_search_pathes :: "string list" where
  "db_search_pathes = [''/etc/sftt'', ''/root/sftt/db'', ''./db'', ''.'']"

definition get_user_db_file :: "fsys \<Rightarrow> string option" where
  "get_user_db_file fs =
     find (\<lambda>tmp. file_existed fs (Some tmp)) (map (\<lambda>d. take 254 (d @ ''/user.db'')) db_search_pathes)"

definition select_user :: "string \<Rightarrow> string" where
  "select_user name = ''select * from user where name='' @ [CHR 0x27] @ name @ [CHR 0x27]"

text \<open>
  The one row of a user: \<open>Inr None\<close> if there is none, a failed assertion if there are several, a fault if the
  statement does not fit into its buffer.
\<close>

definition user_row :: "(string \<Rightarrow> table option) \<Rightarrow> string \<Rightarrow> c_fault + (string \<times> string option) list option" where
  "user_row q name =
     (if length (select_user name) \<ge> 1024 then Inl Out_of_bounds
      else case db_select q (select_user name) of
          None \<Rightarrow> Inr None
        | Some [] \<Rightarrow> Inr None
        | Some [row] \<Rightarrow> Inr (Some row)
        | Some rows \<Rightarrow> Inl Assertion_failed)"

definition copy_field :: "nat \<Rightarrow> string \<Rightarrow> c_fault + string" where
  "copy_field cap v = (if length v < cap then Inr v else Inl Out_of_bounds)"

text \<open>
  The columns are read one after the other; a missing one ends the reading with what has been stored so far, and
  without a user number the number is read through a null pointer.
\<close>

definition read_times :: "(string \<times> string option) list \<Rightarrow> user_base_info \<Rightarrow> user_base_info" where
  "read_times row u =
     (case map_of row ''create_time'' of
        None \<Rightarrow> u
      | Some c \<Rightarrow>
          let u1 = (case c of None \<Rightarrow> u | Some v \<Rightarrow> u\<lparr>ub_create_time := atoi v\<rparr>) in
          case map_of row ''update_time'' of
            None \<Rightarrow> u1
          | Some t \<Rightarrow> (case t of None \<Rightarrow> u1 | Some v \<Rightarrow> u1\<lparr>ub_update_time := atoi v\<rparr>))"

definition read_home :: "(string \<times> string option) list \<Rightarrow> user_base_info \<Rightarrow> c_fault + user_base_info" where
  "read_home row u =
     (case map_of row ''home_dir'' of
        None \<Rightarrow> Inr u
      | Some None \<Rightarrow> Inr (read_times row u)
      | Some (Some v) \<Rightarrow> sbind (copy_field 1024 v) (\<lambda>h. Inr (read_times row (u\<lparr>ub_home_dir := h\<rparr>))))"

definition read_user :: "(string \<times> string option) list \<Rightarrow> c_fault + user_base_info" where
  "read_user row =
     (case map_of row ''uid'' of
        Some (Some uid) \<Rightarrow>
          let u = \<lparr>ub_uid = word_of_int (atoi uid), ub_name = [], ub_home_dir = [], ub_create_time = 0, ub_update_time = 0\<rparr> in
          (case map_of row ''name'' of
             Some (Some n) \<Rightarrow> sbind (copy_field 32 n) (\<lambda>n. read_home row (u\<lparr>ub_name := n\<rparr>))
           | _ \<Rightarrow> Inr u)
      | _ \<Rightarrow> Inl Null_dereference)"

definition find_user_base_by_name :: "(string \<Rightarrow> table option) \<Rightarrow> string \<Rightarrow> c_fault + user_base_info option" where
  "find_user_base_by_name q name =
     sbind (user_row q name) (\<lambda>row.
       case row of None \<Rightarrow> Inr None | Some r \<Rightarrow> sbind (read_user r) (\<lambda>u. Inr (Some u)))"

definition read_auth :: "(string \<times> string option) list \<Rightarrow> c_fault + user_auth_info" where
  "read_auth row =
     (case map_of row ''name'' of
        Some (Some n) \<Rightarrow>
          sbind (copy_field 32 n) (\<lambda>n.
            case map_of row ''passwd_md5'' of
              Some (Some p) \<Rightarrow> sbind (copy_field 33 p) (\<lambda>p. Inr \<lparr>ua_name = n, ua_passwd_md5 = p\<rparr>)
            | _ \<Rightarrow> Inr \<lparr>ua_name = n, ua_passwd_md5 = []\<rparr>)
      | _ \<Rightarrow> Inr \<lparr>ua_name = [], ua_passwd_md5 = []\<rparr>)"

definition find_user_auth_by_name :: "(string \<Rightarrow> table option) \<Rightarrow> string \<Rightarrow> c_fault + user_auth_info option" where
  "find_user_auth_by_name q name =
     sbind (user_row q name) (\<lambda>row.
       case row of None \<Rightarrow> Inr None | Some r \<Rightarrow> sbind (read_auth r) (\<lambda>u. Inr (Some u)))"

definition get_user_count :: "(string \<Rightarrow> table option) \<Rightarrow> int" where
  "get_user_count q = db_select_count q ''select count(*) from user''"

definition quoted :: "string \<Rightarrow> string" where
  "quoted v = CHR 0x27 # v @ [CHR 0x27]"

definition insert_user :: "int \<Rightarrow> string \<Rightarrow> string \<Rightarrow> string" where
  "insert_user uid name passwd_md5 =
     ''insert into user values('' @ show_int uid @ '', '' @ quoted name @ '', '' @ quoted passwd_md5 @ '')''"

definition user_add :: "'d sqlite \<Rightarrow> fsys \<Rightarrow> string \<Rightarrow> string \<Rightarrow> 'd \<Rightarrow> int \<times> 'd" where
  "user_add db fs name passwd_md5 d =
     (let file = get_user_db_file fs; cnt = get_user_count (get_table db d file) in
      if cnt = -1 then (-1, d)
      else (0, exec_sql db d file (take 1022 (insert_user (cnt + 1) name passwd_md5))))"

text \<open>The text of a column in a statement; no column of the table is of type \<^verbatim>\<open>REAL\<close>.\<close>

fun col_text :: "col_type \<Rightarrow> string \<Rightarrow> string" where
  "col_text INTEGER v = show_int (atoi v)"
| "col_text t v = v"

definition update_user :: "string \<Rightarrow> col_type \<Rightarrow> string \<Rightarrow> int \<Rightarrow> string \<Rightarrow> string" where
  "update_user key type val ts name =
     ''update user set '' @ key @ ''='' @ quoted (col_text type val) @ '', update_time=''
     @ show_int (sint (word_of_int ts :: 32 word)) @ '' where name='' @ quoted name"

definition update_user_base_info ::
    "'d sqlite \<Rightarrow> fsys \<Rightarrow> int \<Rightarrow> string \<Rightarrow> string \<Rightarrow> string \<Rightarrow> 'd \<Rightarrow> c_fault + int \<times> 'd" where
  "update_user_base_info db fs ts name key val d =
     (let type = get_col_type user_cols key in
      if type = UNKNOWN_COL_TYPE then Inl Assertion_failed
      else Inr (0, exec_sql db d (get_user_db_file fs) (take 1022 (update_user key type val ts name))))"

section \<open>The shell of the database\<close>

definition blank :: "char \<Rightarrow> bool" where
  "blank c \<longleftrightarrow> c = CHR '' '' \<or> c = CHR 0x09"

text \<open>The next word and the rest of the line behind the blank that ends the word.\<close>

definition fetch_next_str :: "string \<Rightarrow> (string \<times> string) option" where
  "fetch_next_str str =
     (let p = dropWhile blank str in
      if p = [] then None
      else Some (takeWhile (\<lambda>c. \<not> blank c) p, drop 1 (dropWhile (\<lambda>c. \<not> blank c) p)))"

datatype db_reply =
    Bad_format | User_exists string | Add_failed | Added string | No_user string | Bad_key string | Updated
  | Info user_base_info | Cannot_parse | Unknown_command string

definition user_query :: "'d sqlite \<Rightarrow> fsys \<Rightarrow> 'd \<Rightarrow> string \<Rightarrow> table option" where
  "user_query db fs d = get_table db d (get_user_db_file fs)"

definition db_add_user :: "'d sqlite \<Rightarrow> fsys \<Rightarrow> bytes \<Rightarrow> string \<Rightarrow> 'd \<Rightarrow> c_fault + db_reply \<times> 'd" where
  "db_add_user db fs junk info d =
     (case fetch_next_str info of
        None \<Rightarrow> Inr (Bad_format, d)
      | Some (name, info) \<Rightarrow>
          (case fetch_next_str info of
             None \<Rightarrow> Inr (Bad_format, d)
           | Some (passwd, info) \<Rightarrow>
               sbind (find_user_base_by_name (user_query db fs d) name) (\<lambda>u.
                 if u \<noteq> None then Inr (User_exists name, d)
                 else sbind (md5_str junk (str_bytes passwd)) (\<lambda>passwd_md5.
                   let (ret, d1) = user_add db fs name passwd_md5 d
                   in Inr (if ret = -1 then Add_failed else Added name, d1)))))"

definition db_update_user ::
    "'d sqlite \<Rightarrow> fsys \<Rightarrow> bytes \<Rightarrow> int \<Rightarrow> string \<Rightarrow> 'd \<Rightarrow> c_fault + db_reply \<times> 'd" where
  "db_update_user db fs junk ts info d =
     (case fetch_next_str info of
        None \<Rightarrow> Inr (Bad_format, d)
      | Some (name, info) \<Rightarrow>
          (case fetch_next_str info of
             None \<Rightarrow> Inr (Bad_format, d)
           | Some (key_name, info) \<Rightarrow>
               (case fetch_next_str info of
                  None \<Rightarrow> Inr (Bad_format, d)
                | Some (val, info) \<Rightarrow>
                    sbind (find_user_base_by_name (user_query db fs d) name) (\<lambda>u.
                      if u = None then Inr (No_user name, d)
                      else if key_name = ''passwd''
                      then sbind (md5_str junk (str_bytes val)) (\<lambda>passwd_md5.
                             sbind (update_user_base_info db fs ts name ''passwd_md5'' passwd_md5 d) (\<lambda>(ret, d1). Inr (Updated, d1)))
                      else if key_name = ''home_dir'' \<or> key_name = ''create_time''
                      then sbind (update_user_base_info db fs ts name key_name val d) (\<lambda>(ret, d1). Inr (Updated, d1))
                      else Inr (Bad_key key_name, d)))))"

definition db_user_info :: "'d sqlite \<Rightarrow> fsys \<Rightarrow> string \<Rightarrow> 'd \<Rightarrow> c_fault + db_reply \<times> 'd" where
  "db_user_info db fs cmd d =
     (case fetch_next_str cmd of
        None \<Rightarrow> Inr (Bad_format, d)
      | Some (name, cmd) \<Rightarrow>
          sbind (find_user_base_by_name (user_query db fs d) name) (\<lambda>u.
            Inr (case u of None \<Rightarrow> No_user name | Some ub \<Rightarrow> Info ub, d)))"

definition execute_db_cmd :: "'d sqlite \<Rightarrow> fsys \<Rightarrow> bytes \<Rightarrow> int \<Rightarrow> string \<Rightarrow> 'd \<Rightarrow> c_fault + db_reply \<times> 'd" where
  "execute_db_cmd db fs junk ts cmd d =
     (case fetch_next_str cmd of
        None \<Rightarrow> Inr (Cannot_parse, d)
      | Some (p, cmd) \<Rightarrow>
          if p = ''adduser'' then db_add_user db fs junk cmd d
          else if p = ''update'' then db_update_user db fs junk ts cmd d
          else if p = ''info'' then db_user_info db fs cmd d
          else Inr (Unknown_command p, d))"

text \<open>
  What a command leaves in its buffer: the first word is ended by a zero byte.
\<close>

definition parsed_buf :: "string \<Rightarrow> string" where
  "parsed_buf cmd = takeWhile blank cmd @ takeWhile (\<lambda>c. \<not> blank c) (dropWhile blank cmd)"

lemma length_parsed_buf: "length (parsed_buf cmd) \<le> length cmd"
proof -
  have "length cmd = length (takeWhile blank cmd) + length (dropWhile blank cmd)"
    by (metis length_append takeWhile_dropWhile_id)
  then show ?thesis
    using length_takeWhile_le [of "\<lambda>c. \<not> blank c" "dropWhile blank cmd"] by (simp add: parsed_buf_def)
qed

lemma parsed_buf_shorter: "line \<noteq> [] \<Longrightarrow> length (parsed_buf (butlast line)) < length line"
  using length_parsed_buf [of "butlast line"] by (cases line) auto

text \<open>
  The loop of the shell on the lines that \<^verbatim>\<open>fgets\<close> returns and the buffer \<open>cmd\<close> they are read into: every
  round cuts off the last character of the buffer, also at the end of the input, where the buffer has what the
  round before left in it. Cutting an empty text writes before the buffer.
\<close>

function db_shell ::
    "'d sqlite \<Rightarrow> fsys \<Rightarrow> bytes \<Rightarrow> int \<Rightarrow> string list \<Rightarrow> string \<Rightarrow> 'd \<Rightarrow> c_fault + db_reply list \<times> 'd" where
  "db_shell db fs junk ts ls cmd d =
     (let line = (case ls of [] \<Rightarrow> cmd | l # _ \<Rightarrow> l) in
      if line = [] then Inl Out_of_bounds
      else if butlast line = ''quit'' then Inr ([], d)
      else sbind (execute_db_cmd db fs junk ts (butlast line) d) (\<lambda>(r, d1).
        sbind (db_shell db fs junk ts (tl ls) (parsed_buf (butlast line)) d1) (\<lambda>(rs, d2). Inr (r # rs, d2))))"
  by pat_completeness auto
termination
  by (relation "measures [\<lambda>(db, fs, junk, ts, ls, cmd, d). length ls, \<lambda>(db, fs, junk, ts, ls, cmd, d). length cmd]")
    (auto simp: parsed_buf_shorter split: list.splits)

declare db_shell.simps [simp del]

definition sftt_server_db ::
    "'d sqlite \<Rightarrow> fsys \<Rightarrow> bytes \<Rightarrow> int \<Rightarrow> string list \<Rightarrow> string \<Rightarrow> 'd \<Rightarrow> c_fault + db_reply list \<times> 'd" where
  "sftt_server_db db fs junk ts ls cmd d =
     (if get_user_db_file fs = None then Inr ([], d) else db_shell db fs junk ts ls cmd d)"

section \<open>Looking up users\<close>

lemma user_lookups_agree:
  "find_user_base_by_name q n = Inr None \<longleftrightarrow> user_row q n = Inr None"
  "find_user_auth_by_name q n = Inr None \<longleftrightarrow> user_row q n = Inr None"
  by (auto simp: find_user_base_by_name_def find_user_auth_by_name_def split: option.splits)

section \<open>Commands\<close>

abbreviation word_text :: "string \<Rightarrow> bool" where
  "word_text w \<equiv> w \<noteq> [] \<and> list_all (\<lambda>c. \<not> blank c) w"

lemma fetch_last_word: "word_text w \<Longrightarrow> fetch_next_str w = Some (w, [])"
  by (cases w) (auto simp: fetch_next_str_def Let_def takeWhile_eq_all_conv dropWhile_eq_Nil_conv [THEN iffD2] list_all_iff)

lemma fetch_word: "word_text w \<Longrightarrow> blank c \<Longrightarrow> fetch_next_str (w @ c # rest) = Some (w, rest)"
proof -
  assume w: "word_text w" and c: "blank c"
  have "dropWhile blank (w @ c # rest) = w @ c # rest"
    using w by (cases w) auto
  moreover have "takeWhile (\<lambda>c. \<not> blank c) (w @ c # rest) = w" "dropWhile (\<lambda>c. \<not> blank c) (w @ c # rest) = c # rest"
    using w c by (simp_all add: takeWhile_append dropWhile_append list_all_iff dropWhile_eq_Nil_conv takeWhile_eq_all_conv)
  ultimately show ?thesis
    using w by (simp add: fetch_next_str_def Let_def)
qed

lemma blank_simps [simp]: "blank CHR '' ''"
  by (simp add: blank_def)

lemma length_show_int: "\<bar>i\<bar> < 10 ^ k \<Longrightarrow> 0 < k \<Longrightarrow> length (show_int i) \<le> k + 1"
  using length_digits_text [of "nat \<bar>i\<bar>" k] by (auto simp: show_int_def nat_less_iff)

lemma atoi_bounds: "- (2 ^ 31) \<le> atoi s" "atoi s < 2 ^ 31"
  using sint_range_size [of "word_of_int (atol s) :: 32 word"] by (auto simp: atoi_def word_size)

lemma select_count_bounds: "- (2 ^ 31) \<le> db_select_count q sql \<and> db_select_count q sql < 2 ^ 31"
proof -
  have "- (2 ^ 31) \<le> n \<Longrightarrow> n < 2 ^ 31 \<Longrightarrow>
      - (2 ^ 31) \<le> fetch_select_count_from_result n rows \<and> fetch_select_count_from_result n rows < 2 ^ 31" for n rows
  proof (induction rows arbitrary: n)
    case (Cons row rows)
    show ?case
      using Cons.IH [OF atoi_bounds] by (auto split: list.split option.split)
  qed simp
  then show ?thesis
    by (auto simp: db_select_count_def split: option.split)
qed

section \<open>Inserting rows\<close>

text \<open>
  An insert statement with a list of literal values: integers, and texts in quotes that contain no quote.
\<close>

definition sql_literal :: "string \<Rightarrow> bool" where
  "sql_literal v \<longleftrightarrow>
     (case v of
        [] \<Rightarrow> False
      | c # cs \<Rightarrow>
          if c = CHR 0x27
          then cs \<noteq> [] \<and> last cs = CHR 0x27 \<and> CHR 0x27 \<notin> set (butlast cs) \<and> CHR 0x00 \<notin> set (butlast cs)
          else list_all is_digit (if c = CHR ''-'' then cs else v) \<and> v \<noteq> ''-'')"

fun comma_list :: "string list \<Rightarrow> string" where
  "comma_list [] = []"
| "comma_list [v] = v"
| "comma_list (v # vs) = v @ '', '' @ comma_list vs"

definition insert_stmt :: "string list \<Rightarrow> string" where
  "insert_stmt vals = ''insert into user values('' @ comma_list vals @ '')''"

text \<open>
  SQLite documents that the number of values of an insert without a list of columns must be the number of columns of
  the table; else the statement fails and the database stays as it is. \<open>columns\<close> is that number for the table
  of users in a database file.
\<close>

locale user_table =
  fixes db :: "'d sqlite" and columns :: "'d \<Rightarrow> string option \<Rightarrow> nat"
  assumes wrong_arity: "list_all sql_literal vals \<Longrightarrow> length vals \<noteq> columns d file \<Longrightarrow>
    exec_sql db d file (insert_stmt vals) = d"
begin

lemma insert_refused:
  assumes "list_all sql_literal vals" "columns d file = length user_cols" "length vals < length user_cols"
  shows "exec_sql db d file (insert_stmt vals) = d"
  using assms by (intro wrong_arity) auto

end

lemma digits_text_digits: "list_all is_digit acc \<Longrightarrow> list_all is_digit (digits_text n acc) \<and> digits_text n acc \<noteq> []"
proof (induction n acc rule: digits_text.induct)
  case (1 n acc)
  have "list_all (\<lambda>d. is_digit (char_of (48 + d))) [0 ..< 10 :: nat]"
    by code_simp
  then have "is_digit (char_of (48 + n mod 10))"
    by (simp add: list_all_iff del: upt_Suc)
  then show ?case
    using 1 by (cases "n < 10") (simp_all add: digits_text.simps [of n] Let_def)
qed

lemma no_digits [simp]: "\<not> is_digit CHR 0x27" "\<not> is_digit (CHR ''-'')" "\<not> is_digit (CHR '','')"
  by (simp_all add: is_digit_def)

lemma digits_literal: "list_all is_digit v \<Longrightarrow> v \<noteq> [] \<Longrightarrow> sql_literal v"
  by (cases v) (auto simp: sql_literal_def)

lemma int_literal: "sql_literal (show_int i)"
proof -
  have d: "list_all is_digit (digits_text n [])" "digits_text n [] \<noteq> []" for n
    using digits_text_digits [of "[]" n] by simp_all
  then show ?thesis
    using digits_literal by (auto simp: show_int_def) (simp add: sql_literal_def)
qed

lemma quoted_literal: "CHR 0x27 \<notin> set t \<Longrightarrow> CHR 0x00 \<notin> set t \<Longrightarrow> sql_literal (quoted t)"
  by (simp add: sql_literal_def quoted_def)

lemma insert_user_values: "insert_user uid n p = insert_stmt [show_int uid, quoted n, quoted p]"
  by (simp add: insert_user_def insert_stmt_def)

lemma hex_of_set: "c \<notin> set ''0123456789abcdef'' \<Longrightarrow> c \<notin> set (hex_of bs)"
proof (induction bs)
  case (Cons b bs)
  have "''0123456789abcdef'' ! k \<noteq> c" if "k < 16" for k
    using nth_mem [of k "''0123456789abcdef''"] that Cons.prems by auto
  then show ?case
    using Cons byte_nibbles [of b] by (simp only: hex_of.simps list.set insert_iff) metis
qed simp

text \<open>
  C19: \<^verbatim>\<open>adduser\<close> adds nobody. The statement that it executes has three values and the table of users has the six
  columns of \<open>user_cols\<close>, so SQLite refuses it; the result of \<^verbatim>\<open>db_insert\<close> is ignored, the shell says that
  the user was added, and the database is as before. The name is a word without quotes of at most 64 characters
  that is not in the table, and the users can be counted.
\<close>

theorem adduser_adds_nobody:
  assumes "user_table db columns" "columns d (get_user_db_file fs) = length user_cols"
    and "word_text name" "CHR 0x27 \<notin> set name" "CHR 0x00 \<notin> set name" "length name \<le> 64" "word_text passwd" "length junk = 64"
    and "find_user_base_by_name (user_query db fs d) name = Inr None" "get_user_count (user_query db fs d) \<noteq> -1"
  shows "execute_db_cmd db fs junk ts (''adduser '' @ name @ '' '' @ passwd) d = Inr (Added name, d)"
proof -
  have f: "fetch_next_str (''adduser'' @ CHR '' '' # name @ CHR '' '' # passwd) = Some (''adduser'', name @ CHR '' '' # passwd)"
    by (rule fetch_word) (simp_all add: blank_def)
  have g: "fetch_next_str (name @ CHR '' '' # passwd) = Some (name, passwd)"
    by (rule fetch_word) (use assms(3) in simp_all)
  define digest where "digest = hex_of (md5_reference (str_bytes passwd))"
  have m: "md5_str junk (str_bytes passwd) = Inr digest"
    using md5_digest [OF assms(8)] by (simp add: md5_str_def md5_printable digest_def)
  have len: "length digest = 32"
    by (simp add: digest_def md5_reference_def split: prod.split)
  have lit: "sql_literal (quoted name)" "sql_literal (quoted digest)"
    using assms(4,5) hex_of_set [of "CHR 0x27"] hex_of_set [of "CHR 0x00"] by (simp_all add: digest_def quoted_literal)
  let ?n = "get_user_count (user_query db fs d)"
  have "length (show_int (?n + 1)) \<le> 11"
    using length_show_int [of "?n + 1" 10] select_count_bounds [of "user_query db fs d" "''select count(*) from user''"]
    by (auto simp: get_user_count_def)
  then have "take 1022 (insert_user (?n + 1) name digest) = insert_user (?n + 1) name digest"
    using assms(6) len by (simp add: insert_user_def quoted_def)
  moreover have "exec_sql db d (get_user_db_file fs) (insert_user (?n + 1) name digest) = d"
    unfolding insert_user_values
    by (rule user_table.insert_refused [OF assms(1) _ assms(2)]) (simp_all add: int_literal lit user_cols_def)
  ultimately have "user_add db fs name digest d = (0, d)"
    using assms(10) by (simp add: user_add_def user_query_def Let_def)
  then show ?thesis
    using f g m assms(9) fetch_last_word [OF assms(7)]
    by (simp add: execute_db_cmd_def db_add_user_def)
qed

text \<open>
  A database of one table with six columns, which keeps the insert statements that it has executed: it counts the
  values of a statement by the commas outside of quotes.
\<close>

fun commas :: "bool \<Rightarrow> string \<Rightarrow> nat" where
  "commas q [] = 0"
| "commas q (c # cs) =
     (if c = CHR 0x27 then commas (\<not> q) cs else (if c = CHR '','' \<and> \<not> q then 1 else 0) + commas q cs)"

definition counting_db :: "string list sqlite" where
  "counting_db = \<lparr>get_table = (\<lambda>d f sql. if sql = ''select count(*) from user'' then Some ([''count(*)''], [[Some ''3'']]) else None),
     exec_sql = (\<lambda>d f sql. if take 24 sql = ''insert into user values('' \<and> commas False sql = 5 then d @ [sql] else d)\<rparr>"

lemma commas_unquoted: "CHR 0x27 \<notin> set v \<Longrightarrow> commas q (v @ rest) = (if q then 0 else length (filter ((=) CHR '','') v)) + commas q rest"
  by (induction v) auto

lemma commas_literal: "sql_literal v \<Longrightarrow> commas False (v @ rest) = commas False rest"
proof (cases v)
  case (Cons c cs)
  assume v: "sql_literal v"
  show ?thesis
  proof (cases "c = CHR 0x27")
    case True
    then obtain t where "cs = t @ [CHR 0x27]" "CHR 0x27 \<notin> set t"
      using v Cons by (cases cs rule: rev_cases) (auto simp: sql_literal_def)
    then show ?thesis
      using True Cons by (simp add: commas_unquoted)
  next
    case False
    then have "\<forall>x \<in> set v. x = CHR ''-'' \<or> is_digit x"
      using v Cons by (auto simp: sql_literal_def list_all_iff split: if_splits)
    then have "CHR 0x27 \<notin> set v" "CHR '','' \<notin> set v"
      by fastforce+
    then have "CHR 0x27 \<notin> set v" "filter ((=) CHR '','') v = []"
      by (auto simp: filter_empty_conv)
    then show ?thesis
      by (simp add: commas_unquoted)
  qed
qed simp

lemma commas_list: "list_all sql_literal vals \<Longrightarrow> commas False (comma_list vals @ rest) = length vals - 1 + commas False rest"
  by (induction vals rule: comma_list.induct) (simp_all add: commas_literal)

interpretation counting: user_table counting_db "\<lambda>d file. 6"
proof
  fix vals d and f :: "string option"
  assume "list_all sql_literal vals" "length vals \<noteq> 6"
  then have "commas False (insert_stmt vals) \<noteq> 5"
    by (simp add: insert_stmt_def commas_list)
  then show "exec_sql counting_db d f (insert_stmt vals) = d"
    by (simp add: counting_db_def)
qed

lemma counting_db_inserts:
  "exec_sql counting_db d f (insert_stmt [''1'', quoted ''a'', quoted ''b,'', quoted ''/'', ''0'', ''0'']) =
     d @ [insert_stmt [''1'', quoted ''a'', quoted ''b,'', quoted ''/'', ''0'', ''0'']]"
  by (simp add: counting_db_def insert_stmt_def quoted_def)

theorem adduser_adds_nobody_witness:
  "execute_db_cmd counting_db small_fs (replicate 64 7) 0 (''adduser '' @ ''bob'' @ '' '' @ ''secret'') [''row''] = Inr (Added ''bob'', [''row''])"
proof (rule adduser_adds_nobody [OF counting.user_table_axioms])
  show "get_user_count (user_query counting_db small_fs [''row'']) \<noteq> -1"
    by (simp add: counting_db_def user_query_def get_user_count_def db_select_count_def) code_simp
qed (simp_all add: counting_db_def user_cols_def blank_def user_query_def find_user_base_by_name_def user_row_def db_select_def
    select_user_def)

end
