(* ===== verification/Sftt_Server.thy ===== *)
theory Sftt_Server
  imports Sftt_User Sftt_Mem_Pool
begin

text \<open>
  The server (\<^verbatim>\<open>src/src/server.c\<close>): one handler per request, the dispatcher of a session, accepting and
  leaving, and the update of the port. The state is the server's struct, the file system and one connection per
  socket; \<open>env\<close> has what lies outside: SQLite, random numbers, shell commands.

  A handler works on the session with index \<open>i\<close>. Each request is handled to its end before the next
  one, so locks and the \<^verbatim>\<open>sleep\<close> loops around them are left out; allocations succeed; switching a socket between
  blocking and not is left out, since a receive is the next event of the connection. Responses come zeroed
  from the pool.
\<close>

section \<open>State\<close>

record env =
  users_db :: "string option \<Rightarrow> string \<Rightarrow> table option"
  random_letters :: "nat list"
  mkstemp :: "fsys \<Rightarrow> (string \<times> fsys) option"
  shell :: "string \<Rightarrow> fsys \<Rightarrow> fsys"
  pool_stat :: mem_pool_stat
  stack_junk :: bytes
  old_obj :: "msg option"
  fuel :: nat

record sftt_server =
  main_sock :: int
  main_port :: int
  second_sock :: int
  second_port :: int
  last_update_ts :: int
  server_ver :: version_info
  sessions :: "client_session list"

record world =
  server :: sftt_server
  fs :: fsys
  chans :: "int \<Rightarrow> chan"
  open_socks :: "int list"
  session_ids :: id_state
  connect_ids_st :: id_state
  now :: int

definition main_sock_of :: "nat \<Rightarrow> world \<Rightarrow> int" where
  "main_sock_of i w = conn_sock (cs_main_conn (sessions (server w) ! i))"

definition upd_sessions :: "(client_session list \<Rightarrow> client_session list) \<Rightarrow> world \<Rightarrow> world" where
  "upd_sessions f w = w\<lparr>server := (server w)\<lparr>sessions := f (sessions (server w))\<rparr>\<rparr>"

definition upd_session :: "nat \<Rightarrow> (client_session \<Rightarrow> client_session) \<Rightarrow> world \<Rightarrow> world" where
  "upd_session i f w = upd_sessions (\<lambda>ss. ss[i := f (ss ! i)]) w"

definition set_chan :: "int \<Rightarrow> chan \<Rightarrow> world \<Rightarrow> world" where
  "set_chan fd cn w = w\<lparr>chans := (chans w)(fd := cn)\<rparr>"

text \<open>\<^verbatim>\<open>send_sftt_packet\<close> on a socket.\<close>

definition send_msg :: "int \<Rightarrow> msg \<Rightarrow> world \<Rightarrow> int \<times> world" where
  "send_msg fd m w = (let (ret, cn) = ch_send m (chans w fd) in (ret, set_chan fd cn w))"

definition reply :: "nat \<Rightarrow> ctl \<Rightarrow> world \<Rightarrow> int \<times> world" where
  "reply i c w = send_msg (main_sock_of i w) (Ctl c) w"

text \<open>Zeroed responses.\<close>

definition zero_bytes :: "nat \<Rightarrow> bytes" where
  "zero_bytes n = replicate n 0"

definition zero_user :: logged_in_user where
  "zero_user = \<lparr>lu_session_id = zero_bytes 32, lu_name = zero_bytes 32, lu_ip = zero_bytes 16, lu_port = 0\<rparr>"

definition zero_validate_resp :: validate_resp where
  "zero_validate_resp = \<lparr>sr_status = 0, sr_flags = 0, sr_message = zero_bytes 80, va_uid = 0, va_name = zero_bytes 32,
     va_session_id = zero_bytes 32, va_connect_id = zero_bytes 32, va_pwd = zero_bytes 1024\<rparr>"

definition zero_pwd_resp :: pwd_resp where
  "zero_pwd_resp = \<lparr>sr_status = 0, sr_flags = 0, sr_message = zero_bytes 80, pw_pwd = zero_bytes 1024\<rparr>"

definition zero_cd_resp :: cd_resp where
  "zero_cd_resp = \<lparr>sr_status = 0, sr_flags = 0, sr_message = zero_bytes 80, cp_pwd = zero_bytes 1024\<rparr>"

definition zero_file_entry :: file_entry where
  "zero_file_entry = \<lparr>fe_name = zero_bytes 256, fe_type = 0, fe_size = 0, fe_c_time = 0, fe_a_time = 0, fe_m_time = 0,
     fe_mode = 0\<rparr>"

definition zero_ll_resp :: ll_resp where
  "zero_ll_resp = \<lparr>sr_status = 0, sr_flags = 0, sr_message = zero_bytes 80, ll_total = 0, ll_this_nr = 0,
     ll_entries = replicate 16 zero_file_entry\<rparr>"

definition zero_status_resp :: status_resp where
  "zero_status_resp = \<lparr>sr_status = 0, sr_flags = 0, sr_message = zero_bytes 80\<rparr>"

definition zero_get_resp :: get_resp where
  "zero_get_resp = \<lparr>gr_status = 0, gr_flags = 0, gr_message = zero_bytes 80,
     gr_data = \<lparr>fd_total_files = 0, fd_file_idx = 0,
       fd_entry = \<lparr>te_type = 0, te_this_size = 0, te_mode = 0, te_total_size = 0, te_content = zero_bytes 2048\<rparr>\<rparr>,
     gr_need_reply = 0\<rparr>"

definition zero_directcmd_resp :: directcmd_resp where
  "zero_directcmd_resp = \<lparr>sr_status = 0, sr_flags = 0, sr_message = zero_bytes 80, dc_total_len = 0, dc_this_len = 0,
     dc_content = zero_bytes 1024\<rparr>"

definition zero_mp_stat_resp :: mp_stat_resp where
  "zero_mp_stat_resp = \<lparr>sr_status = 0, sr_flags = 0, sr_message = zero_bytes 80, ms_total_size = 0, ms_total_nodes = 0,
     ms_using_nodes = 0, ms_free_nodes = 0\<rparr>"

definition zero_who_resp :: who_resp where
  "zero_who_resp = \<lparr>sr_status = 0, sr_flags = 0, sr_message = zero_bytes 80, wh_total = 0, wh_this_nr = 0,
     wh_users = replicate 32 zero_user\<rparr>"

definition zero_append_conn_resp :: append_conn_resp where
  "zero_append_conn_resp = \<lparr>sr_status = 0, sr_flags = 0, sr_message = zero_bytes 80, ac_connect_id = zero_bytes 32\<rparr>"

definition zero_channel_info_resp :: channel_info_resp where
  "zero_channel_info_resp = \<lparr>sr_status = 0, sr_flags = 0, sr_message = zero_bytes 80, cr_main_port = 0, cr_second_port = 0\<rparr>"

section \<open>Response senders of trans.c\<close>

definition send_channel_info_resp :: "int \<Rightarrow> channel_info_resp \<Rightarrow> resp_code \<Rightarrow> 32 word \<Rightarrow> world \<Rightarrow> int \<times> world" where
  "send_channel_info_resp fd resp code flags w = send_msg fd (Ctl (Channel_info_resp (set_status resp code flags))) w"

definition send_validate_resp :: "nat \<Rightarrow> validate_resp \<Rightarrow> resp_code \<Rightarrow> 32 word \<Rightarrow> world \<Rightarrow> int \<times> world" where
  "send_validate_resp i resp code flags w = reply i (Validate_resp (set_status resp code flags)) w"

definition send_append_conn_resp :: "nat \<Rightarrow> append_conn_resp \<Rightarrow> resp_code \<Rightarrow> 32 word \<Rightarrow> world \<Rightarrow> int \<times> world" where
  "send_append_conn_resp i resp code flags w = reply i (Append_conn_resp (set_status resp code flags)) w"

definition send_pwd_resp :: "nat \<Rightarrow> pwd_resp \<Rightarrow> resp_code \<Rightarrow> 32 word \<Rightarrow> world \<Rightarrow> int \<times> world" where
  "send_pwd_resp i resp code flags w = reply i (Pwd_resp (set_status resp code flags)) w"

definition send_cd_resp :: "nat \<Rightarrow> cd_resp \<Rightarrow> resp_code \<Rightarrow> 32 word \<Rightarrow> world \<Rightarrow> int \<times> world" where
  "send_cd_resp i resp code flags w = reply i (Cd_resp (set_status resp code flags)) w"

text \<open>These are called again with the same struct, so they return what the call leaves in it.\<close>

definition send_ll_resp :: "nat \<Rightarrow> ll_resp \<Rightarrow> resp_code \<Rightarrow> 32 word \<Rightarrow> world \<Rightarrow> int \<times> ll_resp \<times> world" where
  "send_ll_resp i resp code flags w =
     (let resp1 = set_status resp code flags; (ret, w1) = reply i (Ll_resp resp1) w in (ret, hton_ll_resp resp1, w1))"

definition send_directcmd_resp ::
    "nat \<Rightarrow> directcmd_resp \<Rightarrow> resp_code \<Rightarrow> 32 word \<Rightarrow> world \<Rightarrow> int \<times> directcmd_resp \<times> world" where
  "send_directcmd_resp i resp code flags w =
     (let resp1 = set_status resp code flags; (ret, w1) = reply i (Directcmd_resp resp1) w
      in (ret, hton_directcmd_resp resp1, w1))"

definition send_who_resp :: "nat \<Rightarrow> who_resp \<Rightarrow> resp_code \<Rightarrow> 32 word \<Rightarrow> world \<Rightarrow> int \<times> who_resp \<times> world" where
  "send_who_resp i resp code flags w =
     (let resp1 = set_status resp code flags; (ret, w1) = reply i (Who_resp resp1) w in (ret, hton_who_resp resp1, w1))"

section \<open>Handlers\<close>

definition validate_user_info :: "env \<Rightarrow> nat \<Rightarrow> validate_req \<Rightarrow> world \<Rightarrow> c_fault + int \<times> world" where
  "validate_user_info e i req w =
     (let resp = zero_validate_resp;
          (ok, text) = check_version (vq_ver req) (server_ver (server w)) (RESP_MESSAGE_MAX_LEN - 1)
      in if ok = -1
         then Inr (send_validate_resp i
                     (resp\<lparr>sr_message := (case text of None \<Rightarrow> sr_message resp | Some t \<Rightarrow> buf_strcpy (sr_message resp) t)\<rparr>)
                     RESP_UVS_BAD_VER 0 w)
         else
           let q = users_db e (get_user_db_file (fs w)); name = buf_string (vq_name req) in
           sbind (find_user_base_by_name q name) (\<lambda>base. sbind (find_user_auth_by_name q name) (\<lambda>auth.
             case base of
               None \<Rightarrow> Inr (send_validate_resp i resp RESP_UVS_NTFD 0 w)
             | Some user_base \<Rightarrow>
                 (case auth of
                    None \<Rightarrow> Inl Null_dereference
                  | Some user_auth \<Rightarrow>
                      if ua_passwd_md5 user_auth \<noteq> buf_string (vq_passwd_md5 req)
                      then Inr (send_validate_resp i resp RESP_UVS_INVALID 0 w)
                      else if \<not> file_existed (fs w) (Some (ub_home_dir user_base))
                      then Inr (send_validate_resp i resp RESP_UVS_MISSHOME 0 w)
                      else
                        let (sid, ids) = gen_session_id (random_letters e) (now w) 32 (session_ids w);
                            w1 = upd_session i (\<lambda>s. s\<lparr>cs_status := ACTIVE, cs_pwd := take 1023 (ub_home_dir user_base),
                                   cs_user := user_base, cs_session_id := sid\<rparr>) w;
                            resp1 = resp\<lparr>sr_status := resp_num RESP_UVS_PASS, sr_flags := REQ_RESP_FLAG_NONE,
                                      va_uid := ucast (ub_uid user_base),
                                      va_name := buf_strncpy (va_name resp) name 31,
                                      va_pwd := buf_strncpy (va_pwd resp) (ub_home_dir user_base) 1023,
                                      va_session_id := buf_strncpy (va_session_id resp) sid 32,
                                      va_connect_id := buf_strncpy (va_connect_id resp)
                                        (connect_id (cs_main_conn (sessions (server w) ! i))) 32\<rparr>;
                            (ret, w2) = reply i (Validate_resp resp1) (w1\<lparr>session_ids := ids\<rparr>)
                        in Inr (if ret = -1 then -1 else 0, w2)))))"

definition handle_pwd_req :: "nat \<Rightarrow> bytes \<Rightarrow> world \<Rightarrow> int \<times> world" where
  "handle_pwd_req i sid w =
     (let client = sessions (server w) ! i in
      if buf_string sid \<noteq> cs_session_id client then send_pwd_resp i zero_pwd_resp RESP_SESSION_INVALID 0 w
      else
        let (ret, w1) = reply i (Pwd_resp (zero_pwd_resp\<lparr>sr_status := resp_num RESP_OK,
                                   pw_pwd := buf_strncpy (zero_bytes 1024) (cs_pwd client) 1024\<rparr>)) w
        in (if ret = -1 then -1 else 0, w1))"

text \<open>\<^verbatim>\<open>chdir\<close> and \<^verbatim>\<open>getcwd\<close> of the process.\<close>

definition chdir :: "fsys \<Rightarrow> string \<Rightarrow> fsys option" where
  "chdir f p = (let k = resolve f p in if dir_at f k \<and> \<not> denied f k then Some (f\<lparr>cwd := k\<rparr>) else None)"

definition cwd_text :: "fsys \<Rightarrow> string" where
  "cwd_text f = (if cwd f = [] then ''/'' else concat (map (\<lambda>n. CHR ''/'' # n) (cwd f)))"

definition handle_cd_req :: "nat \<Rightarrow> bytes \<Rightarrow> world \<Rightarrow> int \<times> world" where
  "handle_cd_req i path w =
     (let buf = simplify_path (take 2047 (cs_pwd (sessions (server w) ! i) @ ''/'' @ buf_string path)) in
      case chdir (fs w) buf of
        None \<Rightarrow> send_cd_resp i zero_cd_resp RESP_CANNOT_CD 0 w
      | Some f1 \<Rightarrow>
          let w1 = w\<lparr>fs := f1\<rparr>; dir = cwd_text f1 in
          if length dir + 1 > 1023 then send_cd_resp i zero_cd_resp RESP_CANNOT_CD 0 w1
          else
            let w2 = upd_session i (\<lambda>s. s\<lparr>cs_pwd := take 1023 dir\<rparr>) w1;
                (ret, w3) = reply i (Cd_resp (zero_cd_resp\<lparr>sr_status := resp_num RESP_OK,
                              cp_pwd := buf_strncpy (zero_bytes 1024) dir 1023\<rparr>)) w2
            in (if ret = -1 then -1 else 0, w3))"

subsection \<open>Listing directories\<close>

definition FILE_TYPE_UNKNOWN :: "32 word" where "FILE_TYPE_UNKNOWN = 0"
definition FILE_ENTRY_MAX_CNT :: nat where "FILE_ENTRY_MAX_CNT = 16"

definition get_top_file_list :: "fsys \<Rightarrow> string \<Rightarrow> string list option" where
  "get_top_file_list f path =
     (if \<not> file_existed f (Some path) \<or> \<not> is_dir f path then None
      else if denied f (resolve f path) then None
      else Some (listing f (resolve f path)))"

definition list_entry :: "fsys \<Rightarrow> string \<Rightarrow> string \<Rightarrow> file_entry \<Rightarrow> file_entry" where
  "list_entry f path name en =
     (let tmp = take 2050 (path @ ''/'' @ name) in
      en\<lparr>fe_name := buf_strncpy (fe_name en) name (FILE_NAME_MAX_LEN - 1),
         fe_type := if is_file f tmp then FILE_TYPE_FILE else if is_dir f tmp then FILE_TYPE_DIR else FILE_TYPE_UNKNOWN\<rparr>)"

fun fill_entries :: "fsys \<Rightarrow> string \<Rightarrow> string list \<Rightarrow> file_entry list \<Rightarrow> file_entry list" where
  "fill_entries f path (n # ns) (en # es) = list_entry f path n en # fill_entries f path ns es"
| "fill_entries f path ns es = es"

function ll_batches :: "nat \<Rightarrow> string \<Rightarrow> string list \<Rightarrow> ll_resp \<Rightarrow> world \<Rightarrow> world" where
  "ll_batches i path names resp w =
     (if names = [] then w
      else
        let batch = take FILE_ENTRY_MAX_CNT names; rest = drop FILE_ENTRY_MAX_CNT names;
            resp1 = resp\<lparr>ll_entries := fill_entries (fs w) path batch (ll_entries resp), ll_this_nr := of_nat (length batch)\<rparr>;
            (ret, resp2, w1) = send_ll_resp i resp1 RESP_OK (if rest \<noteq> [] then 1 else 0) w
        in ll_batches i path rest resp2 w1)"
  by pat_completeness auto
termination
  by (relation "measure (\<lambda>(i, path, names, resp, w). length names)") (auto simp: FILE_ENTRY_MAX_CNT_def)

declare ll_batches.simps [simp del]

text \<open>
  The peer of a forwarded request: checking the user and taking a task connection. The first result is the
  response code of the failure.
\<close>

definition take_peer :: "resp_code \<Rightarrow> logged_in_user \<Rightarrow> world \<Rightarrow> c_fault + (resp_code + nat \<times> nat \<times> logged_in_user) \<times> world" where
  "take_peer busy user w =
     (let (ok, user1) = check_user user (sessions (server w)) in
      if ok = -1 then Inr (Inl RESP_CNT_CHECK_USER, w)
      else sbind (get_peer_task_conn_by_user user1 (sessions (server w))) (\<lambda>(conn, ss).
        let w1 = upd_sessions (\<lambda>_. ss) w in
        case conn of None \<Rightarrow> Inr (Inl busy, w1) | Some (j, k) \<Rightarrow> Inr (Inr (j, k, user1), w1)))"

definition peer_sock :: "nat \<Rightarrow> nat \<Rightarrow> world \<Rightarrow> int" where
  "peer_sock j k w = conn_sock (the (cs_task_conns (sessions (server w) ! j)) ! k)"

definition release_peer :: "nat \<Rightarrow> nat \<Rightarrow> world \<Rightarrow> world" where
  "release_peer j k w = upd_sessions (put_peer_task_conn (j, k)) w"

text \<open>
  What a receive leaves in the packet that the loops below use: a new object, or after a closed
  connection the old one.
\<close>

definition recv_obj :: "int \<Rightarrow> msg option \<Rightarrow> world \<Rightarrow> int \<times> msg option \<times> world" where
  "recv_obj fd obj w =
     (let (ret, m, cn) = ch_recv (chans w fd) in (ret, if ret > 0 then m else obj, set_chan fd cn w))"

fun as_ll_resp :: "msg option \<Rightarrow> c_fault + ll_resp" where
  "as_ll_resp None = Inl Assertion_failed"
| "as_ll_resp (Some (Ctl (Ll_resp r))) = Inr r"
| "as_ll_resp (Some m) = Inl Out_of_bounds"

fun fwd_ll_loop :: "nat \<Rightarrow> nat \<Rightarrow> int \<Rightarrow> msg option \<Rightarrow> world \<Rightarrow> c_fault + int \<times> world" where
  "fwd_ll_loop 0 i peer obj w = Inl No_return"
| "fwd_ll_loop (Suc n) i peer obj w =
     (let (ret, obj1, w1) = recv_obj peer obj w in
      if ret = -1 then Inr (ret, w1)
      else sbind (as_ll_resp obj1) (\<lambda>resp.
        let (_, w2) = reply i (Ll_resp resp) w1; resp1 = hton_ll_resp resp in
        if sr_flags resp1 AND REQ_RESP_FLAG_STOP \<noteq> 0 then Inr (ret, w2)
        else fwd_ll_loop n i peer (Some (Ctl (Ll_resp resp1))) w2))"

definition handle_fwd_ll_req :: "env \<Rightarrow> nat \<Rightarrow> path_req \<Rightarrow> world \<Rightarrow> c_fault + int \<times> world" where
  "handle_fwd_ll_req e i req w =
     sbind (take_peer RESP_CNT_GET_PEER (pq_user req) w) (\<lambda>(peer, w1).
       case peer of
         Inl code \<Rightarrow> let (ret, _, w2) = send_ll_resp i zero_ll_resp code 0 w1 in Inr (ret, w2)
       | Inr (j, k, user) \<Rightarrow>
           let (ret, w2) = send_msg (peer_sock j k w1) (Ctl (Ll_req (req\<lparr>pq_user := user\<rparr>))) w1 in
           if ret = -1
           then (let (ret, _, w3) = send_ll_resp i zero_ll_resp RESP_SEND_PEER_ERR 0 w2 in Inr (ret, release_peer j k w3))
           else sbind (fwd_ll_loop (fuel e) i (peer_sock j k w1) (old_obj e) w2) (\<lambda>(ret, w3). Inr (ret, release_peer j k w3)))"

text \<open>A copied path without a terminator is a fault.\<close>

definition handle_ll_req :: "env \<Rightarrow> nat \<Rightarrow> path_req \<Rightarrow> world \<Rightarrow> c_fault + int \<times> world" where
  "handle_ll_req e i req w =
     (let resp = zero_ll_resp; p = buf_string (pq_path req) in
      if pq_to_peer req \<noteq> 0 then handle_fwd_ll_req e i req w
      else if is_absolute_path (Some p) \<and> length p \<ge> 1023 then Inl Out_of_bounds
      else
        let path = simplify_path (if is_absolute_path (Some p) then p
                                  else take 2048 (cs_pwd (sessions (server w) ! i) @ ''/'' @ p))
        in if \<not> file_existed (fs w) (Some path)
           then (let (ret, _, w1) = send_ll_resp i (resp\<lparr>ll_total := -1\<rparr>) RESP_FILE_NTFD 0 w in Inr (ret, w1))
           else if is_file (fs w) path
           then
             let en = hd (ll_entries resp);
                 en1 = en\<lparr>fe_name := buf_strncpy (fe_name en) (base_name path) (FILE_NAME_MAX_LEN - 1), fe_type := FILE_TYPE_FILE\<rparr>;
                 (ret, _, w1) = send_ll_resp i (resp\<lparr>ll_total := 1, ll_entries := en1 # tl (ll_entries resp)\<rparr>) RESP_OK 0 w
             in Inr (ret, w1)
           else if is_dir (fs w) path
           then
             (case get_top_file_list (fs w) path of
                None \<Rightarrow> let (_, _, w1) = send_ll_resp i (resp\<lparr>ll_total := -1\<rparr>) RESP_INTERNAL_ERR 0 w in Inr (-1, w1)
              | Some file_list \<Rightarrow>
                  Inr (0, ll_batches i path file_list (resp\<lparr>ll_total := of_nat (length file_list)\<rparr>) w))
           else Inr (0, w))"

subsection \<open>Getting files\<close>

definition code_of :: "32 word \<Rightarrow> resp_code option" where
  "code_of n = find (\<lambda>c. resp_num c = n)
     [RESP_OK, RESP_SERVER_EXCEPTION, RESP_CANNOT_CD, RESP_CONTINUE, RESP_UVS_NTFD, RESP_UVS_INVALID, RESP_UVS_MISSHOME,
      RESP_UVS_BLOCK, RESP_UVS_BAD_VER, RESP_UVS_PASS, RESP_CNT_CHECK_USER, RESP_CNT_GET_PEER, RESP_SEND_PEER_ERR,
      RESP_SESSION_INVALID, RESP_FILE_NTFD, RESP_INTERNAL_ERR, RESP_PATH_NOT_ABS, RESP_UNKNOWN_FILE_TYPE,
      RESP_UNKNOWN_CONN_TYPE, RESP_CNT_GET_TASK_CONN, RESP_PEER_BUSYING]"

text \<open>
  The head of a response, as which every other response can be read; a status outside the table of
  texts is read past the end of the table.
\<close>

fun as_head :: "msg option \<Rightarrow> c_fault + status_resp" where
  "as_head None = Inl Assertion_failed"
| "as_head (Some (Common_resp r)) = Inr r"
| "as_head (Some (Put_resp r)) = Inr r"
| "as_head (Some (Get_resp r)) = Inr \<lparr>sr_status = gr_status r, sr_flags = gr_flags r, sr_message = gr_message r\<rparr>"
| "as_head (Some m) = Inl Out_of_bounds"

fun as_get :: "msg option \<Rightarrow> c_fault + get_resp" where
  "as_get None = Inl Assertion_failed"
| "as_get (Some (Get_resp r)) = Inr r"
| "as_get (Some m) = Inl Out_of_bounds"

definition send_get :: "nat \<Rightarrow> get_resp \<Rightarrow> resp_code \<Rightarrow> 32 word \<Rightarrow> world \<Rightarrow> int \<times> get_resp \<times> world" where
  "send_get i resp code flags w =
     (let fd = main_sock_of i w; (ret, resp1, cn) = send_get_resp resp code flags (chans w fd) in (ret, resp1, set_chan fd cn w))"

definition fwd_common_reply :: "int \<Rightarrow> msg option \<Rightarrow> world \<Rightarrow> c_fault + int \<times> msg option \<times> world" where
  "fwd_common_reply peer obj w =
     sbind (as_head obj) (\<lambda>com.
       case code_of (sr_status com) of
         None \<Rightarrow> Inl Out_of_bounds
       | Some code \<Rightarrow>
           let (ret, com1, cn) = send_common_resp com code 0 (chans w peer)
           in Inr (ret, Some (Common_resp com1), set_chan peer cn w))"

fun fwd_get_loop :: "nat \<Rightarrow> nat \<Rightarrow> int \<Rightarrow> msg option \<Rightarrow> world \<Rightarrow> c_fault + int \<times> world" where
  "fwd_get_loop 0 i peer obj w = Inl No_return"
| "fwd_get_loop (Suc n) i peer obj w =
     (let (ret, obj1, w1) = recv_obj peer obj w in
      if ret = -1 then Inr (ret, w1)
      else sbind (as_get obj1) (\<lambda>resp.
        let (ret, resp1, w2) = send_get i resp RESP_OK (gr_flags resp) w1;
            stop = (gr_flags resp1 AND REQ_RESP_FLAG_STOP \<noteq> 0)
        in if gr_need_reply resp1 \<noteq> 0
           then
             let (ret, obj2, w3) = recv_obj (main_sock_of i w2) (Some (Get_resp resp1)) w2 in
             if ret = -1 then Inr (ret, w3)
             else sbind (fwd_common_reply peer obj2 w3) (\<lambda>(ret, obj3, w4).
               if ret = -1 \<or> stop then Inr (ret, w4) else fwd_get_loop n i peer obj3 w4)
           else if stop then Inr (ret, w2)
           else fwd_get_loop n i peer (Some (Get_resp resp1)) w2))"

definition handle_fwd_get_req :: "env \<Rightarrow> nat \<Rightarrow> path_req \<Rightarrow> world \<Rightarrow> c_fault + int \<times> world" where
  "handle_fwd_get_req e i req w =
     sbind (take_peer RESP_PEER_BUSYING (pq_user req) w) (\<lambda>(peer, w1).
       case peer of
         Inl code \<Rightarrow> let (ret, _, w2) = send_get i zero_get_resp code 0 w1 in Inr (ret, w2)
       | Inr (j, k, user) \<Rightarrow>
           let (ret, w2) = send_msg (peer_sock j k w1) (Ctl (Get_req (req\<lparr>pq_user := user\<rparr>))) w1 in
           if ret = -1
           then (let (ret, _, w3) = send_get i zero_get_resp RESP_SEND_PEER_ERR 0 w2 in Inr (ret, release_peer j k w3))
           else sbind (fwd_get_loop (fuel e) i (peer_sock j k w1) (old_obj e) w2) (\<lambda>(ret, w3). Inr (ret, release_peer j k w3)))"

definition handle_get_req :: "env \<Rightarrow> nat \<Rightarrow> path_req \<Rightarrow> world \<Rightarrow> c_fault + int \<times> world" where
  "handle_get_req e i req w =
     (let path = buf_string (pq_path req) in
      if pq_to_peer req \<noteq> 0 then handle_fwd_get_req e i req w
      else if length path \<ge> FILE_NAME_MAX_LEN then Inl Out_of_bounds
      else if \<not> is_absolute_path (Some path)
      then (let (ret, _, w1) = send_get i zero_get_resp RESP_PATH_NOT_ABS 0 w in Inr (ret, w1))
      else if \<not> file_existed (fs w) (Some path)
      then (let (ret, _, w1) = send_get i zero_get_resp RESP_FILE_NTFD 0 w in Inr (ret, w1))
      else
        let fd = main_sock_of i w in
        sbind (send_files_by_get_resp (fuel e) (stack_junk e) (fs w) path zero_get_resp (chans w fd)) (\<lambda>(ret, _, cn).
          Inr (ret, set_chan fd cn w)))"

subsection \<open>Putting files\<close>

definition send_put :: "nat \<Rightarrow> status_resp \<Rightarrow> resp_code \<Rightarrow> 32 word \<Rightarrow> world \<Rightarrow> int \<times> status_resp \<times> world" where
  "send_put i resp code flags w =
     (let fd = main_sock_of i w; (ret, resp1, cn) = send_put_resp resp code flags (chans w fd) in (ret, resp1, set_chan fd cn w))"

definition fwd_put_reply :: "nat \<Rightarrow> msg option \<Rightarrow> world \<Rightarrow> c_fault + int \<times> msg option \<times> world" where
  "fwd_put_reply i obj w =
     sbind (as_head obj) (\<lambda>resp.
       case code_of (sr_status resp) of
         None \<Rightarrow> Inl Out_of_bounds
       | Some code \<Rightarrow> let (ret, resp1, w1) = send_put i resp code 0 w in Inr (ret, Some (Put_resp resp1), w1))"

fun as_put :: "msg option \<Rightarrow> c_fault + put_req" where
  "as_put None = Inl Null_dereference"
| "as_put (Some (Put_req r)) = Inr r"
| "as_put (Some m) = Inl Out_of_bounds"

text \<open>
  \<open>obj\<close> is the object of the response packet. A request that was received anew is sent in the next round
  whatever its flags are: the condition of the loop looks at the request before it.
\<close>

fun fwd_put_loop :: "nat \<Rightarrow> nat \<Rightarrow> int \<Rightarrow> put_req \<Rightarrow> msg option \<Rightarrow> world \<Rightarrow> c_fault + int \<times> world" where
  "fwd_put_loop 0 i peer req obj w = Inl No_return"
| "fwd_put_loop (Suc n) i peer req obj w =
     (let (ret, w1) = send_msg peer (Put_req req) w; req1 = hton_put_req req in
      if ret = -1 then Inr (ret, w1)
      else
        let next = (\<lambda>ret obj2 w2.
              if pr_flags req1 AND REQ_RESP_FLAG_STOP \<noteq> 0 then Inr (ret, w2)
              else
                let (ret, m, w3) = recv_obj (main_sock_of i w2) (Some (Put_req req1)) w2 in
                if ret = -1 then Inr (ret, w3)
                else sbind (as_put m) (\<lambda>req2. fwd_put_loop n i peer req2 obj2 w3))
        in if pr_need_reply req1 \<noteq> 0
           then
             let (ret, obj1, w2) = recv_obj peer obj w1 in
             if ret = -1 then Inr (ret, w2)
             else sbind (fwd_put_reply i obj1 w2) (\<lambda>(ret, obj2, w3). next ret obj2 w3)
           else next ret obj w1)"

definition handle_fwd_put_req :: "env \<Rightarrow> nat \<Rightarrow> put_req \<Rightarrow> world \<Rightarrow> c_fault + int \<times> world" where
  "handle_fwd_put_req e i req w =
     sbind (take_peer RESP_PEER_BUSYING (pr_user req) w) (\<lambda>(peer, w1).
       case peer of
         Inl code \<Rightarrow> let (ret, _, w2) = send_put i zero_status_resp code 0 w1 in Inr (ret, w2)
       | Inr (j, k, user) \<Rightarrow>
           sbind (fwd_put_loop (fuel e) i (peer_sock j k w1) (req\<lparr>pr_user := user\<rparr>) (old_obj e) w1) (\<lambda>(ret, w2).
             Inr (ret, release_peer j k w2)))"

definition handle_put_req :: "env \<Rightarrow> nat \<Rightarrow> put_req \<Rightarrow> world \<Rightarrow> c_fault + int \<times> world" where
  "handle_put_req e i req w =
     (if pr_to_peer req \<noteq> 0 then handle_fwd_put_req e i req w
      else
        let fd = main_sock_of i w in
        sbind (recv_files_from_put_req (stack_junk e) req zero_status_resp (fs w) (chans w fd)) (\<lambda>(ret, f1, cn).
          Inr (ret, set_chan fd cn (w\<lparr>fs := f1\<rparr>))))"

subsection \<open>Commands, statistics, users\<close>

text \<open>
  The loop that reads the output of the command: up to 4095 bytes at once into a member of 1024. The counter is
  compared with the total in the struct as the last send left it.
\<close>

fun directcmd_loop :: "nat \<Rightarrow> nat \<Rightarrow> bytes \<Rightarrow> int \<Rightarrow> directcmd_resp \<Rightarrow> world \<Rightarrow> c_fault + world" where
  "directcmd_loop 0 i rest total_len resp w = Inl No_return"
| "directcmd_loop (Suc n) i rest total_len resp w =
     (let bs = take 4095 rest in
      if length bs > length (dc_content resp) then Inl Out_of_bounds
      else
        let resp1 = resp\<lparr>dc_content := bs @ drop (length bs) (dc_content resp), dc_this_len := of_nat (length bs)\<rparr>;
            total_len = total_len + int (length bs);
            (ret, resp2, w1) = send_directcmd_resp i resp1 RESP_OK 1 w
        in if total_len < sint (dc_total_len resp2) then directcmd_loop n i (drop 4095 rest) total_len resp2 w1
           else Inr w1)"

definition unlink :: "fsys \<Rightarrow> string \<Rightarrow> fsys" where
  "unlink f p = f\<lparr>nodes := (nodes f)(resolve f p := None)\<rparr>"

definition handle_directcmd_req :: "env \<Rightarrow> nat \<Rightarrow> bytes \<Rightarrow> world \<Rightarrow> c_fault + int \<times> world" where
  "handle_directcmd_req e i cmd w =
     (case mkstemp e (fs w) of
        None \<Rightarrow> let (ret, _, w1) = send_directcmd_resp i zero_directcmd_resp RESP_INTERNAL_ERR 0 w in Inr (ret, w1)
      | Some (temp_file, f1) \<Rightarrow>
          let f2 = shell e (take 1281 (buf_string cmd @ '' > '' @ temp_file)) f1; w1 = w\<lparr>fs := f2\<rparr> in
          case fopen_r f2 temp_file of
            None \<Rightarrow> let (ret, _, w2) = send_directcmd_resp i zero_directcmd_resp RESP_INTERNAL_ERR 0 w1 in Inr (ret, w2)
          | Some output \<Rightarrow>
              sbind (directcmd_loop (fuel e) i output 0
                       (zero_directcmd_resp\<lparr>dc_total_len := of_nat (file_size f2 temp_file)\<rparr>) w1) (\<lambda>w2.
                Inr (0, w2\<lparr>fs := unlink (fs w2) temp_file\<rparr>)))"

definition handle_mp_stat_req :: "env \<Rightarrow> nat \<Rightarrow> world \<Rightarrow> int \<times> world" where
  "handle_mp_stat_req e i w =
     reply i (Mp_stat_resp (zero_mp_stat_resp\<lparr>ms_total_size := ucast (mem_pool_stat.total_size (pool_stat e)),
       ms_total_nodes := total_nodes (pool_stat e), ms_using_nodes := using_nodes (pool_stat e),
       ms_free_nodes := free_nodes (pool_stat e)\<rparr>)) w"

definition LOGGED_IN_USER_MAX_CNT :: nat where "LOGGED_IN_USER_MAX_CNT = 32"

function who_batches :: "nat \<Rightarrow> int \<Rightarrow> logged_in_user list \<Rightarrow> nat \<Rightarrow> who_resp \<Rightarrow> world \<Rightarrow> int \<times> world" where
  "who_batches i ret us tot resp w =
     (if us = [] then (ret, w)
      else
        let batch = take LOGGED_IN_USER_MAX_CNT us; rest = drop LOGGED_IN_USER_MAX_CNT us;
            resp1 = resp\<lparr>wh_total := of_nat tot, wh_this_nr := of_nat (length batch),
                         wh_users := batch @ drop (length batch) (wh_users resp)\<rparr>;
            (ret, resp2, w1) = send_who_resp i resp1 RESP_OK (if rest \<noteq> [] then 1 else 0) w
        in who_batches i ret rest tot resp2 w1)"
  by pat_completeness auto
termination
  by (relation "measure (\<lambda>(i, ret, us, tot, resp, w). length us)") (auto simp: LOGGED_IN_USER_MAX_CNT_def)

declare who_batches.simps [simp del]

definition handle_who_req :: "nat \<Rightarrow> world \<Rightarrow> int \<times> world" where
  "handle_who_req i w =
     (let us = get_logged_in_users (sessions (server w)) in
      if us = [] then (let (ret, _, w1) = send_who_resp i zero_who_resp RESP_INTERNAL_ERR 0 w in (ret, w1))
      else who_batches i 0 us (length us) zero_who_resp w)"

definition handle_write_req :: "nat \<Rightarrow> write_req \<Rightarrow> world \<Rightarrow> c_fault + int \<times> world" where
  "handle_write_req i req w =
     sbind (take_peer RESP_CNT_GET_PEER (wq_user req) w) (\<lambda>(peer, w1).
       case peer of
         Inl _ \<Rightarrow> Inr (-1, w1)
       | Inr (j, k, user) \<Rightarrow>
           let (ret, w2) = send_msg (peer_sock j k w1) (Ctl (Write_req (req\<lparr>wq_user := user\<rparr>))) w1
           in Inr (0, release_peer j k w2))"

subsection \<open>Further connections\<close>

definition handle_append_conn_req :: "nat \<Rightarrow> append_conn_req \<Rightarrow> world \<Rightarrow> c_fault + int \<times> world" where
  "handle_append_conn_req i req w =
     (if aq_type req \<noteq> conn_code CONN_TYPE_TASK then Inr (-1, w)
      else
        (case find_client_session_by_id (aq_session_id req) (sessions (server w)) of
           None \<Rightarrow> Inr (-1, w)
         | Some j \<Rightarrow>
             let conn = (cs_main_conn (sessions (server w) ! i))\<lparr>conn_type := CONN_TYPE_TASK, is_using := False,
                          is_updating := False\<rparr>
             in case cs_task_conns (sessions (server w) ! j) of
                  None \<Rightarrow> Inl Null_dereference
                | Some _ \<Rightarrow>
                    let w1 = upd_session j (upd_task_conns (\<lambda>cs. conn # cs)) w
                    in Inr (send_append_conn_resp i
                              (zero_append_conn_resp\<lparr>ac_connect_id := buf_strncpy (zero_bytes 32) (connect_id conn) 32\<rparr>)
                              RESP_OK 0 w1)))"

definition handle_reconnect_req :: "nat \<Rightarrow> bytes \<Rightarrow> bytes \<Rightarrow> world \<Rightarrow> c_fault + int \<times> world" where
  "handle_reconnect_req i sid cid w =
     (case find_client_session_by_id sid (sessions (server w)) of
        None \<Rightarrow> Inr (-1, w)
      | Some j \<Rightarrow>
          sbind (find_connect_by_id (sessions (server w) ! j) cid) (\<lambda>conn.
            case conn of
              None \<Rightarrow> Inr (-1, w)
            | Some r \<Rightarrow>
                let fd = main_sock_of i w
                in Inr (0, upd_session j (upd_conn r (\<lambda>c. c\<lparr>conn_sock := fd, is_updating := False\<rparr>)) w)))"

section \<open>Sessions\<close>

text \<open>What follows a request: the next one, or the end of the session, with or without closing its socket.\<close>

datatype after = Stay | Leave bool

definition stay :: "int \<times> world \<Rightarrow> c_fault + after \<times> world" where
  "stay r = Inr (Stay, snd r)"

fun dispatch :: "env \<Rightarrow> nat \<Rightarrow> msg \<Rightarrow> world \<Rightarrow> c_fault + after \<times> world" where
  "dispatch e i (Ctl (Validate_req r)) w =
     sbind (validate_user_info e i r w) (\<lambda>(ret, w1). Inr (if ret = -1 then Leave True else Stay, w1))"
| "dispatch e i (Ctl (Append_conn_req r)) w = sbind (handle_append_conn_req i r w) (\<lambda>(_, w1). Inr (Leave False, w1))"
| "dispatch e i (Ctl (Pwd_req sid)) w = stay (handle_pwd_req i sid w)"
| "dispatch e i (Ctl (Cd_req sid path)) w = stay (handle_cd_req i path w)"
| "dispatch e i (Ctl (Ll_req r)) w = sbind (handle_ll_req e i r w) stay"
| "dispatch e i (Put_req r) w = sbind (handle_put_req e i r w) stay"
| "dispatch e i (Ctl (Get_req r)) w = sbind (handle_get_req e i r w) stay"
| "dispatch e i (Ctl (Mp_stat_req sid)) w = stay (handle_mp_stat_req e i w)"
| "dispatch e i (Ctl (Directcmd_req sid cmd)) w = sbind (handle_directcmd_req e i cmd w) stay"
| "dispatch e i (Ctl (Who_req sid)) w = stay (handle_who_req i w)"
| "dispatch e i (Ctl (Write_req r)) w = sbind (handle_write_req i r w) stay"
| "dispatch e i (Ctl (Reconnect_req sid cid)) w = sbind (handle_reconnect_req i sid cid w) (\<lambda>(_, w1). Inr (Leave False, w1))"
| "dispatch e i m w = Inr (Stay, w)"

definition set_main_using :: "bool \<Rightarrow> nat \<Rightarrow> world \<Rightarrow> world" where
  "set_main_using b i w = upd_session i (upd_conn Main_conn (\<lambda>c. c\<lparr>is_using := b\<rparr>)) w"

definition leave :: "bool \<Rightarrow> nat \<Rightarrow> world \<Rightarrow> world" where
  "leave need_close i w =
     (let w1 = (if need_close then w\<lparr>open_socks := removeAll (main_sock_of i w) (open_socks w)\<rparr> else w)
      in upd_session i (\<lambda>_. put_session) w1)"

text \<open>One round of the loop of \<^verbatim>\<open>handle_client_session\<close>.\<close>

definition handle_client_session :: "env \<Rightarrow> nat \<Rightarrow> world \<Rightarrow> c_fault + world" where
  "handle_client_session e i w =
     (let (ret, m, w1) = recv_obj (main_sock_of i w) None (set_main_using True i w) in
      case m of
        None \<Rightarrow> Inr (leave True i w1)
      | Some r \<Rightarrow>
          sbind (dispatch e i r w1) (\<lambda>(a, w2).
            case a of Stay \<Rightarrow> Inr (set_main_using False i w2) | Leave need_close \<Rightarrow> Inr (leave need_close i w2)))"

text \<open>
  One round of \<^verbatim>\<open>second_channel_loop\<close>, for a socket \<open>fd\<close> that \<^verbatim>\<open>accept\<close> returned and a peer \<open>ip\<close>, \<open>port\<close>;
  \<open>launched\<close> says whether a thread could be started for the session.
\<close>

definition second_channel_accept :: "int \<Rightarrow> string \<Rightarrow> int \<Rightarrow> bool \<Rightarrow> world \<Rightarrow> world" where
  "second_channel_accept fd ip port launched w =
     (case get_new_session (sessions (server w)) of
        None \<Rightarrow> w
      | Some (i, ss) \<Rightarrow>
          let (cid, ids) = gen_connect_id (now w) 32 (connect_ids_st w);
              w1 = upd_session i (\<lambda>s. s\<lparr>cs_ip := take 15 ip,
                     cs_main_conn := (cs_main_conn s)\<lparr>conn_sock := fd, conn_port := port, conn_type := CONN_TYPE_CTRL,
                       connect_id := cid\<rparr>, cs_status := if launched then ACTIVE else DISCONNECTED\<rparr>)
                   (upd_sessions (\<lambda>_. ss) w)
          in w1\<lparr>connect_ids_st := ids, open_socks := fd # open_socks w\<rparr>)"

definition respond_channel_info :: "int \<Rightarrow> world \<Rightarrow> world" where
  "respond_channel_info fd w =
     snd (send_channel_info_resp fd (zero_channel_info_resp\<lparr>cr_main_port := word_of_int (main_port (server w)),
       cr_second_port := word_of_int (second_port (server w))\<rparr>) RESP_OK REQ_RESP_FLAG_NONE w)"

section \<open>The update of the port\<close>

text \<open>One struct is sent to all task connections; each send converts it in place.\<close>

fun notify_conns :: "client_sock_conn list \<Rightarrow> 32 word \<Rightarrow> int \<Rightarrow> world \<Rightarrow> 32 word \<times> int \<times> world" where
  "notify_conns [] p ret w = (p, ret, w)"
| "notify_conns (c # cs) p ret w =
     (let (tmp, w1) = send_msg (conn_sock c) (Ctl (Port_update_req p)) w
      in notify_conns cs (htonl p) (if tmp = -1 then tmp else ret) w1)"

definition task_conns_of :: "client_session list \<Rightarrow> client_sock_conn list" where
  "task_conns_of ss = concat (map (\<lambda>s. if client_connected s then (case cs_task_conns s of None \<Rightarrow> [] | Some cs \<Rightarrow> cs) else []) ss)"

definition notify_client_after_updating :: "world \<Rightarrow> int \<times> world" where
  "notify_client_after_updating w =
     (let (_, ret, w1) = notify_conns (task_conns_of (sessions (server w))) (word_of_int (second_port (server w))) 0 w in (ret, w1))"

text \<open>One round of \<^verbatim>\<open>port_update_loop\<close>; \<open>port\<close> is the random port and \<open>fd\<close> its new socket, or -1.\<close>

definition port_update_round :: "int \<Rightarrow> int \<Rightarrow> world \<Rightarrow> c_fault + world" where
  "port_update_round port fd w =
     (if \<not> need_update_port (now w) (last_update_ts (server w)) then Inr w
      else sbind (can_update_port (sessions (server w))) (\<lambda>can.
        if \<not> can then Inr w
        else if main_port (server w) = port \<or> second_port (server w) = port then Inr w
        else if fd = -1 then Inr w
        else
          let old = second_sock (server w);
              w1 = upd_sessions set_all_conns_updating w;
              w2 = w1\<lparr>server := (server w1)\<lparr>second_port := port, second_sock := fd\<rparr>,
                      open_socks := fd # removeAll old (open_socks w1)\<rparr>;
              (_, w3) = notify_client_after_updating w2
          in Inr (w3\<lparr>server := (server w3)\<lparr>last_update_ts := now w3\<rparr>\<rparr>)))"

end
