(* ===== verification/Sftt_Service.thy ===== *)
theory Sftt_Service
  imports Sftt_Server "HOL-Library.Multiset"
begin

text \<open>
  Properties of the server. The sockets that the table of sessions holds are kept distinct and open by every
  step (\<open>server_step\<close>), whatever clients send; listings and lists of users are complete; the conversion of
  structs in place makes forwarding miss the end of a transfer and every second client miss a new port.
\<close>

section \<open>The sockets of a state\<close>

text \<open>What the table says about sockets; only connected sessions count.\<close>

definition sview :: "client_session \<Rightarrow> (int \<times> int list option \<times> bool) option" where
  "sview s =
     (if client_connected s
      then Some (conn_sock (cs_main_conn s), map_option (map conn_sock) (cs_task_conns s), cs_lock s) else None)"

definition view :: "world \<Rightarrow> int \<times> int list \<times> (int \<times> int list option \<times> bool) option list" where
  "view w = (second_sock (server w), open_socks w, map sview (sessions (server w)))"

named_theorems view_simps \<open>operations that leave the sockets of a state as they are\<close>

lemma view_set_chan [simp, view_simps]: "view (set_chan fd cn w) = view w"
  by (simp add: view_def set_chan_def)

lemma view_fs [simp, view_simps]: "view (w\<lparr>fs := f\<rparr>) = view w" "view (w\<lparr>session_ids := st\<rparr>) = view w"
  "view (w\<lparr>connect_ids_st := st\<rparr>) = view w" "view (w\<lparr>now := t\<rparr>) = view w" "view (w\<lparr>chans := c\<rparr>) = view w"
  by (simp_all add: view_def)

lemma view_send_msg [simp]: "send_msg fd m w = (ret, w') \<Longrightarrow> view w' = view w"
  by (auto simp: send_msg_def split: prod.splits)

lemma view_reply [simp]: "reply i c w = (ret, w') \<Longrightarrow> view w' = view w"
  by (auto simp: reply_def)

lemma view_recv_obj [simp]: "recv_obj fd obj w = (ret, m, w') \<Longrightarrow> view w' = view w"
  by (auto simp: recv_obj_def split: prod.splits)

lemma list_update_map_same: "i < length xs \<longrightarrow> f y = f (xs ! i) \<Longrightarrow> map f (xs[i := y]) = map f xs"
  by (cases "i < length xs") (auto simp: map_update list_update_beyond intro: list_update_same_conv [THEN iffD2])

lemma view_upd_session:
  "i < length (sessions (server w)) \<longrightarrow> sview (f (sessions (server w) ! i)) = sview (sessions (server w) ! i) \<Longrightarrow>
     view (upd_session i f w) = view w"
  by (simp add: view_def upd_session_def upd_sessions_def list_update_map_same)

lemma sview_upd_conn [simp]:
  "(\<And>c. conn_sock (f c) = conn_sock c) \<Longrightarrow> sview (upd_conn r f s) = sview s"
proof (cases r)
  case (Task_conn k)
  assume "\<And>c. conn_sock (f c) = conn_sock c"
  then have "map conn_sock (cs[k := f (cs ! k)]) = map conn_sock cs" for cs
    by (intro list_update_map_same) simp
  then show ?thesis
    by (simp add: Task_conn sview_def upd_task_conns_def option.map_comp comp_def)
qed (simp add: sview_def)

lemma sview_task_conn_using [simp]: "sview (upd_conn (Task_conn k) (\<lambda>c. c\<lparr>is_using := b\<rparr>) s) = sview s"
  by (rule sview_upd_conn) simp

lemma view_set_main_using [simp, view_simps]: "view (set_main_using b i w) = view w"
  unfolding set_main_using_def by (intro view_upd_session impI sview_upd_conn) simp

lemma view_release_peer [simp, view_simps]: "view (release_peer j k w) = view w"
proof -
  have "release_peer j k w = upd_session j (upd_conn (Task_conn k) (\<lambda>c. c\<lparr>is_using := False\<rparr>)) w"
    by (simp add: release_peer_def upd_session_def upd_sessions_def put_peer_task_conn_def)
  then show ?thesis
    by (simp only:) (intro view_upd_session impI sview_task_conn_using)
qed

lemma get_peer_view:
  assumes "get_peer_task_conn_by_user u ss = Inr (r, ss')"
  shows "map sview ss' = map sview ss"
proof (cases "find_client_session_by_id (lu_session_id u) ss")
  case (Some i)
  have "sview s' = sview s" if "get_peer_task_conn_by_session s = Inr (k, s')" for s k s'
    using that by (auto simp: get_peer_task_conn_by_session_def split: option.splits if_splits simp del: upd_conn.simps)
  then show ?thesis
    using assms Some by (auto simp: get_peer_task_conn_by_user_def intro!: list_update_map_same)
qed (use assms in \<open>simp add: get_peer_task_conn_by_user_def\<close>)

lemma view_take_peer: "take_peer code u w = Inr (r, w') \<Longrightarrow> view w' = view w"
  by (auto simp: take_peer_def view_def upd_sessions_def get_peer_view Let_def split: prod.splits if_splits option.splits)

section \<open>Handlers that keep the sockets\<close>

abbreviation keeps_view :: "world \<Rightarrow> c_fault + int \<times> world \<Rightarrow> bool" where
  "keeps_view w r \<equiv> yields r (\<lambda>p. view (snd p) = view w)"

lemma view_send_resp [view_simps]:
  "view (snd (send_msg fd m w)) = view w"
  "view (snd (reply i c w)) = view w"
  "view (snd (send_validate_resp i vr code flags w)) = view w"
  "view (snd (send_pwd_resp i pr code flags w)) = view w"
  "view (snd (send_cd_resp i cr code flags w)) = view w"
  "view (snd (send_append_conn_resp i ar code flags w)) = view w"
  "view (snd (send_channel_info_resp fd hr code flags w)) = view w"
  "view (snd (snd (send_ll_resp i lr code flags w))) = view w"
  "view (snd (snd (send_directcmd_resp i dr code flags w))) = view w"
  "view (snd (snd (send_who_resp i wr code flags w))) = view w"
  "view (snd (snd (send_get i gr code flags w))) = view w"
  "view (snd (snd (send_put i sr code flags w))) = view w"
  by (simp_all add: send_msg_def reply_def send_validate_resp_def send_pwd_resp_def send_cd_resp_def send_append_conn_resp_def
      send_channel_info_resp_def send_ll_resp_def send_directcmd_resp_def send_who_resp_def send_get_def send_put_def Let_def
      split_beta)

lemma view_recv [view_simps]: "view (snd (snd (recv_obj fd obj w))) = view w"
  by (simp add: recv_obj_def Let_def split_beta)

lemma view_pwd: "view (snd (handle_pwd_req i sid w)) = view w"
  by (simp add: handle_pwd_req_def Let_def split_beta view_simps)

lemma view_cd: "view (snd (handle_cd_req i path w)) = view w"
proof -
  have "view (upd_session i (\<lambda>s. s\<lparr>cs_pwd := p\<rparr>) w') = view w'" for p w'
    by (rule view_upd_session) (simp add: sview_def)
  then show ?thesis
    by (simp add: handle_cd_req_def Let_def split_beta view_simps split: option.split)
qed

lemma view_ll_batches: "view (ll_batches i path names resp w) = view w"
proof (induction "length names" arbitrary: names resp w rule: less_induct)
  case less
  have "names \<noteq> [] \<Longrightarrow> view (ll_batches i path (drop FILE_ENTRY_MAX_CNT names) r w') = view w'" for r w'
    by (rule less) (simp add: FILE_ENTRY_MAX_CNT_def)
  then show ?case
    by (subst ll_batches.simps) (simp add: Let_def split_beta view_simps del: drop_eq_Nil)
qed

lemma view_who_batches: "view (snd (who_batches i ret us tot resp w)) = view w"
proof (induction "length us" arbitrary: ret us resp w rule: less_induct)
  case less
  have "us \<noteq> [] \<Longrightarrow> view (snd (who_batches i r (drop LOGGED_IN_USER_MAX_CNT us) tot resp' w')) = view w'" for r resp' w'
    by (rule less) (simp add: LOGGED_IN_USER_MAX_CNT_def)
  then show ?case
    by (subst who_batches.simps) (simp add: Let_def split_beta view_simps del: drop_eq_Nil)
qed

lemma view_who: "view (snd (handle_who_req i w)) = view w"
  by (simp add: handle_who_req_def Let_def split_beta view_simps view_who_batches)

lemma view_mp_stat: "view (snd (handle_mp_stat_req e i w)) = view w"
  by (simp add: handle_mp_stat_req_def view_simps)

lemma view_validate:
  assumes "client_connected (sessions (server w) ! i)"
  shows "keeps_view w (validate_user_info e i req w)"
proof -
  have u: "view (upd_session i (\<lambda>s. s\<lparr>cs_status := ACTIVE, cs_pwd := p, cs_user := u, cs_session_id := sid\<rparr>) w) = view w" for p u sid
    by (rule view_upd_session) (use assms in \<open>simp add: sview_def\<close>)
  show ?thesis
    unfolding validate_user_info_def Let_def
    by (auto simp: split_beta view_simps u split: option.split intro!: yields_sbindI)
qed

lemma view_fwd_ll_loop: "keeps_view w (fwd_ll_loop n i peer obj w)"
proof (induction n arbitrary: obj w)
  case (Suc n)
  have "keeps_view w (fwd_ll_loop n i peer obj' w')" if "view w' = view w" for obj' w'
    using Suc [of obj' w'] that by (auto simp: yields_def)
  then show ?case
    by (auto simp: Let_def split_beta view_simps intro!: yields_sbindI split del: if_split split: if_split)
qed simp

lemma view_fwd_common: "fwd_common_reply peer obj w = Inr (ret, obj', w') \<Longrightarrow> view w' = view w"
  by (auto simp: fwd_common_reply_def split_beta Let_def split: option.splits)

lemma view_fwd_put_reply: "fwd_put_reply i obj w = Inr (ret, obj', w') \<Longrightarrow> view w' = view w"
  by (auto simp: fwd_put_reply_def split_beta Let_def view_simps split: option.splits)

lemma view_fwd_get_loop: "keeps_view w (fwd_get_loop n i peer obj w)"
proof (induction n arbitrary: obj w)
  case (Suc n)
  have IH: "keeps_view w (fwd_get_loop n i peer obj' w')" if "view w' = view w" for obj' w'
    using Suc [of obj' w'] that by (auto simp: yields_def)
  show ?case
    by (auto simp: Let_def split_beta view_simps view_fwd_common intro!: yields_sbindI IH split del: if_split split: if_split)
qed simp

lemma view_fwd_put_loop: "keeps_view w (fwd_put_loop n i peer req obj w)"
proof (induction n arbitrary: req obj w)
  case (Suc n)
  have IH: "keeps_view w (fwd_put_loop n i peer req' obj' w')" if "view w' = view w" for req' obj' w'
    using Suc [of req' obj' w'] that by (auto simp: yields_def)
  show ?case
    by (auto simp: Let_def split_beta view_simps view_fwd_put_reply intro!: yields_sbindI IH split del: if_split split: if_split)
qed simp

lemma view_directcmd_loop: "yields (directcmd_loop n i rest tot resp w) (\<lambda>w'. view w' = view w)"
proof (induction n arbitrary: rest tot resp w)
  case (Suc n)
  have IH: "yields (directcmd_loop n i rest' tot' resp' w') (\<lambda>w'. view w' = view w)" if "view w' = view w" for rest' tot' resp' w'
    using Suc [of rest' tot' resp' w'] that by (auto simp: yields_def)
  show ?case
    by (auto simp: Let_def split_beta view_simps intro!: IH)
qed simp

lemma view_directcmd: "keeps_view w (handle_directcmd_req e i cmd w)"
proof -
  have "yields (sbind (directcmd_loop n i rest tot resp w1) (\<lambda>w2. Inr (0 :: int, w2\<lparr>fs := unlink (fs w2) t\<rparr>)))
      (\<lambda>p. view (snd p) = view w)" if "view w1 = view w" for n rest tot resp w1 t
    by (rule yields_sbindI) (use yieldsD [OF view_directcmd_loop] that in \<open>auto simp: view_simps\<close>)
  then show ?thesis
    by (simp add: handle_directcmd_req_def Let_def split_beta view_simps split: option.split)
qed

lemma keeps_view_release:
  "keeps_view w m \<Longrightarrow> keeps_view w (sbind m (\<lambda>(ret, w2). Inr (ret, release_peer j k w2)))"
  by (auto simp: yields_def view_simps)

lemma keeps_view_trans: "view w1 = view w \<Longrightarrow> keeps_view w1 m \<Longrightarrow> keeps_view w m"
  by (auto simp: yields_def)

lemma keeps_view_peer:
  "(\<And>p w1. view w1 = view w \<Longrightarrow> keeps_view w (g p w1)) \<Longrightarrow> keeps_view w (sbind (take_peer c u w) (\<lambda>(p, w1). g p w1))"
  by (rule yields_sbindI) (auto dest: view_take_peer)

lemma view_fwd_ll: "keeps_view w (handle_fwd_ll_req e i req w)"
  unfolding handle_fwd_ll_req_def
  by (rule keeps_view_peer)
    (auto simp: Let_def view_simps split: sum.split prod.split 
      intro!: keeps_view_release keeps_view_trans [OF _ view_fwd_ll_loop]
      dest: view_send_msg arg_cong [where f = "\<lambda>r. view (snd (snd r))"])

lemma view_fwd_get: "keeps_view w (handle_fwd_get_req e i req w)"
  unfolding handle_fwd_get_req_def
  by (rule keeps_view_peer)
    (auto simp: Let_def view_simps split: sum.split prod.split 
      intro!: keeps_view_release keeps_view_trans [OF _ view_fwd_get_loop]
      dest: view_send_msg arg_cong [where f = "\<lambda>r. view (snd (snd r))"])

lemma view_fwd_put: "keeps_view w (handle_fwd_put_req e i req w)"
  unfolding handle_fwd_put_req_def
  by (rule keeps_view_peer)
    (auto simp: Let_def view_simps split: sum.split prod.split 
      intro!: keeps_view_release keeps_view_trans [OF _ view_fwd_put_loop]
      dest: arg_cong [where f = "\<lambda>r. view (snd (snd r))"])

lemma view_write: "keeps_view w (handle_write_req i req w)"
  unfolding handle_write_req_def
  by (rule keeps_view_peer) (auto simp: Let_def view_simps split: sum.split prod.split dest: view_send_msg)

lemma view_ll: "keeps_view w (handle_ll_req e i req w)"
  by (simp add: handle_ll_req_def Let_def split_beta view_simps view_fwd_ll view_ll_batches split: option.split)

lemma view_get: "keeps_view w (handle_get_req e i req w)"
  by (auto simp: handle_get_req_def Let_def split_beta view_simps view_fwd_get intro!: yields_sbindI)

lemma view_put: "keeps_view w (handle_put_req e i req w)"
  by (auto simp: handle_put_req_def Let_def split_beta view_simps view_fwd_put intro!: yields_sbindI)

section \<open>The invariant\<close>

fun vsocks :: "(int \<times> int list option \<times> bool) option \<Rightarrow> int list" where
  "vsocks None = []"
| "vsocks (Some (m, ts, l)) = m # (case ts of None \<Rightarrow> [] | Some t \<Rightarrow> t)"

definition entry_ok :: "(int \<times> int list option \<times> bool) option \<Rightarrow> bool" where
  "entry_ok v \<longleftrightarrow> (case v of None \<Rightarrow> True | Some (m, ts, l) \<Rightarrow> ts \<noteq> None \<and> l)"

text \<open>
  The table has 32 entries; the sockets of the connected sessions and the listening socket are distinct and
  open; a connected session has its list of task connections and its lock.
\<close>

definition view_ok :: "int \<times> int list \<times> (int \<times> int list option \<times> bool) option list \<Rightarrow> bool" where
  "view_ok v = (case v of (s2, os, vs) \<Rightarrow>
     length vs = MAX_CLIENT_NUM \<and> distinct (s2 # concat (map vsocks vs))
     \<and> set (s2 # concat (map vsocks vs)) \<subseteq> set os \<and> list_all entry_ok vs)"

definition server_ok :: "world \<Rightarrow> bool" where
  "server_ok w \<longleftrightarrow> view_ok (view w)"

abbreviation socks_mset :: "(int \<times> int list option \<times> bool) option list \<Rightarrow> int multiset" where
  "socks_mset vs \<equiv> mset (concat (map vsocks vs))"

lemma socks_mset_update:
  "k < length vs \<Longrightarrow> socks_mset (vs[k := v]) + mset (vsocks (vs ! k)) = socks_mset vs + mset (vsocks v)"
proof (induction vs arbitrary: k)
  case (Cons x vs)
  then show ?case
    by (cases k) (auto simp: ac_simps)
qed simp

lemma distinct_submset: "mset xs \<subseteq># mset ys \<Longrightarrow> distinct ys \<Longrightarrow> distinct xs \<and> set xs \<subseteq> set ys"
  by (metis distinct_append mset_append mset_eq_imp_distinct_iff mset_subset_eq_exists_conv ex_mset set_mset_mset set_mset_mono)

lemma view_ok_sub:
  assumes "view_ok (s2, os, vs)" "length vs' = length vs" "socks_mset vs' \<subseteq># socks_mset vs" "list_all entry_ok vs'"
  shows "view_ok (s2, os, vs')"
  using distinct_submset [OF assms(3)] assms(1,2,4) by (auto simp: view_ok_def)

text \<open>A socket that moves from one session to another.\<close>

lemma move_sub:
  assumes "i < length vs" "j < length vs" "x \<in> set (vsocks (vs ! i))"
    and "mset (vsocks v) \<subseteq># mset (vsocks (vs ! j)) + {#x#}"
  shows "socks_mset (vs[j := v, i := None]) \<subseteq># socks_mset vs"
proof (cases "i = j")
  case True
  then show ?thesis
    using socks_mset_update [OF assms(1), of None] by (metis add.right_neutral list_update_overwrite mset_subset_eq_add_left mset.simps(1) vsocks.simps(1))
next
  case False
  have a: "socks_mset (vs[j := v]) + mset (vsocks (vs ! j)) = socks_mset vs + mset (vsocks v)"
    by (rule socks_mset_update [OF assms(2)])
  have b: "socks_mset (vs[j := v, i := None]) + mset (vsocks (vs ! i)) = socks_mset (vs[j := v])"
    using socks_mset_update [of i "vs[j := v]" None] assms(1) False by simp
  obtain r where r: "mset (vsocks (vs ! i)) = add_mset x r"
    using assms(3) by (metis in_multiset_in_set mset_add)
  obtain q where q: "mset (vsocks (vs ! j)) + {#x#} = mset (vsocks v) + q"
    using assms(4) by (metis mset_subset_eq_exists_conv)
  show ?thesis
  proof (rule mset_subset_eqI)
    fix z
    show "count (socks_mset (vs[j := v, i := None])) z \<le> count (socks_mset vs) z"
      using arg_cong [OF a, of "\<lambda>m. count m z"] arg_cong [OF b, of "\<lambda>m. count m z"] arg_cong [OF r, of "\<lambda>m. count m z"]
        arg_cong [OF q, of "\<lambda>m. count m z"] by (simp split: if_splits)
  qed
qed

section \<open>Moving a socket\<close>

text \<open>An entry of the table changes, and gains at most a socket of session \<open>i\<close>.\<close>

definition moved :: "nat \<Rightarrow> world \<Rightarrow> world \<Rightarrow> bool" where
  "moved i w w' \<longleftrightarrow> (\<exists>j v s2 os vs x. view w = (s2, os, vs) \<and> view w' = (s2, os, vs[j := v]) \<and> j < length vs
     \<and> entry_ok v \<and> x \<in> set (vsocks (vs ! i)) \<and> mset (vsocks v) \<subseteq># mset (vsocks (vs ! j)) + {#x#})"

lemma view_upd_session_eq:
  "view (upd_session j f w) = (second_sock (server w), open_socks w,
     (map sview (sessions (server w)))[j := sview (f (sessions (server w) ! j))])"
  by (simp add: view_def upd_session_def upd_sessions_def map_update)

lemma movedI:
  assumes "i < length (sessions (server w))" "client_connected (sessions (server w) ! i)"
    and "j < length (sessions (server w))" "entry_ok (sview (f (sessions (server w) ! j)))"
    and "mset (vsocks (sview (f (sessions (server w) ! j)))) \<subseteq># mset (vsocks (sview (sessions (server w) ! j))) + {#main_sock_of i w#}"
  shows "moved i w (upd_session j f w)"
proof -
  let ?ss = "sessions (server w)"
  have "main_sock_of i w \<in> set (vsocks (map sview ?ss ! i))"
    using assms(1,2) by (simp add: main_sock_of_def sview_def)
  then show ?thesis
    unfolding moved_def view_upd_session_eq using assms(3-5)
    by (intro exI [of _ j] exI [of _ "sview (f (?ss ! j))"] exI [of _ "second_sock (server w)"] exI [of _ "open_socks w"]
        exI [of _ "map sview ?ss"] exI [of _ "main_sock_of i w"]) (simp add: view_def)
qed

lemma moved_view: "moved i w w1 \<Longrightarrow> view w2 = view w1 \<Longrightarrow> moved i w w2"
  by (simp add: moved_def)

lemma find_session_Some:
  "find_client_session_by_id sid ss = Some j \<Longrightarrow> j < length ss \<and> client_connected (ss ! j)"
  by (simp add: find_client_session_by_id_def first_index_Some)

lemma session_entry_ok:
  "server_ok w \<Longrightarrow> j < length (sessions (server w)) \<Longrightarrow> client_connected (sessions (server w) ! j) \<Longrightarrow>
     \<exists>t. cs_task_conns (sessions (server w) ! j) = Some t \<and> cs_lock (sessions (server w) ! j)"
proof -
  assume "server_ok w" "j < length (sessions (server w))" "client_connected (sessions (server w) ! j)"
  moreover from this have "entry_ok (sview (sessions (server w) ! j))"
    by (simp add: server_ok_def view_ok_def view_def list_all_iff)
  ultimately show ?thesis
    by (auto simp: entry_ok_def sview_def)
qed

lemma append_moved:
  assumes "server_ok w" "i < length (sessions (server w))" "client_connected (sessions (server w) ! i)"
  shows "yields (handle_append_conn_req i req w) (\<lambda>p. view (snd p) = view w \<or> moved i w (snd p))"
proof (cases "find_client_session_by_id (aq_session_id req) (sessions (server w))")
  case (Some j)
  let ?s = "sessions (server w) ! j"
  obtain t where j: "j < length (sessions (server w))" "client_connected ?s" "cs_task_conns ?s = Some t" "cs_lock ?s"
    using find_session_Some [OF Some] session_entry_ok [OF assms(1)] by blast
  have "moved i w (upd_session j (upd_task_conns (\<lambda>cs. c # cs)) w)" if "conn_sock c = main_sock_of i w" for c
  proof (rule movedI [OF assms(2,3) j(1)])
    show "entry_ok (sview (upd_task_conns (\<lambda>cs. c # cs) ?s))"
      using j by (simp add: sview_def upd_task_conns_def entry_ok_def)
    show "mset (vsocks (sview (upd_task_conns (\<lambda>cs. c # cs) ?s))) \<subseteq># mset (vsocks (sview ?s)) + {#main_sock_of i w#}"
      using j that by (simp add: sview_def upd_task_conns_def)
  qed
  then have "moved i w (snd (send_append_conn_resp i r RESP_OK 0 (upd_session j (upd_task_conns (\<lambda>cs. c # cs)) w)))"
    if "conn_sock c = main_sock_of i w" for c r
    using that moved_view [OF _ view_send_resp(6)] by blast
  then show ?thesis
    using Some j(3) by (simp add: handle_append_conn_req_def Let_def main_sock_of_def)
qed (simp add: handle_append_conn_req_def)

lemma reconnect_moved:
  assumes "server_ok w" "i < length (sessions (server w))" "client_connected (sessions (server w) ! i)"
  shows "yields (handle_reconnect_req i sid cid w) (\<lambda>p. view (snd p) = view w \<or> moved i w (snd p))"
proof (cases "find_client_session_by_id sid (sessions (server w))")
  case (Some j)
  let ?s = "sessions (server w) ! j"
  obtain t where j: "j < length (sessions (server w))" "client_connected ?s" "cs_task_conns ?s = Some t" "cs_lock ?s"
    using find_session_Some [OF Some] session_entry_ok [OF assms(1)] by blast
  let ?f = "\<lambda>c. c\<lparr>conn_sock := main_sock_of i w, is_updating := False\<rparr>"
  have "moved i w (upd_session j (upd_conn r ?f) w)" if r: "find_connect_by_id ?s cid = Inr (Some r)" for r
  proof (rule movedI [OF assms(2,3) j(1)])
    show "entry_ok (sview (upd_conn r ?f ?s))"
      using j by (cases r) (simp_all add: sview_def entry_ok_def upd_task_conns_def)
    show "mset (vsocks (sview (upd_conn r ?f ?s))) \<subseteq># mset (vsocks (sview ?s)) + {#main_sock_of i w#}"
    proof (cases r)
      case (Task_conn k)
      then have k: "k < length t"
        using r j(3) by (auto simp: find_connect_by_id_def first_index_Some split: if_splits)
      then show ?thesis
        using j Task_conn by (simp add: sview_def upd_task_conns_def map_update mset_update)
    qed (use j in \<open>simp add: sview_def\<close>)
  qed
  then show ?thesis
    using Some by (auto simp: handle_reconnect_req_def Let_def intro!: yields_sbindI split: option.split)
qed (simp add: handle_reconnect_req_def)

lemma dispatch_view:
  assumes "server_ok w" "i < length (sessions (server w))" "client_connected (sessions (server w) ! i)"
  shows "yields (dispatch e i m w) (\<lambda>(a, w'). view w' = view w \<or> a = Leave False \<and> moved i w w')"
proof -
  have k: "yields (sbind r stay) (\<lambda>(a, w'). view w' = view w \<or> a = Leave False \<and> moved i w w')" if "keeps_view w r" for r
    using that by (intro yields_sbindI) (auto simp: yields_def stay_def)
  have l: "yields (sbind r (\<lambda>(_, w1). Inr (Leave False, w1))) (\<lambda>(a, w'). view w' = view w \<or> a = Leave False \<and> moved i w w')"
    if "yields r (\<lambda>p. view (snd p) = view w \<or> moved i w (snd p))" for r :: "c_fault + int \<times> world"
    using that by (intro yields_sbindI) (auto simp: yields_def)
  have v: "yields (sbind r (\<lambda>(ret, w1). Inr (if ret = -1 then Leave True else Stay, w1)))
      (\<lambda>(a, w'). view w' = view w \<or> a = Leave False \<and> moved i w w')" if "keeps_view w r" for r :: "c_fault + int \<times> world"
    using that by (intro yields_sbindI) (auto simp: yields_def)
  show ?thesis
    by (cases "(e, i, m, w)" rule: dispatch.cases)
      (auto simp: stay_def view_pwd view_cd view_mp_stat view_who
        intro!: k l v view_validate append_moved reconnect_moved view_ll view_put view_get view_directcmd view_write assms)
qed

section \<open>Steps of the server\<close>

lemma view_leave:
  "view (leave need_close i w) = (second_sock (server w),
     if need_close then removeAll (main_sock_of i w) (open_socks w) else open_socks w, (map sview (sessions (server w)))[i := None])"
  by (simp add: leave_def Let_def view_upd_session_eq) (simp add: put_session_def sview_def)

lemma entries_ok_remove: "list_all entry_ok vs \<Longrightarrow> list_all entry_ok (vs[i := None])"
  by (auto simp: list_all_iff entry_ok_def dest!: set_update_subset_insert [THEN subsetD])

lemma view_ok_close:
  assumes "view_ok (s2, os, vs)" "i < length vs" "vs ! i = Some (x, t, l)"
  shows "view_ok (s2, removeAll x os, vs[i := None])"
proof -
  define A T D where "A = concat (map vsocks (take i vs))" and "T = (case t of None \<Rightarrow> [] | Some t \<Rightarrow> t)"
    and "D = concat (map vsocks (drop (Suc i) vs))"
  have vs: "concat (map vsocks vs) = A @ x # T @ D"
    using arg_cong [OF id_take_nth_drop [OF assms(2)], of "\<lambda>x. concat (map vsocks x)"] assms(3)
    by (simp add: A_def T_def D_def)
  have vs': "concat (map vsocks (vs[i := None])) = A @ D"
    using assms(2) by (simp add: upd_conv_take_nth_drop A_def D_def)
  have "distinct (s2 # A @ x # T @ D)" "set (s2 # A @ x # T @ D) \<subseteq> set os" "list_all entry_ok vs" "length vs = MAX_CLIENT_NUM"
    using assms(1) by (simp_all only: view_ok_def prod.case vs)
  then have "distinct (s2 # A @ D)" "set (s2 # A @ D) \<subseteq> set (removeAll x os)"
    by auto
  then show ?thesis
    using entries_ok_remove \<open>list_all entry_ok vs\<close> \<open>length vs = MAX_CLIENT_NUM\<close>
    by (simp only: view_ok_def prod.case vs' length_list_update simp_thms)
qed

lemma leave_ok:
  assumes "server_ok w" "i < length (sessions (server w))" "client_connected (sessions (server w) ! i)"
  shows "server_ok (leave True i w)"
proof -
  have "map sview (sessions (server w)) ! i = Some (main_sock_of i w,
      map_option (map conn_sock) (cs_task_conns (sessions (server w) ! i)), cs_lock (sessions (server w) ! i))"
    using assms(2,3) by (simp add: main_sock_of_def sview_def)
  then show ?thesis
    using view_ok_close [of "second_sock (server w)" "open_socks w" "map sview (sessions (server w))" i] assms(1,2)
    unfolding server_ok_def view_leave by (simp add: view_def)
qed

lemma leave_moved_ok:
  assumes "server_ok w" "i < length (sessions (server w))" "moved i w w'"
  shows "server_ok (leave False i w')"
proof -
  obtain j v s2 os vs x where m: "view w = (s2, os, vs)" "view w' = (s2, os, vs[j := v])" "j < length vs" "entry_ok v"
      "x \<in> set (vsocks (vs ! i))" "mset (vsocks v) \<subseteq># mset (vsocks (vs ! j)) + {#x#}"
    using assms(3) unfolding moved_def by blast
  have "i < length vs"
    using assms(2) m(1) by (auto simp: view_def)
  then have "socks_mset (vs[j := v, i := None]) \<subseteq># socks_mset vs"
    using m(3,5,6) by (intro move_sub)
  moreover have "list_all entry_ok (vs[j := v, i := None])"
    using assms(1) m(1,4) by (auto simp: server_ok_def view_ok_def list_all_iff entry_ok_def
        dest!: set_update_subset_insert [THEN subsetD])
  ultimately show ?thesis
    using view_ok_sub [of s2 os vs "vs[j := v, i := None]"] assms(1) m(1,2)
    unfolding server_ok_def view_leave by (simp add: view_def)
qed

lemma leave_quiet_ok:
  assumes "server_ok w" "i < length (sessions (server w))" "view w' = view w"
  shows "server_ok (leave False i w')"
proof -
  let ?vs = "map sview (sessions (server w))"
  have "socks_mset (?vs[i := None]) \<subseteq># socks_mset ?vs"
    using socks_mset_update [of i ?vs None] assms(2) by (metis add.right_neutral length_map mset.simps(1) mset_subset_eq_add_left vsocks.simps(1))
  moreover have "list_all entry_ok (?vs[i := None])"
    using assms(1) by (auto simp: server_ok_def view_ok_def view_def list_all_iff entry_ok_def dest!: set_update_subset_insert [THEN subsetD])
  ultimately show ?thesis
    using view_ok_sub [of "second_sock (server w)" "open_socks w" ?vs "?vs[i := None]"] assms(1,3)
    unfolding server_ok_def view_leave by (simp add: view_def)
qed

lemma view_connected:
  assumes "view w' = view w" "i < length (sessions (server w))" "client_connected (sessions (server w) ! i)"
  shows "i < length (sessions (server w')) \<and> client_connected (sessions (server w') ! i)"
proof -
  have m: "map sview (sessions (server w')) = map sview (sessions (server w))"
    using assms(1) by (simp add: view_def)
  then have l: "length (sessions (server w')) = length (sessions (server w))"
    using map_eq_imp_length_eq by blast
  have "sview (sessions (server w') ! i) = sview (sessions (server w) ! i)"
    using m l assms(2) by (metis nth_map)
  then show ?thesis
    using l assms(2,3) by (simp add: sview_def split: if_splits)
qed

lemma server_ok_view: "server_ok w \<Longrightarrow> view w' = view w \<Longrightarrow> server_ok w'"
  by (simp add: server_ok_def)

lemma handle_client_session_ok:
  assumes "server_ok w" "i < length (sessions (server w))" "client_connected (sessions (server w) ! i)"
    and "handle_client_session e i w = Inr w'"
  shows "server_ok w'"
proof -
  obtain ret m w1 where r: "recv_obj (main_sock_of i w) None (set_main_using True i w) = (ret, m, w1)"
    by (metis prod_cases3)
  have v: "view w1 = view w"
    using view_recv_obj [OF r] by simp
  then have c: "server_ok w1" "i < length (sessions (server w1))" "client_connected (sessions (server w1) ! i)"
    using server_ok_view [OF assms(1)] view_connected [OF v assms(2,3)] by auto
  show ?thesis
  proof (cases m)
    case None
    then show ?thesis
      using assms(4) r leave_ok [OF c] by (simp add: handle_client_session_def)
  next
    case (Some q)
    then obtain a w2 where d1: "dispatch e i q w1 = Inr (a, w2)"
      and "(case a of Stay \<Rightarrow> Inr (set_main_using False i w2) | Leave nc \<Rightarrow> Inr (leave nc i w2)) = (Inr w' :: c_fault + world)"
      using assms(4) r by (auto simp: handle_client_session_def)
    then have d: "dispatch e i q w1 = Inr (a, w2)" "w' = (case a of Stay \<Rightarrow> set_main_using False i w2 | Leave nc \<Rightarrow> leave nc i w2)"
      by (cases a; simp)+
    then have k: "view w2 = view w1 \<or> a = Leave False \<and> moved i w1 w2"
      using yieldsD [OF dispatch_view [OF c] d(1)] by simp
    show ?thesis
    proof (cases "view w2 = view w1")
      case True
      then show ?thesis
        using d(2) server_ok_view [OF c(1)] leave_ok view_connected [OF True c(2,3)] leave_quiet_ok [OF c(1,2) True]
        by (auto split: after.splits simp: view_simps) (metis (full_types))
    next
      case False
      then show ?thesis
        using k d(2) leave_moved_ok [OF c(1,2)] by simp
    qed
  qed
qed

lemma accept_ok:
  assumes "server_ok w" "fd \<notin> set (open_socks w)"
  shows "server_ok (second_channel_accept fd ip port launched w)"
proof (cases "get_new_session (sessions (server w))")
  case (Some q)
  let ?vs = "map sview (sessions (server w))"
  obtain i ss where q: "q = (i, ss)"
    by (cases q)
  have i: "i < length ?vs" "?vs ! i = None" "ss = (sessions (server w))[i := init_client_session\<lparr>cs_status := ACTIVE\<rparr>]"
    using new_session_Some [OF Some [unfolded q]] by (simp_all add: sview_def)
  define v where "v = (if launched then Some (fd, Some [] :: int list option, True) else None)"
  obtain cid ids where g: "gen_connect_id (now w) 32 (connect_ids_st w) = (cid, ids)"
    by (metis surj_pair)
  have v': "view (second_channel_accept fd ip port launched w) = (second_sock (server w), fd # open_socks w, ?vs[i := v])"
    using i(1) by (simp add: second_channel_accept_def Some q g Let_def i(3) view_def upd_session_def upd_sessions_def map_update
        sview_def init_client_session_def put_session_def v_def)
  have ok: "length ?vs = MAX_CLIENT_NUM" "distinct (second_sock (server w) # concat (map vsocks ?vs))"
    "set (second_sock (server w) # concat (map vsocks ?vs)) \<subseteq> set (open_socks w)" "list_all entry_ok ?vs"
    using assms(1) by (simp_all add: server_ok_def view_ok_def view_def)
  have m: "mset (concat (map vsocks (?vs[i := v]))) = mset (vsocks v @ concat (map vsocks ?vs))"
    using socks_mset_update [OF i(1), of v] i(2) by (simp add: ac_simps)
  have "distinct (concat (map vsocks (?vs[i := v])))"
    using mset_eq_imp_distinct_iff [OF m] ok(2,3) assms(2) by (auto simp: v_def)
  moreover have "set (concat (map vsocks (?vs[i := v]))) = set (vsocks v @ concat (map vsocks ?vs))"
    by (rule mset_eq_setD [OF m])
  moreover have "list_all entry_ok (?vs[i := v])"
    using ok(4) by (auto simp: list_all_iff entry_ok_def v_def dest!: set_update_subset_insert [THEN subsetD])
  moreover have "second_sock (server w) \<noteq> fd"
    using ok(3) assms(2) by auto
  ultimately have "view_ok (second_sock (server w), fd # open_socks w, ?vs[i := v])"
    using ok(1-3) unfolding view_ok_def by (auto simp: v_def)
  then show ?thesis
    by (simp add: server_ok_def v')
qed (use assms in \<open>simp add: second_channel_accept_def\<close>)

lemma view_notify: "view (snd (notify_client_after_updating w)) = view w"
proof -
  have "view (snd (snd (notify_conns cs p ret w))) = view w" for cs p ret w
    by (induction cs arbitrary: p ret w) (simp_all add: Let_def split_beta view_simps)
  then show ?thesis
    by (simp add: notify_client_after_updating_def split_beta Let_def)
qed

lemma sview_updating: "sview (upd_task_conns (map (\<lambda>c. c\<lparr>is_updating := True\<rparr>)) s) = sview s"
  by (simp add: sview_def upd_task_conns_def option.map_comp comp_def)

lemma map_sview_updating: "map sview (set_all_conns_updating ss) = map sview ss"
  by (simp add: set_all_conns_updating_def sview_updating)

lemma port_update_ok:
  assumes "server_ok w" "fd \<notin> set (open_socks w)" "port_update_round port fd w = Inr w'"
  shows "server_ok w'"
proof -
  let ?vs = "map sview (sessions (server w))"
  let ?w1 = "upd_sessions set_all_conns_updating w"
  let ?w2 = "?w1\<lparr>server := (server ?w1)\<lparr>second_port := port, second_sock := fd\<rparr>,
    open_socks := fd # removeAll (second_sock (server w)) (open_socks ?w1)\<rparr>"
  have "view ?w2 = (fd, fd # removeAll (second_sock (server w)) (open_socks w), ?vs)"
    by (simp add: view_def upd_sessions_def map_sview_updating)
  moreover have "view_ok (fd, fd # removeAll (second_sock (server w)) (open_socks w), ?vs)"
    using assms(1,2) by (auto simp: server_ok_def view_def view_ok_def)
  ultimately have "server_ok (snd (notify_client_after_updating ?w2))"
    by (simp add: server_ok_def view_notify)
  moreover have "server_ok (u\<lparr>server := (server u)\<lparr>last_update_ts := t\<rparr>\<rparr>)" if "server_ok u" for u t
    using that by (simp add: server_ok_def view_def)
  ultimately show ?thesis
    using assms(1,3) by (auto simp: port_update_round_def Let_def split_beta split: if_splits)
qed

text \<open>
  What happens to a server: a client connects on a socket that is not in use, something arrives on a
  connection, a session takes its next request, the port is updated, time passes.
\<close>

inductive server_step :: "env \<Rightarrow> world \<Rightarrow> world \<Rightarrow> bool" for e where
  accept: "fd \<notin> set (open_socks w) \<Longrightarrow> server_step e w (second_channel_accept fd ip port launched (set_chan fd cn w))"
| channel_info: "server_step e w (respond_channel_info fd w)"
| arrive: "server_step e w (set_chan fd ((chans w fd)\<lparr>ch_in := ch_in (chans w fd) @ [ev]\<rparr>) w)"
| request: "i < length (sessions (server w)) \<Longrightarrow> client_connected (sessions (server w) ! i) \<Longrightarrow>
    handle_client_session e i w = Inr w' \<Longrightarrow> server_step e w w'"
| update: "fd \<notin> set (open_socks w) \<Longrightarrow> port_update_round port fd w = Inr w' \<Longrightarrow> server_step e w w'"
| tick: "now w \<le> t \<Longrightarrow> server_step e w (w\<lparr>now := t\<rparr>)"

inductive_cases server_stepE: "server_step e w w'"

inductive reachable :: "env \<Rightarrow> world \<Rightarrow> world \<Rightarrow> bool" for e w where
  start: "reachable e w w"
| step: "reachable e w w1 \<Longrightarrow> server_step e w1 w2 \<Longrightarrow> reachable e w w2"

lemma server_step_ok: "server_step e w w' \<Longrightarrow> server_ok w \<Longrightarrow> server_ok w'"
proof (induction rule: server_step.induct)
  case (accept fd w ip port launched cn)
  then show ?case
    by (intro accept_ok) (simp_all add: server_ok_def set_chan_def view_def)
next
  case (request i w w')
  then show ?case
    using handle_client_session_ok by blast
next
  case (update fd w port w')
  then show ?case
    using port_update_ok by blast
qed (simp_all add: server_ok_def respond_channel_info_def view_simps)

text \<open>
  C7: whatever clients do, in every state that the server reaches the sockets of its connected sessions,
  their task connections and the listening socket are distinct and open, and every connected session has
  its list of task connections and its lock.
\<close>

theorem server_sockets_invariant:
  assumes "server_ok w" "reachable e w w'"
  shows "server_ok w'"
  using assms(2,1) by (induction rule: reachable.induct) (auto intro: server_step_ok)

definition quiet :: chan where
  "quiet = \<lparr>ch_in = [], ch_out = [], ch_send_ok = True\<rparr>"

definition start_world :: world where
  "start_world = \<lparr>server = \<lparr>main_sock = 3, main_port = 3009, second_sock = 4, second_port = 40000, last_update_ts = 100,
       server_ver = \<lparr>major = 0, minor = 1, revision = 3\<rparr>, sessions = init_sessions\<rparr>,
     fs = small_fs, chans = (\<lambda>_. quiet), open_socks = [3, 4], session_ids = \<lparr>last_ts = 0, last_id = 0\<rparr>,
     connect_ids_st = \<lparr>last_ts = 0, last_id = 0\<rparr>, now = 100\<rparr>"

definition small_env :: env where
  "small_env = \<lparr>users_db = (\<lambda>_ sql. if sql = select_user ''ann''
       then Some ([''uid'', ''name'', ''passwd_md5'', ''home_dir''], [[Some ''1'', Some ''ann'', Some ''5f4dcc3b'', Some ''/'']])
       else None),
     random_letters = [1, 2, 3, 4, 5], mkstemp = (\<lambda>f. Some (''/tmp/x'', f)), shell = (\<lambda>c f. f),
     pool_stat = \<lparr>total_size = 0, total_nodes = 0, using_nodes = 0, free_nodes = 0\<rparr>, stack_junk = [], old_obj = None,
     fuel = 100\<rparr>"

lemma start_world_ok: "server_ok start_world"
proof -
  have "sview init_client_session = None"
    by (simp add: init_client_session_def put_session_def sview_def)
  then have "view start_world = (4, [3, 4], replicate 32 None)"
    by (simp add: view_def start_world_def init_sessions_def MAX_CLIENT_NUM_def)
  then show ?thesis
    by (simp add: server_ok_def view_ok_def MAX_CLIENT_NUM_def entry_ok_def list_all_iff)
qed

theorem server_sockets_invariant_witness:
  "server_ok (second_channel_accept 7 ''10.0.0.9'' 50000 True (set_chan 7 quiet start_world))"
proof (rule server_sockets_invariant [OF start_world_ok])
  show "reachable small_env start_world (second_channel_accept 7 ''10.0.0.9'' 50000 True (set_chan 7 quiet start_world))"
    by (rule reachable.step [OF reachable.start]) (rule server_step.accept, simp add: start_world_def)
qed

section \<open>Listing\<close>

text \<open>The names a listing message carries.\<close>

fun listed :: "msg \<Rightarrow> string list" where
  "listed (Ctl (Ll_resp r)) = map (\<lambda>en. buf_string (fe_name en)) (take (unat (ll_this_nr r)) (ll_entries r))"
| "listed m = []"

lemma map_byte_char_str: "map byte_char (str_bytes s) = s"
  by (simp add: str_bytes_def comp_def)

lemma takeWhile_str_bytes: "CHR 0x00 \<notin> set s \<Longrightarrow> takeWhile (\<lambda>b. b \<noteq> 0) (str_bytes s @ 0 # r) = str_bytes s"
  by (induction s) (auto simp: str_bytes_def)

lemma buf_strncpy_string:
  assumes "CHR 0x00 \<notin> set s" "length s \<le> n" "length s < length buf" "n = length s \<longrightarrow> buf ! n = 0"
  shows "buf_string (buf_strncpy buf s n) = s"
proof (cases "length s < n")
  case True
  then obtain k where k: "n - length s = Suc k"
    by (metis Suc_diff_Suc)
  then have "Suc k \<le> n"
    by linarith
  then have "take n (str_bytes s @ replicate n 0) = str_bytes s @ 0 # replicate k 0"
    using True k by (simp add: str_bytes_def min_def)
  then show ?thesis
    using assms(1) by (simp add: buf_string_def buf_strncpy_def takeWhile_str_bytes map_byte_char_str)
next
  case False
  then have n: "n = length s" "n < length buf"
    using assms(2,3) by auto
  then have "drop n buf = 0 # drop (Suc n) buf"
    using assms(4) Cons_nth_drop_Suc [of n buf] by simp
  then show ?thesis
    using assms(1) n(1) by (simp add: buf_string_def buf_strncpy_def str_bytes_def takeWhile_str_bytes [unfolded str_bytes_def]
        map_byte_char_str [unfolded str_bytes_def] comp_def)
qed

definition entry_buf_ok :: "file_entry \<Rightarrow> bool" where
  "entry_buf_ok en \<longleftrightarrow> length (fe_name en) = 256 \<and> fe_name en ! 255 = 0"

definition name_ok :: "string \<Rightarrow> bool" where
  "name_ok n \<longleftrightarrow> CHR 0x00 \<notin> set n \<and> length n \<le> 255"

lemma list_entry_buf:
  "entry_buf_ok en \<Longrightarrow> name_ok n \<Longrightarrow> entry_buf_ok (list_entry f path n en) \<and> buf_string (fe_name (list_entry f path n en)) = n"
  using buf_strncpy_string [of n 255 "fe_name en"]
  by (auto simp: list_entry_def entry_buf_ok_def name_ok_def FILE_NAME_MAX_LEN_def Let_def buf_strncpy_def str_bytes_def nth_append)

text \<open>
  The type and the name of an entry, the ones a listing should have for a name, and the series of answers that
  lists \<open>names\<close>: 16 entries in each of them, and a total that is converted in place by every send.
\<close>

definition entry_info :: "file_entry \<Rightarrow> 32 word \<times> string" where
  "entry_info en = (fe_type en, buf_string (fe_name en))"

definition name_info :: "fsys \<Rightarrow> string \<Rightarrow> string \<Rightarrow> 32 word \<times> string" where
  "name_info f path n =
     (let tmp = take 2050 (path @ ''/'' @ n) in
      (if is_file f tmp then FILE_TYPE_FILE else if is_dir f tmp then FILE_TYPE_DIR else FILE_TYPE_UNKNOWN, n))"

fun ll_series :: "fsys \<Rightarrow> string \<Rightarrow> 32 word \<Rightarrow> string list \<Rightarrow> ll_resp list \<Rightarrow> bool" where
  "ll_series f path tot names [] \<longleftrightarrow> names = []"
| "ll_series f path tot names (r # rs) \<longleftrightarrow>
     names \<noteq> [] \<and> ll_total r = tot \<and> unat (ll_this_nr r) = length (take 16 names) \<and> length (ll_entries r) = 16
     \<and> map entry_info (take (length (take 16 names)) (ll_entries r)) = map (name_info f path) (take 16 names)
     \<and> ll_series f path (htonl tot) (drop 16 names) rs"

lemma fill_entries_props:
  "list_all entry_buf_ok es \<Longrightarrow> list_all name_ok ns \<Longrightarrow> length ns \<le> length es \<Longrightarrow>
     list_all entry_buf_ok (fill_entries f path ns es) \<and> length (fill_entries f path ns es) = length es
     \<and> map entry_info (take (length ns) (fill_entries f path ns es)) = map (name_info f path) ns"
  by (induction f path ns es rule: fill_entries.induct)
    (auto simp: list_entry_buf entry_info_def name_info_def, simp_all add: list_entry_def Let_def)

lemma reply_ok:
  assumes "ch_send_ok (chans w (main_sock_of i w))"
  shows "reply i c w = (0, set_chan (main_sock_of i w) ((chans w (main_sock_of i w))\<lparr>ch_out := ch_out (chans w (main_sock_of i w)) @ [Ctl c]\<rparr>) w)"
  using assms by (simp add: reply_def send_msg_def ch_send_def)

lemma main_sock_of_set_chan [simp]: "main_sock_of i (set_chan fd cn w) = main_sock_of i w"
  by (simp add: main_sock_of_def set_chan_def)

lemma chans_set_chan [simp]: "chans (set_chan fd cn w) = (chans w)(fd := cn)" "fs (set_chan fd cn w) = fs w"
  "server (set_chan fd cn w) = server w"
  by (simp_all add: set_chan_def)

lemma div_round_up_16: "0 < n \<Longrightarrow> Suc ((n - 16 + 15) div 16) = (n + 15) div 16" for n :: nat
proof (cases "n \<le> 16")
  case True
  assume "0 < n"
  then have "(n + 15) div 16 = 1"
    using True by (intro div_nat_eqI) simp_all
  then show ?thesis
    using True by simp
next
  case False
  then obtain m where "n = m + 16"
    by (metis le_add_diff_inverse2 nat_le_linear)
  then show ?thesis
    using div_add_self2 [of 16 "m + 15"] by simp
qed

lemma ll_batches_series:
  assumes "list_all name_ok names" "list_all entry_buf_ok (ll_entries resp)" "length (ll_entries resp) = 16"
    and "ch_send_ok (chans w (main_sock_of i w))"
  shows "\<exists>rs. ch_out (chans (ll_batches i path names resp w) (main_sock_of i w))
                = ch_out (chans w (main_sock_of i w)) @ map (\<lambda>r. Ctl (Ll_resp r)) rs
    \<and> ll_series (fs w) path (ll_total resp) names rs"
  using assms
proof (induction "length names" arbitrary: names resp w rule: less_induct)
  case less
  let ?fd = "main_sock_of i w"
  show ?case
  proof (cases "names = []")
    case True
    then show ?thesis
      by (intro exI [of _ "[]"]) (simp add: ll_batches.simps)
  next
    case False
    let ?b = "take 16 names" and ?rest = "drop 16 names"
    define resp1 where "resp1 = resp\<lparr>ll_entries := fill_entries (fs w) path ?b (ll_entries resp), ll_this_nr := of_nat (length ?b)\<rparr>"
    define flags :: "32 word" where "flags = (if ?rest \<noteq> [] then 1 else 0)"
    define r where "r = set_status resp1 RESP_OK flags"
    define w1 where "w1 = set_chan ?fd ((chans w ?fd)\<lparr>ch_out := ch_out (chans w ?fd) @ [Ctl (Ll_resp r)]\<rparr>) w"
    have step: "ll_batches i path names resp w = ll_batches i path ?rest (hton_ll_resp r) w1"
      using False less.prems(4)
      by (subst ll_batches.simps) (simp add: send_ll_resp_def FILE_ENTRY_MAX_CNT_def reply_ok resp1_def flags_def r_def w1_def Let_def)
    have b: "list_all name_ok ?b" "list_all name_ok ?rest" "length ?b \<le> 16"
      using less.prems(1) by (auto simp: list_all_iff dest: in_set_takeD in_set_dropD)
    have fe: "list_all entry_buf_ok (ll_entries r)" "length (ll_entries r) = 16"
      "map entry_info (take (length ?b) (ll_entries r)) = map (name_info (fs w) path) ?b"
      using fill_entries_props [of "ll_entries resp" ?b "fs w" path] less.prems(2,3) b
      by (simp_all add: r_def set_status_def resp1_def)
    have nr: "unat (ll_this_nr r) = length ?b" "ll_total r = ll_total resp"
      using b(3) by (simp_all add: r_def set_status_def resp1_def unsigned_of_nat take_bit_nat_eq_self)
    have "list_all entry_buf_ok (ll_entries (hton_ll_resp r))" "length (ll_entries (hton_ll_resp r)) = 16"
      using fe(1,2) by (auto simp: hton_ll_resp_def list_all_iff entry_buf_ok_def hton_file_entry_def)
    then obtain rs where rs:
        "ch_out (chans (ll_batches i path ?rest (hton_ll_resp r) w1) ?fd) = ch_out (chans w1 ?fd) @ map (\<lambda>r. Ctl (Ll_resp r)) rs"
        "ll_series (fs w) path (htonl (ll_total resp)) ?rest rs"
      using less.hyps [of ?rest "hton_ll_resp r" w1] False b(2) less.prems(4) nr(2)
      by (auto simp: w1_def hton_ll_resp_def)
    have "ll_series (fs w) path (ll_total resp) names (r # rs)"
      using False fe(2,3) nr rs(2) by (simp del: length_take)
    then show ?thesis
      using rs(1) unfolding step by (intro exI [of _ "r # rs"]) (simp add: w1_def)
  qed
qed

lemma ll_series_listed:
  "ll_series f path tot names rs \<Longrightarrow>
     concat (map (\<lambda>r. listed (Ctl (Ll_resp r))) rs) = names \<and> length rs = (length names + 15) div 16"
proof (induction f path tot names rs rule: ll_series.induct)
  case (2 f path tot names r rs)
  have names: "map snd (map (name_info f path) ns) = ns" for ns
    by (simp add: name_info_def Let_def comp_def)
  have p: "unat (ll_this_nr r) = length (take 16 names)"
      "map entry_info (take (length (take 16 names)) (ll_entries r)) = map (name_info f path) (take 16 names)"
    using 2(2) by (simp_all del: length_take)
  have "listed (Ctl (Ll_resp r)) = map snd (map entry_info (take (length (take 16 names)) (ll_entries r)))"
    by (simp only: p(1) listed.simps) (simp add: entry_info_def comp_def del: length_take)
  also have "\<dots> = take 16 names"
    by (simp only: p(2) names)
  finally have "listed (Ctl (Ll_resp r)) = take 16 names" .
  moreover have "Suc ((length (drop 16 names) + 15) div 16) = (length names + 15) div 16"
    using div_round_up_16 [of "length names"] 2 by simp
  ultimately show ?case
    using 2 by (simp del: listed.simps)
qed simp

lemma zero_ll_entries: "list_all entry_buf_ok (ll_entries zero_ll_resp)" "length (ll_entries zero_ll_resp) = 16"
  by (simp_all add: zero_ll_resp_def entry_buf_ok_def zero_file_entry_def zero_bytes_def list_all_iff)

text \<open>
  A listing is complete: for a directory, the server sends one message for every 16 entries or part
  of them, and the names in the messages are the names in the directory, in their order.
\<close>

theorem ll_lists_directory:
  assumes "pq_to_peer req = 0" "is_absolute_path (Some (buf_string (pq_path req)))" "length (buf_string (pq_path req)) < 1023"
    and "path = simplify_path (buf_string (pq_path req))" "file_existed (fs w) (Some path)" "is_dir (fs w) path"
    and "\<not> denied (fs w) (resolve (fs w) path)" "list_all name_ok (listing (fs w) (resolve (fs w) path))"
    and "ch_send_ok (chans w (main_sock_of i w))"
  shows "\<exists>w' ms. handle_ll_req e i req w = Inr (0, w')
    \<and> ch_out (chans w' (main_sock_of i w)) = ch_out (chans w (main_sock_of i w)) @ ms
    \<and> concat (map listed ms) = listing (fs w) (resolve (fs w) path)
    \<and> length ms = (length (listing (fs w) (resolve (fs w) path)) + 15) div 16"
proof -
  let ?names = "listing (fs w) (resolve (fs w) path)"
  let ?resp = "zero_ll_resp\<lparr>ll_total := of_nat (length ?names)\<rparr>"
  have "\<not> is_file (fs w) path"
    using assms(6) is_file_not_dir by blast
  then have "handle_ll_req e i req w = Inr (0, ll_batches i path ?names ?resp w)"
    using assms(1-7) by (simp add: handle_ll_req_def get_top_file_list_def Let_def)
  moreover obtain rs where "ch_out (chans (ll_batches i path ?names ?resp w) (main_sock_of i w))
        = ch_out (chans w (main_sock_of i w)) @ map (\<lambda>r. Ctl (Ll_resp r)) rs"
      "ll_series (fs w) path (of_nat (length ?names)) ?names rs"
    using ll_batches_series [OF assms(8), of ?resp w i path] zero_ll_entries assms(9) by auto
  ultimately show ?thesis
    using ll_series_listed by (intro exI [of _ "ll_batches i path ?names ?resp w"] exI [of _ "map (\<lambda>r. Ctl (Ll_resp r)) rs"])
      (simp add: comp_def)
qed

definition list_req :: path_req where
  "list_req = \<lparr>pq_session_id = [], pq_path = [47], pq_to_peer = 0, pq_user = zero_user\<rparr>"

definition list_world :: world where
  "list_world = start_world\<lparr>fs := small_fs\<lparr>listing := (\<lambda>_. [''.'', ''..'', ''a.txt''])\<rparr>\<rparr>"

theorem ll_lists_directory_witness:
  "\<exists>w' ms. handle_ll_req small_env 0 list_req list_world = Inr (0, w') \<and> ch_out (chans w' 0) = ms
     \<and> concat (map listed ms) = [''.'', ''..'', ''a.txt''] \<and> length ms = 1"
proof -
  have p: "buf_string (pq_path list_req) = ''/''"
    by code_simp
  have f: "simplify_path ''/'' = ''/''" "resolve (fs list_world) ''/'' = []" "main_sock_of 0 list_world = 0"
    by (simp_all add: simplify_path_def resolve_def is_absolute_path_def main_sock_of_def list_world_def start_world_def
        init_sessions_def MAX_CLIENT_NUM_def init_client_session_def put_session_def zero_conn_def)
  have "\<exists>w' ms. handle_ll_req small_env 0 list_req list_world = Inr (0, w')
    \<and> ch_out (chans w' (main_sock_of 0 list_world)) = ch_out (chans list_world (main_sock_of 0 list_world)) @ ms
    \<and> concat (map listed ms) = listing (fs list_world) (resolve (fs list_world) ''/'')
    \<and> length ms = (length (listing (fs list_world) (resolve (fs list_world) ''/'')) + 15) div 16"
    by (rule ll_lists_directory)
      (simp_all add: p f, simp_all add: list_req_def is_absolute_path_def file_existed_def is_dir_def lstat_mode_def
        list_world_def start_world_def small_fs_def name_ok_def quiet_def resolve_def S_ISDIR_def)
  moreover have "ch_out (chans list_world 0) = []" "listing (fs list_world) [] = [''.'', ''..'', ''a.txt'']"
    by (simp_all add: list_world_def start_world_def quiet_def)
  ultimately show ?thesis
    unfolding f by simp
qed

section \<open>Users\<close>

text \<open>
  The answer to \<^verbatim>\<open>who\<close> is one message whose users are exactly those of the connected sessions, in the order of
  the table.
\<close>

theorem who_lists_connected:
  assumes "server_ok w" "i < length (sessions (server w))" "client_connected (sessions (server w) ! i)"
    and "ch_send_ok (chans w (main_sock_of i w))"
  shows "\<exists>r w'. handle_who_req i w = (0, w')
    \<and> ch_out (chans w' (main_sock_of i w)) = ch_out (chans w (main_sock_of i w)) @ [Ctl (Who_resp r)]
    \<and> sr_status r = resp_num RESP_OK \<and> wh_total r = wh_this_nr r
    \<and> take (unat (wh_this_nr r)) (wh_users r) = map session_user (filter client_connected (sessions (server w)))
    \<and> 0 < unat (wh_this_nr r) \<and> unat (wh_this_nr r) \<le> 32 \<and> length (wh_users r) = 32"
proof -
  let ?us = "get_logged_in_users (sessions (server w))"
  have l: "length (sessions (server w)) = 32"
    using assms(1) by (simp add: server_ok_def view_ok_def view_def MAX_CLIENT_NUM_def)
  have "sessions (server w) ! i \<in> set (filter client_connected (sessions (server w)))"
    using assms(2,3) by simp
  then have ne: "?us \<noteq> []"
    by (auto simp: get_logged_in_users_def filter_empty_conv)
  have us: "length ?us \<le> 32"
    using l length_filter_le [of client_connected "sessions (server w)"] by (simp add: get_logged_in_users_def)
  define r where "r = set_status (zero_who_resp\<lparr>wh_total := of_nat (length ?us), wh_this_nr := of_nat (length ?us),
      wh_users := ?us @ drop (length ?us) (wh_users zero_who_resp)\<rparr>) RESP_OK 0"
  let ?fd = "main_sock_of i w"
  let ?w' = "set_chan ?fd ((chans w ?fd)\<lparr>ch_out := ch_out (chans w ?fd) @ [Ctl (Who_resp r)]\<rparr>) w"
  have "handle_who_req i w = (0, ?w')"
    using ne us assms(4) by (simp add: handle_who_req_def who_batches.simps [of i 0 ?us] who_batches.simps [of i _ "[]"]
        LOGGED_IN_USER_MAX_CNT_def send_who_resp_def reply_ok r_def Let_def)
  moreover have "unat (wh_this_nr r) = length ?us"
    using us by (simp add: r_def set_status_def unsigned_of_nat take_bit_nat_eq_self)
  moreover have "length (wh_users r) = 32" "0 < length ?us"
    using us ne by (simp_all add: r_def set_status_def zero_who_resp_def)
  ultimately show ?thesis
    using us by (intro exI [of _ r] exI [of _ ?w']) (simp add: r_def set_status_def get_logged_in_users_def)
qed

definition one_client :: world where
  "one_client = second_channel_accept 7 ''10.0.0.9'' 50000 True start_world"

lemma new_first: "get_new_session init_sessions = Some (0, init_sessions[0 := init_client_session\<lparr>cs_status := ACTIVE\<rparr>])"
  by (simp add: get_new_session_def init_sessions_def MAX_CLIENT_NUM_def numeral_eq_Suc init_client_session_def put_session_def)

lemma length_init_sessions [simp]: "length init_sessions = 32"
  by (simp add: init_sessions_def MAX_CLIENT_NUM_def)

lemma one_client_ok: "server_ok one_client"
  unfolding one_client_def by (rule accept_ok [OF start_world_ok]) (simp add: start_world_def)

lemma one_client_props:
  "length (sessions (server one_client)) = 32" "client_connected (sessions (server one_client) ! 0)"
  "main_sock_of 0 one_client = 7" "chans one_client fd = quiet" "fs one_client = small_fs"
  "server_ver (server one_client) = \<lparr>major = 0, minor = 1, revision = 3\<rparr>"
  by (simp_all add: one_client_def second_channel_accept_def start_world_def new_first Let_def split_beta upd_session_def
      upd_sessions_def main_sock_of_def)

theorem who_lists_connected_witness:
  "\<exists>r w'. handle_who_req 0 one_client = (0, w') \<and> ch_out (chans w' 7) = [Ctl (Who_resp r)]
     \<and> take (unat (wh_this_nr r)) (wh_users r) \<noteq> []"
proof -
  have "sessions (server one_client) ! 0 \<in> set (filter client_connected (sessions (server one_client)))"
    using one_client_props(1,2) by (simp only: set_filter) (auto intro: nth_mem)
  then have c: "filter client_connected (sessions (server one_client)) \<noteq> []"
    by force
  show ?thesis
    using who_lists_connected [OF one_client_ok, of 0] one_client_props(1,2) c
    unfolding one_client_props(3,4) by (fastforce simp: quiet_def)
qed

section \<open>The new port\<close>

definition port_at :: "32 word \<Rightarrow> nat \<Rightarrow> 32 word" where
  "port_at p k = (if even k then p else htonl p)"

lemma task_socks_sub: "mset (map conn_sock (task_conns_of ss)) \<subseteq># socks_mset (map sview ss)"
proof (induction ss)
  case (Cons s ss)
  define X where "X = (if client_connected s then (case cs_task_conns s of None \<Rightarrow> [] | Some cs \<Rightarrow> cs) else [])"
  have "mset (map conn_sock X) \<subseteq># mset (vsocks (sview s))"
    by (auto simp: X_def sview_def split: option.split)
  from subset_mset.add_mono [OF this Cons] have "mset (map conn_sock (X @ task_conns_of ss)) \<subseteq># socks_mset (map sview (s # ss))"
    by simp
  then show ?case
    by (simp only: task_conns_of_def X_def list.map concat.simps)
qed (simp add: task_conns_of_def)

lemma task_socks_distinct: "server_ok w \<Longrightarrow> distinct (map conn_sock (task_conns_of (sessions (server w))))"
  using distinct_submset [OF task_socks_sub] by (auto simp: server_ok_def view_ok_def view_def)

lemma notify_conns_sends:
  assumes "distinct (map conn_sock cs)" "\<forall>c \<in> set cs. ch_send_ok (chans w (conn_sock c))" "notify_conns cs p ret w = (q, ret', w')"
  shows "(\<forall>k < length cs. ch_out (chans w' (conn_sock (cs ! k))) =
      ch_out (chans w (conn_sock (cs ! k))) @ [Ctl (Port_update_req (port_at p k))])
    \<and> (\<forall>fd. fd \<notin> conn_sock ` set cs \<longrightarrow> chans w' fd = chans w fd) \<and> ret' = ret"
  using assms
proof (induction cs arbitrary: p ret w)
  case (Cons c cs)
  let ?fd = "conn_sock c"
  define w1 where "w1 = set_chan ?fd ((chans w ?fd)\<lparr>ch_out := ch_out (chans w ?fd) @ [Ctl (Port_update_req p)]\<rparr>) w"
  have s: "send_msg ?fd (Ctl (Port_update_req p)) w = (0, w1)"
    using Cons.prems(2) by (simp add: send_msg_def ch_send_def w1_def)
  have IH: "(\<forall>k < length cs. ch_out (chans w' (conn_sock (cs ! k))) =
      ch_out (chans w1 (conn_sock (cs ! k))) @ [Ctl (Port_update_req (port_at (htonl p) k))])
    \<and> (\<forall>fd. fd \<notin> conn_sock ` set cs \<longrightarrow> chans w' fd = chans w1 fd) \<and> ret' = ret"
    using Cons.prems s by (intro Cons.IH) (auto simp: w1_def)
  have u: "chans w1 (conn_sock (cs ! k)) = chans w (conn_sock (cs ! k))" if "k < length cs" for k
  proof -
    have "conn_sock (cs ! k) \<in> conn_sock ` set cs"
      using nth_mem [OF that] by (rule imageI)
    then have "conn_sock (cs ! k) \<noteq> ?fd"
      using Cons.prems(1) by auto
    then show ?thesis
      by (simp add: w1_def)
  qed
  have "chans w' ?fd = chans w1 ?fd"
    using IH Cons.prems(1) by auto
  then show ?case
    using IH u Cons.prems(1) by (auto simp: w1_def port_at_def nth_Cons split: nat.split)
qed simp

text \<open>
  C22: after an update of the port, the first, third, and every second further task connection is told the new
  port; the ones between are told the port with its four bytes reversed, because one struct is sent to
  all of them and every send converts it in place.
\<close>

theorem port_update_byte_order:
  assumes "server_ok w" "\<forall>fd. ch_send_ok (chans w fd)" "notify_client_after_updating w = (ret, w')"
    and "cs = task_conns_of (sessions (server w))" "k < length cs"
  shows "ch_out (chans w' (conn_sock (cs ! k))) = ch_out (chans w (conn_sock (cs ! k)))
    @ [Ctl (Port_update_req (if even k then word_of_int (second_port (server w)) else htonl (word_of_int (second_port (server w)))))]"
proof -
  obtain q ret' where "notify_conns cs (word_of_int (second_port (server w))) 0 w = (q, ret', w')"
    using assms(3,4) by (auto simp: notify_client_after_updating_def Let_def split: prod.splits)
  then show ?thesis
    using notify_conns_sends [of cs w "word_of_int (second_port (server w))" 0 q ret' w'] task_socks_distinct [OF assms(1)]
      assms(2,4,5) by (auto simp: port_at_def)
qed

definition task_conn :: "int \<Rightarrow> client_sock_conn" where
  "task_conn fd = zero_conn\<lparr>conn_sock := fd, conn_type := CONN_TYPE_TASK\<rparr>"

definition two_tasks :: world where
  "two_tasks = (upd_session 0 (upd_task_conns (\<lambda>_. [task_conn 8, task_conn 9])) one_client)\<lparr>open_socks := [3, 4, 7, 8, 9]\<rparr>"

lemma two_tasks_conns: "task_conns_of (sessions (server two_tasks)) = [task_conn 8, task_conn 9]"
  "view two_tasks = (4, [3, 4, 7, 8, 9], Some (7, Some [8, 9], True) # replicate 31 None)"
proof -
  have i: "init_sessions = init_client_session # replicate 31 init_client_session"
    by (simp add: init_sessions_def MAX_CLIENT_NUM_def numeral_eq_Suc)
  have d: "cs_status init_client_session = DISCONNECTED" "cs_task_conns init_client_session = Some []" "cs_lock init_client_session"
    by (simp_all add: init_client_session_def put_session_def)
  note defs = two_tasks_def one_client_def second_channel_accept_def start_world_def new_first Let_def split_beta
    upd_session_def upd_sessions_def upd_task_conns_def d
  show "task_conns_of (sessions (server two_tasks)) = [task_conn 8, task_conn 9]"
    by (simp add: defs) (simp add: i task_conns_of_def d)
  show "view two_tasks = (4, [3, 4, 7, 8, 9], Some (7, Some [8, 9], True) # replicate 31 None)"
    by (simp add: defs view_def) (simp add: i sview_def d task_conn_def)
qed

theorem port_update_byte_order_witness:
  "\<exists>ret w'. notify_client_after_updating two_tasks = (ret, w') \<and> ch_out (chans w' 9) = [Ctl (Port_update_req 0x409C0000)]"
proof -
  obtain ret w' where n: "notify_client_after_updating two_tasks = (ret, w')"
    by (metis surj_pair)
  have ok: "server_ok two_tasks"
    by (simp add: server_ok_def two_tasks_conns view_ok_def MAX_CLIENT_NUM_def entry_ok_def list_all_iff)
  have q: "chans two_tasks fd = quiet" "second_port (server two_tasks) = 40000" for fd
    by (simp_all add: two_tasks_def upd_session_def upd_sessions_def one_client_props)
      (simp add: one_client_def second_channel_accept_def start_world_def new_first Let_def split_beta upd_session_def upd_sessions_def)
  have "ch_out (chans w' (conn_sock ([task_conn 8, task_conn 9] ! 1))) =
      ch_out (chans two_tasks (conn_sock ([task_conn 8, task_conn 9] ! 1))) @ [Ctl (Port_update_req (if even (1 :: nat)
        then word_of_int (second_port (server two_tasks)) else htonl (word_of_int (second_port (server two_tasks)))))]"
    by (rule port_update_byte_order [OF ok _ n]) (simp_all add: q quiet_def two_tasks_conns)
  moreover have "htonl 40000 = 0x409C0000"
    by code_simp
  ultimately show ?thesis
    using n by (auto simp: q quiet_def task_conn_def)
qed

end
