(* ===== verification/Sftt_Forward.thy ===== *)
theory Sftt_Forward
  imports Sftt_Service
begin

text \<open>
  What single requests do: forwarding a transfer, running a command, logging in, adding a
  connection.
\<close>

section \<open>Forwarding\<close>

definition relayed :: "get_resp \<Rightarrow> get_resp" where
  "relayed r = r\<lparr>gr_status := resp_num RESP_OK,
     gr_message := buf_strncpy (gr_message r) (resp_messages RESP_OK) (RESP_MESSAGE_MAX_LEN - 1)\<rparr>"

lemma stop_bit_lost: "take_bit 16 fl = fl \<Longrightarrow> htonl fl AND REQ_RESP_FLAG_STOP = 0"
proof -
  assume "take_bit 16 fl = fl"
  then have z: "take_bit 16 (htonl fl) = 0"
    by (rule htonl_low_bits)
  have "\<not> bit (htonl fl) 1"
    using arg_cong [OF z, of "\<lambda>x. bit x 1"] by (simp add: bit_take_bit_iff)
  then show ?thesis
    by (intro bit_word_eqI) (auto simp: REQ_RESP_FLAG_STOP_def bit_simps bit_numeral_rec nth_Cons split: nat.splits intro!: gr0I)
qed

lemma send_get_ok:
  assumes "ch_send_ok (chans w (main_sock_of i w))"
  shows "send_get i r RESP_OK (gr_flags r) w = (0, hton_get_resp (relayed r),
    set_chan (main_sock_of i w) ((chans w (main_sock_of i w))\<lparr>ch_out := ch_out (chans w (main_sock_of i w)) @ [Get_resp (relayed r)]\<rparr>) w)"
  using assms by (simp add: send_get_def send_get_resp_def ch_send_def relayed_def Let_def)

text \<open>A reply of the client as the server passes it on to the peer.\<close>

definition passed_on :: "status_resp \<Rightarrow> status_resp" where
  "passed_on c = set_status c (the (code_of (sr_status c))) 0"

abbreviation asks_reply :: "get_resp \<Rightarrow> bool" where
  "asks_reply r \<equiv> gr_need_reply r \<noteq> 0"

lemma relayed_flags:
  "take_bit 16 (gr_flags r) = gr_flags r \<Longrightarrow> gr_flags (hton_get_resp (relayed r)) AND REQ_RESP_FLAG_STOP = 0"
  "gr_need_reply (hton_get_resp (relayed r)) = 0 \<longleftrightarrow> \<not> asks_reply r"
  by (simp_all add: hton_get_resp_def relayed_def stop_bit_lost)

lemma fwd_reply:
  assumes "ch_send_ok (chans w peer)" "code_of (sr_status c) \<noteq> None"
  shows "fwd_common_reply peer (Some (Common_resp c)) w = Inr (0, Some (Common_resp (hton_status (passed_on c))),
    set_chan peer ((chans w peer)\<lparr>ch_out := ch_out (chans w peer) @ [Common_resp (passed_on c)]\<rparr>) w)"
  using assms by (auto simp: fwd_common_reply_def send_common_resp_def ch_send_def passed_on_def Let_def)

lemma fwd_get_loop_relays:
  assumes "ch_in (chans w peer) = map (Msg \<circ> Get_resp) rs @ [Broken]" "peer \<noteq> main_sock_of i w"
    and "ch_send_ok (chans w (main_sock_of i w))" "ch_send_ok (chans w peer)" "length rs < n"
    and "ch_in (chans w (main_sock_of i w)) = map (Msg \<circ> Common_resp) cs @ later" "length cs = length (filter asks_reply rs)"
    and "list_all (\<lambda>c. code_of (sr_status c) \<noteq> None) cs" "list_all (\<lambda>r. take_bit 16 (gr_flags r) = gr_flags r) rs"
  shows "\<exists>w'. fwd_get_loop n i peer obj w = Inr (-1, w')
    \<and> ch_out (chans w' (main_sock_of i w)) = ch_out (chans w (main_sock_of i w)) @ map (Get_resp \<circ> relayed) rs
    \<and> ch_out (chans w' peer) = ch_out (chans w peer) @ map (Common_resp \<circ> passed_on) cs
    \<and> ch_in (chans w' (main_sock_of i w)) = later"
  using assms
proof (induction rs arbitrary: n obj w cs)
  case Nil
  obtain m where n: "n = Suc m"
    using Nil.prems(5) by (cases n) auto
  let ?w1 = "set_chan peer ((chans w peer)\<lparr>ch_in := []\<rparr>) w"
  have r: "recv_obj peer obj w = (-1, obj, ?w1)"
    using Nil.prems(1) by (simp add: recv_obj_def ch_recv_def)
  have "fwd_get_loop n i peer obj w = Inr (-1, ?w1)"
    unfolding n fwd_get_loop.simps r Let_def by simp
  then show ?case
    using Nil.prems(2,6,7) by simp
next
  case (Cons r rs)
  let ?fd = "main_sock_of i w"
  obtain m where n: "n = Suc m"
    using Cons.prems(5) by (cases n) auto
  define w1 where "w1 = set_chan peer ((chans w peer)\<lparr>ch_in := map (Msg \<circ> Get_resp) rs @ [Broken]\<rparr>) w"
  define w2 where "w2 = set_chan ?fd ((chans w1 ?fd)\<lparr>ch_out := ch_out (chans w1 ?fd) @ [Get_resp (relayed r)]\<rparr>) w1"
  have r: "recv_obj peer obj w = (1, Some (Get_resp r), w1)"
    using Cons.prems(1) by (simp add: recv_obj_def ch_recv_def w1_def comp_def)
  have s: "send_get i r RESP_OK (gr_flags r) w1 = (0, hton_get_resp (relayed r), w2)"
    using send_get_ok [of w1 i r] Cons.prems(2,3) by (simp add: w1_def w2_def)
  note f = relayed_flags [of r]
  show ?case
  proof (cases "asks_reply r")
    case False
    have "fwd_get_loop n i peer obj w = fwd_get_loop m i peer (Some (Get_resp (hton_get_resp (relayed r)))) w2"
      unfolding n fwd_get_loop.simps r Let_def using s f False Cons.prems(9) by simp
    moreover have "\<exists>w'. fwd_get_loop m i peer (Some (Get_resp (hton_get_resp (relayed r)))) w2 = Inr (-1, w')
        \<and> ch_out (chans w' (main_sock_of i w2)) = ch_out (chans w2 (main_sock_of i w2)) @ map (Get_resp \<circ> relayed) rs
        \<and> ch_out (chans w' peer) = ch_out (chans w2 peer) @ map (Common_resp \<circ> passed_on) cs
        \<and> ch_in (chans w' (main_sock_of i w2)) = later"
      using Cons.prems False by (intro Cons.IH) (auto simp: w1_def w2_def n)
    ultimately show ?thesis
      using Cons.prems(2) by (auto simp: w1_def w2_def)
  next
    case True
    then obtain c cs1 where cs: "cs = c # cs1" "code_of (sr_status c) \<noteq> None"
      using Cons.prems(7,8) by (cases cs) auto
    define w3 where "w3 = set_chan ?fd ((chans w2 ?fd)\<lparr>ch_in := map (Msg \<circ> Common_resp) cs1 @ later\<rparr>) w2"
    define w4 where "w4 = set_chan peer ((chans w3 peer)\<lparr>ch_out := ch_out (chans w3 peer) @ [Common_resp (passed_on c)]\<rparr>) w3"
    have m2: "main_sock_of i w2 = ?fd"
      by (simp add: w1_def w2_def)
    have r2: "recv_obj (main_sock_of i w2) (Some (Get_resp (hton_get_resp (relayed r)))) w2 = (1, Some (Common_resp c), w3)"
      unfolding m2 using Cons.prems(2,6) cs(1) by (simp add: recv_obj_def ch_recv_def w3_def w2_def w1_def comp_def)
    have s2: "fwd_common_reply peer (Some (Common_resp c)) w3 = Inr (0, Some (Common_resp (hton_status (passed_on c))), w4)"
      unfolding w4_def using Cons.prems(2,4) cs(2) by (intro fwd_reply) (simp_all add: w3_def w2_def w1_def)
    have "fwd_get_loop n i peer obj w = fwd_get_loop m i peer (Some (Common_resp (hton_status (passed_on c)))) w4"
      unfolding n fwd_get_loop.simps r Let_def using s f True r2 s2 Cons.prems(9) by simp
    moreover have "\<exists>w'. fwd_get_loop m i peer (Some (Common_resp (hton_status (passed_on c)))) w4 = Inr (-1, w')
        \<and> ch_out (chans w' (main_sock_of i w4)) = ch_out (chans w4 (main_sock_of i w4)) @ map (Get_resp \<circ> relayed) rs
        \<and> ch_out (chans w' peer) = ch_out (chans w4 peer) @ map (Common_resp \<circ> passed_on) cs1
        \<and> ch_in (chans w' (main_sock_of i w4)) = later"
      using Cons.prems True cs(1) by (intro Cons.IH) (auto simp: w1_def w2_def w3_def w4_def n)
    ultimately show ?thesis
      using Cons.prems(2) cs(1) by (auto simp: w1_def w2_def w3_def w4_def)
  qed
qed

text \<open>
  C16: a forwarded get does not end with the transfer. Let the peer send any responses, each of which may ask for a
  reply, and the client who gets the files send one reply with a known status for each response that asks
  for one. Every response is relayed to the client and every reply to the peer, in order, and also the responses
  behind the one that carries the stop flag: the server goes on until the connection to the peer fails, and reports a failure.
  The flag is tested in the struct that the relaying send has converted to network byte order.
\<close>

theorem fwd_get_ignores_stop:
  assumes "take_peer RESP_PEER_BUSYING (pq_user req) w = Inr (Inr (j, k, user), w1)"
    and "peer_sock j k w1 \<noteq> main_sock_of i w1" "ch_send_ok (chans w1 (peer_sock j k w1))" "ch_send_ok (chans w1 (main_sock_of i w1))"
    and "ch_in (chans w1 (peer_sock j k w1)) = map (Msg \<circ> Get_resp) rs @ [Broken]" "length rs < fuel e"
    and "list_all (\<lambda>r. gr_flags r \<in> {0, 1, REQ_RESP_FLAG_STOP}) rs"
    and "ch_in (chans w1 (main_sock_of i w1)) = map (Msg \<circ> Common_resp) cs @ later"
    and "length cs = length (filter asks_reply rs)" "list_all (\<lambda>c. code_of (sr_status c) \<noteq> None) cs"
  shows "\<exists>w'. handle_fwd_get_req e i req w = Inr (-1, w')
    \<and> ch_out (chans w' (main_sock_of i w1)) = ch_out (chans w1 (main_sock_of i w1)) @ map (Get_resp \<circ> relayed) rs
    \<and> ch_out (chans w' (peer_sock j k w1)) = ch_out (chans w1 (peer_sock j k w1))
        @ Ctl (Get_req (req\<lparr>pq_user := user\<rparr>)) # map (Common_resp \<circ> passed_on) cs
    \<and> ch_in (chans w' (main_sock_of i w1)) = later"
proof -
  let ?p = "peer_sock j k w1"
  define w2 where "w2 = set_chan ?p ((chans w1 ?p)\<lparr>ch_out := ch_out (chans w1 ?p) @ [Ctl (Get_req (req\<lparr>pq_user := user\<rparr>))]\<rparr>) w1"
  have s: "send_msg ?p (Ctl (Get_req (req\<lparr>pq_user := user\<rparr>))) w1 = (0, w2)"
    using assms(3) by (simp add: send_msg_def ch_send_def w2_def)
  have small: "take_bit 16 fl = fl" if "fl \<in> {0, 1, REQ_RESP_FLAG_STOP}" for fl :: "32 word"
    using that by (auto simp: REQ_RESP_FLAG_STOP_def)
  obtain w3 where w3: "fwd_get_loop (fuel e) i ?p (old_obj e) w2 = Inr (-1, w3)"
    "ch_out (chans w3 (main_sock_of i w2)) = ch_out (chans w2 (main_sock_of i w2)) @ map (Get_resp \<circ> relayed) rs"
    "ch_out (chans w3 ?p) = ch_out (chans w2 ?p) @ map (Common_resp \<circ> passed_on) cs" "ch_in (chans w3 (main_sock_of i w2)) = later"
    using fwd_get_loop_relays [of w2 ?p rs i "fuel e" cs later "old_obj e"] assms(2-10) small by (auto simp: w2_def list_all_iff)
  have "chans (release_peer j k w3) = chans w3"
    by (simp add: release_peer_def upd_sessions_def)
  then show ?thesis
    using assms(1,2) s w3 by (auto simp: handle_fwd_get_req_def w2_def)
qed

definition stop_resp :: get_resp where
  "stop_resp = zero_get_resp\<lparr>gr_flags := REQ_RESP_FLAG_STOP\<rparr>"

text \<open>A transfer: the name and the digest, which ask for a reply, the last block, and what follows it.\<close>

definition asking_resp :: get_resp where
  "asking_resp = zero_get_resp\<lparr>gr_need_reply := 1\<rparr>"

definition fwd_world :: world where
  "fwd_world = set_chan 7 \<lparr>ch_in = map (Msg \<circ> Common_resp) [zero_status_resp, zero_status_resp], ch_out = [], ch_send_ok = True\<rparr>
     (set_chan 8 \<lparr>ch_in = map (Msg \<circ> Get_resp) [asking_resp, asking_resp, stop_resp, zero_get_resp] @ [Broken], ch_out = [],
        ch_send_ok = True\<rparr> two_tasks)"

definition peer_req :: path_req where
  "peer_req = \<lparr>pq_session_id = zero_bytes 32, pq_path = zero_bytes 1024, pq_to_peer = 1, pq_user = zero_user\<rparr>"

definition fwd_session :: client_session where
  "fwd_session = sessions (server two_tasks) ! 0"

lemma fwd_session_props:
  "sessions (server two_tasks) = fwd_session # replicate 31 init_client_session" "cs_status fwd_session = ACTIVE"
  "cs_session_id fwd_session = []" "cs_task_conns fwd_session = Some [task_conn 8, task_conn 9]" "cs_lock fwd_session"
  "conn_sock (cs_main_conn fwd_session) = 7" "cs_ip fwd_session = ''10.0.0.9''"
proof -
  have i: "init_sessions = init_client_session # replicate 31 init_client_session"
    by (simp add: init_sessions_def MAX_CLIENT_NUM_def numeral_eq_Suc)
  note defs = fwd_session_def two_tasks_def one_client_def second_channel_accept_def start_world_def new_first Let_def split_beta
    upd_session_def upd_sessions_def upd_task_conns_def init_client_session_def put_session_def
  show "sessions (server two_tasks) = fwd_session # replicate 31 init_client_session"
    by (simp add: fwd_session_def two_tasks_def one_client_def second_channel_accept_def start_world_def new_first Let_def
        split_beta upd_session_def upd_sessions_def) (simp add: i)
  show "cs_status fwd_session = ACTIVE" "cs_session_id fwd_session = []" "cs_lock fwd_session"
    "cs_task_conns fwd_session = Some [task_conn 8, task_conn 9]" "conn_sock (cs_main_conn fwd_session) = 7" "cs_ip fwd_session = ''10.0.0.9''"
    by (simp_all add: defs)
qed

theorem fwd_get_ignores_stop_witness:
  "\<exists>w'. handle_fwd_get_req small_env 0 peer_req fwd_world = Inr (-1, w')
     \<and> ch_out (chans w' 7) = map (Get_resp \<circ> relayed) [asking_resp, asking_resp, stop_resp, zero_get_resp]"
proof -
  have sid: "buf_string (lu_session_id zero_user) = []"
    by (simp add: zero_user_def zero_bytes_def buf_string_def)
  let ?u = "zero_user\<lparr>lu_ip := buf_strncpy (lu_ip zero_user) ''10.0.0.9'' 16\<rparr>"
  let ?s = "upd_conn (Task_conn 0) (\<lambda>c. c\<lparr>is_using := True\<rparr>) fwd_session"
  let ?w1 = "upd_sessions (\<lambda>_. ?s # replicate 31 init_client_session) fwd_world"
  have p: "take_peer RESP_PEER_BUSYING (pq_user peer_req) fwd_world = Inr (Inr (0, 0, ?u), ?w1)"
    using sid by (simp add: take_peer_def check_user_def peer_req_def fwd_world_def fwd_session_props
        get_peer_task_conn_by_user_def find_client_session_by_id_def get_peer_task_conn_by_session_def task_conn_def zero_conn_def
        Let_def del: upd_conn.simps)
  have q: "peer_sock 0 0 ?w1 = 8" "main_sock_of 0 ?w1 = 7"
    by (simp_all add: peer_sock_def main_sock_of_def upd_sessions_def upd_task_conns_def fwd_session_props task_conn_def)
  have c: "chans ?w1 8 = \<lparr>ch_in = map (Msg \<circ> Get_resp) [asking_resp, asking_resp, stop_resp, zero_get_resp] @ [Broken],
        ch_out = [], ch_send_ok = True\<rparr>"
    "chans ?w1 7 = \<lparr>ch_in = map (Msg \<circ> Common_resp) [zero_status_resp, zero_status_resp] @ [], ch_out = [], ch_send_ok = True\<rparr>"
    by (simp_all add: upd_sessions_def fwd_world_def)
  have code: "code_of (sr_status zero_status_resp) = Some RESP_OK"
    by (simp add: code_of_def zero_status_resp_def)
  have "\<exists>w'. handle_fwd_get_req small_env 0 peer_req fwd_world = Inr (-1, w')
      \<and> ch_out (chans w' (main_sock_of 0 ?w1)) = ch_out (chans ?w1 (main_sock_of 0 ?w1))
          @ map (Get_resp \<circ> relayed) [asking_resp, asking_resp, stop_resp, zero_get_resp]
      \<and> ch_out (chans w' (peer_sock 0 0 ?w1)) = ch_out (chans ?w1 (peer_sock 0 0 ?w1))
          @ Ctl (Get_req (peer_req\<lparr>pq_user := ?u\<rparr>)) # map (Common_resp \<circ> passed_on) [zero_status_resp, zero_status_resp]
      \<and> ch_in (chans w' (main_sock_of 0 ?w1)) = []"
    by (rule fwd_get_ignores_stop [OF p]) (simp_all only: q c, simp_all add: code small_env_def asking_resp_def stop_resp_def zero_get_resp_def)
  then show ?thesis
    unfolding q c by auto
qed

section \<open>Commands\<close>

fun directcmd_content :: "msg \<Rightarrow> bytes" where
  "directcmd_content (Ctl (Directcmd_resp r)) = take (unat (dc_this_len r)) (dc_content r)"
| "directcmd_content m = []"

fun directcmd_total :: "msg \<Rightarrow> 32 word" where
  "directcmd_total (Ctl (Directcmd_resp r)) = dc_total_len r"
| "directcmd_total m = 0"

lemma send_directcmd_ok:
  assumes "ch_send_ok (chans w (main_sock_of i w))"
  shows "send_directcmd_resp i r code flags w = (0, hton_directcmd_resp (set_status r code flags),
    set_chan (main_sock_of i w) ((chans w (main_sock_of i w))\<lparr>ch_out := ch_out (chans w (main_sock_of i w))
      @ [Ctl (Directcmd_resp (set_status r code flags))]\<rparr>) w)"
  using assms by (simp add: send_directcmd_resp_def reply_ok Let_def)

lemma directcmd_loop_short:
  assumes "length out \<le> 1024" "ch_send_ok (chans w (main_sock_of i w))" "2 \<le> n"
    and "r = zero_directcmd_resp\<lparr>dc_total_len := of_nat (length out)\<rparr>"
  shows "\<exists>w' ms. directcmd_loop n i out 0 r w = Inr w' \<and> fs w' = fs w
    \<and> ch_out (chans w' (main_sock_of i w)) = ch_out (chans w (main_sock_of i w)) @ ms
    \<and> concat (map directcmd_content ms) = out
    \<and> map directcmd_total ms = (if int (length out) < sint (htonl (of_nat (length out)))
        then [of_nat (length out), htonl (of_nat (length out))] else [of_nat (length out)])"
proof -
  let ?fd = "main_sock_of i w" and ?n = "of_nat (length out) :: 32 word"
  obtain m where n: "n = Suc (Suc m)"
    using assms(3) by (metis add_2_eq_Suc le_Suc_ex)
  have len: "take 4095 out = out" "drop 4095 out = []" "unat ?n = length out" "sint ?n = int (length out)"
    using assms(1) by (simp_all add: unsigned_of_nat take_bit_nat_eq_self signed_of_nat signed_take_bit_int_eq_self)
  define r1 where "r1 = set_status (r\<lparr>dc_content := out @ drop (length out) (dc_content r), dc_this_len := ?n\<rparr>) RESP_OK 1"
  define w1 where "w1 = set_chan ?fd ((chans w ?fd)\<lparr>ch_out := ch_out (chans w ?fd) @ [Ctl (Directcmd_resp r1)]\<rparr>) w"
  have c: "\<not> length out > length (dc_content r)" "dc_total_len (hton_directcmd_resp r1) = htonl ?n"
    "length (dc_content (hton_directcmd_resp r1)) = 1024" "dc_content r1 = out @ drop (length out) (dc_content r)"
    "dc_this_len r1 = ?n" "dc_total_len r1 = ?n"
    using assms(1,4) by (simp_all add: zero_directcmd_resp_def zero_bytes_def r1_def set_status_def hton_directcmd_resp_def hton_status_def)
  have s1: "directcmd_loop n i out 0 r w = (if int (length out) < sint (htonl ?n)
      then directcmd_loop (Suc m) i [] (int (length out)) (hton_directcmd_resp r1) w1 else Inr w1)"
    unfolding n directcmd_loop.simps(2) [of "Suc m"] Let_def len send_directcmd_ok [OF assms(2)] using c(1,2)
    by (simp add: r1_def w1_def)
  have w1: "main_sock_of i w1 = ?fd" "ch_send_ok (chans w1 ?fd)" "fs w1 = fs w"
    using assms(2) by (simp_all add: w1_def)
  show ?thesis
  proof (cases "int (length out) < sint (htonl ?n)")
    case False
    then show ?thesis
      using s1 c w1 by (intro exI [of _ w1] exI [of _ "[Ctl (Directcmd_resp r1)]"]) (simp add: w1_def len(3))
  next
    case True
    define r2 where "r2 = set_status ((hton_directcmd_resp r1)\<lparr>dc_this_len := 0\<rparr>) RESP_OK 1"
    define w2 where "w2 = set_chan ?fd ((chans w1 ?fd)\<lparr>ch_out := ch_out (chans w1 ?fd) @ [Ctl (Directcmd_resp r2)]\<rparr>) w1"
    have c2: "dc_total_len (hton_directcmd_resp r2) = ?n" "dc_this_len r2 = 0" "dc_total_len r2 = htonl ?n"
      using c(2) by (simp_all add: r2_def set_status_def hton_directcmd_resp_def hton_status_def)
    have "(hton_directcmd_resp r1)\<lparr>dc_content := [] @ drop 0 (dc_content (hton_directcmd_resp r1)), dc_this_len := of_nat 0\<rparr>
        = (hton_directcmd_resp r1)\<lparr>dc_this_len := 0\<rparr>"
      by simp
    then have "directcmd_loop (Suc m) i [] (int (length out)) (hton_directcmd_resp r1) w1 = Inr w2"
      unfolding directcmd_loop.simps(2) [of m] Let_def using send_directcmd_ok [of w1 i] w1 c2(1) len(4)
      by (simp add: r2_def w2_def)
    then show ?thesis
      using s1 True c c2 w1 by (intro exI [of _ w2] exI [of _ "[Ctl (Directcmd_resp r1), Ctl (Directcmd_resp r2)]"])
        (simp add: w1_def w2_def len(3))
  qed
qed

text \<open>
  C17: a command is run for any session, whether its user has logged in or not and whatever session it names. With
  output of at most 1024 bytes the output is sent back; a second, empty message follows if the number of bytes is
  smaller than the same number with its bytes reversed, and states that number as the total. More
  output is written past the end of the response.
\<close>

theorem directcmd_unchecked:
  assumes "mkstemp e (fs w) = Some (temp, f1)" "f2 = shell e (take 1281 (buf_string cmd @ '' > '' @ temp)) f1"
    and "fopen_r f2 temp = Some out" "\<not> dir_at f2 (resolve f2 temp)"
    and "ch_send_ok (chans w (main_sock_of i w))" "2 \<le> fuel e"
  shows "if length out \<le> 1024
    then \<exists>w' ms. dispatch e i (Ctl (Directcmd_req sid cmd)) w = Inr (Stay, w') \<and> fs w' = unlink f2 temp
      \<and> ch_out (chans w' (main_sock_of i w)) = ch_out (chans w (main_sock_of i w)) @ ms
      \<and> concat (map directcmd_content ms) = out
      \<and> map directcmd_total ms = (if int (length out) < sint (htonl (of_nat (length out)))
          then [of_nat (length out), htonl (of_nat (length out))] else [of_nat (length out)])
    else dispatch e i (Ctl (Directcmd_req sid cmd)) w = Inl Out_of_bounds"
proof -
  let ?w1 = "w\<lparr>fs := f2\<rparr>" and ?r = "zero_directcmd_resp\<lparr>dc_total_len := of_nat (length out)\<rparr>"
  have fsz: "file_size f2 temp = length out"
    using assms(3,4) by (simp add: file_size_def)
  have h: "handle_directcmd_req e i cmd w = sbind (directcmd_loop (fuel e) i out 0 ?r ?w1) (\<lambda>w2.
      Inr (0, w2\<lparr>fs := unlink (fs w2) temp\<rparr>))"
    using assms(1-3) fsz by (simp add: handle_directcmd_req_def Let_def)
  have m: "main_sock_of i ?w1 = main_sock_of i w" "chans ?w1 = chans w"
    by (simp_all add: main_sock_of_def)
  show ?thesis
  proof (cases "length out \<le> 1024")
    case True
    then show ?thesis
      using directcmd_loop_short [OF True _ assms(6) refl, of ?w1 i] assms(5) m h by (auto simp: stay_def)
  next
    case False
    obtain n where "fuel e = Suc n"
      using assms(6) by (cases "fuel e") auto
    then have "directcmd_loop (fuel e) i out 0 ?r ?w1 = Inl Out_of_bounds"
      using False by (simp add: zero_directcmd_resp_def zero_bytes_def)
    then show ?thesis
      using False h by simp
  qed
qed

definition cmd_env :: env where
  "cmd_env = small_env\<lparr>mkstemp := (\<lambda>f. Some (''/x'', f)),
     shell := (\<lambda>c f. f\<lparr>nodes := (nodes f)([''x''] \<mapsto> \<lparr>st_mode = 0x8180, st_data = [104, 105]\<rparr>)\<rparr>)\<rparr>"

theorem directcmd_unchecked_witness:
  "\<exists>w' ms. dispatch cmd_env 0 (Ctl (Directcmd_req [] [108, 115])) one_client = Inr (Stay, w')
     \<and> ch_out (chans w' 7) = ms \<and> concat (map directcmd_content ms) = [104, 105]
     \<and> map directcmd_total ms = [2, 0x2000000]"
proof -
  let ?f = "small_fs\<lparr>nodes := (nodes small_fs)([''x''] \<mapsto> \<lparr>st_mode = 0x8180, st_data = [104, 105]\<rparr>)\<rparr>"
  have r: "resolve ?f ''/x'' = [''x'']"
    by (simp add: resolve_def is_absolute_path_def)
  have d: "if length [104, 105 :: byte] \<le> 1024
    then \<exists>w' ms. dispatch cmd_env 0 (Ctl (Directcmd_req [] [108, 115])) one_client = Inr (Stay, w') \<and> fs w' = unlink ?f ''/x''
      \<and> ch_out (chans w' (main_sock_of 0 one_client)) = ch_out (chans one_client (main_sock_of 0 one_client)) @ ms
      \<and> concat (map directcmd_content ms) = [104, 105]
      \<and> map directcmd_total ms = (if int (length [104, 105 :: byte]) < sint (htonl (of_nat (length [104, 105 :: byte])))
          then [of_nat (length [104, 105 :: byte]), htonl (of_nat (length [104, 105 :: byte]))] else [of_nat (length [104, 105 :: byte])])
    else dispatch cmd_env 0 (Ctl (Directcmd_req [] [108, 115])) one_client = Inl Out_of_bounds"
    by (rule directcmd_unchecked [where temp = "''/x''" and ?f1.0 = small_fs])
      (simp_all add: r cmd_env_def small_env_def one_client_props quiet_def fopen_r_def dir_at_def S_ISDIR_def small_fs_def
        resolve_def is_absolute_path_def)
  have c: "length [104, 105 :: byte] \<le> 1024" "htonl (of_nat (length [104, 105 :: byte])) = 0x2000000"
    "sint (0x2000000 :: 32 word) = 0x2000000"
    by (simp, code_simp+)
  obtain w' ms where m: "dispatch cmd_env 0 (Ctl (Directcmd_req [] [108, 115])) one_client = Inr (Stay, w')"
      "ch_out (chans w' (main_sock_of 0 one_client)) = ch_out (chans one_client (main_sock_of 0 one_client)) @ ms"
      "concat (map directcmd_content ms) = [104, 105]"
      "map directcmd_total ms = (if int (length [104, 105 :: byte]) < sint (htonl (of_nat (length [104, 105 :: byte])))
          then [of_nat (length [104, 105 :: byte]), htonl (of_nat (length [104, 105 :: byte]))] else [of_nat (length [104, 105 :: byte])])"
    using d [unfolded if_P [OF c(1)]] by (elim exE conjE)
  have "map directcmd_total ms = [2, 0x2000000]"
    using m(4) unfolding c by simp
  then show ?thesis
    using m(1-3) one_client_props(3,4) by (intro exI [of _ w'] exI [of _ ms]) (simp del: dispatch.simps add: quiet_def)
qed

section \<open>Logging in\<close>

text \<open>The answer that a login deserves.\<close>

definition login_code :: "world \<Rightarrow> validate_req \<Rightarrow> user_base_info option \<Rightarrow> user_auth_info option \<Rightarrow> resp_code" where
  "login_code w req base auth =
     (if fst (check_version (vq_ver req) (server_ver (server w)) 79) = -1 then RESP_UVS_BAD_VER
      else case base of
          None \<Rightarrow> RESP_UVS_NTFD
        | Some ub \<Rightarrow>
            if map_option ua_passwd_md5 auth \<noteq> Some (buf_string (vq_passwd_md5 req)) then RESP_UVS_INVALID
            else if \<not> file_existed (fs w) (Some (ub_home_dir ub)) then RESP_UVS_MISSHOME else RESP_UVS_PASS)"

lemma resp_message_string:
  "length (sr_message r) = 80 \<Longrightarrow> buf_string (sr_message (set_status r code flags)) = resp_messages code"
proof -
  assume l: "length (sr_message r) = 80"
  have "CHR 0x00 \<notin> set (resp_messages code) \<and> length (resp_messages code) < 79"
    by (cases code) simp_all
  then show ?thesis
    using l buf_strncpy_string [of "resp_messages code" 79 "sr_message r"]
    by (simp add: set_status_def RESP_MESSAGE_MAX_LEN_def)
qed

lemma send_validate_ok:
  "ch_send_ok (chans w (main_sock_of i w)) \<Longrightarrow> send_validate_resp i r code flags w =
     (0, set_chan (main_sock_of i w) ((chans w (main_sock_of i w))\<lparr>ch_out := ch_out (chans w (main_sock_of i w))
       @ [Ctl (Validate_resp (set_status r code flags))]\<rparr>) w)"
  by (simp add: send_validate_resp_def reply_ok)

text \<open>A refusal: one response with the code and its text, and nothing else changes.\<close>

lemma refused:
  assumes "ch_send_ok (chans w (main_sock_of i w))" "length (sr_message r0) = 80"
  shows "\<exists>r w'. send_validate_resp i r0 code 0 w = (0, w')
    \<and> ch_out (chans w' (main_sock_of i w)) = ch_out (chans w (main_sock_of i w)) @ [Ctl (Validate_resp r)]
    \<and> sr_status r = resp_num code \<and> va_session_id r = va_session_id r0 \<and> sessions (server w') = sessions (server w)
    \<and> buf_string (sr_message r) = resp_messages code"
  using assms by (simp add: send_validate_ok resp_message_string) (simp add: set_status_def)

lemma length_zero_message [simp]: "length (sr_message zero_validate_resp) = 80"
  by (simp add: zero_validate_resp_def zero_bytes_def)

lemma check_version_text: "check_version c s 79 = (ok, Some t) \<Longrightarrow> length t \<le> 78"
  by (auto simp: check_version_def Let_def split: if_splits)

text \<open>
  A login is answered with the code that the version, the user table, the password digest and the home
  directory call for. A refused login changes no session, and its text is that of the code: the longer text
  about versions is overwritten before it is sent. An accepted login gives the session the user, the home
  directory and a new identifier, and the response carries the identifier.
\<close>

theorem login_answer:
  assumes "i < length (sessions (server w))" "ch_send_ok (chans w (main_sock_of i w))"
    and "find_user_base_by_name (users_db e (get_user_db_file (fs w))) (buf_string (vq_name req)) = Inr base"
    and "find_user_auth_by_name (users_db e (get_user_db_file (fs w))) (buf_string (vq_name req)) = Inr auth"
  shows "\<exists>r w'. validate_user_info e i req w = Inr (0, w')
    \<and> ch_out (chans w' (main_sock_of i w)) = ch_out (chans w (main_sock_of i w)) @ [Ctl (Validate_resp r)]
    \<and> sr_status r = resp_num (login_code w req base auth)
    \<and> (if login_code w req base auth = RESP_UVS_PASS
       then (\<exists>ub. base = Some ub
          \<and> sessions (server w') = (sessions (server w))[i := (sessions (server w) ! i)\<lparr>cs_status := ACTIVE,
              cs_pwd := take 1023 (ub_home_dir ub), cs_user := ub,
              cs_session_id := fst (gen_session_id (random_letters e) (now w) 32 (session_ids w))\<rparr>]
          \<and> va_session_id r = buf_strncpy (zero_bytes 32) (cs_session_id (sessions (server w') ! i)) 32
          \<and> va_pwd r = buf_strncpy (zero_bytes 1024) (ub_home_dir ub) 1023)
       else sessions (server w') = sessions (server w) \<and> buf_string (sr_message r) = resp_messages (login_code w req base auth)
         \<and> va_session_id r = zero_bytes 32)"
proof -
  let ?v = "check_version (vq_ver req) (server_ver (server w)) 79"
  have ref: "\<exists>r w'. validate_user_info e i req w = Inr (0, w')
      \<and> ch_out (chans w' (main_sock_of i w)) = ch_out (chans w (main_sock_of i w)) @ [Ctl (Validate_resp r)]
      \<and> sr_status r = resp_num code \<and> sessions (server w') = sessions (server w) \<and> buf_string (sr_message r) = resp_messages code
      \<and> va_session_id r = zero_bytes 32"
    if "validate_user_info e i req w = Inr (send_validate_resp i r0 code 0 w)" "length (sr_message r0) = 80"
      "va_session_id r0 = zero_bytes 32" for r0 code
    using refused [OF assms(2) that(2), of code] that(1,3) by auto
  have z: "va_session_id zero_validate_resp = zero_bytes 32"
    by (simp add: zero_validate_resp_def)
  have none: "auth = None \<Longrightarrow> base = None"
    using assms(3,4) by (metis user_lookups_agree sum.inject(2))
  consider (ver) "fst ?v = -1" | (user) "fst ?v \<noteq> -1" "base = None"
    | (known) ub ua where "fst ?v \<noteq> -1" "base = Some ub" "auth = Some ua"
    using none by fastforce
  then show ?thesis
  proof cases
    case ver
    obtain t where v: "?v = (-1, Some t)"
      using ver by (auto simp: check_version_def Let_def split: if_splits)
    have "validate_user_info e i req w = Inr (send_validate_resp i
        (zero_validate_resp\<lparr>sr_message := buf_strcpy (sr_message zero_validate_resp) t\<rparr>) RESP_UVS_BAD_VER 0 w)"
      using v by (simp add: validate_user_info_def RESP_MESSAGE_MAX_LEN_def Let_def)
    from ref [OF this] show ?thesis
      using check_version_text [OF v] ver by (simp add: login_code_def z buf_strcpy_def str_bytes_def)
  next
    case user
    have "validate_user_info e i req w = Inr (send_validate_resp i zero_validate_resp RESP_UVS_NTFD 0 w)"
      using user assms(3,4) by (simp add: validate_user_info_def RESP_MESSAGE_MAX_LEN_def Let_def split_beta)
    from ref [OF this] show ?thesis
      using user by (simp add: login_code_def z)
  next
    case known
    consider (pw) "ua_passwd_md5 ua \<noteq> buf_string (vq_passwd_md5 req)"
      | (home) "ua_passwd_md5 ua = buf_string (vq_passwd_md5 req)" "\<not> file_existed (fs w) (Some (ub_home_dir ub))"
      | (ok) "ua_passwd_md5 ua = buf_string (vq_passwd_md5 req)" "file_existed (fs w) (Some (ub_home_dir ub))"
      by blast
    then show ?thesis
    proof cases
      case pw
      have "validate_user_info e i req w = Inr (send_validate_resp i zero_validate_resp RESP_UVS_INVALID 0 w)"
        using known pw assms(3,4) by (simp add: validate_user_info_def RESP_MESSAGE_MAX_LEN_def Let_def split_beta)
      from ref [OF this] show ?thesis
        using known pw by (simp add: login_code_def z)
    next
      case home
      have "validate_user_info e i req w = Inr (send_validate_resp i zero_validate_resp RESP_UVS_MISSHOME 0 w)"
        using known home assms(3,4) by (simp add: validate_user_info_def RESP_MESSAGE_MAX_LEN_def Let_def split_beta)
      from ref [OF this] show ?thesis
        using known home by (simp add: login_code_def z)
    next
      case ok
      then show ?thesis
        using known assms
        by (simp add: validate_user_info_def RESP_MESSAGE_MAX_LEN_def Let_def split_beta login_code_def reply_def send_msg_def
            main_sock_of_def ch_send_def upd_session_def upd_sessions_def) (simp add: zero_validate_resp_def)
    qed
  qed
qed

definition old_client_req :: validate_req where
  "old_client_req = \<lparr>vq_name_len = 3, vq_passwd_len = 8, vq_name = str_bytes ''ann'' @ zero_bytes 29,
     vq_passwd_md5 = str_bytes ''5f4dcc3b'' @ zero_bytes 25, vq_ver = \<lparr>major = 0, minor = 0, revision = 9\<rparr>\<rparr>"

lemma ann_user:
  "find_user_base_by_name (users_db small_env f) ''ann'' =
     Inr (Some \<lparr>ub_uid = 1, ub_name = ''ann'', ub_home_dir = ''/'', ub_create_time = 0, ub_update_time = 0\<rparr>)"
  "find_user_auth_by_name (users_db small_env f) ''ann'' = Inr (Some \<lparr>ua_name = ''ann'', ua_passwd_md5 = ''5f4dcc3b''\<rparr>)"
proof -
  have r: "user_row (users_db small_env f) ''ann'' =
      Inr (Some [(''uid'', Some ''1''), (''name'', Some ''ann''), (''passwd_md5'', Some ''5f4dcc3b''), (''home_dir'', Some ''/'')])"
    by (simp add: user_row_def small_env_def db_select_def select_user_def)
  have "atoi ''1'' = 1"
    by code_simp
  then show "find_user_base_by_name (users_db small_env f) ''ann'' =
     Inr (Some \<lparr>ub_uid = 1, ub_name = ''ann'', ub_home_dir = ''/'', ub_create_time = 0, ub_update_time = 0\<rparr>)"
    "find_user_auth_by_name (users_db small_env f) ''ann'' = Inr (Some \<lparr>ua_name = ''ann'', ua_passwd_md5 = ''5f4dcc3b''\<rparr>)"
    by (simp_all add: find_user_base_by_name_def find_user_auth_by_name_def r read_user_def read_auth_def read_home_def read_times_def
        copy_field_def)
qed

theorem login_answer_witness:
  "\<exists>r w'. validate_user_info small_env 0 old_client_req one_client = Inr (0, w') \<and> ch_out (chans w' 7) = [Ctl (Validate_resp r)]
     \<and> buf_string (sr_message r) = ''version mismatch!''"
proof -
  have n: "buf_string (vq_name old_client_req) = ''ann''"
    by code_simp
  let ?base = "Some \<lparr>ub_uid = 1, ub_name = ''ann'', ub_home_dir = ''/'', ub_create_time = 0, ub_update_time = 0\<rparr>"
  let ?auth = "Some \<lparr>ua_name = ''ann'', ua_passwd_md5 = ''5f4dcc3b''\<rparr>"
  have l: "login_code one_client old_client_req ?base ?auth = RESP_UVS_BAD_VER"
    by (simp add: login_code_def one_client_props old_client_req_def check_version_def Let_def)
  have "\<exists>r w'. validate_user_info small_env 0 old_client_req one_client = Inr (0, w')
    \<and> ch_out (chans w' (main_sock_of 0 one_client)) = ch_out (chans one_client (main_sock_of 0 one_client)) @ [Ctl (Validate_resp r)]
    \<and> sr_status r = resp_num (login_code one_client old_client_req ?base ?auth)
    \<and> (if login_code one_client old_client_req ?base ?auth = RESP_UVS_PASS
       then (\<exists>ub. ?base = Some ub
          \<and> sessions (server w') = (sessions (server one_client))[0 := (sessions (server one_client) ! 0)\<lparr>cs_status := ACTIVE,
              cs_pwd := take 1023 (ub_home_dir ub), cs_user := ub,
              cs_session_id := fst (gen_session_id (random_letters small_env) (now one_client) 32 (session_ids one_client))\<rparr>]
          \<and> va_session_id r = buf_strncpy (zero_bytes 32) (cs_session_id (sessions (server w') ! 0)) 32
          \<and> va_pwd r = buf_strncpy (zero_bytes 1024) (ub_home_dir ub) 1023)
       else sessions (server w') = sessions (server one_client)
         \<and> buf_string (sr_message r) = resp_messages (login_code one_client old_client_req ?base ?auth)
         \<and> va_session_id r = zero_bytes 32)"
    by (rule login_answer) (simp_all add: one_client_props quiet_def n ann_user)
  then show ?thesis
    unfolding l one_client_props by (auto simp: quiet_def)
qed

definition all_users_name :: string where
  "all_users_name = CHR 0x27 # '' or '' @ [CHR 0x27, CHR ''1'', CHR 0x27, CHR ''='', CHR 0x27, CHR ''1'']"

text \<open>
  C18: a name that closes the quotation of the query ends the server. The name goes into the statement as it
  was received; with the one below the statement asks for all users, and with more than one user in the table
  the assertion behind the query fails, before any password is looked at.
\<close>

theorem login_name_injection:
  assumes "fst (check_version (vq_ver req) (server_ver (server w)) 79) \<noteq> -1" "buf_string (vq_name req) = all_users_name"
    and "users_db e (get_user_db_file (fs w)) (''select * from user where name='' @ quoted [] @ '' or '' @ quoted ''1'' @ ''='' @ quoted ''1'')
      = Some (names, row1 # row2 # rows)" "names \<noteq> []"
  shows "validate_user_info e i req w = Inl Assertion_failed"
proof -
  have "select_user all_users_name =
      ''select * from user where name='' @ quoted [] @ '' or '' @ quoted ''1'' @ ''='' @ quoted ''1''"
    by (simp add: select_user_def all_users_name_def quoted_def)
  then have "user_row (users_db e (get_user_db_file (fs w))) all_users_name = Inl Assertion_failed"
    using assms(3,4) by (simp add: user_row_def db_select_def) (simp add: quoted_def)
  then show ?thesis
    using assms(1,2) by (simp add: validate_user_info_def find_user_base_by_name_def RESP_MESSAGE_MAX_LEN_def Let_def split_beta)
qed

definition two_user_env :: env where
  "two_user_env = small_env\<lparr>users_db := (\<lambda>_ sql. Some ([''uid'', ''name''], [[Some ''1'', Some ''ann''], [Some ''2'', Some ''bob'']]))\<rparr>"

definition injection_req :: validate_req where
  "injection_req = old_client_req\<lparr>vq_name := str_bytes all_users_name @ zero_bytes 20, vq_ver := \<lparr>major = 0, minor = 1, revision = 3\<rparr>\<rparr>"

theorem login_name_injection_witness: "validate_user_info two_user_env 0 injection_req one_client = Inl Assertion_failed"
proof -
  have "buf_string (vq_name injection_req) = all_users_name"
    by code_simp
  then show ?thesis
    using login_name_injection [of injection_req one_client two_user_env "[''uid'', ''name'']" "[Some ''1'', Some ''ann'']"
        "[Some ''2'', Some ''bob'']" "[]" 0]
    by (simp add: one_client_props injection_req_def check_version_def two_user_env_def)
qed

section \<open>Adding a connection\<close>

lemma find_after_leave:
  assumes "find_client_session_by_id sid ss = Some j" "i \<noteq> j" "cs_session_id s = cs_session_id (ss ! j)" "cs_status s = cs_status (ss ! j)"
  shows "find_client_session_by_id sid (ss[j := s, i := put_session]) = Some j"
proof -
  have f: "j < length ss" "client_connected (ss ! j)" "cs_session_id (ss ! j) = buf_string sid"
    "\<And>k. k < j \<Longrightarrow> \<not> (client_connected (ss ! k) \<and> cs_session_id (ss ! k) = buf_string sid)"
    using assms(1) by (auto simp: find_client_session_by_id_def first_index_Some)
  have p: "\<not> client_connected put_session"
    by (simp add: put_session_def)
  have "\<not> (client_connected (ss[j := s, i := put_session] ! k) \<and> cs_session_id (ss[j := s, i := put_session] ! k) = buf_string sid)"
    if "k < j" for k
  proof -
    have "ss[j := s, i := put_session] ! k = (if k = i then put_session else ss ! k)"
      using that f(1) by (simp add: nth_list_update)
    then show ?thesis
      using p f(4) [OF that] by (simp only: split: if_split) blast
  qed
  then show ?thesis
    using f(1-3) assms(2-4) unfolding find_client_session_by_id_def first_index_Some by simp
qed

text \<open>
  C15: a connection added to another session is found again: after the handler and the end of the session it
  came in on, the next forward to that user takes the added connection, and its socket is the one the
  connection was opened on and is still open.
\<close>

theorem append_conn_found:
  assumes "server_ok w" "i < length (sessions (server w))" "client_connected (sessions (server w) ! i)"
    and "find_client_session_by_id (aq_session_id req) (sessions (server w)) = Some j" "i \<noteq> j"
    and "aq_type req = conn_code CONN_TYPE_TASK" "ch_send_ok (chans w (main_sock_of i w))" "lu_session_id u = aq_session_id req"
  shows "\<exists>w1 ss. dispatch e i (Ctl (Append_conn_req req)) w = Inr (Leave False, w1)
    \<and> get_peer_task_conn_by_user u (sessions (server (leave False i w1))) = Inr (Some (j, 0), ss)
    \<and> peer_sock j 0 (leave False i w1) = main_sock_of i w \<and> main_sock_of i w \<in> set (open_socks (leave False i w1))"
proof -
  let ?ss = "sessions (server w)"
  let ?conn = "(cs_main_conn (?ss ! i))\<lparr>conn_type := CONN_TYPE_TASK, is_using := False, is_updating := False\<rparr>"
  obtain t where j: "j < length ?ss" "client_connected (?ss ! j)" "cs_task_conns (?ss ! j) = Some t" "cs_lock (?ss ! j)"
    using find_session_Some [OF assms(4)] session_entry_ok [OF assms(1)] by blast
  let ?s = "upd_task_conns (\<lambda>cs. ?conn # cs) (?ss ! j)"
  have s: "cs_session_id ?s = cs_session_id (?ss ! j)" "cs_status ?s = cs_status (?ss ! j)" "cs_task_conns ?s = Some (?conn # t)"
      "cs_lock ?s"
    using j(3,4) by (simp_all add: upd_task_conns_def)
  have m: "main_sock_of i (upd_session j f w) = main_sock_of i w" "chans (upd_session j f w) = chans w" for f
    using assms(5) by (simp_all add: main_sock_of_def upd_session_def upd_sessions_def)
  obtain w1 where h: "handle_append_conn_req i req w = Inr (0, w1)" "sessions (server w1) = ?ss[j := ?s]" "open_socks w1 = open_socks w"
    using assms(4,6,7) j(3) m by (simp add: handle_append_conn_req_def send_append_conn_resp_def reply_ok Let_def)
      (auto simp: upd_session_def upd_sessions_def set_chan_def)
  have l: "sessions (server (leave False i w1)) = ?ss[j := ?s, i := put_session]" "open_socks (leave False i w1) = open_socks w"
    using h(2,3) by (simp_all add: leave_def Let_def upd_session_def upd_sessions_def)
  have "find_client_session_by_id (lu_session_id u) (?ss[j := ?s, i := put_session]) = Some j"
    unfolding assms(8) by (rule find_after_leave [OF assms(4,5)]) (use s in simp_all)
  then have "\<exists>ss. get_peer_task_conn_by_user u (sessions (server (leave False i w1))) = Inr (Some (j, 0), ss)"
    using assms(5) j(1) s(3,4) unfolding l by (simp add: get_peer_task_conn_by_user_def get_peer_task_conn_by_session_def)
  moreover have "peer_sock j 0 (leave False i w1) = main_sock_of i w"
    using assms(5) j(1) s(3) by (simp add: peer_sock_def l main_sock_of_def)
  moreover have "main_sock_of i w \<in> set (open_socks w)"
  proof -
    have "main_sock_of i w \<in> set (vsocks (sview (?ss ! i)))"
      using assms(3) by (simp add: main_sock_of_def sview_def)
    moreover have "set (concat (map vsocks (map sview ?ss))) \<subseteq> set (open_socks w)"
      using assms(1) by (simp add: server_ok_def view_ok_def view_def)
    moreover have "vsocks (sview (?ss ! i)) \<in> set (map vsocks (map sview ?ss))"
      using assms(2) by simp
    ultimately show ?thesis
      unfolding set_concat by blast
  qed
  ultimately show ?thesis
    using h(1) l(2) by auto
qed

definition append_req :: append_conn_req where
  "append_req = \<lparr>aq_session_id = zero_bytes 32, aq_type = 2\<rparr>"

definition two_clients :: world where
  "two_clients = second_channel_accept 9 ''10.0.0.9'' 50001 True one_client"

theorem append_conn_found_witness:
  "\<exists>w1 ss. dispatch small_env 1 (Ctl (Append_conn_req append_req)) two_clients = Inr (Leave False, w1)
    \<and> get_peer_task_conn_by_user zero_user (sessions (server (leave False 1 w1))) = Inr (Some (0, 0), ss)
    \<and> peer_sock 0 0 (leave False 1 w1) = 9 \<and> 9 \<in> set (open_socks (leave False 1 w1))"
proof -
  define s where "s = sessions (server one_client) ! 0"
  have i: "init_sessions = init_client_session # init_client_session # replicate 30 init_client_session"
    by (simp add: init_sessions_def MAX_CLIENT_NUM_def numeral_eq_Suc)
  have o: "sessions (server one_client) = s # init_client_session # replicate 30 init_client_session" "cs_status s = ACTIVE" "cs_session_id s = []"
    "7 \<in> set (open_socks one_client)" "9 \<notin> set (open_socks one_client)"
    by (simp_all add: s_def one_client_def second_channel_accept_def start_world_def new_first Let_def split_beta upd_session_def
        upd_sessions_def) (simp_all add: i init_client_session_def put_session_def)
  have n: "get_new_session (sessions (server one_client)) = Some (1, (sessions (server one_client))[1 := init_client_session\<lparr>cs_status := ACTIVE\<rparr>])"
    by (simp add: get_new_session_def o) (simp add: init_client_session_def put_session_def)
  have ok: "server_ok two_clients"
    unfolding two_clients_def by (rule accept_ok [OF one_client_ok o(5)])
  have t: "length (sessions (server two_clients)) = 32" "sessions (server two_clients) ! 0 = s"
    "client_connected (sessions (server two_clients) ! 1)" "main_sock_of 1 two_clients = 9" "chans two_clients fd = quiet" for fd
    by (simp_all add: two_clients_def second_channel_accept_def n Let_def split_beta upd_session_def upd_sessions_def
        main_sock_of_def one_client_props) (simp_all add: o(1))
  have z: "buf_string (zero_bytes 32) = []"
    by (simp add: zero_bytes_def buf_string_def)
  have f: "find_client_session_by_id (aq_session_id append_req) (sessions (server two_clients)) = Some 0"
    using t(1,2) o(2,3) z by (simp add: find_client_session_by_id_def first_index_Some append_req_def)
  show ?thesis
    using append_conn_found [OF ok _ t(3) f, of zero_user small_env] t(1,4,5) by (simp add: append_req_def zero_user_def quiet_def)
qed

end
