(* ===== verification/Sftt_Command.thy ===== *)
theory Sftt_Command
  imports Sftt_User
begin

text \<open>
  The command line of the client: splitting a line into a command and its arguments (\<^verbatim>\<open>src/src/client.c\<close>,
  \<^verbatim>\<open>include/state.h\<close>), the addresses it is started with, and the options of \<^verbatim>\<open>src/src/option.c\<close>.
\<close>

section \<open>Commands\<close>

definition EXEC_NAME_MAX_LEN :: nat where "EXEC_NAME_MAX_LEN = 32"
definition CMD_ARG_MAX_LEN :: nat where "CMD_ARG_MAX_LEN = 1024"
definition CMD_MAX_LEN :: nat where "CMD_MAX_LEN = 1024"

datatype cmd_args_state =
    INIT | RECEIVE_SINGLE_QUOTE | AMONG_SINGLE_QUOTE | RECEIVE_DOUBLE_QUOTE | AMONG_DOUBLE_QUOTE | SUBSTR_END | FINAL

record user_cmd =
  cmd_name :: "string option"
  cmd_argv :: "string list"

text \<open>The name of the command and the rest of the line; a name is cut after 31 characters.\<close>

definition parse_exec_name :: "string \<Rightarrow> string option \<times> string" where
  "parse_exec_name buf =
     (let p = dropWhile isspace buf; exec_name = take (EXEC_NAME_MAX_LEN - 1) (takeWhile (\<lambda>c. \<not> isspace c) p)
      in (strdup (Some exec_name), drop (length exec_name) p))"

text \<open>
  What one character does: it stops the parsing in an unexpected state, changes the state, is put into the argument
  that is being read, or ends the argument.
\<close>

datatype arg_step = Stop | Next cmd_args_state | Put cmd_args_state | End_arg

fun arg_char :: "cmd_args_state \<Rightarrow> char \<Rightarrow> arg_step" where
  "arg_char state c =
     (if isspace c
      then case state of
          INIT \<Rightarrow> End_arg
        | RECEIVE_SINGLE_QUOTE \<Rightarrow> Put state
        | AMONG_SINGLE_QUOTE \<Rightarrow> Put state
        | RECEIVE_DOUBLE_QUOTE \<Rightarrow> Put state
        | AMONG_DOUBLE_QUOTE \<Rightarrow> Put state
        | _ \<Rightarrow> Stop
      else if c = CHR 0x27
      then case state of
          INIT \<Rightarrow> Next RECEIVE_SINGLE_QUOTE
        | RECEIVE_SINGLE_QUOTE \<Rightarrow> Next INIT
        | AMONG_SINGLE_QUOTE \<Rightarrow> Next INIT
        | _ \<Rightarrow> Stop
      else if c = CHR 0x22
      then case state of
          INIT \<Rightarrow> Next RECEIVE_DOUBLE_QUOTE
        | RECEIVE_DOUBLE_QUOTE \<Rightarrow> Next INIT
        | AMONG_DOUBLE_QUOTE \<Rightarrow> Next INIT
        | _ \<Rightarrow> Stop
      else case state of
          INIT \<Rightarrow> Put INIT
        | RECEIVE_SINGLE_QUOTE \<Rightarrow> Put AMONG_SINGLE_QUOTE
        | AMONG_SINGLE_QUOTE \<Rightarrow> Put AMONG_SINGLE_QUOTE
        | RECEIVE_DOUBLE_QUOTE \<Rightarrow> Put AMONG_DOUBLE_QUOTE
        | AMONG_DOUBLE_QUOTE \<Rightarrow> Put AMONG_DOUBLE_QUOTE
        | _ \<Rightarrow> Stop)"

text \<open>
  The loop over the line; \<open>Inr None\<close> is the result -1. The check of the length comes before the next character,
  so that an argument of 1024 characters at the end of the line has its terminator written behind the array. An
  argument whose quotation is not closed is left out.
\<close>

fun args_loop :: "cmd_args_state \<Rightarrow> string \<Rightarrow> string list \<Rightarrow> string \<Rightarrow> c_fault + string list option" where
  "args_loop state arg args [] =
     (if state = INIT \<and> arg \<noteq> []
      then if length arg \<ge> CMD_ARG_MAX_LEN then Inl Out_of_bounds else Inr (Some (args @ [arg]))
      else Inr (Some args))"
| "args_loop state arg args (c # buf) =
     (if length arg \<ge> CMD_ARG_MAX_LEN then Inr None
      else case arg_char state c of
          Stop \<Rightarrow> Inr None
        | Next s \<Rightarrow> args_loop s arg args buf
        | Put s \<Rightarrow> args_loop s (arg @ [c]) args buf
        | End_arg \<Rightarrow> if arg = [] then args_loop state [] args buf else args_loop state [] (args @ [arg]) buf)"

definition parse_args :: "string \<Rightarrow> c_fault + string list option" where
  "parse_args buf = args_loop INIT [] [] buf"

definition check_command_format :: "string \<Rightarrow> int" where
  "check_command_format buf = 0"

definition parse_command :: "string \<Rightarrow> c_fault + user_cmd option" where
  "parse_command buf =
     (if check_command_format buf = -1 then Inr None
      else
        let (name, rest) = parse_exec_name buf in
        sbind (parse_args rest) (\<lambda>args. Inr (map_option (\<lambda>a. \<lparr>cmd_name = name, cmd_argv = a\<rparr>) args)))"

section \<open>Where to connect\<close>

datatype trans_type = TRANS_GET | TRANS_PUT

record trans_info =
  tr_type :: trans_type
  tr_src :: string
  tr_dest :: string

text \<open>
  The arrays of \<^verbatim>\<open>main\<close> for the user and the host have 32 bytes, those for paths 256; a text that does
  not fit, or leaves no room for the terminator, is a fault.
\<close>

definition try_fetch_login_info :: "string \<Rightarrow> c_fault + (string \<times> string) option" where
  "try_fetch_login_info input =
     (let s = strip input in
      if s = [] then Inr None
      else case strchr s CHR ''@'' of
          None \<Rightarrow> Inr None
        | Some (u, h) \<Rightarrow>
            if CHR ''@'' \<in> set h then Inr None
            else sbind (copy_field 32 u) (\<lambda>u. sbind (copy_field 32 h) (\<lambda>h. Inr (Some (u, h)))))"

definition is_remote_path :: "string \<Rightarrow> bool" where
  "is_remote_path buf = (case strchr buf CHR ''@'' of None \<Rightarrow> False | Some (_, rest) \<Rightarrow> CHR '':'' \<in> set rest)"

definition fetch_remote_info :: "string \<Rightarrow> c_fault + (string \<times> string \<times> string) option" where
  "fetch_remote_info buf =
     (case strchr buf CHR ''@'' of
        None \<Rightarrow> Inr None
      | Some (u, rest) \<Rightarrow>
          if u = [] then Inr None
          else sbind (copy_field 32 u) (\<lambda>u.
            case strchr rest CHR '':'' of
              None \<Rightarrow> Inr None
            | Some (h, p) \<Rightarrow>
                if h = [] then Inr None
                else sbind (copy_field 32 h) (\<lambda>h. sbind (copy_field 256 p) (\<lambda>p.
                  if p = [] then Inr None else Inr (Some (u, h, p))))))"

definition try_fetch_trans_info :: "fsys \<Rightarrow> string \<Rightarrow> string \<Rightarrow> c_fault + (string \<times> string \<times> trans_info) option" where
  "try_fetch_trans_info fs arg1 arg2 =
     (if is_remote_path arg1
      then sbind (fetch_remote_info arg1) (\<lambda>r.
        case r of
          None \<Rightarrow> Inr None
        | Some (u, h, p) \<Rightarrow>
            sbind (copy_field 256 arg2) (\<lambda>d. Inr (Some (u, h, \<lparr>tr_type = TRANS_GET, tr_src = p, tr_dest = d\<rparr>))))
      else if \<not> file_existed fs (Some arg1) then Inr None
      else if \<not> is_remote_path arg2 then Inr None
      else sbind (copy_field 256 arg1) (\<lambda>s. sbind (fetch_remote_info arg2) (\<lambda>r.
        case r of
          None \<Rightarrow> Inr None
        | Some (u, h, p) \<Rightarrow> Inr (Some (u, h, \<lparr>tr_type = TRANS_PUT, tr_src = s, tr_dest = p\<rparr>)))))"

section \<open>Options\<close>

definition NO_ARG :: "32 word" where "NO_ARG = 0"
definition HAS_ARG :: "32 word" where "HAS_ARG = 1"
definition OPT_ARG :: "32 word" where "OPT_ARG = 0x10"

record 'i sftt_option =
  opt_name :: string
  opt_index :: 'i
  opt_flags :: "32 word"

text \<open>The option, its argument and the index of the next one.\<close>

definition lookup_opt :: "string list \<Rightarrow> nat \<Rightarrow> 'i sftt_option list \<Rightarrow> 'i sftt_option option \<times> string option \<times> nat" where
  "lookup_opt argv optind opts =
     (if optind \<ge> length argv then (None, None, optind)
      else case find (\<lambda>o'. opt_name o' = argv ! optind) opts of
          None \<Rightarrow> (None, None, optind)
        | Some opt \<Rightarrow>
            let i = optind + 1 in
            if opt_flags opt AND HAS_ARG \<noteq> 0
            then if i < length argv then (Some opt, Some (argv ! i), i + 1) else (Some opt, None, i)
            else if opt_flags opt AND OPT_ARG \<noteq> 0
            then (Some opt, if i < length argv then Some (argv ! i) else None, i)
            else (Some opt, None, i))"

section \<open>Arguments are read as they were quoted\<close>

definition quote_arg :: "string \<Rightarrow> string" where
  "quote_arg a = CHR '' '' # CHR 0x27 # a @ [CHR 0x27]"

text \<open>An argument that the parser refuses between single quotes.\<close>

definition arg_refused :: "string \<Rightarrow> bool" where
  "arg_refused a \<longleftrightarrow> CHR 0x22 \<in> set a \<or> length a \<ge> CMD_ARG_MAX_LEN"

lemma args_loop_quoted:
  assumes "list_all (\<lambda>c. c \<noteq> CHR 0x27 \<and> c \<noteq> CHR 0x22) a" "length arg + length a < CMD_ARG_MAX_LEN"
    and "state = RECEIVE_SINGLE_QUOTE \<or> state = AMONG_SINGLE_QUOTE"
  shows "args_loop state arg args (a @ CHR 0x27 # rest) = args_loop INIT (arg @ a) args rest"
  using assms
proof (induction a arbitrary: state arg)
  case Nil
  then show ?case
    by (auto simp: isspace_def)
next
  case (Cons c a)
  have "\<exists>s. arg_char state c = Put s \<and> (s = RECEIVE_SINGLE_QUOTE \<or> s = AMONG_SINGLE_QUOTE)"
    using Cons.prems by auto
  then obtain s where "arg_char state c = Put s" "s = RECEIVE_SINGLE_QUOTE \<or> s = AMONG_SINGLE_QUOTE"
    by blast
  then show ?case
    using Cons.IH [of "arg @ [c]" s] Cons.prems by (simp del: arg_char.simps)
qed

lemma args_loop_refused:
  assumes "CHR 0x27 \<notin> set a" "CHR 0x22 \<in> set a \<or> length arg + length a \<ge> CMD_ARG_MAX_LEN"
    and "state = RECEIVE_SINGLE_QUOTE \<or> state = AMONG_SINGLE_QUOTE"
  shows "args_loop state arg args (a @ CHR 0x27 # rest) = Inr None"
  using assms
proof (induction a arbitrary: state arg)
  case (Cons c a)
  show ?case
  proof (cases "c = CHR 0x22")
    case True
    then have "arg_char state c = Stop"
      using Cons.prems(3) by (auto simp: isspace_def)
    then show ?thesis
      by (simp del: arg_char.simps)
  next
    case False
    then have "\<exists>s. arg_char state c = Put s \<and> (s = RECEIVE_SINGLE_QUOTE \<or> s = AMONG_SINGLE_QUOTE)"
      using Cons.prems by auto
    then obtain s where "arg_char state c = Put s" "s = RECEIVE_SINGLE_QUOTE \<or> s = AMONG_SINGLE_QUOTE"
      by blast
    then show ?thesis
      using Cons.IH [of "arg @ [c]" s] Cons.prems False by (simp del: arg_char.simps)
  qed
qed auto

lemma args_loop_args:
  assumes "list_all (\<lambda>a. CHR 0x27 \<notin> set a) args" "length arg < CMD_ARG_MAX_LEN"
  shows "args_loop INIT arg done (concat (map quote_arg args)) =
    Inr (if list_ex arg_refused args then None
         else Some (done @ (if arg = [] then [] else [arg]) @ filter (\<lambda>a. a \<noteq> []) args))"
  using assms
proof (induction args arbitrary: arg "done")
  case (Cons a args)
  let ?rest = "concat (map quote_arg args)" and ?done = "done @ (if arg = [] then [] else [arg])"
  have q: "args_loop INIT arg done (quote_arg a @ ?rest) = args_loop RECEIVE_SINGLE_QUOTE [] ?done (a @ CHR 0x27 # ?rest)"
    using Cons.prems(2) by (simp add: quote_arg_def isspace_def CMD_ARG_MAX_LEN_def)
  show ?case
  proof (cases "arg_refused a")
    case True
    then have "args_loop RECEIVE_SINGLE_QUOTE [] ?done (a @ CHR 0x27 # ?rest) = Inr None"
      using Cons.prems(1) by (intro args_loop_refused) (auto simp: arg_refused_def)
    then show ?thesis
      using q True by simp
  next
    case False
    then have a: "list_all (\<lambda>c. c \<noteq> CHR 0x27 \<and> c \<noteq> CHR 0x22) a" "length a < CMD_ARG_MAX_LEN"
      using Cons.prems(1) by (auto simp: arg_refused_def list_all_iff)
    then have "args_loop RECEIVE_SINGLE_QUOTE [] ?done (a @ CHR 0x27 # ?rest) = args_loop INIT a ?done ?rest"
      using args_loop_quoted [of a "[]" RECEIVE_SINGLE_QUOTE ?done ?rest] by simp
    then show ?thesis
      using q False Cons.IH [OF _ a(2), of ?done] Cons.prems(1) by simp
  qed
qed simp

lemma exec_name_word:
  assumes "name \<noteq> []" "list_all (\<lambda>c. \<not> isspace c) name" "length name < EXEC_NAME_MAX_LEN" "rest = [] \<or> isspace (hd rest)"
  shows "parse_exec_name (name @ rest) = (Some name, rest)"
proof -
  have d: "dropWhile isspace (name @ rest) = name @ rest"
    using assms(1,2) by (cases name) auto
  have t: "takeWhile (\<lambda>c. \<not> isspace c) (name @ rest) = name"
    using assms(2,4) by (cases rest) (auto simp: takeWhile_append list_all_iff takeWhile_eq_all_conv)
  show ?thesis
    using assms(1,3) by (simp add: parse_exec_name_def d t EXEC_NAME_MAX_LEN_def strdup_def Let_def)
qed

text \<open>
  C20: what a command line is read as, when it is written as a name and arguments between single quotes that contain no
  single quote themselves: the command has the name and the arguments that the line was made of, except that
  empty arguments are dropped; the whole line is refused as soon as one argument contains a double quote or has 1024
  characters or more.
\<close>

theorem parse_command_quoted:
  assumes "name \<noteq> []" "list_all (\<lambda>c. \<not> isspace c) name" "length name < EXEC_NAME_MAX_LEN"
    and "list_all (\<lambda>a. CHR 0x27 \<notin> set a) args"
  shows "parse_command (name @ concat (map quote_arg args)) =
    Inr (if list_ex arg_refused args then None
         else Some \<lparr>cmd_name = Some name, cmd_argv = filter (\<lambda>a. a \<noteq> []) args\<rparr>)"
proof -
  have "concat (map quote_arg args) = [] \<or> isspace (hd (concat (map quote_arg args)))"
    by (cases args) (simp_all add: quote_arg_def isspace_def)
  then show ?thesis
    using exec_name_word [OF assms(1-3)] args_loop_args [OF assms(4), of "[]" "[]"]
    by (simp add: parse_command_def check_command_format_def parse_args_def CMD_ARG_MAX_LEN_def)
qed

theorem parse_command_quoted_witness:
  "parse_command (''put'' @ concat (map quote_arg [''my file'', [], ''/tmp/x''])) =
     Inr (Some \<lparr>cmd_name = Some ''put'', cmd_argv = [''my file'', ''/tmp/x'']\<rparr>)
   \<and> parse_command (''put'' @ concat (map quote_arg [''my file'', [CHR 0x22]])) = Inr None"
  using parse_command_quoted [of "''put''" "[''my file'', [], ''/tmp/x'']"]
    parse_command_quoted [of "''put''" "[''my file'', [CHR 0x22]]"]
  by (simp add: isspace_def EXEC_NAME_MAX_LEN_def arg_refused_def CMD_ARG_MAX_LEN_def)

text \<open>An argument of 1024 characters at the end of a line is written past the array.\<close>

lemma args_loop_plain:
  assumes "list_all (\<lambda>c. \<not> isspace c \<and> c \<noteq> CHR 0x27 \<and> c \<noteq> CHR 0x22) a" "length arg + length a \<le> CMD_ARG_MAX_LEN"
  shows "args_loop INIT arg args (a @ rest) = args_loop INIT (arg @ a) args rest"
  using assms by (induction a arbitrary: arg) auto

lemma long_argument_overruns:
  assumes "list_all (\<lambda>c. \<not> isspace c \<and> c \<noteq> CHR 0x27 \<and> c \<noteq> CHR 0x22) a" "length a = CMD_ARG_MAX_LEN"
  shows "parse_args a = Inl Out_of_bounds"
  using args_loop_plain [OF assms(1), of "[]" "[]" "[]"] assms(2) by (auto simp: parse_args_def CMD_ARG_MAX_LEN_def)

text \<open>The address of a user and host is taken apart at the one at-sign.\<close>

lemma login_info_parts:
  assumes "CHR ''@'' \<notin> set u" "CHR ''@'' \<notin> set h" "length u < 32" "length h < 32" "strip (u @ CHR ''@'' # h) = u @ CHR ''@'' # h"
  shows "try_fetch_login_info (u @ CHR ''@'' # h) = Inr (Some (u, h))"
proof -
  have "takeWhile (\<lambda>x. x \<noteq> CHR ''@'') (u @ CHR ''@'' # h) = u"
    using assms(1) by (simp add: takeWhile_append)
  then show ?thesis
    using assms by (simp add: try_fetch_login_info_def strchr_def copy_field_def Let_def)
qed

end
