(* ===== verification/Sftt_Client.thy ===== *)
theory Sftt_Client
  imports Sftt_Server Sftt_Command
begin

text \<open>
  The client (\<^verbatim>\<open>src/src/client.c\<close>): its commands and how lines, scripts and files of commands are executed,
  and what it does when the port changes. The state is the client's struct, the file system, one connection per
  socket, the sockets that further calls of \<^verbatim>\<open>make_connect\<close> return, and what was printed as a result.

  Each command runs to its end before another thread does anything, so locks are left out; allocations succeed.
  A receive with no event left does not return (\<open>No_return\<close>) on a socket that blocks, and fails with -1 on
  one of \<open>cnonblock\<close>, the sockets that \<^verbatim>\<open>make_socket_non_blocking\<close> has changed. An object that is
  used as a struct of another type is a fault.
\<close>

section \<open>State\<close>

record sftt_client =
  cl_main_conn :: client_sock_conn
  cl_task_conns :: "client_sock_conn list"
  cl_ver :: version_info
  cl_uname :: string
  cl_uid :: "64 word"
  cl_password :: "string option"
  cl_session_id :: string
  cl_host :: string
  cl_pwd :: string
  cl_friends :: "logged_in_user list"
  cl_need_reconnect :: bool

record cworld =
  client :: sftt_client
  cfs :: fsys
  cchans :: "int \<Rightarrow> chan"
  csocks :: "int list"
  dialed :: "(string \<times> int) list"
  cclosed :: "int list"
  cnonblock :: "int list"
  direct :: bool
  printed :: "string list"

text \<open>The old contents of stack memory and the fuel for loops of transfers that may not end.\<close>

record cenv =
  cjunk :: bytes
  cfuel :: nat

abbreviation upd_client :: "(sftt_client \<Rightarrow> sftt_client) \<Rightarrow> cworld \<Rightarrow> cworld" where
  "upd_client f w \<equiv> w\<lparr>client := f (client w)\<rparr>"

definition csock :: "cworld \<Rightarrow> int" where
  "csock w = conn_sock (cl_main_conn (client w))"

definition cset_chan :: "int \<Rightarrow> chan \<Rightarrow> cworld \<Rightarrow> cworld" where
  "cset_chan fd cn w = w\<lparr>cchans := (cchans w)(fd := cn)\<rparr>"

definition cprint :: "string \<Rightarrow> cworld \<Rightarrow> cworld" where
  "cprint s w = w\<lparr>printed := printed w @ [s]\<rparr>"

text \<open>Sending fails on the result of a failed \<^verbatim>\<open>make_connect\<close>.\<close>

definition csend :: "int \<Rightarrow> msg \<Rightarrow> cworld \<Rightarrow> int \<times> cworld" where
  "csend fd m w =
     (if fd = -1 then (-1, w) else let (ret, cn) = ch_send m (cchans w fd) in (ret, cset_chan fd cn w))"

definition nonblocking :: "int \<Rightarrow> cworld \<Rightarrow> bool" where
  "nonblocking fd w \<longleftrightarrow> fd \<in> set (cnonblock w)"

definition crecv :: "int \<Rightarrow> cworld \<Rightarrow> c_fault + int \<times> msg option \<times> cworld" where
  "crecv fd w =
     (if fd = -1 then Inr (-1, None, w)
      else if ch_in (cchans w fd) = [] then (if nonblocking fd w then Inr (-1, None, w) else Inl No_return)
      else let (ret, m, cn) = ch_recv (cchans w fd) in Inr (ret, m, cset_chan fd cn w))"

text \<open>
  A request and the first answer on a socket: \<open>None\<close> if sending or receiving fails, and no object in the packet if
  the connection is closed.
\<close>

definition ask_on :: "int \<Rightarrow> ctl \<Rightarrow> cworld \<Rightarrow> c_fault + msg option option \<times> cworld" where
  "ask_on fd c w =
     (let (ret, w1) = csend fd (Ctl c) w in
      if ret = -1 then Inr (None, w1)
      else sbind (crecv fd w1) (\<lambda>(ret, m, w2). Inr (if ret = -1 then None else Some m, w2)))"

abbreviation ask :: "ctl \<Rightarrow> cworld \<Rightarrow> c_fault + msg option option \<times> cworld" where
  "ask c w \<equiv> ask_on (csock w) c w"

definition sid_bytes :: "cworld \<Rightarrow> bytes" where
  "sid_bytes w = buf_strncpy (zero_bytes 32) (cl_session_id (client w)) 31"

section \<open>Answers in several packets\<close>

text \<open>
  The loop of \<^verbatim>\<open>ll\<close> and \<^verbatim>\<open>w\<close> over the events of the connection: \<open>tot\<close> and \<open>nr\<close> read the two counters of a response,
  \<open>ents\<close> its array, and \<open>nb\<close> tells that the socket does not block. After a closed connection the packet still has the object before. The results are
  whether receiving failed, the entries and the events left.
\<close>

fun batch_loop ::
    "(msg \<Rightarrow> 'r option) \<Rightarrow> ('r \<Rightarrow> int) \<Rightarrow> ('r \<Rightarrow> int) \<Rightarrow> ('r \<Rightarrow> 'e list) \<Rightarrow> bool \<Rightarrow> event list \<Rightarrow> 'r \<Rightarrow> int \<Rightarrow> 'e list
      \<Rightarrow> c_fault + bool \<times> 'e list \<times> event list" where
  "batch_loop as tot nr ents nb es r t acc =
     (if \<not> (tot r > 0 \<and> nr r > 0) then Inr (True, acc, es)
      else if nr r > int (length (ents r)) then Inl Out_of_bounds
      else
        let acc1 = acc @ take (nat (nr r)) (ents r); t1 = t + nr r in
        if t1 = tot r then Inr (True, acc1, es)
        else case es of
            [] \<Rightarrow> if nb then Inr (False, acc1, []) else Inl No_return
          | Broken # es1 \<Rightarrow> Inr (False, acc1, es1)
          | Closed # es1 \<Rightarrow> batch_loop as tot nr ents nb es1 r t1 acc1
          | Msg m # es1 \<Rightarrow>
              (case as m of None \<Rightarrow> Inl Out_of_bounds | Some r1 \<Rightarrow> batch_loop as tot nr ents nb es1 r1 t1 acc1))"

declare batch_loop.simps [simp del]

definition set_events :: "int \<Rightarrow> event list \<Rightarrow> cworld \<Rightarrow> cworld" where
  "set_events fd es w = cset_chan fd ((cchans w fd)\<lparr>ch_in := es\<rparr>) w"

fun ll_of :: "msg \<Rightarrow> ll_resp option" where
  "ll_of (Ctl (Ll_resp r)) = Some r"
| "ll_of m = None"

fun who_of :: "msg \<Rightarrow> who_resp option" where
  "who_of (Ctl (Who_resp r)) = Some r"
| "who_of m = None"

abbreviation ll_loop :: "bool \<Rightarrow> event list \<Rightarrow> ll_resp \<Rightarrow> int \<Rightarrow> file_entry list \<Rightarrow> c_fault + bool \<times> file_entry list \<times> event list" where
  "ll_loop \<equiv> batch_loop ll_of (\<lambda>r. sint (ll_total r)) (\<lambda>r. sint (ll_this_nr r)) ll_entries"

abbreviation who_loop :: "bool \<Rightarrow> event list \<Rightarrow> who_resp \<Rightarrow> int \<Rightarrow> logged_in_user list \<Rightarrow> c_fault + bool \<times> logged_in_user list \<times> event list" where
  "who_loop \<equiv> batch_loop who_of (\<lambda>r. sint (wh_total r)) (\<lambda>r. sint (wh_this_nr r)) wh_users"

section \<open>Users\<close>

definition get_friend_list :: "cworld \<Rightarrow> c_fault + int \<times> cworld" where
  "get_friend_list w =
     sbind (ask (Who_req (sid_bytes w)) w) (\<lambda>(a, w1).
       case a of
         None \<Rightarrow> Inr (-1, w1)
       | Some None \<Rightarrow> Inl Assertion_failed
       | Some (Some m) \<Rightarrow>
           (case who_of m of
              None \<Rightarrow> Inl Out_of_bounds
            | Some r \<Rightarrow>
                sbind (who_loop (nonblocking (csock w1) w1) (ch_in (cchans w1 (csock w1))) r 0 []) (\<lambda>(ok, us, es).
                  Inr (if ok then 0 else -1,
                       upd_client (\<lambda>c. c\<lparr>cl_friends := cl_friends c @ us\<rparr>) (set_events (csock w1) es w1)))))"

definition find_logged_in_user :: "int \<Rightarrow> cworld \<Rightarrow> c_fault + logged_in_user option \<times> cworld" where
  "find_logged_in_user user_no w =
     sbind (if cl_friends (client w) = [] then get_friend_list w else Inr (0, w)) (\<lambda>(ret, w1).
       if ret = -1 then Inr (None, w1)
       else
         let us = cl_friends (client w1) in
         Inr (if 0 \<le> user_no \<and> nat user_no < length us then Some (us ! nat user_no) else None, w1))"

section \<open>Commands\<close>

definition FILE_TYPE_NAME :: "32 word \<Rightarrow> string" where
  "FILE_TYPE_NAME t =
     (if t = FILE_TYPE_UNKNOWN then ''unknown'' else if t = FILE_TYPE_FILE then ''file''
      else if t = FILE_TYPE_DIR then ''dir'' else ''exception'')"

definition entry_line :: "file_entry \<Rightarrow> string" where
  "entry_line en = FILE_TYPE_NAME (fe_type en) @ [CHR 0x09] @ buf_string (fe_name en)"

text \<open>A path request with the optional user it is to be forwarded to.\<close>

definition make_path_req :: "bytes \<Rightarrow> bytes \<Rightarrow> logged_in_user option \<Rightarrow> path_req" where
  "make_path_req sid path user =
     \<lparr>pq_session_id = sid, pq_path = path, pq_to_peer = (if user = None then 0 else 1),
      pq_user = (case user of None \<Rightarrow> zero_user | Some u \<Rightarrow> u)\<rparr>"

text \<open>The user that the first of the optional arguments names.\<close>

definition peer_arg :: "string option \<Rightarrow> cworld \<Rightarrow> c_fault + logged_in_user option option \<times> cworld" where
  "peer_arg a w =
     (case a of
        None \<Rightarrow> Inr (Some None, w)
      | Some s \<Rightarrow>
          sbind (find_logged_in_user (atoi s) w) (\<lambda>(u, w1). Inr (case u of None \<Rightarrow> None | Some u \<Rightarrow> Some (Some u), w1)))"

definition ll_request :: "logged_in_user option \<Rightarrow> string \<Rightarrow> cworld \<Rightarrow> c_fault + int \<times> cworld" where
  "ll_request user path w =
     sbind (ask (Ll_req (make_path_req (sid_bytes w) (buf_strncpy (zero_bytes 1024) path 1023) user)) w) (\<lambda>(a, w1).
       case a of
         None \<Rightarrow> Inr (-1, w1)
       | Some None \<Rightarrow> Inl Assertion_failed
       | Some (Some m) \<Rightarrow>
           (case ll_of m of
              None \<Rightarrow> Inl Out_of_bounds
            | Some r \<Rightarrow>
                sbind (ll_loop (nonblocking (csock w1) w1) (ch_in (cchans w1 (csock w1))) r 0 []) (\<lambda>(ok, fe_list, es).
                  let w2 = set_events (csock w1) es w1 in
                  Inr (if ok then (0, w2\<lparr>printed := printed w2 @ map entry_line fe_list\<rparr>) else (-1, w2)))))"

definition sftt_client_ll_handler :: "string list \<Rightarrow> cworld \<Rightarrow> c_fault + int \<times> cworld" where
  "sftt_client_ll_handler argv w =
     (case argv of
        [] \<Rightarrow> ll_request None (cl_pwd (client w)) w
      | [path] \<Rightarrow> ll_request None path w
      | [no, path] \<Rightarrow>
          sbind (peer_arg (Some no) w) (\<lambda>(u, w1). case u of None \<Rightarrow> Inr (-1, w1) | Some user \<Rightarrow> ll_request user path w1)
      | _ \<Rightarrow> Inr (-1, w))"

definition sftt_client_cd_handler :: "string list \<Rightarrow> cworld \<Rightarrow> c_fault + int \<times> cworld" where
  "sftt_client_cd_handler argv w =
     (if length argv \<noteq> 1 \<or> argv ! 0 = [] then Inr (-1, w)
      else sbind (ask (Cd_req (sid_bytes w) (buf_strncpy (zero_bytes 1024) (argv ! 0) 1024)) w) (\<lambda>(a, w1).
        case a of
          None \<Rightarrow> Inr (-1, w1)
        | Some None \<Rightarrow> Inl Null_dereference
        | Some (Some (Ctl (Cd_resp r))) \<Rightarrow>
            if sr_status r \<noteq> resp_num RESP_OK then Inr (-1, w1)
            else Inr (0, upd_client (\<lambda>c. c\<lparr>cl_pwd := take 1023 (buf_string (cp_pwd r))\<rparr>)
                           (cprint (''pwd change to: '' @ buf_string (cp_pwd r)) w1))
        | Some (Some m) \<Rightarrow> Inl Out_of_bounds))"

definition sftt_client_pwd_handler :: "string list \<Rightarrow> cworld \<Rightarrow> c_fault + int \<times> cworld" where
  "sftt_client_pwd_handler argv w =
     sbind (ask (Pwd_req (sid_bytes w)) w) (\<lambda>(a, w1).
       case a of
         None \<Rightarrow> Inr (-1, w1)
       | Some None \<Rightarrow> Inl Null_dereference
       | Some (Some (Ctl (Pwd_resp r))) \<Rightarrow> Inr (0, cprint (''pwd: '' @ buf_string (pw_pwd r)) w1)
       | Some (Some m) \<Rightarrow> Inl Out_of_bounds)"

text \<open>The arguments of \<^verbatim>\<open>get\<close> and \<^verbatim>\<open>put\<close>: two of them, or three with a user before.\<close>

fun two_args :: "string list \<Rightarrow> (string option \<times> string \<times> string) option" where
  "two_args [a, b] = Some (None, a, b)"
| "two_args [u, a, b] = Some (Some u, a, b)"
| "two_args argv = None"

definition get_request :: "cenv \<Rightarrow> logged_in_user option \<Rightarrow> string \<Rightarrow> string \<Rightarrow> cworld \<Rightarrow> c_fault + int \<times> cworld" where
  "get_request e user path target w =
     (if \<not> is_absolute_path (Some path) then Inr (-1, w)
      else
        let req = make_path_req (buf_strncpy (zero_bytes 32) (cl_session_id (client w)) 32)
                    (buf_strncpy (zero_bytes 1024) path FILE_NAME_MAX_LEN) user;
            (ret, w1) = csend (csock w) (Ctl (Get_req req)) w
        in if ret = -1 then Inr (-1, w1)
           else sbind (recv_files_from_get_resp (cjunk e) zero_status_resp target (cfs w1) (cchans w1 (csock w1))) (\<lambda>(ret, f1, cn).
             Inr (ret, cset_chan (csock w1) cn (w1\<lparr>cfs := f1\<rparr>))))"

definition sftt_client_get_handler :: "cenv \<Rightarrow> string list \<Rightarrow> cworld \<Rightarrow> c_fault + int \<times> cworld" where
  "sftt_client_get_handler e argv w =
     (case two_args argv of
        None \<Rightarrow> Inr (-1, w)
      | Some (no, path, target) \<Rightarrow>
          sbind (peer_arg no w) (\<lambda>(u, w1). case u of None \<Rightarrow> Inr (-1, w1) | Some user \<Rightarrow> get_request e user path target w1))"

definition zero_put_req :: put_req where
  "zero_put_req = \<lparr>pr_session_id = zero_bytes 32, pr_to_peer = 0, pr_user = zero_user, pr_data = gr_data zero_get_resp, pr_flags = 0,
     pr_need_reply = 0\<rparr>"

text \<open>A path that does not fit with its terminator into the 255 bytes that are copied is a fault.\<close>

definition put_request :: "cenv \<Rightarrow> logged_in_user option \<Rightarrow> string \<Rightarrow> string \<Rightarrow> cworld \<Rightarrow> c_fault + int \<times> cworld" where
  "put_request e user file target w =
     (if user \<noteq> None \<and> \<not> is_absolute_path (Some target) then Inr (-1, w)
      else sbind (copy_field 255 file) (\<lambda>file.
        sbind (if is_absolute_path (Some target) then copy_field 255 target
               else Inr (take 1024 (cl_pwd (client w) @ ''/'' @ target))) (\<lambda>target.
          if \<not> is_file (cfs w) file \<and> \<not> is_dir (cfs w) file then Inr (-1, w)
          else
            let req = zero_put_req\<lparr>pr_to_peer := if user = None then 0 else 1,
                        pr_user := case user of None \<Rightarrow> zero_user | Some u \<Rightarrow> u\<rparr>
            in sbind (send_files_by_put_req (cjunk e) (cfs w) file target req (cchans w (csock w))) (\<lambda>(ret, _, cn).
                 Inr (ret, cset_chan (csock w) cn w)))))"

definition sftt_client_put_handler :: "cenv \<Rightarrow> string list \<Rightarrow> cworld \<Rightarrow> c_fault + int \<times> cworld" where
  "sftt_client_put_handler e argv w =
     (case two_args argv of
        None \<Rightarrow> Inr (-1, w)
      | Some (no, file, target) \<Rightarrow>
          sbind (peer_arg no w) (\<lambda>(u, w1). case u of None \<Rightarrow> Inr (-1, w1) | Some user \<Rightarrow> put_request e user file target w1))"

definition sftt_client_directcmd_handler :: "string list \<Rightarrow> cworld \<Rightarrow> c_fault + int \<times> cworld" where
  "sftt_client_directcmd_handler argv w =
     (if argv = [''in''] then Inr (0, w\<lparr>direct := True\<rparr>)
      else if argv = [''out''] then Inr (0, w\<lparr>direct := False\<rparr>)
      else Inr (-1, w))"

text \<open>The detailed statistics are those of the client's own memory pool; they send nothing.\<close>

definition sftt_client_mps_handler :: "string list \<Rightarrow> cworld \<Rightarrow> c_fault + int \<times> cworld" where
  "sftt_client_mps_handler argv w =
     (if length argv > 1 then Inr (-1, w)
      else if length argv = 1 then Inr (if argv ! 0 \<noteq> ''-d'' then -1 else 0, w)
      else sbind (ask (Mp_stat_req (sid_bytes w)) w) (\<lambda>(a, w1).
        case a of
          None \<Rightarrow> Inr (-1, w1)
        | Some None \<Rightarrow> Inl Null_dereference
        | Some (Some (Ctl (Mp_stat_resp r))) \<Rightarrow>
            Inr (0, cprint (''server '' @ show_int (sint (ms_total_size r)) @ '' '' @ show_int (sint (ms_total_nodes r)) @ '' ''
                            @ show_int (sint (ms_using_nodes r)) @ '' '' @ show_int (sint (ms_free_nodes r))) w1)
        | Some (Some m) \<Rightarrow> Inl Out_of_bounds))"

definition sftt_client_touch_handler :: "string list \<Rightarrow> cworld \<Rightarrow> c_fault + int \<times> cworld" where
  "sftt_client_touch_handler argv w =
     (if length argv \<noteq> 1 then Inr (-1, w)
      else let (ret, f1) = create_new_file (cfs w) (argv ! 0) 0x1A4 in Inr (ret, w\<lparr>cfs := f1\<rparr>))"

definition sftt_client_sleep_handler :: "string list \<Rightarrow> cworld \<Rightarrow> c_fault + int \<times> cworld" where
  "sftt_client_sleep_handler argv w = Inr (if length argv \<noteq> 1 \<or> atoi (argv ! 0) < 0 then -1 else 0, w)"

definition sftt_client_env_handler :: "string list \<Rightarrow> cworld \<Rightarrow> c_fault + int \<times> cworld" where
  "sftt_client_env_handler argv w =
     Inr (0, cprint (''channel: {port: '' @ show_int (conn_port (cl_main_conn (client w))) @ '', sock: '' @ show_int (csock w) @ ''}'') w)"

text \<open>An answer that reports a failure leaves the result of the receive, which is positive.\<close>

definition sftt_client_write_handler :: "string list \<Rightarrow> cworld \<Rightarrow> c_fault + int \<times> cworld" where
  "sftt_client_write_handler argv w =
     (if length argv \<noteq> 2 then Inr (-1, w)
      else sbind (find_logged_in_user (atoi (argv ! 0)) w) (\<lambda>(u, w1).
        case u of
          None \<Rightarrow> Inr (-1, w1)
        | Some user \<Rightarrow>
            let message = buf_strncpy (zero_bytes 4096) (argv ! 1) 4095 in
            sbind (ask (Write_req \<lparr>wq_user = user, wq_len = of_nat (length (buf_string message)), wq_message = message\<rparr>) w1) (\<lambda>(a, w2).
              case a of
                None \<Rightarrow> Inr (-1, w2)
              | Some None \<Rightarrow> Inl Null_dereference
              | Some (Some (Ctl (Write_resp r))) \<Rightarrow> Inr (if sr_status r \<noteq> resp_num RESP_OK then 1 else 0, w2)
              | Some (Some m) \<Rightarrow> Inl Out_of_bounds)))"

definition user_line :: "string \<Rightarrow> nat \<Rightarrow> logged_in_user \<Rightarrow> string" where
  "user_line sid i u =
     show_int (int i) @ [CHR 0x09] @ buf_string (lu_name u) @ [CHR 0x09] @ buf_string (lu_ip u) @ [CHR 0x09]
     @ show_int (sint (lu_port u)) @ [CHR 0x09] @ buf_string (lu_session_id u)
     @ (if sid = buf_string (lu_session_id u) then '' (me)'' else [])"

definition sftt_client_who_handler :: "string list \<Rightarrow> cworld \<Rightarrow> c_fault + int \<times> cworld" where
  "sftt_client_who_handler argv w =
     sbind (get_friend_list (upd_client (\<lambda>c. c\<lparr>cl_friends := []\<rparr>) w)) (\<lambda>(ret, w1).
       if ret = -1 then Inr (-1, w1)
       else
         let us = cl_friends (client w1) in
         Inr (0, w1\<lparr>printed := printed w1 @ map (\<lambda>(i, u). user_line (cl_session_id (client w1)) i u) (zip [0..<length us] us)\<rparr>))"

section \<open>Direct commands\<close>

definition directcmds :: "string list" where
  "directcmds = [''ls'', ''date'', ''cat'', ''mkdir'', ''touch'']"

definition among_directcmds :: "string \<Rightarrow> bool" where
  "among_directcmds name \<longleftrightarrow> name \<in> set directcmds"

fun directcmd_of :: "msg \<Rightarrow> directcmd_resp option" where
  "directcmd_of (Ctl (Directcmd_resp r)) = Some r"
| "directcmd_of m = None"

text \<open>
  The loop over the answers, with the value of the receive before. An answer is released as soon as it is
  printed, so a closed connection leaves a dangling object in the packet.
\<close>

fun output_loop :: "bool \<Rightarrow> int \<Rightarrow> event list \<Rightarrow> directcmd_resp \<Rightarrow> int \<Rightarrow> int \<Rightarrow> string list \<Rightarrow> c_fault + int \<times> string list \<times> event list" where
  "output_loop nb ret es r recv_len total_len outs =
     (let outs1 = outs @ [buf_string (dc_content r)]; recv_len1 = recv_len + sint (dc_this_len r) in
      if recv_len1 = total_len then Inr (ret, outs1, es)
      else case es of
          [] \<Rightarrow> if nb then Inr (-1, outs1, []) else Inl No_return
        | Broken # es1 \<Rightarrow> Inr (-1, outs1, es1)
        | Closed # es1 \<Rightarrow> if recv_len1 < total_len then Inl Use_after_free else Inr (0, outs1, es1)
        | Msg m # es1 \<Rightarrow>
            (if recv_len1 < total_len
             then case directcmd_of m of None \<Rightarrow> Inl Out_of_bounds | Some r1 \<Rightarrow> output_loop nb 1 es1 r1 recv_len1 total_len outs1
             else Inr (1, outs1, es1)))"

declare output_loop.simps [simp del]

definition execute_directcmd :: "string \<Rightarrow> cworld \<Rightarrow> c_fault + int \<times> cworld" where
  "execute_directcmd buf w =
     (if buf = [] then Inr (-1, w)
      else sbind (ask (Directcmd_req (sid_bytes w) (buf_strncpy (zero_bytes 1024) buf 1023)) w) (\<lambda>(a, w1).
        case a of
          None \<Rightarrow> Inr (-1, w1)
        | Some None \<Rightarrow> Inl Assertion_failed
        | Some (Some m) \<Rightarrow>
            (case directcmd_of m of
               None \<Rightarrow> Inl Out_of_bounds
             | Some r \<Rightarrow>
                 if sint (dc_total_len r) < 0 \<or> sint (dc_this_len r) < 0 then Inr (-1, w1)
                 else sbind (output_loop (nonblocking (csock w1) w1) 1 (ch_in (cchans w1 (csock w1))) r 0 (sint (dc_total_len r)) []) (\<lambda>(ret, outs, es).
                   let w2 = set_events (csock w1) es w1 in Inr (ret, w2\<lparr>printed := printed w2 @ outs\<rparr>)))))"

section \<open>Connections\<close>

text \<open>
  The socket that the next \<^verbatim>\<open>make_connect\<close> returns, which blocks, and the port that is dialed: its low 16 bits.
\<close>

definition make_connect :: "int \<Rightarrow> cworld \<Rightarrow> int \<times> cworld" where
  "make_connect port w =
     (case csocks w of
        [] \<Rightarrow> (-1, w\<lparr>dialed := dialed w @ [(cl_host (client w), port mod 65536)]\<rparr>)
      | fd # fds \<Rightarrow> (fd, w\<lparr>csocks := fds, cnonblock := removeAll fd (cnonblock w), dialed := dialed w @ [(cl_host (client w), port mod 65536)]\<rparr>))"

definition make_socket_non_blocking :: "int \<Rightarrow> cworld \<Rightarrow> int \<times> cworld" where
  "make_socket_non_blocking sfd w = (if sfd = -1 then (-1, w) else (0, w\<lparr>cnonblock := sfd # cnonblock w\<rparr>))"

definition get_conn :: "conn_ref \<Rightarrow> cworld \<Rightarrow> client_sock_conn" where
  "get_conn r w = (case r of Main_conn \<Rightarrow> cl_main_conn (client w) | Task_conn k \<Rightarrow> cl_task_conns (client w) ! k)"

definition set_conn :: "conn_ref \<Rightarrow> (client_sock_conn \<Rightarrow> client_sock_conn) \<Rightarrow> cworld \<Rightarrow> cworld" where
  "set_conn r f w =
     upd_client (\<lambda>c. case r of Main_conn \<Rightarrow> c\<lparr>cl_main_conn := f (cl_main_conn c)\<rparr>
       | Task_conn k \<Rightarrow> c\<lparr>cl_task_conns := (cl_task_conns c)[k := f (cl_task_conns c ! k)]\<rparr>) w"

definition do_reconnect :: "conn_ref \<Rightarrow> cworld \<Rightarrow> int \<times> cworld" where
  "do_reconnect r w =
     (let conn = get_conn r w; old_sock = conn_sock conn in
      if conn_last_port conn = conn_port conn then (0, w)
      else
        let w1 = (if r = Main_conn then w else w\<lparr>cclosed := cclosed w @ [old_sock]\<rparr>);
            (fd, w2) = make_connect (conn_port conn) w1;
            w3 = set_conn r (\<lambda>c. c\<lparr>conn_sock := fd\<rparr>) w2;
            (ret, w4) = csend fd (Ctl (Reconnect_req (sid_bytes w3) (buf_strncpy (zero_bytes 32) (connect_id conn) 32))) w3;
            w5 = (if r = Main_conn then w4\<lparr>cclosed := cclosed w4 @ [old_sock]\<rparr> else w4)
        in (ret, set_conn r (\<lambda>c. c\<lparr>conn_last_port := conn_port c\<rparr>) w5))"

definition handle_port_update_req :: "nat \<Rightarrow> 32 word \<Rightarrow> cworld \<Rightarrow> int \<times> cworld" where
  "handle_port_update_req k p w =
     (let port = sint p;
          w1 = set_conn (Task_conn k) (\<lambda>c. c\<lparr>is_updating := True, conn_port := port\<rparr>) w;
          w2 = set_conn Main_conn (\<lambda>c. c\<lparr>conn_port := port\<rparr>) w1;
          w3 = (if conn_last_port (cl_main_conn (client w2)) \<noteq> port then upd_client (\<lambda>c. c\<lparr>cl_need_reconnect := True\<rparr>) w2 else w2);
          (ret, w4) = do_reconnect (Task_conn k) w3;
          (_, w5) = make_socket_non_blocking (csock w4) w4
      in (ret, set_conn (Task_conn k) (\<lambda>c. c\<lparr>is_updating := False\<rparr>) w5))"

section \<open>Executing commands\<close>

text \<open>The text that \<^verbatim>\<open>add_cmd_log\<close> writes into a static array of 1024 bytes.\<close>

fun join_args :: "string list \<Rightarrow> string" where
  "join_args [] = []"
| "join_args [a] = a"
| "join_args (a # as) = a @ '', '' @ join_args as"

definition cmd_log_text :: "user_cmd \<Rightarrow> string" where
  "cmd_log_text cmd =
     ''exec name: '' @ (case cmd_name cmd of None \<Rightarrow> ''(null)'' | Some n \<Rightarrow> n) @ '', argc: '' @ show_int (int (length (cmd_argv cmd)))
     @ (if cmd_argv cmd = [] then [] else '', argv: '' @ join_args (cmd_argv cmd))"

text \<open>The table of commands; \<open>None\<close> for a name that is not in it.\<close>

definition sftt_client_cmds :: "cenv \<Rightarrow> string \<Rightarrow> (string list \<Rightarrow> cworld \<Rightarrow> c_fault + int \<times> cworld) option" where
  "sftt_client_cmds e =
     map_of [(''help'', \<lambda>argv w. Inr (0, w)), (''ll'', sftt_client_ll_handler), (''cd'', sftt_client_cd_handler),
       (''pwd'', sftt_client_pwd_handler), (''get'', sftt_client_get_handler e), (''put'', sftt_client_put_handler e),
       (''his'', \<lambda>argv w. Inr (0, w)), (''mps'', sftt_client_mps_handler), (''directcmd'', sftt_client_directcmd_handler),
       (''w'', sftt_client_who_handler), (''write'', sftt_client_write_handler), (''touch'', sftt_client_touch_handler),
       (''sleep'', sftt_client_sleep_handler), (''env'', sftt_client_env_handler)]"

definition run_command :: "cenv \<Rightarrow> user_cmd \<Rightarrow> cworld \<Rightarrow> c_fault + int \<times> cworld" where
  "run_command e cmd w =
     (if length (cmd_log_text cmd) \<ge> 1024 then Inl Out_of_bounds
      else case cmd_name cmd of
          None \<Rightarrow> Inl Null_dereference
        | Some name \<Rightarrow> (case sftt_client_cmds e name of None \<Rightarrow> Inr (0, w) | Some fn \<Rightarrow> fn (cmd_argv cmd) w))"

definition execute_cmd :: "cenv \<Rightarrow> string \<Rightarrow> cworld \<Rightarrow> c_fault + int \<times> cworld" where
  "execute_cmd e buf w =
     (let (ret, w1) = (if cl_need_reconnect (client w) then do_reconnect Main_conn w else (0, w)) in
      if cl_need_reconnect (client w) \<and> ret = -1 then Inr (-1, w1)
      else
        let w2 = upd_client (\<lambda>c. c\<lparr>cl_need_reconnect := False\<rparr>) w1 in
        sbind (parse_command buf) (\<lambda>cmd.
          case cmd of
            None \<Rightarrow> Inr (-1, w2)
          | Some cmd \<Rightarrow>
              if direct w2
              then (case cmd_name cmd of
                      None \<Rightarrow> Inl Null_dereference
                    | Some name \<Rightarrow> if among_directcmds name then execute_directcmd buf w2 else run_command e cmd w2)
              else run_command e cmd w2))"

text \<open>Lines from the terminal; the loop ends with \<^verbatim>\<open>quit\<close> and at the end of the input.\<close>

fun reader_loop :: "cenv \<Rightarrow> string list \<Rightarrow> cworld \<Rightarrow> c_fault + cworld" where
  "reader_loop e [] w = Inr w"
| "reader_loop e (line # ls) w =
     (if line = [] then reader_loop e ls w
      else if line = ''quit'' then Inr w
      else sbind (execute_cmd e line w) (\<lambda>(_, w1). reader_loop e ls w1))"

text \<open>Lines of a script, taken apart by \<^verbatim>\<open>strtok\<close>.\<close>

fun script_lines :: "string \<Rightarrow> string \<Rightarrow> string list" where
  "script_lines acc [] = (if acc = [] then [] else [acc])"
| "script_lines acc (c # cs) =
     (if c = CHR 0x0A then (if acc = [] then script_lines [] cs else acc # script_lines [] cs)
      else script_lines (acc @ [c]) cs)"

fun execute_lines :: "cenv \<Rightarrow> string list \<Rightarrow> cworld \<Rightarrow> c_fault + cworld" where
  "execute_lines e [] w = Inr w"
| "execute_lines e (l # ls) w = sbind (execute_cmd e (take (CMD_MAX_LEN - 1) l) w) (\<lambda>(_, w1). execute_lines e ls w1)"

definition execute_multi_cmds :: "cenv \<Rightarrow> string \<Rightarrow> cworld \<Rightarrow> c_fault + int \<times> cworld" where
  "execute_multi_cmds e buf w = sbind (execute_lines e (script_lines [] buf) w) (\<lambda>w1. Inr (0, w1))"

definition builtin_scripts :: "(string \<times> string) list" where
  "builtin_scripts = [(''mps'', ''mps'' @ [CHR 0x0A] @ ''mps -d'' @ [CHR 0x0A])]"

definition do_builtin :: "cenv \<Rightarrow> string \<Rightarrow> cworld \<Rightarrow> c_fault + int \<times> cworld" where
  "do_builtin e builtin w =
     (case map_of builtin_scripts builtin of
        None \<Rightarrow> Inr (-1, w)
      | Some script \<Rightarrow> execute_multi_cmds e (take (10 * CMD_MAX_LEN - 1) script) w)"

lemma fgets_cmd_rest: "data \<noteq> [] \<Longrightarrow> length (snd (fgets (CMD_MAX_LEN - 1) data)) < length data"
  by (cases data) (auto simp: fgets_def CMD_MAX_LEN_def Let_def)

text \<open>Lines of a file of commands; a zero byte ends the line that it is in.\<close>

function file_cmds :: "cenv \<Rightarrow> string \<Rightarrow> cworld \<Rightarrow> c_fault + cworld" where
  "file_cmds e data w =
     (if data = [] then Inr w
      else
        let (mem, rest) = fgets (CMD_MAX_LEN - 1) data; cmd = cstr mem in
        if cmd = [] then file_cmds e rest w
        else sbind (execute_cmd e (if last cmd = CHR 0x0A then butlast cmd else cmd) w) (\<lambda>(_, w1). file_cmds e rest w1))"
  by pat_completeness auto
termination
  by (relation "measure (\<lambda>(e, data, w). length data)") (auto simp: prod_eq_iff dest: fgets_cmd_rest)

declare file_cmds.simps [simp del]

definition do_cmd_file :: "cenv \<Rightarrow> string \<Rightarrow> cworld \<Rightarrow> c_fault + int \<times> cworld" where
  "do_cmd_file e cmd_file w =
     (case fopen_r (cfs w) cmd_file of
        None \<Rightarrow> Inr (-1, w)
      | Some data \<Rightarrow>
          if dir_at (cfs w) (resolve (cfs w) cmd_file) then Inl No_return
          else sbind (file_cmds e (map byte_char data) w) (\<lambda>w1. Inr (0, w1)))"

definition do_trans :: "cenv \<Rightarrow> trans_info \<Rightarrow> cworld \<Rightarrow> c_fault + int \<times> cworld" where
  "do_trans e tr w =
     (if tr_type tr = TRANS_GET then execute_cmd e (take 1023 (''get '' @ tr_src tr @ '' '' @ tr_dest tr)) w
      else sbind (execute_cmd e (take 1023 (''cd '' @ tr_dest tr)) w) (\<lambda>(ret, w1).
        if ret \<noteq> 0 then Inr (ret, w1) else execute_cmd e (take 1023 (''put '' @ tr_src tr)) w1))"

end
