(* ===== verification/Sftt_Peer.thy ===== *)
theory Sftt_Peer
  imports Sftt_Client
begin

text \<open>
  The client on the side of the network (\<^verbatim>\<open>src/src/client.c\<close>): opening the control connection, logging in, adding
  task connections, and handling the requests of other users that the server forwards on them.
\<close>

section \<open>Logging in\<close>

definition SFTT_DEFAULT_PORT :: int where "SFTT_DEFAULT_PORT = 3009"
definition CLIENT_MAX_TASK_CONN :: nat where "CLIENT_MAX_TASK_CONN = 5"

definition close_sock :: "int \<Rightarrow> cworld \<Rightarrow> cworld" where
  "close_sock fd w = (if fd = -1 then w else w\<lparr>cclosed := cclosed w @ [fd]\<rparr>)"

text \<open>
  The result is that of the receive, which is positive, also when the second connection fails.
\<close>

definition init_sftt_client_ctrl_conn :: "int \<Rightarrow> cworld \<Rightarrow> c_fault + int \<times> cworld" where
  "init_sftt_client_ctrl_conn port w =
     (let (fd, w1) = make_connect (if port = -1 then SFTT_DEFAULT_PORT else port) w in
      if fd = -1 then Inr (-1, w1)
      else sbind (crecv fd w1) (\<lambda>(ret, m, w2).
        if ret = -1 then Inr (-1, close_sock fd w2)
        else case m of
            None \<Rightarrow> Inl Null_dereference
          | Some (Ctl (Channel_info_resp r)) \<Rightarrow>
              let port = sint (cr_second_port r);
                  (fd2, w3) = make_connect port w2;
                  w4 = set_conn Main_conn (\<lambda>c. c\<lparr>conn_sock := fd2\<rparr>) w3
              in if fd2 = -1 then Inr (ret, close_sock fd w4)
                 else Inr (0, close_sock fd (set_conn Main_conn
                        (\<lambda>c. c\<lparr>conn_last_port := port, conn_port := port, conn_type := CONN_TYPE_CTRL\<rparr>) w4))
          | Some m \<Rightarrow> Inl Out_of_bounds))"

definition make_validate_req :: "sftt_client \<Rightarrow> string \<Rightarrow> validate_req" where
  "make_validate_req c passwd_md5 =
     (let name = buf_strncpy (zero_bytes 32) (cl_uname c) 31 in
      \<lparr>vq_name_len = of_nat (length (buf_string name)), vq_passwd_len = of_nat (length passwd_md5), vq_name = name,
       vq_passwd_md5 = buf_strncpy (zero_bytes 33) passwd_md5 33, vq_ver = cl_ver c\<rparr>)"

definition DEFAULT_USER_HOME :: string where "DEFAULT_USER_HOME = ''/tmp/sftt''"

definition enter_session :: "validate_resp \<Rightarrow> string \<Rightarrow> cworld \<Rightarrow> cworld" where
  "enter_session r pwd w =
     upd_client (\<lambda>c. c\<lparr>cl_uid := ucast (va_uid r), cl_session_id := take 31 (buf_string (va_session_id r)),
       cl_main_conn := (cl_main_conn c)\<lparr>connect_id := buf_string (va_connect_id r)\<rparr>, cl_pwd := take 1023 pwd\<rparr>) w"

text \<open>A user without a home directory is let in with a default directory, whatever the server decided.\<close>

definition validate_user_base_info :: "cenv \<Rightarrow> cworld \<Rightarrow> c_fault + int \<times> cworld" where
  "validate_user_base_info e w =
     (case cl_password (client w) of
        None \<Rightarrow> Inl Null_dereference
      | Some passwd \<Rightarrow>
          sbind (if passwd = [] then Inr [] else md5_str (cjunk e) (str_bytes passwd)) (\<lambda>passwd_md5.
            sbind (ask (Validate_req (make_validate_req (client w) passwd_md5)) w) (\<lambda>(a, w1).
              case a of
                None \<Rightarrow> Inr (-1, w1)
              | Some None \<Rightarrow> Inl Null_dereference
              | Some (Some (Ctl (Validate_resp r))) \<Rightarrow>
                  if sr_status r = resp_num RESP_UVS_PASS then Inr (1, enter_session r (buf_string (va_pwd r)) w1)
                  else if sr_status r = resp_num RESP_UVS_MISSHOME then Inr (0, enter_session r DEFAULT_USER_HOME w1)
                  else Inr (-1, w1)
              | Some (Some m) \<Rightarrow> Inl Out_of_bounds)))"

section \<open>Task connections\<close>

text \<open>
  The thread that is launched for the new connection makes its socket non-blocking before anything else.
\<close>

definition add_task_connect :: "bool \<Rightarrow> cworld \<Rightarrow> c_fault + int \<times> cworld" where
  "add_task_connect launched w =
     (let port = conn_port (cl_main_conn (client w)); (fd, w1) = make_connect port w in
      if fd = -1 then Inr (-1, w1)
      else sbind (ask_on fd (Append_conn_req \<lparr>aq_session_id = sid_bytes w1, aq_type = conn_code CONN_TYPE_TASK\<rparr>) w1) (\<lambda>(a, w2).
        case a of
          None \<Rightarrow> Inr (-1, w2)
        | Some None \<Rightarrow> Inl Assertion_failed
        | Some (Some (Ctl (Append_conn_resp r))) \<Rightarrow>
            if sr_status r \<noteq> resp_num RESP_OK then Inr (-1, w2)
            else
              let conn = zero_conn\<lparr>conn_sock := fd, conn_port := port, conn_type := CONN_TYPE_TASK,
                           connect_id := buf_string (ac_connect_id r)\<rparr>
              in Inr (if launched then 0 else -1, upd_client (\<lambda>c. c\<lparr>cl_task_conns := conn # cl_task_conns c\<rparr>)
                        (if launched then snd (make_socket_non_blocking fd w2) else w2))
        | Some (Some m) \<Rightarrow> Inl Out_of_bounds))"

text \<open>One round of the loop of \<^verbatim>\<open>do_connect_manager\<close>.\<close>

definition do_connect_manager :: "bool \<Rightarrow> cworld \<Rightarrow> c_fault + cworld" where
  "do_connect_manager launched w =
     (let cs = cl_task_conns (client w);
          idle_conns = length (filter (\<lambda>c. \<not> is_using c) cs);
          updating = list_ex is_updating cs
      in if \<not> updating \<and> length cs < CLIENT_MAX_TASK_CONN \<and> idle_conns = 0
         then sbind (add_task_connect launched w) (\<lambda>(_, w1). Inr w1)
         else Inr w)"

section \<open>Requests of others\<close>

definition send_ll :: "ll_resp \<Rightarrow> resp_code \<Rightarrow> 32 word \<Rightarrow> chan \<Rightarrow> int \<times> ll_resp \<times> chan" where
  "send_ll resp code flags cn =
     (let resp1 = set_status resp code flags; (ret, cn1) = ch_send (Ctl (Ll_resp resp1)) cn in (ret, hton_ll_resp resp1, cn1))"

definition peer_entry :: "fsys \<Rightarrow> string \<Rightarrow> string \<Rightarrow> file_entry \<Rightarrow> file_entry" where
  "peer_entry f path name en =
     (let tmp = simplify_path (take 2050 (path @ ''/'' @ name)) in
      en\<lparr>fe_name := buf_strncpy (fe_name en) name (FILE_NAME_MAX_LEN - 1),
         fe_type := if is_file f tmp then FILE_TYPE_FILE else if is_dir f tmp then FILE_TYPE_DIR else FILE_TYPE_UNKNOWN\<rparr>)"

fun peer_entries :: "fsys \<Rightarrow> string \<Rightarrow> string list \<Rightarrow> file_entry list \<Rightarrow> file_entry list" where
  "peer_entries f path (n # ns) (en # es) = peer_entry f path n en # peer_entries f path ns es"
| "peer_entries f path ns es = es"

function peer_batches :: "fsys \<Rightarrow> string \<Rightarrow> string list \<Rightarrow> ll_resp \<Rightarrow> int \<Rightarrow> chan \<Rightarrow> int \<times> chan" where
  "peer_batches f path names resp ret cn =
     (if names = [] then (ret, cn)
      else
        let batch = take FILE_ENTRY_MAX_CNT names; rest = drop FILE_ENTRY_MAX_CNT names;
            resp1 = resp\<lparr>ll_entries := peer_entries f path batch (ll_entries resp), ll_this_nr := of_nat (length batch)\<rparr>;
            (ret, resp2, cn1) = send_ll resp1 RESP_OK (if rest \<noteq> [] then 1 else 0) cn
        in peer_batches f path rest resp2 ret cn1)"
  by pat_completeness auto
termination
  by (relation "measure (\<lambda>(f, path, names, resp, ret, cn). length names)") (auto simp: FILE_ENTRY_MAX_CNT_def)

declare peer_batches.simps [simp del]

text \<open>A path that leaves no terminator in the array is a fault.\<close>

definition handle_peer_ll_req :: "path_req \<Rightarrow> fsys \<Rightarrow> chan \<Rightarrow> c_fault + int \<times> chan" where
  "handle_peer_ll_req req f cn =
     sbind (copy_field 255 (buf_string (pq_path req))) (\<lambda>p.
       let path = simplify_path p; resp = zero_ll_resp in
       if \<not> file_existed f (Some path)
       then let (ret, _, cn1) = send_ll (resp\<lparr>ll_total := -1\<rparr>) RESP_FILE_NTFD 0 cn in Inr (ret, cn1)
       else if is_file f path
       then
         let en = hd (ll_entries resp);
             en1 = en\<lparr>fe_name := buf_strncpy (fe_name en) (base_name path) (FILE_NAME_MAX_LEN - 1), fe_type := FILE_TYPE_FILE\<rparr>;
             (ret, _, cn1) = send_ll (resp\<lparr>ll_total := 1, ll_entries := en1 # tl (ll_entries resp)\<rparr>) RESP_OK 0 cn
         in Inr (ret, cn1)
       else if is_dir f path
       then
         (case get_top_file_list f path of
            None \<Rightarrow> let (ret, _, cn1) = send_ll (resp\<lparr>ll_total := -1\<rparr>) RESP_INTERNAL_ERR 0 cn in Inr (ret, cn1)
          | Some file_list \<Rightarrow> Inr (peer_batches f path file_list (resp\<lparr>ll_total := of_nat (length file_list)\<rparr>) 0 cn))
       else Inr (0, cn))"

definition handle_peer_get_req :: "cenv \<Rightarrow> path_req \<Rightarrow> fsys \<Rightarrow> chan \<Rightarrow> c_fault + int \<times> chan" where
  "handle_peer_get_req e req f cn =
     (let path = buf_string (pq_path req) in
      if length path \<ge> FILE_NAME_MAX_LEN then Inl Out_of_bounds
      else if \<not> is_absolute_path (Some path)
      then let (_, _, cn1) = send_get_resp zero_get_resp RESP_PATH_NOT_ABS REQ_RESP_FLAG_STOP cn in Inr (-1, cn1)
      else if \<not> file_existed f (Some path)
      then let (_, _, cn1) = send_get_resp zero_get_resp RESP_FILE_NTFD REQ_RESP_FLAG_STOP cn in Inr (-1, cn1)
      else sbind (send_files_by_get_resp (cfuel e) (cjunk e) f path zero_get_resp cn) (\<lambda>(ret, _, cn1). Inr (ret, cn1)))"

definition handle_peer_put_req :: "cenv \<Rightarrow> put_req \<Rightarrow> fsys \<Rightarrow> chan \<Rightarrow> c_fault + int \<times> fsys \<times> chan" where
  "handle_peer_put_req e req f cn = recv_files_from_put_req (cjunk e) req zero_status_resp f cn"

definition task_sock :: "nat \<Rightarrow> cworld \<Rightarrow> int" where
  "task_sock k w = conn_sock (cl_task_conns (client w) ! k)"

text \<open>What a request on task connection \<open>k\<close> does; an unknown one is ignored.\<close>

fun peer_dispatch :: "cenv \<Rightarrow> nat \<Rightarrow> msg \<Rightarrow> cworld \<Rightarrow> c_fault + cworld" where
  "peer_dispatch e k (Ctl (Write_req r)) w = Inr (cprint (buf_string (wq_message r)) w)"
| "peer_dispatch e k (Ctl (Ll_req r)) w =
     sbind (handle_peer_ll_req r (cfs w) (cchans w (task_sock k w))) (\<lambda>(_, cn). Inr (cset_chan (task_sock k w) cn w))"
| "peer_dispatch e k (Ctl (Get_req r)) w =
     sbind (handle_peer_get_req e r (cfs w) (cchans w (task_sock k w))) (\<lambda>(_, cn). Inr (cset_chan (task_sock k w) cn w))"
| "peer_dispatch e k (Put_req r) w =
     sbind (handle_peer_put_req e r (cfs w) (cchans w (task_sock k w))) (\<lambda>(_, f1, cn).
       Inr (cset_chan (task_sock k w) cn (w\<lparr>cfs := f1\<rparr>)))"
| "peer_dispatch e k (Ctl (Port_update_req p)) w = Inr (snd (handle_port_update_req k p w))"
| "peer_dispatch e k m w = Inr w"

text \<open>
  One round of the loop of \<^verbatim>\<open>do_task_handler\<close>. When nothing has arrived (\<^verbatim>\<open>EAGAIN\<close>) the thread sleeps and tries again, and
  the connection stays marked as used. A closed or broken connection ends the thread; the connection stays
  in the list of the client.
\<close>

definition do_task_handler :: "cenv \<Rightarrow> nat \<Rightarrow> cworld \<Rightarrow> c_fault + cworld" where
  "do_task_handler e k w =
     (let w0 = set_conn (Task_conn k) (\<lambda>c. c\<lparr>is_using := True\<rparr>) w in
      if task_sock k w0 \<noteq> -1 \<and> ch_in (cchans w0 (task_sock k w0)) = [] \<and> nonblocking (task_sock k w0) w0 then Inr w0
      else sbind (crecv (task_sock k w0) w0) (\<lambda>(ret, m, w1).
        case m of
          None \<Rightarrow> Inr (close_sock (task_sock k w1) (set_conn (Task_conn k) (\<lambda>c. c\<lparr>is_using := False\<rparr>) w1))
        | Some r \<Rightarrow>
            sbind (peer_dispatch e k r w1) (\<lambda>w2. Inr (set_conn (Task_conn k) (\<lambda>c. c\<lparr>is_using := False\<rparr>) w2))))"

section \<open>Starting\<close>

text \<open>
  The part of \<^verbatim>\<open>init_sftt_client\<close> that the state has: from the name and the password of the user to the list of
  users. Logging, the pool of threads and the state file are left out.
\<close>

definition init_sftt_client :: "cenv \<Rightarrow> string \<Rightarrow> int \<Rightarrow> string \<Rightarrow> string \<Rightarrow> cworld \<Rightarrow> c_fault + int \<times> cworld" where
  "init_sftt_client e host port user passwd w =
     (case get_version_info of
        None \<Rightarrow> Inr (-1, w)
      | Some ver \<Rightarrow>
          let w0 = upd_client (\<lambda>c. c\<lparr>cl_ver := ver, cl_host := take 31 host, cl_uname := take 31 user,
                     cl_password := strdup (Some passwd), cl_need_reconnect := False\<rparr>) w in
          sbind (get_sftt_client_config (cfs w0) (Some \<lparr>cblock_size = 0, clog_dir = replicate DIR_PATH_MAX_LEN (CHR 0x00)\<rparr>)) (\<lambda>(ret, _).
            if ret = -1 then Inr (-1, w0)
            else sbind (init_sftt_client_ctrl_conn port w0) (\<lambda>(ret, w1).
              if ret = -1 then Inr (-1, w1)
              else sbind (validate_user_base_info e w1) (\<lambda>(ret, w2).
                if ret = -1 then Inr (-1, w2)
                else
                  let w3 = upd_client (\<lambda>c. c\<lparr>cl_task_conns := [], cl_friends := []\<rparr>) w2 in
                  sbind (get_friend_list w3) (\<lambda>(ret, w4). Inr (if ret = -1 then -1 else 0, w4))))))"

end
