(* ===== verification/Sftt_End_To_End.thy ===== *)
theory Sftt_End_To_End
  imports Sftt_Forward Sftt_Peer
begin

text \<open>
  The client and the server together: a command of the client, the server's handler for the request it sends, and
  what the client makes of the answers. The request that the handler gets is the one the client sends, and the
  events on the client's connection are the messages the server sends.
\<close>

unbundle bit_operations_syntax

section \<open>Signed and converted integers\<close>

lemma two_high_bytes:
  "push_bit 16 (ucast (c :: byte)) OR push_bit 24 (ucast (d :: byte)) = (of_nat (2 ^ 16 * unat c + 2 ^ 24 * unat d) :: 32 word)"
proof -
  have "push_bit 16 (ucast c) OR push_bit 24 (ucast d) = push_bit 16 (ucast c) + (push_bit 24 (ucast d) :: 32 word)"
    by (rule disjunctive_add_eq_or [symmetric], rule bit_word_eqI) (auto simp: bit_simps dest: bit_imp_le_length)
  then show ?thesis
    by (simp add: push_bit_eq_mult)
qed

lemma unat_htonl_small:
  assumes "n < 65536"
  shows "unat (htonl (of_nat n)) = 2 ^ 16 * (n div 256) + 2 ^ 24 * (n mod 256)"
proof -
  have t: "take_bit 32 n = n"
    using assms by (simp add: take_bit_nat_eq_self)
  then have u: "unat (of_nat n :: 32 word) = n"
    by (simp add: unsigned_of_nat)
  have "drop_bit 16 (of_nat n :: 32 word) = 0" "drop_bit 24 (of_nat n :: 32 word) = 0"
    using assms t u by (simp_all add: word_unat_eq_iff unsigned_drop_bit_eq drop_bit_eq_div [where 'a = nat])
  moreover have "unat (ucast (of_nat n :: 32 word) :: byte) = n mod 256"
    by (simp add: unsigned_ucast_eq u t take_bit_eq_mod)
  moreover have "unat (ucast (drop_bit 8 (of_nat n :: 32 word)) :: byte) = n div 256"
    using assms by (simp add: unsigned_ucast_eq unsigned_drop_bit_eq u t drop_bit_eq_div [where 'a = nat] take_bit_eq_mod div_less_iff_less_mult mod_less)
  ultimately have "htonl (of_nat n) = of_nat (2 ^ 16 * (n div 256) + 2 ^ 24 * (n mod 256))"
    by (simp add: htonl_def le32_def two_high_bytes)
  moreover have "2 ^ 16 * (n div 256) + 2 ^ 24 * (n mod 256) < (2 ^ 32 :: nat)"
    using assms by simp
  ultimately show ?thesis
    by (simp add: unsigned_of_nat take_bit_nat_eq_self del: of_nat_add of_nat_mult)
qed

lemma sint_small: "n < 2 ^ 31 \<Longrightarrow> sint (of_nat n :: 32 word) = int n"
  by (simp add: signed_of_nat signed_take_bit_int_eq_self)

lemma sint_unat: "unat (x :: 32 word) < 2 ^ 31 \<Longrightarrow> sint x = int (unat x)"
  using sint_small [of "unat x"] by simp

lemma sint_big:
  assumes "2 ^ 31 \<le> unat (x :: 32 word)"
  shows "sint x < 0"
proof -
  have b: "unat x < 2 ^ 32"
    using unsigned_less [of x] by simp
  have "unat x div 2 ^ 31 = 1"
    using assms b by (intro div_nat_eqI) simp_all
  then have "bit x 31"
    by (metis bit_iff_odd bit_unsigned_iff odd_one)
  then show ?thesis
    using bit_last_iff [of x] by simp
qed

section \<open>Listing a directory\<close>

text \<open>An answer as an event of the connection.\<close>

definition ll_event :: "ll_resp \<Rightarrow> event" where
  "ll_event r = Msg (Ctl (Ll_resp r))"

text \<open>A total that is positive on both sides of a conversion is never met by the count of the entries before the last one.\<close>

lemma ll_loop_series:
  assumes "sint T = int N" "sint (htonl T) > int N"
    and "ll_series f path (if b then T else htonl T) names (r # rs)" "t + int (length names) = int N" "0 \<le> t"
  shows "\<exists>acc'. map entry_info acc' = map entry_info acc @ map (name_info f path) names
    \<and> ll_loop nb (map ll_event rs) r t acc =
      (if b = odd (length (r # rs)) then Inr (True, acc', []) else if nb then Inr (False, acc', []) else Inl No_return)"
  using assms(3-5)
proof (induction rs arbitrary: b names r t acc)
  case Nil
  have n: "names \<noteq> []" "length names \<le> 16" "take 16 names = names" "take (length names) names = names"
    using Nil.prems(1) by auto
  have r: "sint (ll_this_nr r) = int (length names)" "length (ll_entries r) = 16" "ll_total r = (if b then T else htonl T)"
      "map entry_info (take (length names) (ll_entries r)) = map (name_info f path) names"
    using Nil.prems(1) n by (auto simp: sint_unat min_def)
  have "length names > 0"
    using n(1) by simp
  then have "int N > 0" "t + int (length names) = int N"
    using Nil.prems(2,3) by linarith+
  then show ?case
    using r n assms(1,2) by (intro exI [of _ "acc @ take (length names) (ll_entries r)"]) (simp add: batch_loop.simps [of ll_of])
next
  case (Cons r1 rs)
  have n: "drop 16 names \<noteq> []" "length names > 16" "length (take 16 names) = 16"
    using Cons.prems(1) by auto
  have r: "sint (ll_this_nr r) = 16" "length (ll_entries r) = 16" "ll_total r = (if b then T else htonl T)"
      "map entry_info (take 16 (ll_entries r)) = map (name_info f path) (take 16 names)"
      "ll_series f path (if \<not> b then T else htonl T) (drop 16 names) (r1 # rs)"
    using Cons.prems(1) n by (auto simp: sint_unat)
  obtain acc' where acc': "map entry_info acc' = map entry_info (acc @ take 16 (ll_entries r)) @ map (name_info f path) (drop 16 names)"
      "ll_loop nb (map ll_event rs) r1 (t + 16) (acc @ take 16 (ll_entries r))
        = (if (\<not> b) = odd (length (r1 # rs)) then Inr (True, acc', []) else if nb then Inr (False, acc', []) else Inl No_return)"
    using Cons.IH [OF r(5), of "t + 16" "acc @ take 16 (ll_entries r)"] n Cons.prems(2,3) by auto
  have "int N > t + 16" "sint (ll_total r) \<noteq> t + 16" "sint (ll_total r) > 0"
    using n Cons.prems(2,3) r(3) assms(1,2) by auto
  then have "ll_loop nb (map ll_event (r1 # rs)) r t acc = ll_loop nb (map ll_event rs) r1 (t + 16) (acc @ take 16 (ll_entries r))"
    using r(1,2) by (simp add: batch_loop.simps [of ll_of _ _ _ _ _ r] ll_event_def)
  moreover have "map entry_info acc' = map entry_info acc @ map (name_info f path) names"
    using acc'(1) r(4) by (metis append.assoc append_take_drop_id map_append)
  ultimately show ?case
    using acc'(2) by (intro exI [of _ acc']) auto
qed

text \<open>A total that the conversion makes negative ends the loop after the first answer.\<close>

lemma ll_loop_negative:
  assumes "sint T = int (length names)" "sint (htonl T) < 0" "16 < length names" "ll_series f path T names (r # rs)"
  shows "\<exists>acc'. map entry_info acc' = map (name_info f path) (take 16 names)
    \<and> ll_loop nb (map ll_event rs) r 0 [] = Inr (True, acc', map ll_event (tl rs))"
proof -
  have r: "sint (ll_this_nr r) = 16" "length (ll_entries r) = 16" "ll_total r = T"
      "map entry_info (take 16 (ll_entries r)) = map (name_info f path) (take 16 names)"
      "ll_series f path (htonl T) (drop 16 names) rs"
    using assms(3,4) by (auto simp: sint_unat)
  then obtain r1 rs1 where rs: "rs = r1 # rs1" "sint (ll_total r1) < 0"
    using assms(2,3) by (cases rs) auto
  then have "ll_loop nb (map ll_event rs) r 0 [] = Inr (True, take 16 (ll_entries r), map ll_event rs1)"
    using r(1-3) assms(1) less_imp_neq [OF assms(3)] assms(3)
    by (cases "names = []") (simp_all add: batch_loop.simps [of ll_of] ll_event_def)
  then show ?thesis
    using r(4) rs(1) by auto
qed

text \<open>The client's request, and its state after it has printed entries and left events in the connection.\<close>

definition ll_req_of :: "string \<Rightarrow> cworld \<Rightarrow> path_req" where
  "ll_req_of p cw = make_path_req (sid_bytes cw) (buf_strncpy (zero_bytes 1024) p 1023) None"

definition after_ll :: "string \<Rightarrow> (32 word \<times> string) list \<Rightarrow> event list \<Rightarrow> cworld \<Rightarrow> cworld" where
  "after_ll p infos es cw =
     (let fd = csock cw; cn = cchans cw fd in
      (cset_chan fd (cn\<lparr>ch_out := ch_out cn @ [Ctl (Ll_req (ll_req_of p cw))], ch_in := es\<rparr>) cw)
        \<lparr>printed := printed cw @ map (\<lambda>(t, n). FILE_TYPE_NAME t @ [CHR 0x09] @ n) infos\<rparr>)"

lemma entry_line_info: "map entry_line ens = map (\<lambda>(t, n). FILE_TYPE_NAME t @ [CHR 0x09] @ n) (map entry_info ens)"
  by (simp add: entry_line_def entry_info_def)

lemma ll_request_answer:
  assumes "csock cw \<noteq> -1" "ch_send_ok (cchans cw (csock cw))" "ll_loop (nonblocking (csock cw) cw) es r 0 [] = Inr (True, ens, es')"
  shows "ll_request None p (set_events (csock cw) (ll_event r # es) cw) = Inr (0, after_ll p (map entry_info ens) es' cw)"
  using assms by (simp add: ll_request_def ask_on_def csend_def crecv_def ch_send_def ch_recv_def set_events_def cset_chan_def
      csock_def ll_event_def after_ll_def ll_req_of_def sid_bytes_def entry_line_info nonblocking_def Let_def)

lemma ll_request_waits:
  assumes "csock cw \<noteq> -1" "ch_send_ok (cchans cw (csock cw))"
    "ll_loop (nonblocking (csock cw) cw) es r 0 [] = (if nonblocking (csock cw) cw then Inr (False, ens, []) else Inl No_return)"
  shows "ll_request None p (set_events (csock cw) (ll_event r # es) cw) =
    (if nonblocking (csock cw) cw then Inr (-1, after_ll p [] [] cw) else Inl No_return)"
  using assms by (auto simp: ll_request_def ask_on_def csend_def crecv_def ch_send_def ch_recv_def set_events_def cset_chan_def
      csock_def ll_event_def after_ll_def ll_req_of_def sid_bytes_def nonblocking_def Let_def)

lemma ll_req_of_props:
  assumes "CHR 0x00 \<notin> set p" "length p < 1023"
  shows "pq_to_peer (ll_req_of p cw) = 0" "buf_string (pq_path (ll_req_of p cw)) = p"
  using assms buf_strncpy_string [of p 1023 "zero_bytes 1024"] by (simp_all add: ll_req_of_def make_path_req_def zero_bytes_def)

lemma converted_total:
  assumes "0 < n" "n < 32768"
  shows "n mod 256 \<ge> 128 \<Longrightarrow> sint (htonl (of_nat n)) < 0"
    and "n mod 256 < 128 \<Longrightarrow> int n < sint (htonl (of_nat n))"
proof -
  let ?q = "n div 256" and ?m = "n mod 256"
  have scale: "256 * (256 * a + b) \<le> 2 ^ 16 * a + 2 ^ 24 * b" for a b :: nat
    by simp
  have U: "unat (htonl (of_nat n)) = 2 ^ 16 * ?q + 2 ^ 24 * ?m"
    using assms(2) by (intro unat_htonl_small) simp
  show "sint (htonl (of_nat n)) < 0" if "?m \<ge> 128"
    using U that by (intro sint_big) simp
  show "int n < sint (htonl (of_nat n))" if "?m < 128"
  proof -
    have q: "?q < 128" "n = 256 * ?q + ?m"
      using assms(2) by auto
    then have "2 ^ 16 * ?q + 2 ^ 24 * ?m < 2 ^ 31"
      using that by simp
    moreover have "n < 2 ^ 16 * ?q + 2 ^ 24 * ?m"
      by (rule order.strict_trans2 [OF _ scale [of "?q" "?m", unfolded mult_div_mod_eq]]) (simp add: assms(1))
    ultimately show ?thesis
      using U sint_unat [of "htonl (of_nat n)"] by simp
  qed
qed

text \<open>What the client makes of the series of answers that lists \<open>names\<close>.\<close>

lemma ll_request_series:
  assumes "ll_series f path (of_nat (length names)) names rs" "0 < length names" "length names < 32768"
    and "csock cw \<noteq> -1" "ch_send_ok (cchans cw (csock cw))"
  shows "ll_request None p (set_events (csock cw) (map ll_event rs) cw) =
    (if length names mod 256 \<ge> 128
     then Inr (0, after_ll p (map (name_info f path) (take 16 names)) (map ll_event (drop 2 rs)) cw)
     else if odd ((length names + 15) div 16) then Inr (0, after_ll p (map (name_info f path) names) [] cw)
     else if nonblocking (csock cw) cw then Inr (-1, after_ll p [] [] cw)
     else Inl No_return)"
proof -
  let ?T = "of_nat (length names) :: 32 word"
  obtain r rs1 where r: "rs = r # rs1"
    using assms(1,2) by (cases rs) auto
  have T: "sint ?T = int (length names)"
    using assms(3) by (intro sint_small) simp
  have K: "length (r # rs1) = (length names + 15) div 16"
    using ll_series_listed [OF assms(1)] r by simp
  have ev: "map ll_event rs = ll_event r # map ll_event rs1" "drop 2 rs = tl rs1"
    by (simp_all add: r drop_Suc numeral_2_eq_2)
  show ?thesis
  proof (cases "length names mod 256 \<ge> 128")
    case True
    then have "16 < length names"
      using mod_less_eq_dividend [of "length names" 256] by linarith
    then obtain ens where "map entry_info ens = map (name_info f path) (take 16 names)"
        "ll_loop (nonblocking (csock cw) cw) (map ll_event rs1) r 0 [] = Inr (True, ens, map ll_event (tl rs1))"
      using ll_loop_negative [OF T converted_total(1) [OF assms(2,3) True]] assms(1) r by blast
    then show ?thesis
      unfolding ev using True ll_request_answer [OF assms(4,5)] by simp
  next
    case False
    then obtain ens where "map entry_info ens = map (name_info f path) names"
        "ll_loop (nonblocking (csock cw) cw) (map ll_event rs1) r 0 [] =
          (if odd (length (r # rs1)) then Inr (True, ens, []) else if nonblocking (csock cw) cw then Inr (False, ens, []) else Inl No_return)"
      using ll_loop_series [OF T converted_total(2) [OF assms(2,3)], of f path True names r rs1 0 "[]" "nonblocking (csock cw) cw"] assms(1) r by auto
    then show ?thesis
      unfolding ev K using False ll_request_answer [OF assms(4,5)] ll_request_waits [OF assms(4,5)] by simp
  qed
qed

text \<open>
  C9: listing a directory end to end: the client's request for an absolute path, the server's answers to it, and
  what the client makes of them. Since every send converts the total in the server's struct, the outcome depends on
  the number of entries: with 128 or more modulo 256 the client prints the first 16 and leaves the
  answers after the second one in the connection; else it prints all entries, with types and in
  order, when there is an odd number of answers, and when it is even it never returns, or on a socket that does not
  block fails and prints nothing.
\<close>

theorem ll_end_to_end:
  assumes "is_absolute_path (Some p)" "CHR 0x00 \<notin> set p" "length p < 1023" "path = simplify_path p"
    and "file_existed (fs w) (Some path)" "is_dir (fs w) path" "\<not> denied (fs w) (resolve (fs w) path)"
    and "names = listing (fs w) (resolve (fs w) path)" "list_all name_ok names" "0 < length names" "length names < 32768"
    and "ch_send_ok (chans w (main_sock_of i w))" "csock cw \<noteq> -1" "ch_send_ok (cchans cw (csock cw))"
  shows "\<exists>w' ms. handle_ll_req e i (ll_req_of p cw) w = Inr (0, w')
    \<and> ch_out (chans w' (main_sock_of i w)) = ch_out (chans w (main_sock_of i w)) @ ms
    \<and> ll_request None p (set_events (csock cw) (map Msg ms) cw) =
        (if length names mod 256 \<ge> 128
         then Inr (0, after_ll p (map (name_info (fs w) path) (take 16 names)) (map Msg (drop 2 ms)) cw)
         else if odd ((length names + 15) div 16) then Inr (0, after_ll p (map (name_info (fs w) path) names) [] cw)
         else if nonblocking (csock cw) cw then Inr (-1, after_ll p [] [] cw)
         else Inl No_return)"
proof -
  let ?resp = "zero_ll_resp\<lparr>ll_total := of_nat (length names)\<rparr>"
  let ?w' = "ll_batches i path names ?resp w"
  have "\<not> is_file (fs w) path"
    using assms(6) is_file_not_dir by blast
  then have h: "handle_ll_req e i (ll_req_of p cw) w = Inr (0, ?w')"
    using assms(1-8) ll_req_of_props [OF assms(2,3), of cw] by (simp add: handle_ll_req_def get_top_file_list_def Let_def)
  obtain rs where rs: "ch_out (chans ?w' (main_sock_of i w))
        = ch_out (chans w (main_sock_of i w)) @ map (\<lambda>r. Ctl (Ll_resp r)) rs"
      "ll_series (fs w) path (of_nat (length names)) names rs"
    using ll_batches_series [OF assms(9), of ?resp w i path] zero_ll_entries assms(12) by auto
  have ev: "map Msg (map (\<lambda>r. Ctl (Ll_resp r)) rs) = map ll_event rs"
      "map Msg (drop 2 (map (\<lambda>r. Ctl (Ll_resp r)) rs)) = map ll_event (drop 2 rs)"
    by (simp_all add: ll_event_def drop_map)
  show ?thesis
    using h rs(1) ll_request_series [OF rs(2) assms(10,11,13,14), of p] unfolding ev [symmetric] by blast
qed


definition idle_client :: cworld where
  "idle_client = \<lparr>client = \<lparr>cl_main_conn = zero_conn\<lparr>conn_sock := 5, conn_port := 40000, conn_last_port := 40000\<rparr>, cl_task_conns = [],
       cl_ver = \<lparr>major = 0, minor = 1, revision = 3\<rparr>, cl_uname = ''ann'', cl_uid = 0, cl_password = Some ''pw'', cl_session_id = [],
       cl_host = ''127.0.0.1'', cl_pwd = ''/'', cl_friends = [], cl_need_reconnect = False\<rparr>,
     cfs = small_fs, cchans = (\<lambda>_. quiet), csocks = [], dialed = [], cclosed = [], cnonblock = [], direct = False, printed = []\<rparr>"

lemma idle_client_props: "csock idle_client = 5" "cchans idle_client fd = quiet" "printed idle_client = []"
  "\<not> nonblocking fd idle_client"
  by (simp_all add: idle_client_def csock_def nonblocking_def)

definition many_world :: world where
  "many_world = start_world\<lparr>fs := small_fs\<lparr>listing := (\<lambda>_. replicate 17 ''f'')\<rparr>\<rparr>"

theorem ll_end_to_end_witness:
  "(\<exists>w' ms. handle_ll_req small_env 0 (ll_req_of ''/'' idle_client) many_world = Inr (0, w')
      \<and> ch_out (chans w' 0) = ms \<and> ll_request None ''/'' (set_events 5 (map Msg ms) idle_client) = Inl No_return)
   \<and> (\<exists>w' ms. handle_ll_req small_env 0 (ll_req_of ''/'' idle_client) list_world = Inr (0, w')
      \<and> ch_out (chans w' 0) = ms
      \<and> ll_request None ''/'' (set_events 5 (map Msg ms) idle_client)
          = Inr (0, after_ll ''/'' (map (name_info (fs list_world) ''/'') [''.'', ''..'', ''a.txt'']) [] idle_client))"
proof -
  have m: "main_sock_of 0 many_world = 0" "main_sock_of 0 list_world = 0"
    by (simp_all add: main_sock_of_def many_world_def list_world_def start_world_def
        init_sessions_def MAX_CLIENT_NUM_def init_client_session_def put_session_def zero_conn_def)
  have s: "''/'' = simplify_path ''/''"
    by (simp add: simplify_path_def)
  have fsx: "file_existed (fs w) (Some ''/'')" "is_dir (fs w) ''/''" "\<not> denied (fs w) (resolve (fs w) ''/'')"
      "ch_send_ok (chans w x)" "ch_out (chans w x) = []"
    if "w = many_world \<or> w = list_world" for w x
    using that by (auto simp: file_existed_def is_dir_def lstat_mode_def many_world_def list_world_def start_world_def small_fs_def
        quiet_def resolve_def S_ISDIR_def is_absolute_path_def)
  have n: "listing (fs many_world) (resolve (fs many_world) ''/'') = replicate 17 ''f''"
      "listing (fs list_world) (resolve (fs list_world) ''/'') = [''.'', ''..'', ''a.txt'']"
    by (simp_all add: many_world_def list_world_def)
  have a: "is_absolute_path (Some ''/'')" "CHR 0x00 \<notin> set ''/''" "length ''/'' < 1023" "csock idle_client \<noteq> -1"
      "ch_send_ok (cchans idle_client (csock idle_client))" "list_all name_ok (replicate 17 ''f'')"
    by (simp_all add: is_absolute_path_def idle_client_props quiet_def list_all_iff name_ok_def)
  show ?thesis
    using ll_end_to_end [OF a(1-3) s fsx(1-3) n(1) [symmetric] a(6) _ _ fsx(4) a(4,5), of small_env 0]
      ll_end_to_end [OF a(1-3) s fsx(1-3) n(2) [symmetric] _ _ _ fsx(4) a(4,5), of small_env 0] fsx(5)
    by (simp add: m idle_client_props name_ok_def)
qed

section \<open>The users of the server\<close>

text \<open>One answer with as many entries as it announces ends the loop.\<close>

lemma batch_loop_single:
  assumes "tot r = nr r" "0 < nr r" "nr r \<le> int (length (ents r))"
  shows "batch_loop as tot nr ents nb es r 0 [] = Inr (True, take (nat (nr r)) (ents r), es)"
  using assms by (simp add: batch_loop.simps [of as])

text \<open>
  C10: the command \<^verbatim>\<open>w\<close> end to end: the client prints one line for every connected session of the server, in the order
  of its table, and marks its own; the list of users it keeps for later commands is the same, and
  no answer is left in the connection.
\<close>

theorem who_end_to_end:
  assumes "server_ok w" "i < length (sessions (server w))" "client_connected (sessions (server w) ! i)"
    and "ch_send_ok (chans w (main_sock_of i w))" "csock cw \<noteq> -1" "ch_send_ok (cchans cw (csock cw))"
    and "us = map session_user (filter client_connected (sessions (server w)))"
  shows "\<exists>w' ms cw'. handle_who_req i w = (0, w')
    \<and> ch_out (chans w' (main_sock_of i w)) = ch_out (chans w (main_sock_of i w)) @ ms
    \<and> sftt_client_who_handler argv (set_events (csock cw) (map Msg ms) cw) = Inr (0, cw')
    \<and> ch_out (cchans cw' (csock cw)) = ch_out (cchans cw (csock cw)) @ [Ctl (Who_req (sid_bytes cw))]
    \<and> ch_in (cchans cw' (csock cw)) = [] \<and> cl_friends (client cw') = us
    \<and> printed cw' = printed cw @ map (\<lambda>(k, u). user_line (cl_session_id (client cw)) k u) (zip [0..<length us] us)"
proof -
  obtain r w' where r: "handle_who_req i w = (0, w')" "wh_total r = wh_this_nr r"
      "ch_out (chans w' (main_sock_of i w)) = ch_out (chans w (main_sock_of i w)) @ [Ctl (Who_resp r)]"
      "take (unat (wh_this_nr r)) (wh_users r) = us" "0 < unat (wh_this_nr r)" "unat (wh_this_nr r) \<le> 32" "length (wh_users r) = 32"
    using who_lists_connected [OF assms(1-4)] unfolding assms(7) by blast
  have n: "sint (wh_this_nr r) = int (unat (wh_this_nr r))"
    using r(6) by (intro sint_unat) simp
  have "who_loop nb [] r 0 [] = Inr (True, us, [])" for nb
    using batch_loop_single [of "\<lambda>r. sint (wh_total r)" r "\<lambda>r. sint (wh_this_nr r)" wh_users who_of nb "[]"] r
    by (simp add: n del: of_nat_unat)
  then have "\<exists>cw'. sftt_client_who_handler argv (set_events (csock cw) [Msg (Ctl (Who_resp r))] cw) = Inr (0, cw')
    \<and> ch_out (cchans cw' (csock cw)) = ch_out (cchans cw (csock cw)) @ [Ctl (Who_req (sid_bytes cw))]
    \<and> ch_in (cchans cw' (csock cw)) = [] \<and> cl_friends (client cw') = us
    \<and> printed cw' = printed cw @ map (\<lambda>(k, u). user_line (cl_session_id (client cw)) k u) (zip [0..<length us] us)"
    using assms(5,6) by (simp add: sftt_client_who_handler_def get_friend_list_def ask_on_def csend_def crecv_def ch_send_def
        ch_recv_def set_events_def cset_chan_def csock_def sid_bytes_def Let_def)
  then show ?thesis
    using r(1,3) by (intro exI [of _ w'] exI [of _ "[Ctl (Who_resp r)]"]) simp
qed

theorem who_end_to_end_witness:
  "\<exists>w' ms cw'. handle_who_req 0 one_client = (0, w') \<and> ch_out (chans w' 7) = ms
     \<and> sftt_client_who_handler [] (set_events 5 (map Msg ms) idle_client) = Inr (0, cw')
     \<and> cl_friends (client cw') = map session_user (filter client_connected (sessions (server one_client)))"
  using who_end_to_end [OF one_client_ok _ one_client_props(2), of idle_client _ "[]"]
  by (fastforce simp: one_client_props(1,3,4) idle_client_props quiet_def)

section \<open>Logging in\<close>

lemma digits_text_chars: "CHR 0x00 \<notin> set acc \<Longrightarrow> CHR 0x00 \<notin> set (digits_text n acc)"
proof (induction n acc rule: digits_text.induct)
  case (1 n acc)
  have "char_of (48 + n mod 10) \<noteq> CHR 0x00"
    by (simp add: char_of_eq_iff take_bit_nat_eq_self)
  then show ?case
    using 1 by (subst digits_text.simps) (auto simp: Let_def)
qed

lemma session_id_chars: "CHR 0x00 \<notin> set (fst (gen_session_id rnd ts len st))"
proof -
  have l: "letter x \<noteq> CHR 0x00" for x
    by (simp add: letter_def char_of_eq_iff take_bit_nat_eq_self)
  have d: "CHR 0x00 \<notin> set (show_int x)" "CHR 0x00 \<notin> set (zero_pad k x)" for x k
    using digits_text_chars [of "[]"] by (auto simp: show_int_def zero_pad_def)
  have "CHR 0x00 \<notin> set (CHR ''s'' # map letter (take 2 rnd) @ show_int ts @ map letter (take 3 (drop 2 rnd)) @ zero_pad 4 (fst (next_id ts st)))"
    using l d by (auto simp: image_iff) metis+
  then show ?thesis
    by (auto simp: gen_session_id_def split_beta Let_def dest: in_set_takeD)
qed

lemma length_session_id: "length (fst (gen_session_id rnd ts 32 st)) \<le> 31"
  by (simp only: gen_session_id_def split_beta Let_def fst_conv length_take)

lemma zero_strncpy:
  assumes "CHR 0x00 \<notin> set s" "n \<le> m" "n < m \<or> length s < m"
  shows "buf_string (buf_strncpy (zero_bytes m) s n) = take n s"
proof -
  have "buf_strncpy (zero_bytes m) s n = buf_strncpy (zero_bytes m) (take n s) n"
    by (auto simp: buf_strncpy_def str_bytes_def take_map min_def)
  moreover have "CHR 0x00 \<notin> set (take n s)"
    using assms(1) by (auto dest: in_set_takeD)
  ultimately show ?thesis
    using buf_strncpy_string [of "take n s" n "zero_bytes m"] assms(2,3) by (auto simp: zero_bytes_def)
qed

text \<open>A session identifier fits into the arrays it is copied to.\<close>

lemma session_id_wire:
  fixes rnd ts st
  defines "sid \<equiv> fst (gen_session_id rnd ts 32 st)"
  shows "buf_string (buf_strncpy (zero_bytes 32) sid 32) = sid" "buf_string (buf_strncpy (zero_bytes 32) sid 31) = sid"
    "take 31 sid = sid"
proof -
  have "length sid < 32" "CHR 0x00 \<notin> set sid"
    using length_session_id [of rnd ts st] session_id_chars [of rnd ts 32 st] by (simp_all add: sid_def)
  then show "buf_string (buf_strncpy (zero_bytes 32) sid 32) = sid" "buf_string (buf_strncpy (zero_bytes 32) sid 31) = sid"
    "take 31 sid = sid"
    by (simp_all add: zero_strncpy)
qed

text \<open>The digest of the password in a login request.\<close>

definition passwd_digest :: "string \<Rightarrow> string" where
  "passwd_digest passwd = (if passwd = [] then [] else hex_of (md5_reference (str_bytes passwd)))"

lemma validate_client_answer:
  assumes "csock cw \<noteq> -1" "ch_send_ok (cchans cw (csock cw))" "cl_password (client cw) = Some passwd" "length (cjunk ce) = 64"
  shows "\<exists>ret cw'. validate_user_base_info ce (set_events (csock cw) [Msg (Ctl (Validate_resp r))] cw) = Inr (ret, cw')
    \<and> ch_out (cchans cw' (csock cw)) = ch_out (cchans cw (csock cw)) @ [Ctl (Validate_req (make_validate_req (client cw) (passwd_digest passwd)))]
    \<and> (if sr_status r = resp_num RESP_UVS_PASS
       then ret = 1 \<and> cl_session_id (client cw') = take 31 (buf_string (va_session_id r))
         \<and> cl_pwd (client cw') = take 1023 (buf_string (va_pwd r))
       else if sr_status r = resp_num RESP_UVS_MISSHOME
       then ret = 0 \<and> cl_session_id (client cw') = take 31 (buf_string (va_session_id r)) \<and> cl_pwd (client cw') = DEFAULT_USER_HOME
       else ret = -1 \<and> client cw' = client cw)"
proof -
  have d: "(if passwd = [] then Inr [] else md5_str (cjunk ce) (str_bytes passwd)) = Inr (passwd_digest passwd)"
    using assms(4) by (simp add: passwd_digest_def md5_str_def md5_digest md5_printable)
  show ?thesis
    using assms(1-3) d by (simp add: validate_user_base_info_def ask_on_def csend_def crecv_def ch_send_def ch_recv_def set_events_def
        cset_chan_def csock_def enter_session_def DEFAULT_USER_HOME_def Let_def)
qed

lemma resp_num_inj: "resp_num a = resp_num b \<longleftrightarrow> a = b"
  by (cases a; cases b) simp_all

text \<open>
  C8: a login end to end. An accepted user has on both sides the same session identifier, which later requests
  carry, and the same directory. A user whose home directory is missing is let in by the client with the directory
  \<^verbatim>\<open>/tmp/sftt\<close> and an empty identifier while the server has changed no session; every other answer
  ends the login and changes nothing on either side.
\<close>

theorem login_end_to_end:
  assumes "i < length (sessions (server w))" "ch_send_ok (chans w (main_sock_of i w))" "csock cw \<noteq> -1"
    and "ch_send_ok (cchans cw (csock cw))" "cl_password (client cw) = Some passwd" "length (cjunk ce) = 64"
    and "req = make_validate_req (client cw) (passwd_digest passwd)"
    and "find_user_base_by_name (users_db e (get_user_db_file (fs w))) (buf_string (vq_name req)) = Inr base"
    and "find_user_auth_by_name (users_db e (get_user_db_file (fs w))) (buf_string (vq_name req)) = Inr auth"
    and "\<forall>ub. base = Some ub \<longrightarrow> CHR 0x00 \<notin> set (ub_home_dir ub)"
  shows "\<exists>r w' ret cw'. validate_user_info e i req w = Inr (0, w')
    \<and> ch_out (chans w' (main_sock_of i w)) = ch_out (chans w (main_sock_of i w)) @ [Ctl (Validate_resp r)]
    \<and> validate_user_base_info ce (set_events (csock cw) [Msg (Ctl (Validate_resp r))] cw) = Inr (ret, cw')
    \<and> ch_out (cchans cw' (csock cw)) = ch_out (cchans cw (csock cw)) @ [Ctl (Validate_req req)]
    \<and> (if login_code w req base auth = RESP_UVS_PASS
       then ret = 1 \<and> cl_session_id (client cw') = cs_session_id (sessions (server w') ! i)
         \<and> buf_string (sid_bytes cw') = cs_session_id (sessions (server w') ! i) \<and> cl_pwd (client cw') = cs_pwd (sessions (server w') ! i)
       else sessions (server w') = sessions (server w)
         \<and> (if login_code w req base auth = RESP_UVS_MISSHOME
            then ret = 0 \<and> cl_session_id (client cw') = [] \<and> cl_pwd (client cw') = ''/tmp/sftt''
            else ret = -1 \<and> client cw' = client cw))"
proof -
  obtain r w' where v: "validate_user_info e i req w = Inr (0, w')"
      "ch_out (chans w' (main_sock_of i w)) = ch_out (chans w (main_sock_of i w)) @ [Ctl (Validate_resp r)]"
      "sr_status r = resp_num (login_code w req base auth)"
      "if login_code w req base auth = RESP_UVS_PASS
       then (\<exists>ub. base = Some ub
          \<and> sessions (server w') = (sessions (server w))[i := (sessions (server w) ! i)\<lparr>cs_status := ACTIVE,
              cs_pwd := take 1023 (ub_home_dir ub), cs_user := ub,
              cs_session_id := fst (gen_session_id (random_letters e) (now w) 32 (session_ids w))\<rparr>]
          \<and> va_session_id r = buf_strncpy (zero_bytes 32) (cs_session_id (sessions (server w') ! i)) 32
          \<and> va_pwd r = buf_strncpy (zero_bytes 1024) (ub_home_dir ub) 1023)
       else sessions (server w') = sessions (server w) \<and> buf_string (sr_message r) = resp_messages (login_code w req base auth)
         \<and> va_session_id r = zero_bytes 32"
    using login_answer [OF assms(1,2,8,9)] by blast
  obtain ret cw' where c: "validate_user_base_info ce (set_events (csock cw) [Msg (Ctl (Validate_resp r))] cw) = Inr (ret, cw')"
      "ch_out (cchans cw' (csock cw)) = ch_out (cchans cw (csock cw)) @ [Ctl (Validate_req req)]"
      "if login_code w req base auth = RESP_UVS_PASS
       then ret = 1 \<and> cl_session_id (client cw') = take 31 (buf_string (va_session_id r))
         \<and> cl_pwd (client cw') = take 1023 (buf_string (va_pwd r))
       else if login_code w req base auth = RESP_UVS_MISSHOME
       then ret = 0 \<and> cl_session_id (client cw') = take 31 (buf_string (va_session_id r)) \<and> cl_pwd (client cw') = DEFAULT_USER_HOME
       else ret = -1 \<and> client cw' = client cw"
    using validate_client_answer [OF assms(3-6), of r] unfolding assms(7) v(3) resp_num_inj by blast
  have home: "take 1023 (buf_string (buf_strncpy (zero_bytes 1024) h 1023)) = take 1023 h" if "CHR 0x00 \<notin> set h" for h
    using zero_strncpy [OF that, of 1023 1024] by simp
  have z: "buf_string (zero_bytes 32) = []"
    by (simp add: zero_bytes_def buf_string_def)
  show ?thesis
    using v c session_id_wire z home assms(1,10) by (intro exI [of _ r] exI [of _ w'] exI [of _ ret] exI [of _ cw'])
      (auto simp: DEFAULT_USER_HOME_def sid_bytes_def split: if_splits)
qed

lemma hex_of_chars: "CHR 0x00 \<notin> set (hex_of bs)"
proof (induction bs)
  case (Cons b bs)
  have "''0123456789abcdef'' ! k \<noteq> CHR 0x00" if "k < 16" for k
    using nth_mem [of k "''0123456789abcdef''"] that by auto
  then have "''0123456789abcdef'' ! (unat b div 16) \<noteq> CHR 0x00" "''0123456789abcdef'' ! (unat b mod 16) \<noteq> CHR 0x00"
    using byte_nibbles by blast+
  then show ?case
    using Cons by (metis hex_of.simps(2) set_ConsD)
qed simp

definition login_env :: env where
  "login_env = small_env\<lparr>users_db := (\<lambda>_ sql. Some ([''uid'', ''name'', ''passwd_md5'', ''home_dir''],
     [[Some ''1'', Some ''ann'', Some (passwd_digest ''pw''), Some ''/'']]))\<rparr>"

theorem login_end_to_end_witness:
  "\<exists>r w' cw'. validate_user_info login_env 0 (make_validate_req (client idle_client) (passwd_digest ''pw'')) one_client = Inr (0, w')
     \<and> validate_user_base_info \<lparr>cjunk = replicate 64 0, cfuel = 0\<rparr> (set_events 5 [Msg (Ctl (Validate_resp r))] idle_client) = Inr (1, cw')
     \<and> cl_session_id (client cw') = cs_session_id (sessions (server w') ! 0)"
proof -
  let ?req = "make_validate_req (client idle_client) (passwd_digest ''pw'')"
  have l: "length (passwd_digest ''pw'') = 32" "CHR 0x00 \<notin> set (passwd_digest ''pw'')"
    using hex_of_chars by (simp_all add: passwd_digest_def)
  have n: "buf_string (vq_name ?req) = ''ann''" "buf_string (vq_passwd_md5 ?req) = passwd_digest ''pw''"
    using zero_strncpy [of "''ann''" 31 32] zero_strncpy [OF l(2), of 33 33] l(1) by (simp_all add: make_validate_req_def idle_client_def Let_def)
  have a: "atoi ''1'' = 1"
    by code_simp
  have r: "user_row (users_db login_env f) ''ann'' =
      Inr (Some [(''uid'', Some ''1''), (''name'', Some ''ann''), (''passwd_md5'', Some (passwd_digest ''pw'')), (''home_dir'', Some ''/'')])" for f
    by (simp add: user_row_def login_env_def db_select_def select_user_def quoted_def)
  have u: "find_user_base_by_name (users_db login_env f) ''ann'' =
      Inr (Some \<lparr>ub_uid = 1, ub_name = ''ann'', ub_home_dir = ''/'', ub_create_time = 0, ub_update_time = 0\<rparr>)"
    "find_user_auth_by_name (users_db login_env f) ''ann'' = Inr (Some \<lparr>ua_name = ''ann'', ua_passwd_md5 = passwd_digest ''pw''\<rparr>)" for f
    using l(1) a by (simp_all add: find_user_base_by_name_def find_user_auth_by_name_def r read_user_def read_auth_def read_home_def read_times_def
        copy_field_def)
  have code: "login_code one_client ?req (Some \<lparr>ub_uid = 1, ub_name = ''ann'', ub_home_dir = ''/'', ub_create_time = 0, ub_update_time = 0\<rparr>)
      (Some \<lparr>ua_name = ''ann'', ua_passwd_md5 = passwd_digest ''pw''\<rparr>) = RESP_UVS_PASS"
    by (simp add: login_code_def n one_client_props(5,6), simp add: make_validate_req_def idle_client_def check_version_def Let_def)
      (simp add: file_existed_def lstat_mode_def small_fs_def resolve_def)
  have h: "0 < length (sessions (server one_client))" "ch_send_ok (chans one_client (main_sock_of 0 one_client))" "csock idle_client \<noteq> -1"
      "ch_send_ok (cchans idle_client (csock idle_client))" "cl_password (client idle_client) = Some ''pw''"
      "length (cjunk \<lparr>cjunk = replicate 64 0, cfuel = 0\<rparr>) = 64"
    by (simp_all add: one_client_props(1,4) idle_client_props quiet_def) (simp add: idle_client_def)
  have nul: "\<forall>ub. Some \<lparr>ub_uid = 1, ub_name = ''ann'', ub_home_dir = ''/'', ub_create_time = 0, ub_update_time = 0\<rparr> = Some ub
      \<longrightarrow> CHR 0x00 \<notin> set (ub_home_dir ub)"
    by simp
  from login_end_to_end [OF h refl, of login_env, unfolded n(1), OF u nul] show ?thesis
    unfolding code idle_client_props(1) simp_thms if_True by blast
qed

section \<open>Writing to another user\<close>

lemma concat_split_out:
  assumes "i < length vs" "j < length vs" "distinct (concat (map f vs))" "f (vs ! i) = x # T" "y \<in> set (if j = i then T else f (vs ! j))"
  shows "y \<noteq> x"
proof -
  have c: "concat (map f vs) = concat (map f (take i vs)) @ (x # T) @ concat (map f (drop (Suc i) vs))"
    using arg_cong [OF id_take_nth_drop [OF assms(1)], of "\<lambda>x. concat (map f x)"] assms(4) by simp
  consider "j = i" | "j < i" | "i < j"
    by linarith
  then show ?thesis
  proof cases
    case 2
    then have "vs ! j \<in> set (take i vs)"
      using assms(1,2) by (auto simp: in_set_conv_nth)
    then show ?thesis
      using 2 assms(3,5) unfolding c by auto
  next
    case 3
    then have "vs ! j \<in> set (drop (Suc i) vs)"
      using assms(2) by (auto simp: in_set_conv_nth intro!: exI [of _ "j - Suc i"])
    then show ?thesis
      using 3 assms(3,5) unfolding c by auto
  qed (use assms(3,5) c in auto)
qed

lemma task_sock_not_main:
  assumes "server_ok w" "i < length (sessions (server w))" "client_connected (sessions (server w) ! i)"
    and "j < length (sessions (server w))" "client_connected (sessions (server w) ! j)"
    and "cs_task_conns (sessions (server w) ! j) = Some t" "k < length t"
  shows "conn_sock (t ! k) \<noteq> main_sock_of i w"
proof -
  let ?vs = "map sview (sessions (server w))"
  have d: "distinct (concat (map vsocks ?vs))"
    using assms(1) by (simp add: server_ok_def view_ok_def view_def)
  define T where "T = (case cs_task_conns (sessions (server w) ! i) of None \<Rightarrow> [] | Some t \<Rightarrow> map conn_sock t)"
  have i: "vsocks (?vs ! i) = main_sock_of i w # T"
    using assms(2,3) by (auto simp: sview_def main_sock_of_def T_def split: option.split)
  have "conn_sock (t ! k) \<in> set (if j = i then T else vsocks (?vs ! j))"
    using assms(4-7) by (auto simp: sview_def T_def)
  then show ?thesis
    using concat_split_out [of i ?vs j vsocks, OF _ _ d i] assms(2,4) by simp
qed

lemma take_peer_Some:
  assumes "take_peer c u w = Inr (Inr (j, k, u1), w1)"
  obtains t where "j < length (sessions (server w))" "client_connected (sessions (server w) ! j)"
    "cs_task_conns (sessions (server w) ! j) = Some t" "k < length t" "peer_sock j k w1 = conn_sock (t ! k)" "chans w1 = chans w"
    "main_sock_of i w1 = main_sock_of i w"
proof -
  let ?ss = "sessions (server w)"
  obtain ss where g: "get_peer_task_conn_by_user u1 ?ss = Inr (Some (j, k), ss)" "w1 = upd_sessions (\<lambda>_. ss) w"
    using assms by (auto simp: take_peer_def Let_def split: prod.splits if_splits option.splits)
  then have f: "find_client_session_by_id (lu_session_id u1) ?ss = Some j"
    by (auto simp: get_peer_task_conn_by_user_def split: option.splits)
  then have j: "j < length ?ss" "client_connected (?ss ! j)"
    by (auto simp: find_client_session_by_id_def first_index_Some)
  obtain t where t: "cs_task_conns (?ss ! j) = Some t" "k < length t"
      "ss = ?ss[j := upd_conn (Task_conn k) (\<lambda>c. c\<lparr>is_using := True\<rparr>) (?ss ! j)]"
    using g(1) f by (auto simp: get_peer_task_conn_by_user_def get_peer_task_conn_by_session_def first_index_Some split: option.splits if_splits)
  have "peer_sock j k w1 = conn_sock (t ! k)" "main_sock_of i w1 = main_sock_of i w" "chans w1 = chans w"
    using j t by (simp_all add: g(2) peer_sock_def main_sock_of_def upd_sessions_def upd_task_conns_def nth_list_update)
  then show ?thesis
    using that j t(1,2) by blast
qed

text \<open>The request that \<^verbatim>\<open>write\<close> sends.\<close>

definition write_req_of :: "logged_in_user \<Rightarrow> string \<Rightarrow> write_req" where
  "write_req_of u text =
     (let message = buf_strncpy (zero_bytes 4096) text 4095 in
      \<lparr>wq_user = u, wq_len = of_nat (length (buf_string message)), wq_message = message\<rparr>)"

text \<open>
  C13: \<^verbatim>\<open>write\<close> end to end: the message reaches the other user, who sees up to 4095 characters of it, but the
  server sends nothing to the user who wrote it, and the command, which waits for an answer, never returns, or fails
  on a socket that does not block.
\<close>

theorem write_end_to_end:
  assumes "server_ok w" "i < length (sessions (server w))" "client_connected (sessions (server w) ! i)"
    and "take_peer RESP_CNT_GET_PEER u w = Inr (Inr (j, k, u1), w1)" "ch_send_ok (chans w (peer_sock j k w1))"
    and "csock cw \<noteq> -1" "ch_send_ok (cchans cw (csock cw))" "ch_in (cchans cw (csock cw)) = []"
    and "0 \<le> atoi no" "nat (atoi no) < length (cl_friends (client cw))" "cl_friends (client cw) ! nat (atoi no) = u"
    and "CHR 0x00 \<notin> set text"
  shows "\<exists>w'. handle_write_req i (write_req_of u text) w = Inr (0, w')
    \<and> ch_out (chans w' (peer_sock j k w1)) = ch_out (chans w (peer_sock j k w1)) @ [Ctl (Write_req ((write_req_of u text)\<lparr>wq_user := u1\<rparr>))]
    \<and> peer_dispatch pe n (Ctl (Write_req ((write_req_of u text)\<lparr>wq_user := u1\<rparr>))) pw = Inr (cprint (take 4095 text) pw)
    \<and> chans w' (main_sock_of i w) = chans w (main_sock_of i w)
    \<and> sftt_client_write_handler [no, text] cw =
        (if nonblocking (csock cw) cw then Inr (-1, snd (csend (csock cw) (Ctl (Write_req (write_req_of u text))) cw)) else Inl No_return)"
proof -
  obtain t where t: "j < length (sessions (server w))" "client_connected (sessions (server w) ! j)"
      "cs_task_conns (sessions (server w) ! j) = Some t" "k < length t" "peer_sock j k w1 = conn_sock (t ! k)" "chans w1 = chans w"
    using take_peer_Some [OF assms(4)] by metis
  let ?m = "Ctl (Write_req ((write_req_of u text)\<lparr>wq_user := u1\<rparr>))" and ?fd = "peer_sock j k w1"
  have ne: "?fd \<noteq> main_sock_of i w"
    using task_sock_not_main [OF assms(1-3) t(1-4)] t(5) by simp
  define w2 where "w2 = release_peer j k (set_chan ?fd ((chans w ?fd)\<lparr>ch_out := ch_out (chans w ?fd) @ [?m]\<rparr>) w1)"
  have "handle_write_req i (write_req_of u text) w = Inr (0, w2)"
    using assms(4,5) t(6) by (simp add: handle_write_req_def write_req_of_def Let_def send_msg_def ch_send_def w2_def)
  moreover have "chans w2 = (chans w)(?fd := (chans w ?fd)\<lparr>ch_out := ch_out (chans w ?fd) @ [?m]\<rparr>)"
    using t(6) by (simp add: w2_def release_peer_def upd_sessions_def)
  moreover have "buf_string (wq_message (write_req_of u text)) = take 4095 text"
    using zero_strncpy [OF assms(12), of 4095 4096] by (simp add: write_req_of_def Let_def)
  moreover have "sftt_client_write_handler [no, text] cw =
      (if nonblocking (csock cw) cw then Inr (-1, snd (csend (csock cw) (Ctl (Write_req (write_req_of u text))) cw)) else Inl No_return)"
    using assms(6-11) by (auto simp: sftt_client_write_handler_def find_logged_in_user_def Let_def ask_on_def csend_def ch_send_def
        crecv_def cset_chan_def csock_def nonblocking_def write_req_of_def)
  ultimately show ?thesis
    using ne by (intro exI [of _ w2]) simp
qed

definition friend_client :: cworld where
  "friend_client = idle_client\<lparr>client := (client idle_client)\<lparr>cl_friends := [zero_user]\<rparr>\<rparr>"

theorem write_end_to_end_witness:
  "\<exists>w'. handle_write_req 0 (write_req_of zero_user ''hello'') fwd_world = Inr (0, w')
     \<and> sftt_client_write_handler [''0'', ''hello''] friend_client = Inl No_return"
proof -
  have sid: "buf_string (lu_session_id zero_user) = []"
    by (simp add: zero_user_def zero_bytes_def buf_string_def)
  have at: "atoi ''0'' = 0"
    by code_simp
  have v: "view fwd_world = view two_tasks"
    by (simp add: fwd_world_def)
  then have ok: "server_ok fwd_world"
    by (simp add: server_ok_def two_tasks_conns view_ok_def MAX_CLIENT_NUM_def entry_ok_def list_all_iff)
  let ?u = "zero_user\<lparr>lu_ip := buf_strncpy (lu_ip zero_user) ''10.0.0.9'' 16\<rparr>"
  let ?s = "upd_conn (Task_conn 0) (\<lambda>c. c\<lparr>is_using := True\<rparr>) fwd_session"
  let ?w1 = "upd_sessions (\<lambda>_. ?s # replicate 31 init_client_session) fwd_world"
  have p: "take_peer RESP_CNT_GET_PEER zero_user fwd_world = Inr (Inr (0, 0, ?u), ?w1)"
    using sid by (simp add: take_peer_def check_user_def fwd_world_def fwd_session_props
        get_peer_task_conn_by_user_def find_client_session_by_id_def get_peer_task_conn_by_session_def task_conn_def zero_conn_def
        Let_def del: upd_conn.simps)
  have q: "peer_sock 0 0 ?w1 = 8"
    by (simp add: peer_sock_def upd_sessions_def upd_task_conns_def fwd_session_props task_conn_def)
  have s: "ch_send_ok (chans fwd_world (peer_sock 0 0 ?w1))"
    unfolding q by (simp add: fwd_world_def)
  have "\<exists>w'. handle_write_req 0 (write_req_of zero_user ''hello'') fwd_world = Inr (0, w')
    \<and> ch_out (chans w' (peer_sock 0 0 ?w1)) = ch_out (chans fwd_world (peer_sock 0 0 ?w1))
        @ [Ctl (Write_req ((write_req_of zero_user ''hello'')\<lparr>wq_user := ?u\<rparr>))]
    \<and> peer_dispatch \<lparr>cjunk = [], cfuel = 0\<rparr> 0 (Ctl (Write_req ((write_req_of zero_user ''hello'')\<lparr>wq_user := ?u\<rparr>))) idle_client
        = Inr (cprint (take 4095 ''hello'') idle_client)
    \<and> chans w' (main_sock_of 0 fwd_world) = chans fwd_world (main_sock_of 0 fwd_world)
    \<and> sftt_client_write_handler [''0'', ''hello''] friend_client =
        (if nonblocking (csock friend_client) friend_client
         then Inr (-1, snd (csend (csock friend_client) (Ctl (Write_req (write_req_of zero_user ''hello''))) friend_client)) else Inl No_return)"
    by (rule write_end_to_end [OF ok _ _ p s])
      (simp_all add: at, simp_all add: friend_client_def idle_client_def csock_def quiet_def fwd_world_def fwd_session_props)
  moreover have "\<not> nonblocking fd friend_client" for fd
    using idle_client_props(4) [of fd] by (simp add: friend_client_def nonblocking_def)
  ultimately show ?thesis
    by auto
qed

section \<open>Uploads from the command line\<close>

text \<open>A path that the parser of commands takes as one argument without quotes.\<close>

definition one_word :: "string \<Rightarrow> bool" where
  "one_word p \<longleftrightarrow> p \<noteq> [] \<and> length p < 900 \<and> list_all (\<lambda>c. \<not> isspace c \<and> c \<noteq> CHR 0x27 \<and> c \<noteq> CHR 0x22) p"

lemma parse_one_word:
  assumes "one_word p" "name \<noteq> []" "list_all (\<lambda>c. \<not> isspace c) name" "length name < EXEC_NAME_MAX_LEN"
  shows "parse_command (name @ '' '' @ p) = Inr (Some \<lparr>cmd_name = Some name, cmd_argv = [p]\<rparr>)"
proof -
  have len: "length p < CMD_ARG_MAX_LEN" "p \<noteq> []"
    using assms(1) by (simp_all add: one_word_def CMD_ARG_MAX_LEN_def)
  have "parse_exec_name (name @ CHR '' '' # p) = (Some name, CHR '' '' # p)"
    by (rule exec_name_word [OF assms(2-4)]) (simp add: isspace_def)
  moreover have "args_loop INIT [] [] (CHR '' '' # p) = args_loop INIT p [] []"
    using args_loop_plain [of p "[]" "[]" "[]"] assms(1) len(1) by (simp add: isspace_def one_word_def)
  ultimately show ?thesis
    using len by (simp add: parse_command_def check_command_format_def parse_args_def)
qed

lemma run_one_word:
  assumes "one_word p" "length name < 32"
  shows "run_command e \<lparr>cmd_name = Some name, cmd_argv = [p]\<rparr> v =
    (case sftt_client_cmds e name of None \<Rightarrow> Inr (0, v) | Some fn \<Rightarrow> fn [p] v)"
proof -
  have "show_int 1 = ''1''"
    by code_simp
  then show ?thesis
    using assms by (simp add: run_command_def cmd_log_text_def one_word_def split: option.split)
qed

text \<open>A command of one word that is not run by the server, when no reconnection is pending.\<close>

lemma execute_one_word:
  assumes "one_word p" "name \<in> {''cd'', ''put''}" "\<not> cl_need_reconnect (client w)"
  shows "execute_cmd e (name @ '' '' @ p) w = (case sftt_client_cmds e name of None \<Rightarrow> Inr (0, w) | Some fn \<Rightarrow> fn [p] w)"
proof -
  have n: "name \<noteq> []" "list_all (\<lambda>c. \<not> isspace c) name" "length name < EXEC_NAME_MAX_LEN" "length name < 32" "\<not> among_directcmds name"
    using assms(2) by (auto simp: isspace_def EXEC_NAME_MAX_LEN_def among_directcmds_def directcmds_def)
  have u: "upd_client (\<lambda>c. c\<lparr>cl_need_reconnect := False\<rparr>) w = w"
    using assms(3) by (cases w) simp
  show ?thesis
    using parse_one_word [OF assms(1) n(1-3)] n(5) assms(3)
    unfolding execute_cmd_def Let_def by (simp add: u run_one_word [OF assms(1) n(4)])
qed

text \<open>The client after it has asked for a change of directory and got an answer.\<close>

definition after_cd :: "string \<Rightarrow> cd_resp \<Rightarrow> event list \<Rightarrow> cworld \<Rightarrow> cworld" where
  "after_cd p r es w =
     (let fd = csock w; cn = cchans w fd;
          w1 = cset_chan fd (cn\<lparr>ch_out := ch_out cn @ [Ctl (Cd_req (sid_bytes w) (buf_strncpy (zero_bytes 1024) p 1024))], ch_in := es\<rparr>) w
      in if sr_status r \<noteq> resp_num RESP_OK then w1
         else upd_client (\<lambda>c. c\<lparr>cl_pwd := take 1023 (buf_string (cp_pwd r))\<rparr>) (cprint (''pwd change to: '' @ buf_string (cp_pwd r)) w1))"

lemma cd_answer:
  assumes "p \<noteq> []" "csock w \<noteq> -1" "ch_send_ok (cchans w (csock w))" "ch_in (cchans w (csock w)) = Msg (Ctl (Cd_resp r)) # es"
  shows "sftt_client_cd_handler [p] w = Inr (if sr_status r \<noteq> resp_num RESP_OK then -1 else 0, after_cd p r es w)"
  using assms by (simp add: sftt_client_cd_handler_def ask_on_def csend_def crecv_def ch_send_def ch_recv_def cset_chan_def after_cd_def Let_def)

text \<open>
  C21: an upload from the command line fails without sending the file. For a source and a destination that are words
  without blanks and quotes, a connection on which sending works, and a server that answers the change of directory, be it
  with success or failure: \<^verbatim>\<open>do_trans\<close> runs \<^verbatim>\<open>put\<close> with the source only, while \<^verbatim>\<open>put\<close> demands a target too, so the
  result is -1, the request to change the directory is all that was sent on any connection, and no file has changed.
\<close>

theorem upload_fails:
  assumes "tr_type tr = TRANS_PUT" "one_word (tr_src tr)" "one_word (tr_dest tr)" "\<not> cl_need_reconnect (client w)"
    and "csock w \<noteq> -1" "ch_send_ok (cchans w (csock w))" "ch_in (cchans w (csock w)) = Msg (Ctl (Cd_resp r)) # es"
  shows "\<exists>w'. do_trans e tr w = Inr (-1, w') \<and> cfs w' = cfs w \<and> cchans w' = (cchans w)(csock w := (cchans w (csock w))
    \<lparr>ch_out := ch_out (cchans w (csock w)) @ [Ctl (Cd_req (sid_bytes w) (buf_strncpy (zero_bytes 1024) (tr_dest tr) 1024))], ch_in := es\<rparr>)"
proof -
  have t: "take 1023 (''put '' @ tr_src tr) = ''put'' @ '' '' @ tr_src tr" "take 1023 (''cd '' @ tr_dest tr) = ''cd'' @ '' '' @ tr_dest tr"
    "tr_dest tr \<noteq> []"
    using assms(2,3) by (simp_all add: one_word_def)
  let ?w1 = "after_cd (tr_dest tr) r es w"
  have w1: "\<not> cl_need_reconnect (client ?w1)" "cfs ?w1 = cfs w" "cchans ?w1 = (cchans w)(csock w := (cchans w (csock w))
    \<lparr>ch_out := ch_out (cchans w (csock w)) @ [Ctl (Cd_req (sid_bytes w) (buf_strncpy (zero_bytes 1024) (tr_dest tr) 1024))], ch_in := es\<rparr>)"
    using assms(4) by (simp_all add: after_cd_def cset_chan_def cprint_def Let_def)
  have "execute_cmd e (''cd'' @ '' '' @ tr_dest tr) w = Inr (if sr_status r \<noteq> resp_num RESP_OK then -1 else 0, ?w1)"
    using execute_one_word [OF assms(3) _ assms(4), of "''cd''" e] cd_answer [OF t(3) assms(5-7)] by (simp add: sftt_client_cmds_def)
  moreover have "execute_cmd e (''put'' @ '' '' @ tr_src tr) ?w1 = Inr (-1, ?w1)"
    using execute_one_word [OF assms(2) _ w1(1), of "''put''" e] by (simp add: sftt_client_cmds_def sftt_client_put_handler_def)
  ultimately have "do_trans e tr w = Inr (-1, ?w1)"
    unfolding do_trans_def t using assms(1) by simp
  then show ?thesis
    using w1(2,3) by blast
qed

theorem upload_fails_witness:
  "\<exists>w'. do_trans \<lparr>cjunk = [], cfuel = 0\<rparr> \<lparr>tr_type = TRANS_PUT, tr_src = ''a.txt'', tr_dest = ''/tmp''\<rparr>
       (set_events 5 [Msg (Ctl (Cd_resp zero_cd_resp))] idle_client) = Inr (-1, w')
     \<and> sr_status zero_cd_resp = resp_num RESP_OK \<and> length (ch_out (cchans w' 5)) = 1"
proof -
  let ?w = "set_events 5 [Msg (Ctl (Cd_resp zero_cd_resp))] idle_client"
  have w: "csock ?w = 5" "cchans ?w 5 = quiet\<lparr>ch_in := [Msg (Ctl (Cd_resp zero_cd_resp))]\<rparr>"
    "\<not> cl_need_reconnect (client ?w)"
    by (simp_all add: set_events_def cset_chan_def idle_client_def csock_def)
  have p: "one_word ''a.txt''" "one_word ''/tmp''"
    by (simp_all add: one_word_def isspace_def)
  have "\<exists>w'. do_trans \<lparr>cjunk = [], cfuel = 0\<rparr> \<lparr>tr_type = TRANS_PUT, tr_src = ''a.txt'', tr_dest = ''/tmp''\<rparr> ?w = Inr (-1, w')
      \<and> cfs w' = cfs ?w \<and> cchans w' = (cchans ?w)(csock ?w := (cchans ?w (csock ?w))
    \<lparr>ch_out := ch_out (cchans ?w (csock ?w)) @ [Ctl (Cd_req (sid_bytes ?w) (buf_strncpy (zero_bytes 1024)
        (tr_dest \<lparr>tr_type = TRANS_PUT, tr_src = ''a.txt'', tr_dest = ''/tmp''\<rparr>) 1024))], ch_in := []\<rparr>)"
    by (rule upload_fails [OF _ _ _ w(3)]) (simp_all add: p w(1,2) quiet_def)
  then obtain w' where w': "do_trans \<lparr>cjunk = [], cfuel = 0\<rparr> \<lparr>tr_type = TRANS_PUT, tr_src = ''a.txt'', tr_dest = ''/tmp''\<rparr> ?w = Inr (-1, w')"
    "cchans w' 5 = (cchans ?w 5)\<lparr>ch_out := ch_out (cchans ?w 5) @ [Ctl (Cd_req (sid_bytes ?w) (buf_strncpy (zero_bytes 1024) ''/tmp'' 1024))], ch_in := []\<rparr>"
    unfolding w(1) by auto
  moreover have "sr_status zero_cd_resp = resp_num RESP_OK"
    by (simp add: zero_cd_resp_def)
  ultimately show ?thesis
    by (intro exI [of _ w']) (simp add: w(2) quiet_def)
qed

end
