(* ===== verification/Sftt_Client_Inv.thy ===== *)
theory Sftt_Client_Inv
  imports Sftt_Typed Sftt_End_To_End
begin

text \<open>
  The state of the client over its life. \<open>client_step\<close> is what can happen to it: commands, rounds of its threads and
  arrivals; \<open>client_ok\<close> is the invariant that starting establishes and every step keeps.
\<close>

section \<open>The invariant\<close>

text \<open>
  All connections are well typed, so are the users the client remembers, there are at most
  \<^verbatim>\<open>CLIENT_MAX_TASK_CONN\<close> task connections, and connections have the type of their place.
\<close>

definition conns_ok :: "sftt_client \<Rightarrow> bool" where
  "conns_ok c \<longleftrightarrow> length (cl_task_conns c) \<le> CLIENT_MAX_TASK_CONN \<and> list_all (\<lambda>k. conn_type k = CONN_TYPE_TASK) (cl_task_conns c)
     \<and> conn_type (cl_main_conn c) = CONN_TYPE_CTRL"

definition client_ok :: "cworld \<Rightarrow> bool" where
  "client_ok w \<longleftrightarrow> (\<forall>fd. chan_ok (cchans w fd)) \<and> list_all user_ok (cl_friends (client w)) \<and> conns_ok (client w)"

definition keeps :: "c_fault + 'a \<times> cworld \<Rightarrow> bool" where
  "keeps r \<longleftrightarrow> yields r (\<lambda>x. client_ok (snd x))"

lemma keeps_simps [simp]: "keeps (Inl flt)" "keeps (Inr x) \<longleftrightarrow> client_ok (snd x)"
  by (simp_all add: keeps_def)

lemma keeps_then: "keeps m \<Longrightarrow> (\<And>x. client_ok (snd x) \<Longrightarrow> keeps (f x)) \<Longrightarrow> keeps (sbind m f)"
  by (auto simp: keeps_def yields_def)

lemma keeps_any: "(\<And>x. keeps (f x)) \<Longrightarrow> keeps (sbind m f)"
  by (auto simp: keeps_def yields_def)

lemma client_ok_upd [simp]:
  "client_ok (w\<lparr>printed := p\<rparr>) = client_ok w" "client_ok (w\<lparr>cfs := f\<rparr>) = client_ok w" "client_ok (w\<lparr>direct := b\<rparr>) = client_ok w"
  "client_ok (w\<lparr>cclosed := cs\<rparr>) = client_ok w" "client_ok (cprint s w) = client_ok w" "client_ok (w\<lparr>cnonblock := cs\<rparr>) = client_ok w"
  by (simp_all add: client_ok_def cprint_def)

lemma client_ok_set_chan: "client_ok w \<Longrightarrow> chan_ok cn \<Longrightarrow> client_ok (cset_chan fd cn w)"
  by (simp add: client_ok_def cset_chan_def)

lemma client_ok_client [simp]:
  "client_ok (w\<lparr>client := c\<rparr>) \<longleftrightarrow> (\<forall>fd. chan_ok (cchans w fd)) \<and> list_all user_ok (cl_friends c) \<and> conns_ok c"
  by (simp add: client_ok_def)

lemma ok_parts:
  "client_ok w \<Longrightarrow> chan_ok (cchans w fd)" "client_ok w \<Longrightarrow> list_all event_ok (ch_in (cchans w fd))"
  "client_ok w \<Longrightarrow> list_all user_ok (cl_friends (client w))" "client_ok w \<Longrightarrow> conns_ok (client w)"
  by (simp_all add: client_ok_def chan_ok_def)

lemma conns_ok_upd [simp]:
  "conns_ok (c\<lparr>cl_friends := us\<rparr>) = conns_ok c" "conns_ok (c\<lparr>cl_pwd := p\<rparr>) = conns_ok c"
  "conns_ok (c\<lparr>cl_need_reconnect := b\<rparr>) = conns_ok c" "conns_ok (c\<lparr>cl_ver := v\<rparr>) = conns_ok c" "conns_ok (c\<lparr>cl_host := h\<rparr>) = conns_ok c"
  "conns_ok (c\<lparr>cl_uname := n\<rparr>) = conns_ok c" "conns_ok (c\<lparr>cl_password := pw\<rparr>) = conns_ok c" "conns_ok (c\<lparr>cl_uid := u\<rparr>) = conns_ok c"
  "conns_ok (c\<lparr>cl_session_id := s\<rparr>) = conns_ok c" "conns_ok c \<Longrightarrow> conns_ok (c\<lparr>cl_task_conns := []\<rparr>)"
  by (simp_all add: conns_ok_def)

lemma conns_ok_main: "conns_ok c \<Longrightarrow> conn_type x = conn_type (cl_main_conn c) \<Longrightarrow> conns_ok (c\<lparr>cl_main_conn := x\<rparr>)"
  by (simp add: conns_ok_def)

lemma csend_keeps: "client_ok w \<Longrightarrow> msg_ok m \<Longrightarrow> client_ok (snd (csend fd m w))"
  by (simp add: csend_def Let_def split_beta client_ok_set_chan ch_send_typed ok_parts)

lemma client_of [simp]: "client (cset_chan fd cn w) = client w" "client (snd (csend fd m w)) = client w" "client (cprint s w) = client w"
  "client (set_events fd es w) = client w"
  by (simp_all add: cset_chan_def csend_def Let_def split_beta cprint_def set_events_def)

text \<open>Receiving, and a request with its answer.\<close>

definition got_ok :: "cworld \<Rightarrow> msg option \<Rightarrow> cworld \<Rightarrow> bool" where
  "got_ok w m w' \<longleftrightarrow> client_ok w' \<and> client w' = client w \<and> (\<forall>x. m = Some x \<longrightarrow> msg_ok x)"

lemma crecv_keeps: "client_ok w \<Longrightarrow> yields (crecv fd w) (\<lambda>(ret, m, w'). got_ok w m w')"
  using ch_recv_msg [of "cchans w fd", OF ok_parts(1)]
  by (auto simp: crecv_def got_ok_def Let_def split_beta client_ok_set_chan ch_recv_typed ok_parts)

lemma ask_on_keeps:
  assumes "client_ok w" "ctl_ok c"
  shows "yields (ask_on fd c w) (\<lambda>(a, w'). got_ok w (case a of None \<Rightarrow> None | Some m \<Rightarrow> m) w')"
proof -
  have s: "client_ok (snd (csend fd (Ctl c) w))"
    using csend_keeps assms by simp
  show ?thesis
    using crecv_keeps [OF s, of fd] s by (auto simp: ask_on_def Let_def split_beta got_ok_def yields_def)
qed

lemma ask_then:
  assumes "client_ok w" "ctl_ok c"
    and "\<And>a w'. client_ok w' \<Longrightarrow> client w' = client w \<Longrightarrow> (\<And>m. a = Some (Some m) \<Longrightarrow> msg_ok m) \<Longrightarrow> keeps (f (a, w'))"
  shows "keeps (sbind (ask_on fd c w) f)"
  unfolding keeps_def by (rule yields_then [OF ask_on_keeps [OF assms(1,2)]]) (use assms(3) in \<open>auto simp: keeps_def got_ok_def\<close>)

lemma zero_bytes_length [simp]: "length (zero_bytes n) = n"
  by (simp add: zero_bytes_def)

lemma sid_bytes_length [simp]: "length (sid_bytes w) = 32"
  by (simp add: sid_bytes_def)

lemma zero_user_ok [simp]: "user_ok zero_user"
  by (simp add: user_ok_def zero_user_def)

lemma batch_loop_typed:
  assumes "\<And>m r. as m = Some r \<Longrightarrow> msg_ok m \<Longrightarrow> list_all Q (ents r)"
  shows "list_all event_ok es \<Longrightarrow> list_all Q (ents r) \<Longrightarrow> list_all Q acc \<Longrightarrow>
    yields (batch_loop as tot nr ents nb es r t acc) (\<lambda>(ok, acc', es'). list_all Q acc' \<and> list_all event_ok es')"
proof (induction es arbitrary: r t acc)
  case Nil
  then show ?case
    by (auto simp: batch_loop.simps [of as] Let_def list_all_iff dest: in_set_takeD)
next
  case (Cons ev es)
  have "list_all Q (acc @ take (nat (nr r)) (ents r))"
    using Cons.prems(2,3) by (auto simp: list_all_iff dest: in_set_takeD)
  then show ?case
    using Cons assms by (cases ev) (auto simp: batch_loop.simps [of as _ _ _ _ "ev # es" for ev es] Let_def split: option.split)
qed

lemma output_loop_typed:
  "list_all event_ok es \<Longrightarrow> yields (output_loop nb ret es r n t outs) (\<lambda>(ret', outs', es'). list_all event_ok es')"
proof (induction es arbitrary: ret r n t outs)
  case Nil
  then show ?case
    by (auto simp: output_loop.simps Let_def)
next
  case (Cons ev es)
  then show ?case
    by (cases ev) (auto simp: output_loop.simps [of _ _ "ev # es" for ev es] Let_def split: option.split)
qed

lemma set_events_keeps: "client_ok w \<Longrightarrow> list_all event_ok es \<Longrightarrow> client_ok (set_events fd es w)"
  unfolding set_events_def using ok_parts(1) [of w fd] by (intro client_ok_set_chan) (auto simp: chan_ok_def)

section \<open>Commands\<close>

lemma who_loop_then:
  assumes "client_ok w" "msg_ok m" "who_of m = Some r"
    and "\<And>ok us es. list_all user_ok us \<Longrightarrow> list_all event_ok es \<Longrightarrow> keeps (f (ok, us, es))"
  shows "keeps (sbind (who_loop nb (ch_in (cchans w fd)) r 0 []) f)"
proof -
  have q: "who_of m = Some r \<Longrightarrow> msg_ok m \<Longrightarrow> list_all user_ok (wh_users r)" for m r
    by (cases m rule: who_of.cases) auto
  have "list_all user_ok (wh_users r)"
    using q assms(2,3) by blast
  then show ?thesis
    unfolding keeps_def using ok_parts(2) [OF assms(1)] by (intro yields_then [OF batch_loop_typed [of who_of user_ok wh_users, OF q]])
      (use assms(4) in \<open>auto simp: keeps_def\<close>)
qed

lemma ll_loop_then:
  assumes "client_ok w" "\<And>ok ens es. list_all event_ok es \<Longrightarrow> keeps (f (ok, ens, es))"
  shows "keeps (sbind (ll_loop nb (ch_in (cchans w fd)) r 0 []) f)"
  unfolding keeps_def using ok_parts(2) [OF assms(1)] by (intro yields_then [OF batch_loop_typed [of ll_of "\<lambda>_. True" ll_entries]])
    (use assms(2) in \<open>auto simp: keeps_def list.pred_True\<close>)

lemma output_loop_then:
  assumes "client_ok w" "\<And>ret outs es. list_all event_ok es \<Longrightarrow> keeps (f (ret, outs, es))"
  shows "keeps (sbind (output_loop nb ret (ch_in (cchans w fd)) r n t []) f)"
  unfolding keeps_def using ok_parts(2) [OF assms(1)] by (intro yields_then [OF output_loop_typed]) (use assms(2) in \<open>auto simp: keeps_def\<close>)

lemma get_friend_list_keeps: "client_ok w \<Longrightarrow> keeps (get_friend_list w)"
  unfolding get_friend_list_def
  by (auto intro!: ask_then who_loop_then simp: ok_parts set_events_keeps split: option.split)

lemma find_user_keeps:
  assumes "client_ok w"
  shows "yields (find_logged_in_user n w) (\<lambda>(u, w'). client_ok w' \<and> (\<forall>x. u = Some x \<longrightarrow> user_ok x))"
proof -
  have "keeps (if cl_friends (client w) = [] then get_friend_list w else Inr (0, w))"
    using get_friend_list_keeps assms by simp
  then show ?thesis
    unfolding find_logged_in_user_def keeps_def
    by (rule yields_then) (use ok_parts(3) in \<open>auto simp: Let_def list_all_length\<close>)
qed

lemma find_user_then:
  assumes "client_ok w" "\<And>u w'. client_ok w' \<Longrightarrow> (\<And>x. u = Some x \<Longrightarrow> user_ok x) \<Longrightarrow> keeps (f (u, w'))"
  shows "keeps (sbind (find_logged_in_user n w) f)"
  unfolding keeps_def by (rule yields_then [OF find_user_keeps [OF assms(1)]]) (use assms(2) in \<open>auto simp: keeps_def\<close>)

lemma peer_arg_then:
  assumes "client_ok w" "\<And>u w'. client_ok w' \<Longrightarrow> (\<And>x. u = Some (Some x) \<Longrightarrow> user_ok x) \<Longrightarrow> keeps (f (u, w'))"
  shows "keeps (sbind (peer_arg a w) f)"
proof (cases a)
  case (Some s)
  have "sbind (peer_arg a w) f = sbind (find_logged_in_user (atoi s) w) (\<lambda>(u, w1). f (case u of None \<Rightarrow> None | Some u \<Rightarrow> Some (Some u), w1))"
    by (cases "find_logged_in_user (atoi s) w") (auto simp: peer_arg_def Some split_beta)
  then show ?thesis
    using assms(1) by (auto intro!: find_user_then assms(2) split: option.splits)
qed (use assms(1) in \<open>auto simp: peer_arg_def intro: assms(2)\<close>)


lemma path_req_typed [simp]:
  "length sid = 32 \<Longrightarrow> length path = 1024 \<Longrightarrow> (\<And>u. user = Some u \<Longrightarrow> user_ok u) \<Longrightarrow> path_req_ok (make_path_req sid path user)"
  by (auto simp: path_req_ok_def make_path_req_def split: option.split)

lemma ll_request_keeps: "client_ok w \<Longrightarrow> (\<And>u. user = Some u \<Longrightarrow> user_ok u) \<Longrightarrow> keeps (ll_request user path w)"
  unfolding ll_request_def by (auto intro!: ask_then ll_loop_then set_events_keeps simp: Let_def split: option.split)

lemma ll_keeps: "client_ok w \<Longrightarrow> keeps (sftt_client_ll_handler argv w)"
  by (auto simp: sftt_client_ll_handler_def intro!: ll_request_keeps peer_arg_then split: list.split option.split)

lemma cd_keeps: "client_ok w \<Longrightarrow> keeps (sftt_client_cd_handler argv w)"
  by (auto simp: sftt_client_cd_handler_def ok_parts intro!: ask_then split: option.split msg.split ctl.split)

lemma pwd_keeps: "client_ok w \<Longrightarrow> keeps (sftt_client_pwd_handler argv w)"
  by (auto simp: sftt_client_pwd_handler_def intro!: ask_then split: option.split msg.split ctl.split)

lemma mps_keeps: "client_ok w \<Longrightarrow> keeps (sftt_client_mps_handler argv w)"
  by (auto simp: sftt_client_mps_handler_def intro!: ask_then split: option.split msg.split ctl.split)

lemma who_keeps: "client_ok w \<Longrightarrow> keeps (sftt_client_who_handler argv w)"
  unfolding sftt_client_who_handler_def
  by (rule keeps_then [OF get_friend_list_keeps]) (auto simp: ok_parts Let_def split_beta)

lemma write_keeps: "client_ok w \<Longrightarrow> keeps (sftt_client_write_handler argv w)"
  by (auto simp: sftt_client_write_handler_def Let_def intro!: find_user_then ask_then split: option.split msg.split ctl.split)

lemma directcmd_keeps: "client_ok w \<Longrightarrow> keeps (execute_directcmd buf w)"
  by (auto simp: execute_directcmd_def Let_def intro!: ask_then output_loop_then set_events_keeps split: option.split)

lemma recv_files_then:
  assumes "client_ok w" "head_ok com" "\<And>ret f cn. chan_ok cn \<Longrightarrow> keeps (g (ret, f, cn))"
  shows "keeps (sbind (recv_files_from_get_resp junk com path fl (cchans w fd)) g)"
  unfolding keeps_def by (rule yields_then [OF recv_files_get_typed [OF ok_parts(1) [OF assms(1)] assms(2)]])
    (use assms(3) in \<open>auto simp: keeps_def\<close>)

lemma zero_status_ok [simp]: "head_ok zero_status_resp"
  by (simp add: head_ok_def zero_status_resp_def RESP_MESSAGE_MAX_LEN_def)

lemma get_request_keeps: "client_ok w \<Longrightarrow> (\<And>u. user = Some u \<Longrightarrow> user_ok u) \<Longrightarrow> keeps (get_request e user path target w)"
  by (auto simp: get_request_def Let_def split_beta FILE_NAME_MAX_LEN_def
      intro!: csend_keeps recv_files_then client_ok_set_chan)

lemma get_keeps: "client_ok w \<Longrightarrow> keeps (sftt_client_get_handler e argv w)"
  by (auto simp: sftt_client_get_handler_def intro!: peer_arg_then get_request_keeps split: option.split)

lemma zero_put_ok [simp]: "user_ok u \<Longrightarrow> put_ok (zero_put_req\<lparr>pr_to_peer := x, pr_user := u\<rparr>)"
  by (simp add: put_ok_def zero_put_req_def zero_get_resp_def)

lemma send_files_then:
  assumes "client_ok w" "put_ok req" "\<And>ret req cn. chan_ok cn \<Longrightarrow> keeps (g (ret, req, cn))"
  shows "keeps (sbind (send_files_by_put_req junk f path target req (cchans w fd)) g)"
  unfolding keeps_def by (rule yields_then [OF send_files_put_typed [OF ok_parts(1) [OF assms(1)] assms(2)]])
    (use assms(3) in \<open>auto simp: keeps_def\<close>)

lemma keeps_copy: "(\<And>x. keeps (f x)) \<Longrightarrow> keeps (sbind (copy_field n s) f)"
  by (rule keeps_any)

lemma put_request_keeps: "client_ok w \<Longrightarrow> (\<And>u. user = Some u \<Longrightarrow> user_ok u) \<Longrightarrow> keeps (put_request e user file target w)"
  by (auto simp: put_request_def Let_def intro!: keeps_copy client_ok_set_chan send_files_then zero_put_ok split: option.split)

lemma put_keeps: "client_ok w \<Longrightarrow> keeps (sftt_client_put_handler e argv w)"
  by (auto simp: sftt_client_put_handler_def intro!: peer_arg_then put_request_keeps split: option.split)

lemma local_keeps:
  assumes "client_ok w"
  shows "keeps (sftt_client_directcmd_handler argv w)" "keeps (sftt_client_touch_handler argv w)" "keeps (sftt_client_sleep_handler argv w)"
    "keeps (sftt_client_env_handler argv w)"
  using assms by (auto simp: sftt_client_directcmd_handler_def sftt_client_touch_handler_def sftt_client_sleep_handler_def
      sftt_client_env_handler_def Let_def split_beta)

lemma run_command_keeps: "client_ok w \<Longrightarrow> keeps (run_command e cmd w)"
  by (auto simp: run_command_def sftt_client_cmds_def ll_keeps cd_keeps pwd_keeps get_keeps put_keeps mps_keeps who_keeps write_keeps
      local_keeps split: option.split)

section \<open>Connections\<close>

lemma list_all_upd: "list_all P xs \<Longrightarrow> (k < length xs \<Longrightarrow> P x) \<Longrightarrow> list_all P (xs[k := x])"
  by (cases "k < length xs") (auto simp: list_all_length nth_list_update)

lemma set_conn_keeps: "client_ok w \<Longrightarrow> (\<And>c. conn_type (f c) = conn_type c) \<Longrightarrow> client_ok (set_conn r f w)"
  by (cases r) (auto simp: set_conn_def client_ok_def conns_ok_def intro!: list_all_upd, auto simp: list_all_length)

lemma make_connect_keeps: "client_ok (snd (make_connect port w)) = client_ok w" "client (snd (make_connect port w)) = client w"
  by (auto simp: make_connect_def client_ok_def split: list.split)

lemma non_blocking_keeps:
  "client_ok (snd (make_socket_non_blocking fd w)) = client_ok w" "client (snd (make_socket_non_blocking fd w)) = client w"
  "cchans (snd (make_socket_non_blocking fd w)) = cchans w"
  by (simp_all add: make_socket_non_blocking_def)

lemma do_reconnect_keeps: "client_ok w \<Longrightarrow> client_ok (snd (do_reconnect r w))"
  by (auto simp: do_reconnect_def Let_def split_beta make_connect_keeps intro!: set_conn_keeps csend_keeps)

lemma execute_cmd_keeps: "client_ok w \<Longrightarrow> keeps (execute_cmd e buf w)"
  by (auto simp: execute_cmd_def Let_def split_beta do_reconnect_keeps ok_parts intro!: keeps_any run_command_keeps directcmd_keeps
      split: option.split)

lemma ask_on_then: "client_ok w \<Longrightarrow> ctl_ok c \<Longrightarrow>
    (\<And>a w'. client_ok w' \<Longrightarrow> client w' = client w \<Longrightarrow> keeps (f (a, w'))) \<Longrightarrow> keeps (sbind (ask_on fd c w) f)"
  by (rule ask_then) auto

lemma add_task_keeps:
  assumes "client_ok w" "length (cl_task_conns (client w)) < CLIENT_MAX_TASK_CONN"
  shows "keeps (add_task_connect launched w)"
  using assms ok_parts(3,4) [of w]
  by (auto simp: add_task_connect_def Let_def split_beta make_connect_keeps non_blocking_keeps ok_parts conns_ok_def intro!: ask_on_then
      split: option.split msg.split ctl.split)

lemma manager_keeps: "client_ok w \<Longrightarrow> yields (do_connect_manager launched w) client_ok"
  using add_task_keeps [of w launched] by (auto simp: do_connect_manager_def Let_def keeps_def yields_def)

section \<open>Requests of others\<close>

lemma ll_typed:
  "ctl_ok (Ll_resp r) \<Longrightarrow> ctl_ok (Ll_resp (set_status r code flags))" "ctl_ok (Ll_resp r) \<Longrightarrow> ctl_ok (Ll_resp (hton_ll_resp r))"
  "ctl_ok (Ll_resp zero_ll_resp)" "ctl_ok (Ll_resp (r\<lparr>ll_total := t\<rparr>)) = ctl_ok (Ll_resp r)"
  "ctl_ok (Ll_resp (r\<lparr>ll_this_nr := t\<rparr>)) = ctl_ok (Ll_resp r)"
  by (simp_all add: set_status_def hton_ll_resp_def hton_status_def head_ok_def RESP_MESSAGE_MAX_LEN_def zero_ll_resp_def
      zero_file_entry_def list_all_iff hton_file_entry_def)

lemma send_ll_typed:
  assumes "ctl_ok (Ll_resp r)"
  shows "chan_ok cn \<Longrightarrow> chan_ok (snd (snd (send_ll r code flags cn)))" "ctl_ok (Ll_resp (fst (snd (send_ll r code flags cn))))"
  using assms by (simp_all add: send_ll_def Let_def split_beta ch_send_typed ll_typed del: ctl_ok.simps)

lemma peer_entries_typed:
  "list_all (\<lambda>en. length (fe_name en) = 256) es \<Longrightarrow> list_all (\<lambda>en. length (fe_name en) = 256) (peer_entries f path ns es)
     \<and> length (peer_entries f path ns es) = length es"
  by (induction f path ns es rule: peer_entries.induct) (auto simp: peer_entry_def Let_def FILE_NAME_MAX_LEN_def)

lemma peer_batches_typed: "chan_ok cn \<Longrightarrow> ctl_ok (Ll_resp r) \<Longrightarrow> chan_ok (snd (peer_batches f path names r ret cn))"
proof (induction "length names" arbitrary: names r ret cn rule: less_induct)
  case less
  have "ctl_ok (Ll_resp (r\<lparr>ll_entries := peer_entries f path (take FILE_ENTRY_MAX_CNT names) (ll_entries r),
      ll_this_nr := of_nat (length (take FILE_ENTRY_MAX_CNT names))\<rparr>))"
    using less.prems(2) peer_entries_typed [of "ll_entries r" f path "take FILE_ENTRY_MAX_CNT names"] by (simp add: head_ok_def)
  note s = send_ll_typed [OF this]
  show ?case
    using less.prems(1) s less.hyps [of "drop FILE_ENTRY_MAX_CNT names"]
    by (subst peer_batches.simps) (simp add: Let_def split_beta FILE_ENTRY_MAX_CNT_def del: ctl_ok.simps)
qed

lemma zero_get_ok [simp]: "get_ok zero_get_resp"
  by (simp add: get_ok_def zero_get_resp_def)

lemma peer_ll_typed: "chan_ok cn \<Longrightarrow> yields (handle_peer_ll_req req f cn) (\<lambda>x. chan_ok (snd x))"
proof -
  have "ctl_ok (Ll_resp (zero_ll_resp\<lparr>ll_total := 1, ll_entries := (hd (ll_entries zero_ll_resp))\<lparr>fe_name :=
      buf_strncpy (fe_name (hd (ll_entries zero_ll_resp))) b (FILE_NAME_MAX_LEN - 1), fe_type := FILE_TYPE_FILE\<rparr>
        # tl (ll_entries zero_ll_resp)\<rparr>))" for b
    by (simp add: zero_ll_resp_def zero_file_entry_def head_ok_def RESP_MESSAGE_MAX_LEN_def FILE_NAME_MAX_LEN_def list_all_iff)
  then show "chan_ok cn \<Longrightarrow> yields (handle_peer_ll_req req f cn) (\<lambda>x. chan_ok (snd x))"
    unfolding handle_peer_ll_req_def by (auto simp: Let_def split_beta send_ll_typed(1) ll_typed peer_batches_typed
      simp del: ctl_ok.simps intro!: yields_sbindI split: option.split)
qed

lemma peer_get_typed: "chan_ok cn \<Longrightarrow> yields (handle_peer_get_req e req f cn) (\<lambda>x. chan_ok (snd x))"
  unfolding handle_peer_get_req_def
  by (auto simp: Let_def split_beta send_get_resp_typed intro!: yields_then [OF send_files_get_typed])

lemma peer_put_typed: "chan_ok cn \<Longrightarrow> yields (handle_peer_put_req e req f cn) recv_typed"
  unfolding handle_peer_put_req_def by (rule recv_files_put_typed) simp_all

lemma port_update_keeps: "client_ok w \<Longrightarrow> client_ok (snd (handle_port_update_req k p w))"
proof -
  assume w: "client_ok w"
  have n: "client_ok (upd_client (\<lambda>c. c\<lparr>cl_need_reconnect := True\<rparr>) v)" if "client_ok v" for v
    using that by (simp add: ok_parts)
  show ?thesis
    using w by (auto simp: handle_port_update_req_def Let_def split_beta non_blocking_keeps intro!: set_conn_keeps do_reconnect_keeps n)
qed

lemma peer_dispatch_keeps:
  assumes "client_ok w"
  shows "yields (peer_dispatch e k m w) client_ok"
proof -
  note ok = ok_parts(1) [OF assms]
  show ?thesis
    using assms port_update_keeps [OF assms]
    by (cases "(e, k, m, w)" rule: peer_dispatch.cases)
      (auto intro!: yields_then [OF peer_ll_typed] yields_then [OF peer_get_typed] yields_then [OF peer_put_typed] client_ok_set_chan ok)
qed

lemma task_handler_keeps:
  assumes "client_ok w"
  shows "yields (do_task_handler e k w) client_ok"
proof -
  have u: "client_ok (set_conn (Task_conn k) (\<lambda>c. c\<lparr>is_using := b\<rparr>) v)" if "client_ok v" for v b
    using that by (rule set_conn_keeps) simp
  show ?thesis
    unfolding do_task_handler_def Let_def using u [OF assms]
    by (auto simp: got_ok_def close_sock_def intro!: yields_then [OF crecv_keeps [OF u [OF assms]]] u yields_then [OF peer_dispatch_keeps]
        split: option.split)
qed

section \<open>Starting\<close>

lemma ctrl_conn_keeps: "client_ok w \<Longrightarrow> keeps (init_sftt_client_ctrl_conn port w)"
proof -
  assume w: "client_ok w"
  have c: "conns_ok (cl\<lparr>cl_main_conn := x\<rparr>)" if "conns_ok cl" "conn_type x = CONN_TYPE_CTRL" for cl x
    using that by (simp add: conns_ok_def)
  have main: "conn_type (cl_main_conn (client w)) = CONN_TYPE_CTRL"
    using ok_parts(4) [OF w] by (simp add: conns_ok_def)
  let ?w1 = "snd (make_connect (if port = -1 then SFTT_DEFAULT_PORT else port) w)"
  have w1: "client_ok ?w1"
    using w make_connect_keeps by simp
  show ?thesis
    unfolding init_sftt_client_ctrl_conn_def Let_def split_beta
    using w1 main by (auto simp: keeps_def intro!: yields_then [OF crecv_keeps] split: option.split msg.split ctl.split)
      (auto simp: got_ok_def close_sock_def make_connect_keeps set_conn_def ok_parts c)
qed

lemma enter_session_keeps: "client_ok w \<Longrightarrow> client_ok (enter_session r p w)"
  by (simp add: enter_session_def ok_parts conns_ok_main)

lemma keeps_md5: "(\<And>x. keeps (f x)) \<Longrightarrow> keeps (sbind (md5_str junk s) f)"
  by (rule keeps_any)

lemma validate_keeps: "client_ok w \<Longrightarrow> keeps (validate_user_base_info e w)"
  by (auto simp: validate_user_base_info_def make_validate_req_def Let_def enter_session_keeps
      intro!: keeps_md5 ask_on_then split: option.split msg.split ctl.split)

lemma init_keeps: "client_ok w \<Longrightarrow> keeps (init_sftt_client e host port user passwd w)"
proof -
  assume w: "client_ok w"
  have start: "client_ok (upd_client (\<lambda>c. c\<lparr>cl_ver := v, cl_host := h, cl_uname := u, cl_password := p, cl_need_reconnect := False\<rparr>) w)" for v h u p
    using w by (simp add: ok_parts)
  have friends: "client_ok (upd_client (\<lambda>c. c\<lparr>cl_task_conns := [], cl_friends := []\<rparr>) v)" if "client_ok v" for v
    using that by (simp add: ok_parts)
  have conf: "keeps (sbind (get_sftt_client_config f c) g)" if "\<And>x. keeps (g x)" for f c and g :: "_ \<Rightarrow> c_fault + int \<times> cworld"
    using that by (rule keeps_any)
  show ?thesis
    unfolding init_sftt_client_def Let_def using w
    by (auto simp: ok_parts intro!: conf start friends keeps_then [OF ctrl_conn_keeps] keeps_then [OF validate_keeps] keeps_then [OF get_friend_list_keeps]
        split: option.split)
qed

section \<open>Runs\<close>

text \<open>
  What can happen to a client: a command of the user, a round of the manager of connections, a round of the thread of
  a task connection, and an event that arrives on a socket.
\<close>

inductive client_step :: "cenv \<Rightarrow> cworld \<Rightarrow> cworld \<Rightarrow> bool" for e where
  command: "execute_cmd e buf w = Inr (ret, w') \<Longrightarrow> client_step e w w'"
| manager: "do_connect_manager launched w = Inr w' \<Longrightarrow> client_step e w w'"
| task: "k < length (cl_task_conns (client w)) \<Longrightarrow> do_task_handler e k w = Inr w' \<Longrightarrow> client_step e w w'"
| arrival: "event_ok ev \<Longrightarrow> client_step e w (set_events fd (ch_in (cchans w fd) @ [ev]) w)"

inductive client_runs :: "cenv \<Rightarrow> cworld \<Rightarrow> cworld \<Rightarrow> bool" for e where
  start: "client_runs e w w"
| step: "client_runs e w w' \<Longrightarrow> client_step e w' w'' \<Longrightarrow> client_runs e w w''"

lemma client_step_ok: "client_step e w w' \<Longrightarrow> client_ok w \<Longrightarrow> client_ok w'"
proof (induction rule: client_step.induct)
  case (command buf w ret w')
  then show ?case
    using execute_cmd_keeps [of w e buf] by (simp add: keeps_def)
next
  case (manager launched w w')
  then show ?case
    by (auto dest: yieldsD [OF manager_keeps, rotated])
next
  case (task k w w')
  then show ?case
    by (auto dest: yieldsD [OF task_handler_keeps, rotated])
next
  case (arrival ev w fd)
  then show ?case
    by (auto intro!: set_events_keeps simp: ok_parts)
qed

lemma client_runs_ok: "client_runs e w w' \<Longrightarrow> client_ok w \<Longrightarrow> client_ok w'"
  by (induction rule: client_runs.induct) (auto intro: client_step_ok)

definition fresh_client :: "cworld \<Rightarrow> bool" where
  "fresh_client w \<longleftrightarrow> (\<forall>fd. ch_out (cchans w fd) = [] \<and> list_all event_ok (ch_in (cchans w fd)))
     \<and> cl_friends (client w) = [] \<and> cl_task_conns (client w) = [] \<and> cl_main_conn (client w) = zero_conn"

lemma fresh_ok: "fresh_client w \<Longrightarrow> client_ok w"
  by (auto simp: fresh_client_def client_ok_def chan_ok_def conns_ok_def zero_conn_def)

lemma client_life_ok:
  assumes "fresh_client w0" "init_sftt_client e host port user passwd w0 = Inr (ret, w)" "client_runs e w w'"
  shows "client_ok w'"
proof -
  have "client_ok w"
    using init_keeps [OF fresh_ok [OF assms(1)]] assms(2) by (metis keeps_simps(2) snd_conv)
  then show ?thesis
    by (rule client_runs_ok [OF assms(3)])
qed

text \<open>A server that lets one user in, and a client that logs in and adds a task connection.\<close>

definition scripted :: "int \<Rightarrow> event list" where
  "scripted fd =
     (if fd = 3 then [Msg (Ctl (Channel_info_resp (zero_channel_info_resp\<lparr>cr_second_port := 40000\<rparr>)))]
      else if fd = 4
      then [Msg (Ctl (Validate_resp (zero_validate_resp\<lparr>sr_status := resp_num RESP_UVS_PASS\<rparr>))), Msg (Ctl (Who_resp zero_who_resp))]
      else if fd = 9 then [Msg (Ctl (Append_conn_resp zero_append_conn_resp))]
      else [])"

definition new_client :: cworld where
  "new_client = idle_client\<lparr>client := (client idle_client)\<lparr>cl_main_conn := zero_conn\<rparr>,
     cfs := small_fs\<lparr>nodes := (nodes small_fs)([''etc'', ''sftt'', ''sftt_client.conf''] \<mapsto> \<lparr>st_mode = 0x81A4, st_data = []\<rparr>)\<rparr>,
     cchans := (\<lambda>fd. quiet\<lparr>ch_in := scripted fd\<rparr>), csocks := [3, 4, 9]\<rparr>"

definition zero_cenv :: cenv where
  "zero_cenv = \<lparr>cjunk = replicate 64 0, cfuel = 0\<rparr>"

lemma new_client_fresh: "fresh_client new_client"
  by (simp add: fresh_client_def new_client_def quiet_def idle_client_def scripted_def zero_validate_resp_def
      zero_who_resp_def zero_append_conn_resp_def zero_channel_info_resp_def head_ok_def RESP_MESSAGE_MAX_LEN_def list_all_iff)

lemma new_client_config: "get_sftt_client_config (cfs new_client) (Some c) = Inr (0, Some c)"
proof -
  have r: "resolve (cfs new_client) ''/etc/sftt/sftt_client.conf'' = [''etc'', ''sftt'', ''sftt_client.conf'']"
    by code_simp
  have "search_config (cfs new_client) ''sftt_client.conf'' = Some ''/etc/sftt/sftt_client.conf''"
    using r by (simp add: search_config_def config_search_pathes_def file_existed_def) (simp add: new_client_def)
  moreover have "fopen_r (cfs new_client) ''/etc/sftt/sftt_client.conf'' = Some []"
    unfolding fopen_r_def r by (simp add: new_client_def small_fs_def)
  moreover have "\<not> dir_at (cfs new_client) (resolve (cfs new_client) ''/etc/sftt/sftt_client.conf'')"
    unfolding r by (simp add: dir_at_def new_client_def S_ISDIR_def)
  ultimately show ?thesis
    by (simp add: get_sftt_client_config_def config_lines.simps)
qed

lemma new_client_logs_in:
  "\<exists>w w'. init_sftt_client zero_cenv ''127.0.0.1'' 3009 ''ann'' ''pw'' new_client = Inr (0, w) \<and> do_connect_manager True w = Inr w'
     \<and> length (cl_task_conns (client w')) = 1 \<and> length (ch_out (cchans w' 4)) = 2 \<and> length (ch_out (cchans w' 9)) = 1"
proof -
  have d: "md5_str (cjunk zero_cenv) s = Inr (hex_of (md5_reference s))" for s
    by (simp add: md5_str_def md5_digest md5_printable zero_cenv_def)
  show ?thesis
    using new_client_config
    by (simp add: init_sftt_client_def this_version d Let_def init_sftt_client_ctrl_conn_def make_connect_def crecv_def ch_recv_def
      new_client_def idle_client_def scripted_def quiet_def csend_def ch_send_def cset_chan_def set_conn_def close_sock_def
      validate_user_base_info_def ask_on_def csock_def strdup_def enter_session_def get_friend_list_def batch_loop.simps set_events_def
      zero_who_resp_def zero_channel_info_resp_def zero_append_conn_resp_def zero_validate_resp_def
      do_connect_manager_def add_task_connect_def make_socket_non_blocking_def CLIENT_MAX_TASK_CONN_def)
qed
text \<open>
  C11: whatever a client sends is well typed. From the start of the client on, after any number of
  commands, rounds of its threads and arrivals of well typed messages, every message it has sent on any socket
  is a value of the struct of its packet type, so that the packet layer can encode it.
\<close>

theorem client_sends_typed:
  assumes "fresh_client w0" "init_sftt_client e host port user passwd w0 = Inr (ret, w)" "client_runs e w w'"
  shows "list_all (\<lambda>m. msg_ok m \<and> sendable (msg_packet m)) (ch_out (cchans w' fd))"
proof -
  have "list_all msg_ok (ch_out (cchans w' fd))"
    using ok_parts(1) [OF client_life_ok [OF assms]] by (simp add: chan_ok_def)
  then show ?thesis
    using msg_ok_sendable by (auto simp: list_all_iff)
qed

theorem client_sends_typed_witness:
  "\<exists>w' :: cworld. length (ch_out (cchans w' 4)) = 2 \<and> list_all (\<lambda>m. msg_ok m \<and> sendable (msg_packet m)) (ch_out (cchans w' 4))"
proof -
  obtain w w' where w: "init_sftt_client zero_cenv ''127.0.0.1'' 3009 ''ann'' ''pw'' new_client = Inr (0, w)"
      "do_connect_manager True w = Inr w'" "length (ch_out (cchans w' 4)) = 2"
    using new_client_logs_in by blast
  have "client_runs zero_cenv w w'"
    by (rule client_runs.step [OF client_runs.start client_step.manager [OF w(2)]])
  then show ?thesis
    using client_sends_typed [OF new_client_fresh w(1)] w(3) by blast
qed

text \<open>
  C12: a client never has more than five task connections, and each of them is marked as one, while its main
  connection is marked as the control connection.
\<close>

theorem task_connections_bounded:
  assumes "fresh_client w0" "init_sftt_client e host port user passwd w0 = Inr (ret, w)" "client_runs e w w'"
  shows "length (cl_task_conns (client w')) \<le> 5 \<and> (\<forall>c \<in> set (cl_task_conns (client w')). conn_type c = CONN_TYPE_TASK)
    \<and> conn_type (cl_main_conn (client w')) = CONN_TYPE_CTRL"
  using ok_parts(4) [OF client_life_ok [OF assms]] by (simp add: conns_ok_def CLIENT_MAX_TASK_CONN_def list_all_iff)

theorem task_connections_bounded_witness:
  "\<exists>w' :: cworld. length (cl_task_conns (client w')) = 1 \<and> (\<forall>c \<in> set (cl_task_conns (client w')). conn_type c = CONN_TYPE_TASK)"
proof -
  obtain w w' where w: "init_sftt_client zero_cenv ''127.0.0.1'' 3009 ''ann'' ''pw'' new_client = Inr (0, w)"
      "do_connect_manager True w = Inr w'" "length (cl_task_conns (client w')) = 1"
    using new_client_logs_in by blast
  have "client_runs zero_cenv w w'"
    by (rule client_runs.step [OF client_runs.start client_step.manager [OF w(2)]])
  then show ?thesis
    using task_connections_bounded [OF new_client_fresh w(1)] w(3) by blast
qed

end
