(* ===== verification/Sftt_Thread_Pool.thy ===== *)
theory Sftt_Thread_Pool
  imports Sftt_Prelude
begin

text \<open>
  The pool of threads (\<^verbatim>\<open>src/src/thread_pool.c\<close>): the handshake of a thread that launches functions with a worker, as
  a step relation in which both advance by one access to shared memory or to a pipe at a time, in any
  order; and the operations on the pool. A loop that repeats a call after \<^verbatim>\<open>EINTR\<close> or sleeps until a variable
  changes is a step that is not possible yet. Functions are values of a type \<open>'f\<close>, their arguments of a type \<open>'a\<close>,
  and \<open>run\<close> gives the value a function returns. One thread launches; a pipe never fails and never is full, since it holds at most one
  byte.
\<close>

section \<open>Workers\<close>

datatype thread_state_t = WAIT | RUNNING | FINISHED

text \<open>
  The members of a \<^verbatim>\<open>thread_instance\<close> with the number of bytes in each of its pipes; \<^verbatim>\<open>thread_id\<close> is \<open>None\<close> as long as
  no thread runs. \<^verbatim>\<open>thread_role\<close> is never used.
\<close>

record ('f, 'a) thread_instance =
  t_f :: "'f option"
  t_arg :: "'a option"
  t_ret :: int
  t_state :: thread_state_t
  main2worker :: nat
  worker2main :: nat
  thread_index :: int
  thread_id :: "nat option"

text \<open>
  Reading one byte from a pipe that may be empty, and writing one. What a pipe holds is never looked at.
\<close>

definition worker_thread_wait_command :: "('f, 'a) thread_instance \<Rightarrow> ('f, 'a) thread_instance option" where
  [simp]: "worker_thread_wait_command t =
     (if main2worker t = 0 then None else Some (t\<lparr>main2worker := main2worker t - 1\<rparr>))"

definition worker_thread_ack_command :: "('f, 'a) thread_instance \<Rightarrow> ('f, 'a) thread_instance" where
  [simp]: "worker_thread_ack_command t = t\<lparr>worker2main := worker2main t + 1\<rparr>"

text \<open>Where a worker is in \<^verbatim>\<open>worker_thread_loop\<close>, with the values in its variables.\<close>

datatype ('f, 'a) worker_pc =
    Wait_command
  | Set_running
  | Ack_command
  | Load_f
  | Load_arg 'f
  | Call 'f "'a option"
  | Store_ret int
  | Clear_f
  | Clear_arg
  | Set_wait

text \<open>One step; the third component has the calls that were made.\<close>

fun worker_step ::
    "('f \<Rightarrow> 'a option \<Rightarrow> int) \<Rightarrow> ('f, 'a) worker_pc \<Rightarrow> ('f, 'a) thread_instance
     \<Rightarrow> (('f, 'a) worker_pc \<times> ('f, 'a) thread_instance \<times> ('f \<times> 'a option) list) option" where
  "worker_step run Wait_command t =
     map_option (\<lambda>t. (Set_running, t, [])) (worker_thread_wait_command t)"
| "worker_step run Set_running t = Some (Ack_command, t\<lparr>t_state := RUNNING\<rparr>, [])"
| "worker_step run Ack_command t = Some (Load_f, worker_thread_ack_command t, [])"
| "worker_step run Load_f t = (case t_f t of None \<Rightarrow> None | Some f \<Rightarrow> Some (Load_arg f, t, []))"
| "worker_step run (Load_arg f) t = Some (Call f (t_arg t), t, [])"
| "worker_step run (Call f a) t = Some (Store_ret (run f a), t, [(f, a)])"
| "worker_step run (Store_ret r) t = Some (Clear_f, t\<lparr>t_ret := r\<rparr>, [])"
| "worker_step run Clear_f t = Some (Clear_arg, t\<lparr>t_f := None\<rparr>, [])"
| "worker_step run Clear_arg t = Some (Set_wait, t\<lparr>t_arg := None\<rparr>, [])"
| "worker_step run Set_wait t = Some (Wait_command, t\<lparr>t_state := WAIT\<rparr>, [])"

section \<open>Launching\<close>

text \<open>
  Where the launching thread is in \<^verbatim>\<open>launch_one_thread\<close> and \<^verbatim>\<open>wake_worker_thread\<close>; \<open>Idle\<close> is outside, with the
  result of the last call.
\<close>

datatype ('f, 'a) launch_pc =
    Idle int
  | Check 'f "'a option"
  | Set_arg 'f "'a option"
  | Set_f 'f "'a option"
  | Wake 'f "'a option"
  | Read_ack 'f "'a option"

definition EBUSY :: int where "EBUSY = 16"

text \<open>The two halves of \<^verbatim>\<open>wake_worker_thread\<close>.\<close>

definition wake_worker_write :: "('f, 'a) thread_instance \<Rightarrow> ('f, 'a) thread_instance" where
  [simp]: "wake_worker_write t = t\<lparr>main2worker := main2worker t + 1\<rparr>"

definition wake_worker_read :: "('f, 'a) thread_instance \<Rightarrow> ('f, 'a) thread_instance option" where
  [simp]: "wake_worker_read t = (if worker2main t = 0 then None else Some (t\<lparr>worker2main := worker2main t - 1\<rparr>))"

fun launch_step ::
    "('f, 'a) launch_pc \<Rightarrow> ('f, 'a) thread_instance \<Rightarrow> (('f, 'a) launch_pc \<times> ('f, 'a) thread_instance \<times> ('f \<times> 'a option) list) option" where
  "launch_step (Idle r) t = None"
| "launch_step (Check f a) t = Some (if t_state t \<noteq> WAIT then Idle (- EBUSY) else Set_arg f a, t, [])"
| "launch_step (Set_arg f a) t = Some (Set_f f a, t\<lparr>t_arg := a\<rparr>, [])"
| "launch_step (Set_f f a) t = Some (Wake f a, t\<lparr>t_f := Some f\<rparr>, [])"
| "launch_step (Wake f a) t = Some (Read_ack f a, wake_worker_write t, [])"
| "launch_step (Read_ack f a) t = map_option (\<lambda>t. (Idle 0, t, [(f, a)])) (wake_worker_read t)"

text \<open>\<^verbatim>\<open>wait_worker_thread\<close>: the value that is returned as soon as the worker waits.\<close>

definition wait_worker_thread :: "('f, 'a) thread_instance \<Rightarrow> int option" where
  "wait_worker_thread t = (if t_state t = WAIT then Some (t_ret t) else None)"

section \<open>Interleavings\<close>

text \<open>The state of a launcher and its worker, with the functions that were launched and those that were called.\<close>

record ('f, 'a) thread_run =
  shared :: "('f, 'a) thread_instance"
  worker :: "('f, 'a) worker_pc"
  launcher :: "('f, 'a) launch_pc"
  launched :: "('f \<times> 'a option) list"
  called :: "('f \<times> 'a option) list"

inductive thread_step :: "('f \<Rightarrow> 'a option \<Rightarrow> int) \<Rightarrow> ('f, 'a) thread_run \<Rightarrow> ('f, 'a) thread_run \<Rightarrow> bool" for run where
  begin_launch: "launcher s = Idle r \<Longrightarrow> thread_step run s (s\<lparr>launcher := Check f a\<rparr>)"
| launcher: "launch_step (launcher s) (shared s) = Some (l, t, new) \<Longrightarrow>
    thread_step run s (s\<lparr>launcher := l, shared := t, launched := launched s @ new\<rparr>)"
| worker: "worker_step run (worker s) (shared s) = Some (p, t, new) \<Longrightarrow>
    thread_step run s (s\<lparr>worker := p, shared := t, called := called s @ new\<rparr>)"

text \<open>
  \<^verbatim>\<open>create_worker_thread\<close>: \<open>p1\<close> and \<open>p2\<close> are the results of the two calls of \<^verbatim>\<open>pipe\<close>, \<open>created\<close> is that of
  \<^verbatim>\<open>pthread_create\<close>, 0 or the number of an error, and \<open>tid\<close> the identifier it stores when it succeeds.
\<close>

definition create_worker_thread ::
    "int \<Rightarrow> int \<Rightarrow> int \<Rightarrow> nat \<Rightarrow> ('f, 'a) thread_instance \<Rightarrow> int \<times> ('f, 'a) thread_instance" where
  "create_worker_thread p1 p2 created tid t =
     (if p1 < 0 then (-1, t)
      else let t = t\<lparr>main2worker := 0\<rparr> in
        if p2 < 0 then (-1, t)
        else let t = t\<lparr>worker2main := 0, t_state := WAIT\<rparr> in
          (created, if created = 0 then t\<lparr>thread_id := Some tid\<rparr> else t))"

text \<open>A launcher and a worker at their start.\<close>

definition new_run :: "('f, 'a) thread_instance \<Rightarrow> ('f, 'a) thread_run" where
  "new_run t = \<lparr>shared = t, worker = Wait_command, launcher = Idle 0, launched = [], called = []\<rparr>"

text \<open>The runs of a worker that was created in memory of any content.\<close>

inductive thread_reach :: "('f \<Rightarrow> 'a option \<Rightarrow> int) \<Rightarrow> ('f, 'a) thread_run \<Rightarrow> bool" for run where
  start: "create_worker_thread p1 p2 created tid t0 = (0, t) \<Longrightarrow> thread_reach run (new_run t)"
| step: "thread_reach run s \<Longrightarrow> thread_step run s s' \<Longrightarrow> thread_reach run s'"

section \<open>The handshake\<close>

text \<open>The worker after it has acknowledged the functions \<open>acc\<close>.\<close>

fun after_ack :: "('f \<Rightarrow> 'a option \<Rightarrow> int) \<Rightarrow> ('f \<times> 'a option) list \<Rightarrow> ('f, 'a) thread_run \<Rightarrow> ('f, 'a) worker_pc \<Rightarrow> bool" where
  "after_ack run acc s Wait_command \<longleftrightarrow> t_state (shared s) = WAIT \<and> called s = acc
     \<and> (acc \<noteq> [] \<longrightarrow> t_ret (shared s) = case_prod run (last acc))"
| "after_ack run acc s Set_running \<longleftrightarrow> False"
| "after_ack run acc s Ack_command \<longleftrightarrow> False"
| "after_ack run acc s Load_f \<longleftrightarrow> t_state (shared s) = RUNNING
     \<and> (\<exists>f. t_f (shared s) = Some f \<and> acc = called s @ [(f, t_arg (shared s))])"
| "after_ack run acc s (Load_arg f) \<longleftrightarrow> t_state (shared s) = RUNNING \<and> acc = called s @ [(f, t_arg (shared s))]"
| "after_ack run acc s (Call f a) \<longleftrightarrow> t_state (shared s) = RUNNING \<and> acc = called s @ [(f, a)]"
| "after_ack run acc s (Store_ret r) \<longleftrightarrow> t_state (shared s) = RUNNING \<and> acc = called s \<and> acc \<noteq> [] \<and> r = case_prod run (last acc)"
| "after_ack run acc s Clear_f \<longleftrightarrow> t_state (shared s) = RUNNING \<and> acc = called s \<and> acc \<noteq> [] \<and> t_ret (shared s) = case_prod run (last acc)"
| "after_ack run acc s p \<longleftrightarrow> t_state (shared s) = RUNNING \<and> acc = called s \<and> acc \<noteq> []
     \<and> t_ret (shared s) = case_prod run (last acc)"

definition ready :: "('f, 'a) thread_run \<Rightarrow> bool" where
  "ready s \<longleftrightarrow> worker s = Wait_command \<and> t_state (shared s) = WAIT \<and> main2worker (shared s) = 0 \<and> worker2main (shared s) = 0
     \<and> called s = launched s"

definition offered :: "'f \<Rightarrow> 'a option \<Rightarrow> ('f, 'a) thread_run \<Rightarrow> bool" where
  "offered f a s \<longleftrightarrow> t_f (shared s) = Some f \<and> t_arg (shared s) = a \<and> called s = launched s"

text \<open>The invariant, by the place of the launching thread.\<close>

fun handshake :: "('f \<Rightarrow> 'a option \<Rightarrow> int) \<Rightarrow> ('f, 'a) thread_run \<Rightarrow> ('f, 'a) launch_pc \<Rightarrow> bool" where
  "handshake run s (Set_arg f a) \<longleftrightarrow> ready s"
| "handshake run s (Set_f f a) \<longleftrightarrow> ready s \<and> t_arg (shared s) = a"
| "handshake run s (Wake f a) \<longleftrightarrow> ready s \<and> offered f a s"
| "handshake run s (Read_ack f a) \<longleftrightarrow>
     worker s = Wait_command \<and> main2worker (shared s) = 1 \<and> worker2main (shared s) = 0 \<and> offered f a s
     \<or> worker s = Set_running \<and> main2worker (shared s) = 0 \<and> worker2main (shared s) = 0 \<and> offered f a s
     \<or> worker s = Ack_command \<and> main2worker (shared s) = 0 \<and> worker2main (shared s) = 0 \<and> offered f a s \<and> t_state (shared s) = RUNNING
     \<or> main2worker (shared s) = 0 \<and> worker2main (shared s) = 1 \<and> after_ack run (launched s @ [(f, a)]) s (worker s)"
| "handshake run s l \<longleftrightarrow> main2worker (shared s) = 0 \<and> worker2main (shared s) = 0 \<and> after_ack run (launched s) s (worker s)"

lemma handshake_step:
  assumes "thread_step run s s'" "handshake run s (launcher s)"
  shows "handshake run s' (launcher s')"
  using assms
proof (induction rule: thread_step.induct)
  case (begin_launch s r f a)
  then show ?case
    by (cases "worker s") auto
next
  case (launcher s l t new)
  then show ?case
    by (cases "launcher s"; cases "worker s") (auto simp: ready_def offered_def split: if_splits)
next
  case (worker s p t new)
  then show ?case
    by (cases "launcher s"; cases "worker s") (auto simp: ready_def offered_def split: if_splits option.splits)
qed

lemma created_worker:
  assumes "create_worker_thread p1 p2 created tid t0 = (0, t)"
  shows "t_state t = WAIT" "main2worker t = 0" "worker2main t = 0" "thread_id t = Some tid"
  using assms by (auto simp: create_worker_thread_def Let_def split: if_splits)

lemma handshake_reach: "thread_reach run s \<Longrightarrow> handshake run s (launcher s)"
proof (induction rule: thread_reach.induct)
  case (start p1 p2 created tid t0 t)
  then show ?case
    by (simp add: new_run_def created_worker [OF start])
next
  case (step s s')
  then show ?case
    by (blast intro: handshake_step)
qed

text \<open>Which of the two can go on.\<close>

lemma worker_proceeds:
  assumes "handshake run s (launcher s)" "worker s \<noteq> Wait_command"
  shows "worker_step run (worker s) (shared s) \<noteq> None"
  using assms by (cases "launcher s"; cases "worker s") (auto simp: ready_def offered_def)

lemma launcher_proceeds:
  assumes "handshake run s (launcher s)" "\<And>r. launcher s \<noteq> Idle r"
  shows "launch_step (launcher s) (shared s) \<noteq> None \<or> worker_step run (worker s) (shared s) \<noteq> None"
  using assms by (cases "launcher s"; cases "worker s") (auto simp: ready_def offered_def)

lemma finished_worker:
  assumes "handshake run s (launcher s)" "launcher s = Idle r" "wait_worker_thread (shared s) = Some v"
  shows "called s = launched s \<and> (launched s \<noteq> [] \<longrightarrow> v = case_prod run (last (launched s)))"
  using assms by (cases "worker s") (auto simp: wait_worker_thread_def split: if_splits)

lemma calls_bounded:
  assumes "handshake run s (launcher s)" "launcher s = Idle r"
  shows "called s = launched s \<or> (\<exists>c. launched s = called s @ [c])"
  using assms by (cases "worker s") auto

text \<open>Up to \<open>n\<close> steps of the worker alone.\<close>

primrec worker_alone :: "('f \<Rightarrow> 'a option \<Rightarrow> int) \<Rightarrow> nat \<Rightarrow> ('f, 'a) thread_run \<Rightarrow> ('f, 'a) thread_run" where
  "worker_alone run 0 s = s"
| "worker_alone run (Suc n) s = (case worker_step run (worker s) (shared s) of
     None \<Rightarrow> s
   | Some (p, t, new) \<Rightarrow> worker_alone run n (s\<lparr>worker := p, shared := t, called := called s @ new\<rparr>))"

lemma worker_alone_finishes:
  assumes "handshake run s (launcher s)" "launcher s = Idle r"
  shows "\<exists>v. wait_worker_thread (shared (worker_alone run 7 s)) = Some v
    \<and> called (worker_alone run 7 s) = launched s
    \<and> (launched s \<noteq> [] \<longrightarrow> v = case_prod run (last (launched s)))"
  using assms by (cases "worker s") (auto simp: wait_worker_thread_def numeral_eq_Suc)

text \<open>
  C14: A thread that launches functions in a worker, whatever the memory of the worker held before and however the
  steps of the two are interleaved. Outside of \<^verbatim>\<open>launch_one_thread\<close> every function that was launched has been called, in
  the order of the launches and with its own argument, but at most the last one; when \<^verbatim>\<open>wait_worker_thread\<close> returns then all have
  been called and it returns the value of the last one, and it does return after at most seven further steps of
  the worker. Inside of \<^verbatim>\<open>launch_one_thread\<close> one of the two threads can always go on, and the worker never waits for a function.
\<close>

theorem worker_runs_launched:
  assumes "thread_reach run s"
  shows "((\<exists>r. launcher s = Idle r) \<longrightarrow>
       (called s = launched s \<or> (\<exists>c. launched s = called s @ [c]))
       \<and> (\<forall>v. wait_worker_thread (shared s) = Some v \<longrightarrow>
            called s = launched s \<and> (launched s \<noteq> [] \<longrightarrow> v = case_prod run (last (launched s))))
       \<and> (\<exists>v. wait_worker_thread (shared (worker_alone run 7 s)) = Some v
            \<and> called (worker_alone run 7 s) = launched s
            \<and> (launched s \<noteq> [] \<longrightarrow> v = case_prod run (last (launched s)))))
    \<and> ((\<forall>r. launcher s \<noteq> Idle r) \<longrightarrow>
       launch_step (launcher s) (shared s) \<noteq> None \<or> worker_step run (worker s) (shared s) \<noteq> None)
    \<and> (worker s = Load_f \<longrightarrow> t_f (shared s) \<noteq> None)"
proof -
  note inv = handshake_reach [OF assms]
  have "worker s = Load_f \<longrightarrow> t_f (shared s) \<noteq> None"
    using worker_proceeds [OF inv] by (auto split: option.splits)
  then show ?thesis
    using calls_bounded [OF inv] finished_worker [OF inv] worker_alone_finishes [OF inv] launcher_proceeds [OF inv]
    by blast
qed

text \<open>A run in which a function is launched and the worker has only just woken up.\<close>

definition fresh_thread :: "(nat, nat) thread_instance" where
  "fresh_thread = \<lparr>t_f = Some 9, t_arg = None, t_ret = 5, t_state = FINISHED, main2worker = 3, worker2main = 4,
     thread_index = 0, thread_id = None\<rparr>"

definition woken_run :: "(nat, nat) thread_run" where
  "woken_run = \<lparr>shared = \<lparr>t_f = Some 2, t_arg = Some 3, t_ret = 5, t_state = RUNNING, main2worker = 0, worker2main = 0,
       thread_index = 0, thread_id = Some 1\<rparr>,
     worker = Load_f, launcher = Idle 0, launched = [(2, Some 3)], called = []\<rparr>"

lemma reach_launcher:
  assumes "thread_reach run s" "launch_step (launcher s) (shared s) = Some w"
  shows "thread_reach run (s\<lparr>launcher := fst w, shared := fst (snd w), launched := launched s @ snd (snd w)\<rparr>)"
  using assms by (cases w) (auto intro: thread_reach.step thread_step.launcher)

lemma reach_worker:
  assumes "thread_reach run s" "worker_step run (worker s) (shared s) = Some w"
  shows "thread_reach run (s\<lparr>worker := fst w, shared := fst (snd w), called := called s @ snd (snd w)\<rparr>)"
  using assms by (cases w) (auto intro: thread_reach.step thread_step.worker)

lemma woken_reached: "thread_reach run woken_run"
proof -
  let ?t = "snd (create_worker_thread 0 0 0 1 fresh_thread)"
  have "thread_reach run (new_run ?t)"
    by (rule thread_reach.start [of 0 0 0 1 fresh_thread]) (simp add: create_worker_thread_def)
  then have "thread_reach run ((new_run ?t)\<lparr>launcher := Check 2 (Some 3)\<rparr>)"
    by (rule thread_reach.step) (rule thread_step.begin_launch, simp add: new_run_def)
  note r = this [unfolded new_run_def create_worker_thread_def fresh_thread_def Let_def, simplified]
  note r = reach_launcher [OF r, simplified, OF refl, simplified]
  note r = reach_launcher [OF r, simplified, OF refl, simplified]
  note r = reach_launcher [OF r, simplified, OF refl, simplified]
  note r = reach_launcher [OF r, simplified, OF refl, simplified]
  note r = reach_worker [OF r, simplified, OF refl, simplified]
  note r = reach_worker [OF r, simplified, OF refl, simplified]
  note r = reach_worker [OF r, simplified, OF refl, simplified]
  note r = reach_launcher [OF r, simplified, OF refl, simplified]
  from r show ?thesis
    by (simp add: woken_run_def)
qed

theorem worker_runs_launched_witness:
  "launched woken_run = [(2, Some 3)] \<and> called woken_run = []
   \<and> wait_worker_thread (shared (worker_alone (\<lambda>f a. int f + int (the a)) 7 woken_run)) = Some 5
   \<and> t_f (shared woken_run) \<noteq> None"
  using worker_runs_launched [OF woken_reached [of "\<lambda>f a. int f + int (the a)"]]
  by (auto simp: woken_run_def)

section \<open>Pools\<close>

text \<open>A pool; \<^verbatim>\<open>threads\<close> is \<open>None\<close> for a null pointer.\<close>

record ('f, 'a) thread_pool =
  tp_size :: int
  tp_initialized :: bool
  tp_threads :: "('f, 'a) thread_instance list option"

definition THREAD_POOL_MAX_SIZE :: int where "THREAD_POOL_MAX_SIZE = 32"

definition THREAD_INDEX_ANY :: int where "THREAD_INDEX_ANY = -1"

text \<open>
  What the system answers when the worker of an index is created: the two calls of \<^verbatim>\<open>pipe\<close>, \<^verbatim>\<open>pthread_create\<close> and the
  identifier of the new thread.
\<close>

record thread_system =
  sys_pipe1 :: "nat \<Rightarrow> int"
  sys_pipe2 :: "nat \<Rightarrow> int"
  sys_create :: "nat \<Rightarrow> int"
  sys_tid :: "nat \<Rightarrow> nat"

text \<open>The loop of \<^verbatim>\<open>init_thread_pool\<close> over the threads from index \<open>i\<close> on; it stops at the first result that is not 0.\<close>

fun init_threads ::
    "thread_system \<Rightarrow> nat \<Rightarrow> ('f, 'a) thread_instance list \<Rightarrow> int \<times> ('f, 'a) thread_instance list" where
  "init_threads sys i [] = (0, [])"
| "init_threads sys i (t # ts) =
     (case create_worker_thread (sys_pipe1 sys i) (sys_pipe2 sys i) (sys_create sys i) (sys_tid sys i) (t\<lparr>thread_index := int i\<rparr>) of
        (ret, t') \<Rightarrow> if ret \<noteq> 0 then (ret, t' # ts)
          else (case init_threads sys (Suc i) ts of (ret', ts') \<Rightarrow> (ret', t' # ts')))"

definition init_thread_pool ::
    "thread_system \<Rightarrow> ('f, 'a) thread_pool option \<Rightarrow> int \<times> ('f, 'a) thread_pool option" where
  "init_thread_pool sys tp = (case tp of
     None \<Rightarrow> (-1, None)
   | Some tp \<Rightarrow> if tp_initialized tp then (0, Some tp)
       else (case init_threads sys 0 (the (tp_threads tp)) of
         (ret, ts) \<Rightarrow> (ret, Some (tp\<lparr>tp_threads := Some ts\<rparr>))))"

text \<open>
  \<^verbatim>\<open>create_thread_pool\<close>: \<open>alloc_tp\<close> says whether the memory for the pool is given, \<open>mem\<close> is the memory for the
  threads, as long as it was asked for, or \<open>None\<close>.
\<close>

definition create_thread_pool ::
    "thread_system \<Rightarrow> bool \<Rightarrow> ('f, 'a) thread_instance list option \<Rightarrow> int \<Rightarrow> ('f, 'a) thread_pool option" where
  "create_thread_pool sys alloc_tp mem n =
     (if n > THREAD_POOL_MAX_SIZE then None
      else if \<not> alloc_tp then None
      else case mem of
        None \<Rightarrow> None
      | Some ts \<Rightarrow>
          (case init_thread_pool sys (Some \<lparr>tp_size = n, tp_initialized = False, tp_threads = Some ts\<rparr>) of
            (ret, tp) \<Rightarrow> if ret < 0 then None else map_option (\<lambda>p. p\<lparr>tp_initialized := True\<rparr>) tp))"

text \<open>The loop of \<^verbatim>\<open>get_one_idle_thread\<close>.\<close>

fun idle_from :: "nat \<Rightarrow> ('f, 'a) thread_instance list \<Rightarrow> nat option" where
  "idle_from i [] = None"
| "idle_from i (t # ts) = (if t_state t = WAIT then Some i else idle_from (Suc i) ts)"

definition get_one_idle_thread :: "('f, 'a) thread_pool option \<Rightarrow> nat option" where
  "get_one_idle_thread tp = (case tp of
     None \<Rightarrow> None
   | Some p \<Rightarrow> if \<not> tp_initialized p then None else idle_from 0 (the (tp_threads p)))"

text \<open>
  \<^verbatim>\<open>launch_thread_in_pool\<close>: the worker whose \<^verbatim>\<open>launch_one_thread\<close> is entered, with the place where it is entered,
  or the result -1 at once. An index that is given is not checked.
\<close>

definition launch_thread_in_pool ::
    "('f, 'a) thread_pool option \<Rightarrow> int \<Rightarrow> 'f \<Rightarrow> 'a option \<Rightarrow> int + (int \<times> ('f, 'a) launch_pc)" where
  "launch_thread_in_pool tp tid f args =
     (if tid = THREAD_INDEX_ANY then
        (case get_one_idle_thread tp of None \<Rightarrow> Inl (-1) | Some i \<Rightarrow> Inr (int i, Check f args))
      else Inr (tid, Check f args))"

text \<open>
  \<^verbatim>\<open>destroy_thread_pool\<close>, when every worker waits: the pool at its end, the threads that were stopped and the arguments of
  the calls of \<^verbatim>\<open>mp_free\<close>: the member \<^verbatim>\<open>threads\<close>, where \<open>Some ts\<close> is the memory of the threads and \<open>None\<close> is NULL, and the
  pool itself.
\<close>

datatype ('f, 'a) freed = Freed_threads "('f, 'a) thread_instance list option" | Freed_pool

definition destroy_thread_pool ::
    "('f, 'a) thread_pool \<Rightarrow> ('f, 'a) thread_pool \<times> nat option list \<times> ('f, 'a) freed list" where
  "destroy_thread_pool tp =
     (if \<not> tp_initialized tp then (tp, [], [])
      else let stopped = map thread_id (the (tp_threads tp));
               tp = tp\<lparr>tp_initialized := False, tp_size := 0, tp_threads := None\<rparr>
           in (tp, stopped, [Freed_threads (tp_threads tp), Freed_pool]))"

section \<open>What a pool holds\<close>

definition started :: "thread_system \<Rightarrow> nat \<Rightarrow> ('f, 'a) thread_instance \<Rightarrow> bool" where
  "started sys i t \<longleftrightarrow> t_state t = WAIT \<and> main2worker t = 0 \<and> worker2main t = 0 \<and> thread_index t = int i
     \<and> thread_id t = Some (sys_tid sys i)"

lemma init_threads_length: "length (snd (init_threads sys i ts)) = length ts"
  by (induction ts arbitrary: i) (simp_all add: split_beta)

lemma init_threads_started:
  assumes "fst (init_threads sys i ts) = 0" "k < length ts"
  shows "started sys (i + k) (snd (init_threads sys i ts) ! k)"
  using assms
proof (induction ts arbitrary: i k)
  case (Cons t ts)
  show ?case
  proof (cases k)
    case 0
    then show ?thesis
      using Cons.prems by (auto simp: started_def split_beta create_worker_thread_def Let_def split: if_splits)
  next
    case (Suc j)
    then show ?thesis
      using Cons.IH [of "Suc i" j] Cons.prems by (auto simp: split_beta split: if_splits)
  qed
qed simp

lemma init_threads_fails:
  assumes "fst (init_threads sys i ts) > 0"
  shows "\<exists>k < length ts. fst (init_threads sys i ts) = sys_create sys (i + k)
    \<and> t_state (snd (init_threads sys i ts) ! k) = WAIT
    \<and> worker2main (snd (init_threads sys i ts) ! k) = 0
    \<and> thread_id (snd (init_threads sys i ts) ! k) = thread_id (ts ! k)"
  using assms
proof (induction ts arbitrary: i)
  case (Cons t ts)
  let ?c = "create_worker_thread (sys_pipe1 sys i) (sys_pipe2 sys i) (sys_create sys i) (sys_tid sys i) (t\<lparr>thread_index := int i\<rparr>)"
  show ?case
  proof (cases "fst ?c = 0")
    case True
    then obtain k where "k < length ts" "fst (init_threads sys (Suc i) ts) = sys_create sys (Suc i + k)"
      "t_state (snd (init_threads sys (Suc i) ts) ! k) = WAIT" "worker2main (snd (init_threads sys (Suc i) ts) ! k) = 0"
      "thread_id (snd (init_threads sys (Suc i) ts) ! k) = thread_id (ts ! k)"
      using Cons.IH [of "Suc i"] Cons.prems by (auto simp: split_beta)
    then show ?thesis
      using True by (intro exI [of _ "Suc k"]) (simp add: split_beta)
  next
    case False
    then show ?thesis
      using Cons.prems by (intro exI [of _ 0]) (auto simp: split_beta create_worker_thread_def Let_def split: if_splits)
  qed
qed simp

lemma init_threads_result:
  assumes "\<forall>k < length ts. 0 \<le> sys_pipe1 sys (i + k) \<and> 0 \<le> sys_pipe2 sys (i + k) \<and> 0 \<le> sys_create sys (i + k)"
  shows "0 \<le> fst (init_threads sys i ts) \<and> (fst (init_threads sys i ts) = 0 \<longrightarrow> (\<forall>k < length ts. sys_create sys (i + k) = 0))"
  using assms
proof (induction ts arbitrary: i)
  case (Cons t ts)
  have now: "0 \<le> sys_pipe1 sys i \<and> 0 \<le> sys_pipe2 sys i \<and> 0 \<le> sys_create sys i"
    using Cons.prems by force
  have "\<forall>k < length ts. 0 \<le> sys_pipe1 sys (Suc i + k) \<and> 0 \<le> sys_pipe2 sys (Suc i + k) \<and> 0 \<le> sys_create sys (Suc i + k)"
    using Cons.prems by (metis Suc_less_eq add_Suc_shift length_Cons)
  note rest = Cons.IH [OF this]
  show ?case
    using now rest by (auto simp: split_beta create_worker_thread_def Let_def less_Suc_eq_0_disj)
qed simp

lemma create_thread_pool_threads:
  assumes "create_thread_pool sys alloc mem n = Some tp"
  obtains ts where "mem = Some ts" "n \<le> THREAD_POOL_MAX_SIZE" "tp_initialized tp" "tp_size tp = n"
    "tp_threads tp = Some (snd (init_threads sys 0 ts))" "0 \<le> fst (init_threads sys 0 ts)"
  using assms
  by (auto simp: create_thread_pool_def init_thread_pool_def split_beta split: if_splits option.splits)

text \<open>A pool that was created without an error: every worker runs, waits, and has its index.\<close>

lemma create_thread_pool_started:
  assumes "create_thread_pool sys alloc (Some ts) n = Some tp" "\<forall>k < length ts. sys_create sys k \<le> 0" "k < length ts"
  shows "\<exists>ts'. tp_threads tp = Some ts' \<and> length ts' = length ts \<and> started sys k (ts' ! k)"
proof -
  have "\<not> 0 < fst (init_threads sys 0 ts)"
    using init_threads_fails [of sys 0 ts] assms(2) by fastforce
  then show ?thesis
    using assms(1,3) init_threads_started [of sys 0 ts k] init_threads_length [of sys 0 ts]
    by (auto elim!: create_thread_pool_threads)
qed

lemma idle_from_correct:
  "(case idle_from i ts of
      None \<Rightarrow> \<forall>t \<in> set ts. t_state t \<noteq> WAIT
    | Some j \<Rightarrow> i \<le> j \<and> j < i + length ts \<and> t_state (ts ! (j - i)) = WAIT \<and> (\<forall>k < j - i. t_state (ts ! k) \<noteq> WAIT))"
proof (induction ts arbitrary: i)
  case (Cons t ts)
  show ?case
    using Cons.IH [of "Suc i"]
    by (auto simp: nth_Cons' Suc_diff_le split: option.splits)
qed simp

text \<open>The first worker that waits is chosen; -1 is the result when there is none.\<close>

lemma launch_any_correct:
  assumes "tp_initialized tp" "tp_threads tp = Some ts"
  shows "case launch_thread_in_pool (Some tp) THREAD_INDEX_ANY f a of
      Inl r \<Rightarrow> r = -1 \<and> (\<forall>t \<in> set ts. t_state t \<noteq> WAIT)
    | Inr (i, pc) \<Rightarrow> 0 \<le> i \<and> nat i < length ts \<and> t_state (ts ! nat i) = WAIT \<and> pc = Check f a
        \<and> (\<forall>k < nat i. t_state (ts ! k) \<noteq> WAIT)"
  using assms idle_from_correct [where i = 0 and ts = ts]
  by (auto simp: launch_thread_in_pool_def get_one_idle_thread_def split: option.splits)

text \<open>
  \<^verbatim>\<open>pthread_create\<close> returns a positive number when it fails, but \<^verbatim>\<open>create_thread_pool\<close> tests for a negative one: the
  pool is used although the thread does not exist, the thread counts as waiting, and whoever launches a function in it
  waits for its acknowledgement for ever.
\<close>

definition without_worker ::
    "('f, 'a) launch_pc \<Rightarrow> ('f, 'a) thread_instance \<Rightarrow> ('f, 'a) launch_pc \<times> ('f, 'a) thread_instance" where
  "without_worker l t = (case launch_step l t of None \<Rightarrow> (l, t) | Some (l', t', _) \<Rightarrow> (l', t'))"

lemma launch_without_worker:
  assumes "t_state t = WAIT" "worker2main t = 0"
  shows "fst (((\<lambda>(l, t). without_worker l t) ^^ n) (Check f a, t)) \<in> {Check f a, Set_arg f a, Set_f f a, Wake f a, Read_ack f a}"
proof -
  define inv where "inv = (\<lambda>p :: ('a, 'b) launch_pc \<times> ('a, 'b) thread_instance.
    fst p \<in> {Check f a, Set_arg f a, Set_f f a, Wake f a, Read_ack f a} \<and> t_state (snd p) = WAIT \<and> worker2main (snd p) = 0)"
  have "inv p \<Longrightarrow> inv ((\<lambda>(l, t). without_worker l t) p)" for p
    by (cases p) (auto simp: inv_def without_worker_def)
  moreover have "inv (Check f a, t)"
    using assms by (simp add: inv_def)
  ultimately have "inv (((\<lambda>(l, t). without_worker l t) ^^ n) (Check f a, t))"
    by (induction n) (auto simp del: case_prod_unfold)
  then show ?thesis
    by (simp add: inv_def)
qed

lemma create_error_ignored:
  assumes "length ts = nat n" "n \<le> THREAD_POOL_MAX_SIZE" "\<forall>k < length ts. 0 \<le> sys_pipe1 sys k \<and> 0 \<le> sys_pipe2 sys k \<and> 0 \<le> sys_create sys k"
    "k < length ts" "0 < sys_create sys k" "\<forall>t \<in> set ts. thread_id t = None"
  shows "\<exists>tp ts' j. create_thread_pool sys True (Some ts) n = Some tp \<and> tp_initialized tp \<and> tp_threads tp = Some ts'
    \<and> j < length ts' \<and> thread_id (ts' ! j) = None \<and> t_state (ts' ! j) = WAIT \<and> worker2main (ts' ! j) = 0"
proof -
  have pos: "0 < fst (init_threads sys 0 ts)"
    using init_threads_result [of ts sys 0] assms(3-5) by force
  then obtain j where j: "j < length ts" "t_state (snd (init_threads sys 0 ts) ! j) = WAIT"
    "worker2main (snd (init_threads sys 0 ts) ! j) = 0" "thread_id (snd (init_threads sys 0 ts) ! j) = thread_id (ts ! j)"
    using init_threads_fails [of sys 0 ts] by blast
  have "thread_id (ts ! j) = None"
    using assms(6) j(1) by simp
  then show ?thesis
    using pos j assms(2)
    by (auto simp: create_thread_pool_def init_thread_pool_def split_beta init_threads_length)
qed

text \<open>
  \<^verbatim>\<open>destroy_thread_pool\<close> forgets the memory of the threads before it frees it: it frees the pool, and NULL in place of the
  threads.
\<close>

lemma destroy_leaks_threads:
  assumes "tp_initialized tp"
  shows "snd (snd (destroy_thread_pool tp)) = [Freed_threads None, Freed_pool]"
  using assms by (simp add: destroy_thread_pool_def Let_def)

end
