(* ===== verification/Sftt_Sds.thy ===== *)
theory Sftt_Sds
  imports Sftt_Mem_Pool
begin

text \<open>
  Growing strings (\<^verbatim>\<open>src/src/sds.c\<close>) over the memory pool; traces (\<^verbatim>\<open>src/src/trace.c\<close>) are made of them. A string is the record of its struct with its address; its lock is never taken. Lengths are
  below \<open>2\<^sup>31\<close>. The results are what the first text that is added does, and that a text which does not fit is never added: the
  string is left with a buffer that the pool has back.
\<close>

section \<open>sds.c\<close>

record sds =
  sds_self :: ptr
  sds_buf :: ptr
  sds_len :: nat
  sds_size :: nat

definition sizeof_sds :: nat where "sizeof_sds = 24"

definition sds_init :: "sds option \<Rightarrow> nat \<Rightarrow> pool \<Rightarrow> c_fault + int \<times> sds option \<times> pool" where
  "sds_init str n s = (case str of
     None \<Rightarrow> Inr (-1, None, s)
   | Some p \<Rightarrow>
       sbind (mp_malloc ''sds_init'' n s) (\<lambda>(tmp, s1).
         if tmp = NULL then Inr (-1, Some (p\<lparr>sds_buf := NULL, sds_size := 0, sds_len := 0\<rparr>), s1)
         else Inr (0, Some (p\<lparr>sds_buf := tmp, sds_size := n, sds_len := 0\<rparr>), s1\<lparr>libc := bzero tmp n (libc s1)\<rparr>)))"

definition sds_construct :: "pool \<Rightarrow> c_fault + sds \<times> pool" where
  "sds_construct s =
     sbind (mp_malloc ''sds_construct'' sizeof_sds s) (\<lambda>(str, s1).
       if str = NULL then Inl Assertion_failed
       else sbind (pthread_mutex_construct (libc s1)) (\<lambda>h.
         Inr (\<lparr>sds_self = str, sds_buf = NULL, sds_len = 0, sds_size = 0\<rparr>, s1\<lparr>libc := h\<rparr>)))"

definition sds_destruct :: "sds \<Rightarrow> pool \<Rightarrow> c_fault + pool" where
  "sds_destruct p s =
     sbind (if sds_buf p \<noteq> NULL then mp_free (sds_buf p) s else Inr s) (\<lambda>s1. mp_free (sds_self p) s1)"

text \<open>\<^verbatim>\<open>mp_realloc\<close> returns the new address, and \<^verbatim>\<open>sds_resize\<close> takes everything but NULL for an error.\<close>

definition sds_resize :: "sds \<Rightarrow> nat \<Rightarrow> pool \<Rightarrow> c_fault + int \<times> sds \<times> pool" where
  "sds_resize p n s =
     sbind (mp_realloc (sds_buf p) n s) (\<lambda>(a, s1).
       if a \<noteq> NULL then Inr (-1, p, s1)
       else let p1 = (if n \<le> sds_len p then p\<lparr>sds_len := n\<rparr> else p) in
         Inr (0, p1\<lparr>sds_size := n\<rparr>, s1))"

text \<open>\<^verbatim>\<open>strcat\<close> into a block, from an offset on.\<close>

definition strcat :: "ptr \<Rightarrow> nat \<Rightarrow> bytes \<Rightarrow> c_heap \<Rightarrow> c_fault + c_heap" where
  "strcat a off str h =
     (let b = block h a; k = off + length (takeWhile (\<lambda>x. x \<noteq> 0) (drop off b)) in
      if k + length str < length b
      then Inr (h\<lparr>block := (block h)(a := take k b @ str @ [0] @ drop (k + length str + 1) b)\<rparr>)
      else Inl Out_of_bounds)"

definition sds_add_str :: "sds option \<Rightarrow> bytes \<Rightarrow> pool \<Rightarrow> c_fault + int \<times> sds option \<times> pool" where
  "sds_add_str ptr str s = (case ptr of
     None \<Rightarrow> Inl Assertion_failed
   | Some p \<Rightarrow>
       let len = length str in
       if len = 0 then Inr (0, ptr, s)
       else sbind (if sds_size p = 0 then sds_init ptr (len + 1) s else Inr (0, ptr, s)) (\<lambda>(r, ptr1, s1).
         if r \<noteq> 0 then Inr (-1, ptr1, s1)
         else let p1 = the ptr1;
                  goal = (if sds_size p1 \<le> len + sds_len p1 then sds_size p1 + len else 0)
         in sbind (if goal \<noteq> 0 then sds_resize p1 goal s1 else Inr (0, p1, s1)) (\<lambda>(r, p2, s2).
           if r \<noteq> 0 then Inr (-1, Some p2, s2)
           else sbind (strcat (sds_buf p2) (sds_len p2) str (libc s2)) (\<lambda>h.
             Inr (0, Some (p2\<lparr>sds_len := sds_len p2 + len\<rparr>), s2\<lparr>libc := h\<rparr>)))))"

definition sds_add_char :: "sds option \<Rightarrow> byte \<Rightarrow> pool \<Rightarrow> c_fault + int \<times> sds option \<times> pool" where
  "sds_add_char ptr c s = (case ptr of
     None \<Rightarrow> Inl Assertion_failed
   | Some p \<Rightarrow>
       sbind (if sds_size p = 0 then sds_init ptr 2 s else Inr (0, ptr, s)) (\<lambda>(r, ptr1, s1).
         if r \<noteq> 0 then Inr (-1, ptr1, s1)
         else let p1 = the ptr1;
                  goal = (if sds_size p1 \<le> 1 + sds_len p1 then sds_size p1 + 8 else 0)
         in sbind (if goal \<noteq> 0 then sds_resize p1 goal s1 else Inr (0, p1, s1)) (\<lambda>(r, p2, s2).
           if r \<noteq> 0 then Inr (-1, Some p2, s2)
           else case buf_write (block (libc s2) (sds_buf p2)) (sds_len p2) [c, 0] of
               None \<Rightarrow> Inl Out_of_bounds
             | Some b \<Rightarrow> Inr (0, Some (p2\<lparr>sds_len := sds_len p2 + 1\<rparr>),
                 s2\<lparr>libc := (libc s2)\<lparr>block := (block (libc s2))(sds_buf p2 := b)\<rparr>\<rparr>))))"

section \<open>Texts\<close>

text \<open>The string \<open>p\<close> holds the text \<open>t\<close> in a live block of the pool.\<close>

definition sds_holds :: "sds \<Rightarrow> bytes \<Rightarrow> pool \<Rightarrow> bool" where
  "sds_holds p t s \<longleftrightarrow>
     pool_ok s \<and> (\<exists>q z. live s (sds_buf p) = Some (q, z) \<and> sds_size p \<le> z \<and> length (block (libc s) (sds_buf p)) = z)
   \<and> sds_len p = length t \<and> length t < sds_size p \<and> 0 \<notin> set t
   \<and> take (length t + 1) (block (libc s) (sds_buf p)) = t @ [0]"

lemma pool_ok_write:
  assumes "pool_ok s" "length b = length (block (libc s) a)"
  shows "pool_ok (s\<lparr>libc := (libc s)\<lparr>block := (block (libc s))(a := b)\<rparr>\<rparr>)"
  using assms by (intro pool_ok_contents [OF assms(1)]) simp_all

lemma live_libc [simp]: "live (s\<lparr>libc := h\<rparr>) = live s"
  by (simp add: live_def)

text \<open>Appending a text that fits.\<close>

lemma strcat_holds:
  assumes "sds_holds p t s" "length t + length str < sds_size p" "0 \<notin> set str"
  shows "\<exists>h. strcat (sds_buf p) (sds_len p) str (libc s) = Inr h
    \<and> sds_holds (p\<lparr>sds_len := sds_len p + length str\<rparr>) (t @ str) (s\<lparr>libc := h\<rparr>)"
proof -
  let ?b = "block (libc s) (sds_buf p)"
  obtain q z where z: "live s (sds_buf p) = Some (q, z)" "sds_size p \<le> z" "length ?b = z"
    and ok: "pool_ok s" and t: "sds_len p = length t" "0 \<notin> set t" "take (length t + 1) ?b = t @ [0]"
    using assms(1) by (auto simp: sds_holds_def)
  have b: "?b = t @ 0 # drop (length t + 1) ?b"
    using t(3) append_take_drop_id [of "length t + 1" ?b] by (metis append.assoc append_Cons append_Nil)
  have e: "drop (length t) ?b = 0 # drop (length t + 1) ?b"
    using b by (metis append_eq_conv_conj)
  let ?b' = "take (length t) ?b @ str @ [0] @ drop (length t + length str + 1) ?b"
  have tk: "take (length t) ?b = t"
    using b by (metis append_eq_conv_conj)
  have len: "length ?b' = length ?b"
    using assms(2) z(2,3) by (simp add: tk)
  have "strcat (sds_buf p) (sds_len p) str (libc s) = Inr ((libc s)\<lparr>block := (block (libc s))(sds_buf p := ?b')\<rparr>)"
    using assms(2) z(2,3) by (simp add: strcat_def t(1) e Let_def)
  moreover have "sds_holds (p\<lparr>sds_len := sds_len p + length str\<rparr>) (t @ str)
      (s\<lparr>libc := (libc s)\<lparr>block := (block (libc s))(sds_buf p := ?b')\<rparr>\<rparr>)"
    unfolding sds_holds_def using pool_ok_write [OF ok len] z t assms(2,3) len by (auto simp: tk)
  ultimately show ?thesis
    by blast
qed

lemma sds_init_holds:
  assumes "pool_ok s" "0 < n" "sizeof_mem_node + n + sizeof_purpose_node \<le> avail (libc s)"
  shows "\<exists>p' s'. sds_init (Some p) n s = Inr (0, Some p', s') \<and> sds_holds p' [] s' \<and> sds_size p' = n"
proof -
  obtain a s1 where a: "mp_malloc ''sds_init'' n s = Inr (a, s1)" "malloc_post ''sds_init'' n s a s1"
    by (rule mp_malloc_cases [OF assms(1,2), of "''sds_init''"]) (use assms(3) in simp_all)
  then obtain z where z: "n \<le> z" "live s1 a = Some (''sds_init'', z)" "length (block (libc s1) a) = z"
    and post: "pool_ok s1" "a \<noteq> NULL"
    by (auto simp: malloc_post_def)
  let ?p = "p\<lparr>sds_buf := a, sds_size := n, sds_len := 0\<rparr>"
  let ?s = "s1\<lparr>libc := bzero a n (libc s1)\<rparr>"
  have "pool_ok ?s"
    unfolding bzero_def using z by (intro pool_ok_write [OF post(1)]) simp
  then have "sds_holds ?p [] ?s"
    using z assms(2) by (cases n) (auto simp: sds_holds_def bzero_def)
  then show ?thesis
    using a(1) post(2) by (auto simp: sds_init_def)
qed


text \<open>The first text takes a buffer of just its size.\<close>

lemma sds_add_str_first:
  assumes "pool_ok s" "sds_size p = 0" "str \<noteq> []" "0 \<notin> set str"
    and "sizeof_mem_node + (length str + 1) + sizeof_purpose_node \<le> avail (libc s)"
  shows "\<exists>p' s'. sds_add_str (Some p) str s = Inr (0, Some p', s') \<and> sds_holds p' str s' \<and> sds_size p' = length str + 1"
proof -
  obtain p1 s1 where i: "sds_init (Some p) (length str + 1) s = Inr (0, Some p1, s1)" "sds_holds p1 [] s1"
    "sds_size p1 = length str + 1"
    using sds_init_holds [OF assms(1) _ assms(5), of p] by auto
  moreover have "sds_len p1 = 0"
    using i(2) by (simp add: sds_holds_def)
  ultimately show ?thesis
    using assms(2-4) strcat_holds [OF i(2), of str]
    by (auto simp: sds_add_str_def)
qed

text \<open>A text that fits is appended.\<close>

lemma sds_add_str_fits:
  assumes "sds_holds p t s" "length t + length str < sds_size p" "0 \<notin> set str"
  shows "\<exists>p' s'. sds_add_str (Some p) str s = Inr (0, Some p', s') \<and> sds_holds p' (t @ str) s' \<and> sds_size p' = sds_size p"
proof -
  have "sds_len p = length t"
    using assms(1) by (simp add: sds_holds_def)
  then show ?thesis
    using assms strcat_holds [OF assms]
    by (cases str) (auto simp: sds_add_str_def Let_def)
qed

text \<open>Growing gives the buffer back to the pool and reports an error.\<close>

lemma sds_resize_fails:
  assumes "sds_holds p t s" "0 < n" "sizeof_mem_node + n + sizeof_purpose_node \<le> avail (libc s)"
  shows "\<exists>s'. sds_resize p n s = Inr (-1, p, s') \<and> pool_ok s' \<and> live s' (sds_buf p) = None"
proof -
  obtain q z where ok: "pool_ok s" "live s (sds_buf p) = Some (q, z)"
    using assms(1) by (auto simp: sds_holds_def)
  obtain tmp s' z' where "mp_realloc (sds_buf p) n s = Inr (tmp, s')" "pool_ok s'" "tmp \<noteq> sds_buf p"
    and l: "live s' = ((live s)(sds_buf p := None))(tmp \<mapsto> (''mp_realloc'', z'))"
    using mp_realloc_moves [OF ok assms(2,3)] by blast
  moreover have "tmp \<noteq> NULL"
    using live_NULL [OF \<open>pool_ok s'\<close>] l by (metis fun_upd_same option.discI)
  ultimately show ?thesis
    by (auto simp: sds_resize_def)
qed

text \<open>
  A string takes one text only. The first text that is added is stored in a buffer of just its size; every further
  text, with memory enough for the larger buffer, is refused with -1, and the string goes on pointing to its
  buffer, which the pool has taken back.
\<close>

theorem sds_takes_one_text:
  assumes "pool_ok s" "sds_size p = 0" "t \<noteq> []" "0 \<notin> set t" "u \<noteq> []"
    and "sizeof_mem_node + (length t + 1) + sizeof_purpose_node \<le> avail (libc s)"
  shows "\<exists>p1 s1. sds_add_str (Some p) t s = Inr (0, Some p1, s1) \<and> sds_holds p1 t s1
    \<and> (sizeof_mem_node + (length t + 1 + length u) + sizeof_purpose_node \<le> avail (libc s1) \<longrightarrow>
        (\<exists>s2. sds_add_str (Some p1) u s1 = Inr (-1, Some p1, s2) \<and> pool_ok s2 \<and> live s2 (sds_buf p1) = None))"
proof -
  obtain p1 s1 where 1: "sds_add_str (Some p) t s = Inr (0, Some p1, s1)" "sds_holds p1 t s1" "sds_size p1 = length t + 1"
    using sds_add_str_first [OF assms(1-4,6)] by blast
  have l: "sds_len p1 = length t" "sds_size p1 \<le> length u + sds_len p1"
    using 1(2,3) assms(5) by (cases u; simp add: sds_holds_def)+
  have "sds_add_str (Some p1) u s1 = Inr (-1, Some p1, s2)" if "sds_resize p1 (sds_size p1 + length u) s1 = Inr (-1, p1, s2)" for s2
    using that l 1(3) assms(5) by (simp add: sds_add_str_def Let_def del: sbind_eq_Inr)
  then have "\<exists>s2. sds_add_str (Some p1) u s1 = Inr (-1, Some p1, s2) \<and> pool_ok s2 \<and> live s2 (sds_buf p1) = None"
    if "sizeof_mem_node + (length t + 1 + length u) + sizeof_purpose_node \<le> avail (libc s1)"
    using sds_resize_fails [OF 1(2), of "sds_size p1 + length u"] that 1(3) by auto
  then show ?thesis
    using 1 by blast
qed

definition no_text :: sds where
  "no_text = \<lparr>sds_self = 500, sds_buf = NULL, sds_len = 0, sds_size = 0\<rparr>"

lemma no_text_first:
  "\<exists>p1 s1. sds_add_str (Some no_text) [65] (one_node_pool False) = Inr (0, Some p1, s1) \<and> avail (libc s1) = 65504"
  by (simp add: sds_add_str_def sds_init_def no_text_def one_node_pool_def mp_malloc_def mp_lock_def mp_use_node_def
      upd_stat_def upd_node_def add_purpose_def find_purpose_def purpose_node_create_def malloc_def pool_sizes
      bzero_def strcat_def Let_def)

theorem sds_takes_one_text_witness:
  "\<exists>p1 s1 s2. sds_add_str (Some no_text) [65] (one_node_pool False) = Inr (0, Some p1, s1) \<and> sds_holds p1 [65] s1
     \<and> sds_add_str (Some p1) [66, 67] s1 = Inr (-1, Some p1, s2) \<and> live s2 (sds_buf p1) = None"
proof -
  obtain p1 s1 where "sds_add_str (Some no_text) [65] (one_node_pool False) = Inr (0, Some p1, s1)" "avail (libc s1) = 65504"
    using no_text_first by blast
  then show ?thesis
    using sds_takes_one_text [OF one_node_pool_ok(1), of no_text "[65]" "[66, 67]" False]
    by (auto simp: no_text_def pool_sizes one_node_pool_ok(5))
qed

section \<open>Without memory\<close>

text \<open>
  When the pool cannot give the larger buffer, growing reports success and records a size that the buffer does
  not have: the text is written past its end.
\<close>

lemma sds_add_str_overruns:
  assumes "sds_holds p t s" "u \<noteq> []" "length (block (libc s) (sds_buf p)) \<le> length t + length u"
    and "mp_realloc (sds_buf p) (sds_size p + length u) s = Inr (NULL, s)"
  shows "sds_add_str (Some p) u s = Inl Out_of_bounds"
proof -
  let ?b = "block (libc s) (sds_buf p)"
  have t: "sds_len p = length t" "length t < sds_size p" "take (length t + 1) ?b = t @ [0]" "sds_size p \<le> length ?b"
    using assms(1) by (auto simp: sds_holds_def)
  moreover have "strcat (sds_buf p) (length t) u (libc s) = Inl Out_of_bounds"
    using assms(3) by (simp add: strcat_def Let_def)
  ultimately show ?thesis
    using assms(2-4) by (simp add: sds_add_str_def sds_resize_def Let_def)
qed
end
