(* ===== verification/Spec2Isabelle.thy ===== *)
theory Spec2Isabelle
  imports Sftt_Encode Sftt_Containers Sftt_Client_Inv Sftt_Thread_Pool Sftt_Sds
begin

text \<open>
  Verification of sftt, a tool that transfers files between users through a server.

  \<^bold>\<open>The program.\<close> A client (\<^verbatim>\<open>src/src/client.c\<close>) reads commands, opens a control connection and up to five task
  connections to the server (\<^verbatim>\<open>src/src/server.c\<close>), logs in and exchanges requests and responses with it. A request is
  a struct of \<^verbatim>\<open>src/include/req_resp.h\<close>. To send it the packet layer (\<^verbatim>\<open>src/src/net_trans.c\<close>) converts its integers in
  place (\<^verbatim>\<open>src/src/serialize_raw.c\<close>), compresses and encrypts the image (\<^verbatim>\<open>src/src/encode.c\<close>, \<^verbatim>\<open>src/src/compress.c\<close>,
  \<^verbatim>\<open>src/src/encrypt.c\<close>) and sends it behind a header. Files travel as sequences of such messages
  (\<^verbatim>\<open>src/src/file_send.c\<close>, \<^verbatim>\<open>src/src/file_recv.c\<close>) with an MD5 digest (\<^verbatim>\<open>src/src/md5.c\<close>). The server keeps a table of
  sessions, answers requests itself or forwards them to the task connection of another user, looks users up in SQLite
  (\<^verbatim>\<open>src/src/user.c\<close>, \<^verbatim>\<open>src/src/db.c\<close>) and changes its port from time to time. Memory comes from a pool
  (\<^verbatim>\<open>src/src/mem_pool.c\<close>), threads from another (\<^verbatim>\<open>src/src/thread_pool.c\<close>).

  \<^bold>\<open>Theories.\<close> Each is the model of some C files, with the properties of what it models.

  \<^item> \<open>Sftt_Prelude\<close>: bytes, addresses, faults of C code (\<open>c_fault\<close>, \<open>sbind\<close>), images of integers.
  \<^item> \<open>Sftt_Bits\<close>: \<^verbatim>\<open>bits.c\<close>, \<^verbatim>\<open>encrypt.c\<close>; \<open>Sftt_Huffman\<close>: \<^verbatim>\<open>btree.c\<close> and the tree of \<^verbatim>\<open>compress.c\<close>: the codes are
    prefix free; \<open>Sftt_Compress\<close>: the format of \<^verbatim>\<open>compress.c\<close>: the round trip, with no access outside a buffer, and the size of the
    output; \<open>Sftt_Encode\<close>: \<^verbatim>\<open>encode.c\<close>: the round trip for packets (locale \<open>buffer_codec\<close>, one interpretation per mode in use).
  \<^item> \<open>Sftt_Mem_Pool\<close>: \<^verbatim>\<open>mem_pool.c\<close> and \<^verbatim>\<open>lock.c\<close> over \<^verbatim>\<open>malloc\<close>: an invariant of nodes, statistics and purposes, kept by
    every operation; locale \<open>allocator\<close>. \<open>Sftt_Dlist\<close>: \<^verbatim>\<open>dlist.c\<close> on an explicit heap over the pool: every
    operation implements one on sequences; locale \<open>sequence\<close>. \<open>Sftt_Containers\<close>: \<^verbatim>\<open>queue.c\<close>, \<^verbatim>\<open>stack.c\<close>, \<^verbatim>\<open>map.c\<close> over the
    list; locales \<open>fifo_queue\<close>, \<open>lifo_stack\<close>. \<open>Sftt_Sds\<close>: \<^verbatim>\<open>sds.c\<close> over the pool.
  \<^item> \<open>Sftt_Serialize\<close>: layouts and memory images of structs; \<open>Sftt_Req_Resp\<close>: the structs and codecs of \<^verbatim>\<open>serialize_raw.c\<close> and
    the table of \<^verbatim>\<open>serialize_handler.c\<close>: each equals the reference codec (locale \<open>wire_codec\<close>). \<open>Sftt_Net\<close>: \<^verbatim>\<open>net_trans.c\<close>
    over both codecs and a stream socket (locale \<open>stream_socket\<close>): packets arrive in order and unchanged, and what content of
    another length does to the receiver.
  \<^item> \<open>Sftt_Md5\<close>: \<^verbatim>\<open>md5.c\<close> equals a reference definition. \<open>Sftt_File\<close>: \<^verbatim>\<open>file.c\<close>, \<^verbatim>\<open>mkdirp.c\<close>,
    \<^verbatim>\<open>path-normalize.c\<close> on a model of the file system. \<open>Sftt_Utils\<close>: \<^verbatim>\<open>utils.c\<close>, \<^verbatim>\<open>strtox.c\<close>, \<^verbatim>\<open>validate.c\<close>.
    \<open>Sftt_Config\<close>: \<^verbatim>\<open>config.c\<close>, \<^verbatim>\<open>version.c\<close>.
  \<^item> \<open>Sftt_Messages\<close>: messages as records and what a send does to them. \<open>Sftt_Trans\<close>: sending and receiving files, both
    sides of get and put, and that sequences of messages are refined by packets (\<open>messages_refine_packets\<close>): this
    joins the protocol to the packet layer. \<open>Sftt_Typed\<close>: everything that transfers send is a value of the struct of its packet type.
  \<^item> \<open>Sftt_Session\<close>: identifiers and the table of sessions. \<open>Sftt_User\<close>: users, the database and its shell.
    \<open>Sftt_Server\<close>: all request handlers, the dispatcher, accepting, leaving, updating the port. \<open>Sftt_Service\<close>: the steps
    of the server (\<open>server_step\<close>) and their invariant. \<open>Sftt_Forward\<close>: what single requests do.
  \<^item> \<open>Sftt_Command\<close>: reading command lines, options. \<open>Sftt_Client\<close>: the commands. \<open>Sftt_Peer\<close>: login, task
    connections, requests from other users. \<open>Sftt_End_To_End\<close>: client and server together, for login, ll, w, write
    and uploads.
    \<open>Sftt_Client_Inv\<close>: the steps of the client (\<open>client_step\<close>) and their invariant: messages are well typed, connections bounded.
  \<^item> \<open>Sftt_Thread_Pool\<close>: \<^verbatim>\<open>thread_pool.c\<close>: all interleavings of a launching thread and a worker.

  \<^bold>\<open>State and operations.\<close> A struct is a record, an enumeration a datatype, a function of C a definition of the same name
  that takes the state and returns it with its result. Return codes are kept. A failed assertion, an access to null, freed or foreign
  memory and a call that never returns are values of \<open>c_fault\<close>. The global variables of the server are
  the record \<open>world\<close>, those of the client \<open>cworld\<close>: the struct, the file system and for every socket the events to be
  received and the messages sent. Character arrays are lists of their declared length where a copy can leave them unterminated.
  Integers are words of their width where they go over the network, are counted with or can overflow. A send
  converts the caller's struct in place, and the models pass on the converted struct, which is what many of the
  errors found in the program rest on.

  \<^bold>\<open>Bounds and fuel.\<close> Walks over lists on the heap have \<open>walk_fuel\<close>, one more than the highest address: a chain visits
  an address once, so the fuel never runs out on a list (\<open>is_dlist_bounds\<close>). The sender of blocks has a fuel, and
  \<open>get_send_returns\<close> shows how much is enough; theorems about forwarding state how much they need.
  The enumeration of directories is as deep as the process has descriptors (\<open>free_fds\<close>), which is when \<^verbatim>\<open>opendir\<close> fails.
  The memory of the host is at most
  64 GiB, which keeps the counters of the pool positive. The round trips of compression are for texts below \<open>2\<^sup>23\<close> bytes: a code has
  at most 256 bits, so their bits fit into the \<^verbatim>\<open>int\<close> that counts them, and \<open>compress_output_len_wraps\<close> shows what happens from
  \<open>2\<^sup>31\<close> bits on; packets have at most 8 KiB. Files that are
  sent are below 4 GiB, as their types demand. Every other loop is a total function.

  \<^bold>\<open>Parameters.\<close> SQLite, random numbers and the shell are the members of \<open>env\<close>; the locale \<open>user_table\<close> is what is relied on of
  SQLite when a user is added, and \<open>counting_db\<close> satisfies it; the old contents of the stack
  is \<open>cjunk\<close> and \<open>old_obj\<close>; \<^verbatim>\<open>send\<close> and \<^verbatim>\<open>recv\<close> are arguments of the packet layer with the laws of
  \<open>stream_socket\<close>, which the byte stream \<open>pipe_send\<close>, \<open>pipe_recv\<close> satisfies; the results of creating pipes and threads are \<open>thread_system\<close>.

  \<^bold>\<open>Not modelled.\<close> The XDR codec (\<^verbatim>\<open>serialize.c\<close>, \<^verbatim>\<open>req_resp.c\<close>), which is generated and only calls the XDR library; the
  generators of the build; the atomic operations and locks taken from DPDK; logs, debug output and progress bars; rate
  limits of logs, which use floating point; opening sockets; queues of messages, which only the unused statistics
  thread of the pool has; sections of shared memory, which nothing calls; reading keys; starting, stopping and the signals of the server and
  its former protocol; the functions of \<^verbatim>\<open>file.c\<close> that only tests call; tests and tools. Handlers run one after another: the
  interleaving of threads is modelled for the pool of threads only, and the locks of sessions and lists are left out. Allocations in
  handlers of requests succeed. The sockets of the client are blocking or not (\<open>cnonblock\<close>); the server's, which it makes
  blocking for transfers and polls otherwise, are read when an event is there. Within a transfer the end of
  the events of a connection is its end. Symbolic links are not in the file system.
\<close>

end
